(* ===== verification/Prelude.thy ===== *)
theory Prelude
  imports Complex_Main "HOL-Library.AList" "HOL-Library.Char_ord"
    "HOL-Library.List_Lexorder" "HOL-Library.Product_Lexorder"
begin

text \<open>
  Shared vocabulary of the development: Python values and errors, results that may raise,
  dictionaries as association lists, the string operations the sources use, and logs whose
  records carry consecutive sequence numbers.

  A Python \<open>str\<close> is a HOL \<^typ>\<open>string\<close>, a list of code points below 256; only
  \<open>partition_for\<close>, whose contract is about arbitrary Unicode, takes a list of code points.
  A Python \<open>int\<close> is an \<^typ>\<open>int\<close>.
\<close>

section \<open>Errors and results\<close>

text \<open>The built-in exception classes the sources raise, with the message they carry.\<close>

datatype exn =
    ValueError string
  | RuntimeError string
  | LookupError string
  | KeyError string
  | TypeError string
  | AttributeError string
  | OSError string
  | UnicodeEncodeError string
  | OverflowError string
  | JSONDecodeError string

text \<open>\<^verbatim>\<open>except (KeyError, TypeError, ValueError)\<close>: the codec and the JSON error are subclasses of
  \<open>ValueError\<close>, the overflow is not.\<close>

fun value_error :: "exn \<Rightarrow> bool" where
  "value_error (KeyError _) = True"
| "value_error (TypeError _) = True"
| "value_error (ValueError _) = True"
| "value_error (UnicodeEncodeError _) = True"
| "value_error (JSONDecodeError _) = True"
| "value_error _ = False"

type_synonym 'a res = "exn + 'a"

text \<open>Sequencing of computations that may raise: the first error is the result.\<close>

definition rbind :: "'e + 'a \<Rightarrow> ('a \<Rightarrow> 'e + 'b) \<Rightarrow> 'e + 'b" where
  "rbind m f = (case m of Inl e \<Rightarrow> Inl e | Inr x \<Rightarrow> f x)"

definition ensure :: "bool \<Rightarrow> 'e \<Rightarrow> 'e + unit" where
  "ensure b e = (if b then Inr () else Inl e)"

fun mapR :: "('a \<Rightarrow> 'e + 'b) \<Rightarrow> 'a list \<Rightarrow> 'e + 'b list" where
  "mapR f [] = Inr []"
| "mapR f (x # xs) = rbind (f x) (\<lambda>y. rbind (mapR f xs) (\<lambda>ys. Inr (y # ys)))"

fun foldR :: "('a \<Rightarrow> 's \<Rightarrow> 'e + 's) \<Rightarrow> 'a list \<Rightarrow> 's \<Rightarrow> 'e + 's" where
  "foldR f [] s = Inr s"
| "foldR f (x # xs) s = rbind (f x s) (foldR f xs)"

named_theorems res_simps

lemma rbind_Inl [simp]: "rbind (Inl e) f = Inl e"
  by (simp add: rbind_def)

lemma rbind_Inr [simp]: "rbind (Inr x) f = f x"
  by (simp add: rbind_def)

lemma rbind_eq_Inr [res_simps]: "rbind m f = Inr y \<longleftrightarrow> (\<exists>x. m = Inr x \<and> f x = Inr y)"
  by (cases m) auto

lemma rbind_eq_Inl [res_simps]:
  "rbind m f = Inl e \<longleftrightarrow> m = Inl e \<or> (\<exists>x. m = Inr x \<and> f x = Inl e)"
  by (cases m) auto

lemma rbind_assoc: "rbind (rbind m f) g = rbind m (\<lambda>x. rbind (f x) g)"
  by (cases m) auto

lemma ensure_True [simp]: "ensure True e = Inr ()"
  by (simp add: ensure_def)

lemma ensure_False [simp]: "ensure False e = Inl e"
  by (simp add: ensure_def)

lemma ensure_eq_Inr [res_simps]: "ensure b e = Inr u \<longleftrightarrow> b"
  by (simp add: ensure_def)

lemma ensure_eq_Inl [res_simps]: "ensure b e = Inl e' \<longleftrightarrow> \<not> b \<and> e' = e"
  by (auto simp: ensure_def)

lemma mapR_eq_Inr: "mapR f xs = Inr ys \<longleftrightarrow> list_all2 (\<lambda>x y. f x = Inr y) xs ys"
  by (induction xs arbitrary: ys) (auto simp: res_simps list_all2_Cons1)

lemma foldR_append: "foldR f (xs @ ys) s = rbind (foldR f xs s) (foldR f ys)"
proof (induction xs arbitrary: s)
  case (Cons x xs)
  then have "foldR f (xs @ ys) = (\<lambda>t. rbind (foldR f xs t) (foldR f ys))"
    by auto
  then show ?case by (simp add: rbind_assoc)
qed simp

text \<open>An invariant that every step of a fold keeps holds of its result.\<close>

lemma foldR_invariant:
  assumes "foldR f xs s = Inr s'" and "P s"
    and "\<And>x s s'. x \<in> set xs \<Longrightarrow> P s \<Longrightarrow> f x s = Inr s' \<Longrightarrow> P s'"
  shows "P s'"
  using assms
proof (induction xs arbitrary: s)
  case Nil
  then show ?case by simp
next
  case (Cons x xs)
  from Cons.prems(1) obtain t where t: "f x s = Inr t" "foldR f xs t = Inr s'"
    by (auto simp: res_simps)
  have "P t" by (rule Cons.prems(3) [OF _ Cons.prems(2) t(1)]) simp
  with t(2) show ?case by (rule Cons.IH) (rule Cons.prems(3), auto)
qed

section \<open>JSON values\<close>

text \<open>
  The values of \<^verbatim>\<open>json.loads\<close>. An object keeps the order of its keys, as a Python
  \<open>dict\<close> does; a float is carried by the text \<open>repr\<close> prints for it, and \<open>float_value\<close> reads
  its value where the code converts it.
\<close>

datatype json =
    JNull
  | JBool bool
  | JInt int
  | JFloat string
  | JStr string
  | JArr "json list"
  | JObj "(string \<times> json) list"

type_synonym dict = "(string \<times> json) list"

text \<open>\<^verbatim>\<open>isinstance(x, dict)\<close>, \<^verbatim>\<open>isinstance(x, str)\<close> and \<^verbatim>\<open>isinstance(x, int)\<close>, which accepts
  a bool.\<close>

fun as_dict :: "json \<Rightarrow> (string \<times> json) list option" where
  "as_dict (JObj d) = Some d"
| "as_dict _ = None"

fun as_str :: "json \<Rightarrow> string option" where
  "as_str (JStr s) = Some s"
| "as_str _ = None"

fun as_int :: "json \<Rightarrow> int option" where
  "as_int (JInt i) = Some i"
| "as_int (JBool b) = Some (if b then 1 else 0)"
| "as_int _ = None"

text \<open>Truth value of a JSON value, as \<^verbatim>\<open>bool(x)\<close>; the floats that are false print as \<open>0.0\<close>
  and \<open>-0.0\<close>.\<close>

fun truthy :: "json \<Rightarrow> bool" where
  "truthy JNull = False"
| "truthy (JBool b) = b"
| "truthy (JInt i) = (i \<noteq> 0)"
| "truthy (JFloat s) = (s \<noteq> ''0.0'' \<and> s \<noteq> ''-0.0'')"
| "truthy (JStr s) = (s \<noteq> [])"
| "truthy (JArr xs) = (xs \<noteq> [])"
| "truthy (JObj d) = (d \<noteq> [])"

section \<open>Decimal numerals\<close>

definition digit_char :: "nat \<Rightarrow> char" where
  "digit_char d = char_of (48 + d)"

definition is_digit :: "char \<Rightarrow> bool" where
  "is_digit c \<longleftrightarrow> 48 \<le> (of_char c :: nat) \<and> (of_char c :: nat) \<le> 57"

definition digit_val :: "char \<Rightarrow> nat" where
  "digit_val c = of_char c - 48"

fun show_nat :: "nat \<Rightarrow> string" where
  "show_nat n = (if n < 10 then [digit_char n] else show_nat (n div 10) @ [digit_char (n mod 10)])"

declare show_nat.simps [simp del]

definition show_int :: "int \<Rightarrow> string" where
  "show_int i = (if i < 0 then CHR ''-'' # show_nat (nat (- i)) else show_nat (nat i))"

definition digits_val :: "string \<Rightarrow> nat" where
  "digits_val ds = foldl (\<lambda>a c. 10 * a + digit_val c) 0 ds"

lemma digit_char_props [simp]:
  "d < 10 \<Longrightarrow> is_digit (digit_char d)" "d < 10 \<Longrightarrow> digit_val (digit_char d) = d"
  by (simp_all add: is_digit_def digit_char_def digit_val_def)

lemma show_nat_digits: "c \<in> set (show_nat n) \<Longrightarrow> is_digit c"
proof (induction n rule: show_nat.induct)
  case (1 n)
  then show ?case
    by (cases "n < 10") (auto simp: show_nat.simps [of n])
qed

lemma show_nat_ne [simp]: "show_nat n \<noteq> []"
  by (subst show_nat.simps) simp

lemma digits_val_show_nat [simp]: "digits_val (show_nat n) = n"
proof (induction n rule: show_nat.induct)
  case (1 n)
  then show ?case
    by (cases "n < 10") (simp_all add: show_nat.simps [of n] digits_val_def)
qed

lemma show_nat_inject [simp]: "show_nat m = show_nat n \<longleftrightarrow> m = n"
  by (metis digits_val_show_nat)

lemma minus_not_digit [simp]: "\<not> is_digit (CHR ''-'')"
  by (simp add: is_digit_def)

lemma slash_not_digit [simp]: "\<not> is_digit (CHR ''/'')"
  by (simp add: is_digit_def)

lemma show_int_inject [simp]: "show_int i = show_int j \<longleftrightarrow> i = j"
proof
  assume eq: "show_int i = show_int j"
  have nd: "CHR ''-'' # xs \<noteq> show_nat n" for xs n
    using show_nat_digits [of "CHR ''-''" n] by (metis list.set_intros(1) minus_not_digit)
  from eq nd nd [symmetric] show "i = j"
    by (auto simp: show_int_def split: if_splits)
qed simp

section \<open>Python string operations\<close>

text \<open>\<^verbatim>\<open>str.isspace\<close> below 256: tab, newline, vertical tab, form feed, carriage return, the
  separators 28 to 31, space, next line (133) and no-break space (160).\<close>

definition is_space :: "char \<Rightarrow> bool" where
  "is_space c \<longleftrightarrow> (let n = (of_char c :: nat) in 9 \<le> n \<and> n \<le> 13 \<or> 28 \<le> n \<and> n \<le> 32 \<or> n = 133 \<or> n = 160)"

definition strip :: "string \<Rightarrow> string" where
  "strip s = rev (dropWhile is_space (rev (dropWhile is_space s)))"

definition rstrip_char :: "char \<Rightarrow> string \<Rightarrow> string" where
  "rstrip_char c s = rev (dropWhile (\<lambda>x. x = c) (rev s))"

text \<open>\<^verbatim>\<open>s.lower()\<close>, character by character.\<close>

definition lower_char :: "char \<Rightarrow> char" where
  "lower_char c =
     (let n = (of_char c :: nat)
      in if 65 \<le> n \<and> n \<le> 90 \<or> 192 \<le> n \<and> n \<le> 222 \<and> n \<noteq> 215 then char_of (n + 32) else c)"

text \<open>\<^verbatim>\<open>s.split(c)\<close> for a one-character separator.\<close>

fun split_on :: "char \<Rightarrow> string \<Rightarrow> string list" where
  "split_on c [] = [[]]"
| "split_on c (x # xs) =
     (if x = c then [] # split_on c xs
      else (case split_on c xs of [] \<Rightarrow> [[x]] | y # ys \<Rightarrow> (x # y) # ys))"

lemma split_on_ne [simp]: "split_on c s \<noteq> []"
  by (induction s) (auto split: list.splits)

lemma split_on_none: "c \<notin> set s \<Longrightarrow> split_on c s = [s]"
  by (induction s) auto

lemma split_on_first: "c \<notin> set s \<Longrightarrow> split_on c (s @ c # t) = s # split_on c t"
  by (induction s) auto

text \<open>\<^verbatim>\<open>s.splitlines()\<close> below 256.\<close>

definition line_end :: "char \<Rightarrow> bool" where
  "line_end c \<longleftrightarrow> (of_char c :: nat) \<in> {10, 11, 12, 13, 28, 29, 30, 133}"

fun split_lines :: "string \<Rightarrow> string \<Rightarrow> string list" where
  "split_lines acc [] = (if acc = [] then [] else [rev acc])"
| "split_lines acc (c # cs) =
     (if line_end c
      then rev acc # (case cs of
                        [] \<Rightarrow> []
                      | d # ds \<Rightarrow> if (of_char c :: nat) = 13 \<and> (of_char d :: nat) = 10 then split_lines [] ds
                                  else split_lines [] cs)
      else split_lines (c # acc) cs)"

definition splitlines :: "string \<Rightarrow> string list" where
  "splitlines s = split_lines [] s"

text \<open>\<^verbatim>\<open>s.rsplit(c, 1)\<close>: the text before and after the last separator, \<open>None\<close> without one.\<close>

definition rsplit1 :: "char \<Rightarrow> string \<Rightarrow> (string \<times> string) option" where
  "rsplit1 c s =
     (if c \<in> set s
      then Some (rev (tl (dropWhile (\<lambda>x. x \<noteq> c) (rev s))), rev (takeWhile (\<lambda>x. x \<noteq> c) (rev s)))
      else None)"

lemma rsplit1_last: "c \<notin> set t \<Longrightarrow> rsplit1 c (s @ c # t) = Some (s, t)"
proof -
  assume t: "c \<notin> set t"
  then have d: "dropWhile (\<lambda>x. x \<noteq> c) (rev t @ c # rev s) = c # rev s"
    and w: "takeWhile (\<lambda>x. x \<noteq> c) (rev t @ c # rev s) = rev t"
    by (subst dropWhile_append2, auto) (subst takeWhile_append2, auto)
  show ?thesis by (simp add: rsplit1_def d w)
qed

lemma rsplit1_SomeD:
  assumes "rsplit1 c s = Some (a, b)"
  shows "s = a @ c # b" and "c \<notin> set b"
proof -
  let ?P = "\<lambda>x. x \<noteq> c"
  from assms have c: "c \<in> set s"
    and a: "a = rev (tl (dropWhile ?P (rev s)))" and b: "b = rev (takeWhile ?P (rev s))"
    by (auto simp: rsplit1_def split: if_splits)
  from c have ne: "dropWhile ?P (rev s) \<noteq> []"
    by (auto simp: dropWhile_eq_Nil_conv)
  then have "hd (dropWhile ?P (rev s)) = c"
    using hd_dropWhile by blast
  with ne have "dropWhile ?P (rev s) = c # rev a"
    using a by (metis hd_Cons_tl rev_rev_ident)
  then have "rev s = rev b @ c # rev a"
    using b by (metis rev_rev_ident takeWhile_dropWhile_id)
  then show "s = a @ c # b"
    by (metis append.assoc append_Cons append_Nil rev.simps(2) rev_append rev_rev_ident)
  show "c \<notin> set b"
    using b set_takeWhileD [of c ?P "rev s"] by auto
qed

text \<open>
  \<^verbatim>\<open>int(text)\<close>: surrounding white space, an optional sign, and digits in which single
  underscores may separate digits. \<open>None\<close> is the \<open>ValueError\<close>.
\<close>

fun clean_digits :: "bool \<Rightarrow> string \<Rightarrow> string option" where
  "clean_digits prev [] = (if prev then Some [] else None)"
| "clean_digits prev (c # cs) =
     (if is_digit c then map_option ((#) c) (clean_digits True cs)
      else if c = CHR ''_'' \<and> prev then clean_digits False cs
      else None)"

definition py_int :: "string \<Rightarrow> int option" where
  "py_int text =
     (case strip text of
        [] \<Rightarrow> None
      | c # cs \<Rightarrow>
          if c = CHR ''-'' then map_option (\<lambda>ds. - int (digits_val ds)) (clean_digits False cs)
          else if c = CHR ''+'' then map_option (\<lambda>ds. int (digits_val ds)) (clean_digits False cs)
          else map_option (\<lambda>ds. int (digits_val ds)) (clean_digits False (c # cs)))"

lemma clean_digits_all:
  "\<forall>c \<in> set ds. is_digit c \<Longrightarrow> ds \<noteq> [] \<or> prev \<Longrightarrow> clean_digits prev ds = Some ds"
  by (induction ds arbitrary: prev) auto

lemma digit_not_space: "is_digit c \<Longrightarrow> \<not> is_space c"
  by (auto simp: is_digit_def is_space_def Let_def)

lemma minus_not_space [simp]: "\<not> is_space (CHR ''-'')"
  by (simp add: is_space_def)

lemma strip_id:
  assumes "s \<noteq> []" "\<not> is_space (hd s)" "\<not> is_space (last s)"
  shows "strip s = s"
proof -
  from assms(1,2) have "dropWhile is_space s = s"
    by (cases s) auto
  moreover from assms(1,3) have "dropWhile is_space (rev s) = rev s"
    by (cases s rule: rev_cases) auto
  ultimately show ?thesis by (simp add: strip_def)
qed

lemma strip_digits: "ds \<noteq> [] \<Longrightarrow> \<forall>c \<in> set ds. is_digit c \<Longrightarrow> strip ds = ds"
  by (rule strip_id) (auto simp: digit_not_space)

text \<open>Printing an integer and reading it back.\<close>

lemma py_int_show_int: "py_int (show_int i) = Some i"
proof (cases "i < 0")
  case True
  let ?ds = "show_nat (nat (- i))"
  have d: "\<forall>c \<in> set ?ds. is_digit c" using show_nat_digits by blast
  have "is_digit (last ?ds)" using d by simp
  then have "strip (CHR ''-'' # ?ds) = CHR ''-'' # ?ds"
    by (intro strip_id) (auto dest: digit_not_space simp: minus_not_space)
  with True d show ?thesis
    by (simp add: py_int_def show_int_def clean_digits_all)
next
  case False
  let ?ds = "show_nat (nat i)"
  have d: "\<forall>c \<in> set ?ds. is_digit c" using show_nat_digits by blast
  obtain c cs where ds: "?ds = c # cs" by (cases ?ds) auto
  with d have c: "is_digit c" by simp
  then have "c \<noteq> CHR ''-''" "c \<noteq> CHR ''+''" by (auto simp: is_digit_def)
  with False ds c d show ?thesis
    using strip_digits [of ?ds] digits_val_show_nat [of "nat i"]
    by (simp add: py_int_def show_int_def clean_digits_all)
qed

section \<open>Printing values\<close>

text \<open>\<^verbatim>\<open>sep.join(parts)\<close>.\<close>

fun join :: "string \<Rightarrow> string list \<Rightarrow> string" where
  "join sep [] = []"
| "join sep [x] = x"
| "join sep (x # y # zs) = x @ sep @ join sep (y # zs)"

definition lower_hex :: "nat \<Rightarrow> char" where
  "lower_hex d = (if d < 10 then char_of (48 + d) else char_of (87 + d))"

definition hex2 :: "char \<Rightarrow> string" where
  "hex2 c = (let n = of_char c in [lower_hex (n div 16), lower_hex (n mod 16)])"

text \<open>A string in \<^verbatim>\<open>json.dumps\<close> with \<open>ensure_ascii\<close>: everything outside the printable ASCII range
  is escaped.\<close>

definition backslash :: char where
  "backslash = char_of (92 :: nat)"

definition dquote :: char where
  "dquote = char_of (34 :: nat)"

definition newline :: char where
  "newline = char_of (10 :: nat)"

definition json_char :: "char \<Rightarrow> string" where
  "json_char c =
     (let n = (of_char c :: nat) in
      if n = 34 \<or> n = 92 then [backslash, c]
      else if n = 10 then [backslash, CHR ''n'']
      else if n = 13 then [backslash, CHR ''r'']
      else if n = 9 then [backslash, CHR ''t'']
      else if n = 12 then [backslash, CHR ''f'']
      else if n = 8 then [backslash, CHR ''b'']
      else if 32 \<le> n \<and> n \<le> 126 then [c]
      else [backslash, CHR ''u'', CHR ''0'', CHR ''0''] @ hex2 c)"

definition json_string :: "string \<Rightarrow> string" where
  "json_string s = [dquote] @ concat (map json_char s) @ [dquote]"

text \<open>A float prints as its \<open>repr\<close>, except for the three values JSON has no text for.\<close>

definition json_float :: "string \<Rightarrow> string" where
  "json_float t =
     (if t = ''inf'' then ''Infinity'' else if t = ''-inf'' then ''-Infinity'' else if t = ''nan'' then ''NaN'' else t)"

text \<open>\<^verbatim>\<open>json.dumps(value, sort_keys=True, separators=(item_sep, key_sep))\<close>.\<close>

fun json_dumps :: "string \<Rightarrow> string \<Rightarrow> json \<Rightarrow> string" where
  "json_dumps isep ksep JNull = ''null''"
| "json_dumps isep ksep (JBool b) = (if b then ''true'' else ''false'')"
| "json_dumps isep ksep (JInt i) = show_int i"
| "json_dumps isep ksep (JFloat t) = json_float t"
| "json_dumps isep ksep (JStr s) = json_string s"
| "json_dumps isep ksep (JArr xs) = ''['' @ join isep (map (json_dumps isep ksep) xs) @ '']''"
| "json_dumps isep ksep (JObj d) =
     ''{'' @ join isep (map (\<lambda>(k, v). json_string k @ ksep @ v)
                 (sort_key fst (map (\<lambda>(k, v). (k, json_dumps isep ksep v)) d))) @ ''}''"

text \<open>The same without \<open>sort_keys\<close>: an object prints in the order of its keys.\<close>

fun json_dumps_raw :: "string \<Rightarrow> string \<Rightarrow> json \<Rightarrow> string" where
  "json_dumps_raw isep ksep JNull = ''null''"
| "json_dumps_raw isep ksep (JBool b) = (if b then ''true'' else ''false'')"
| "json_dumps_raw isep ksep (JInt i) = show_int i"
| "json_dumps_raw isep ksep (JFloat t) = json_float t"
| "json_dumps_raw isep ksep (JStr s) = json_string s"
| "json_dumps_raw isep ksep (JArr xs) =
     ''['' @ join isep (map (json_dumps_raw isep ksep) xs) @ '']''"
| "json_dumps_raw isep ksep (JObj d) =
     ''{'' @ join isep (map (\<lambda>(k, v). json_string k @ ksep @ json_dumps_raw isep ksep v) d) @ ''}''"

text \<open>\<^verbatim>\<open>repr\<close> of a string picks the quote that needs no escape; \<^verbatim>\<open>str\<close> of a container uses \<open>repr\<close>
  inside it.\<close>

definition repr_char :: "char \<Rightarrow> char \<Rightarrow> string" where
  "repr_char q c =
     (let n = (of_char c :: nat) in
      if c = q \<or> n = 92 then [backslash, c]
      else if n = 10 then [backslash, CHR ''n'']
      else if n = 13 then [backslash, CHR ''r'']
      else if n = 9 then [backslash, CHR ''t'']
      else if n < 32 \<or> 127 \<le> n \<and> n \<le> 160 \<or> n = 173 then [backslash, CHR ''x''] @ hex2 c
      else [c])"

definition repr_string :: "string \<Rightarrow> string" where
  "repr_string s =
     (let sq = char_of (39 :: nat); q = (if sq \<in> set s \<and> dquote \<notin> set s then dquote else sq)
      in [q] @ concat (map (repr_char q) s) @ [q])"

fun py_repr :: "json \<Rightarrow> string" where
  "py_repr JNull = ''None''"
| "py_repr (JBool b) = (if b then ''True'' else ''False'')"
| "py_repr (JInt i) = show_int i"
| "py_repr (JFloat t) = t"
| "py_repr (JStr s) = repr_string s"
| "py_repr (JArr xs) = ''['' @ join '', '' (map py_repr xs) @ '']''"
| "py_repr (JObj d) =
     ''{'' @ join '', '' (map (\<lambda>(k, v). repr_string k @ '': '' @ v) (map (\<lambda>(k, v). (k, py_repr v)) d)) @ ''}''"

definition py_str :: "json \<Rightarrow> string" where
  "py_str v = (case v of JStr s \<Rightarrow> s | _ \<Rightarrow> py_repr v)"

lemma py_str_JStr [simp]: "py_str (JStr s) = s"
  by (simp add: py_str_def)

section \<open>Rounding\<close>

text \<open>
  Rounding to \<open>p\<close> significant digits of a base, ties to even; the exponent is not bounded. A Python \<open>float\<close> is an IEEE
  double: \<open>double x\<close> is the double next to a rational, 53 significant bits, so \<open>double (x + y)\<close> and \<open>double (x / y)\<close> are
  the float sum and quotient of floats \<open>x\<close> and \<open>y\<close>. A \<open>Decimal\<close> operation rounds to 28 decimal digits.
\<close>

definition half_even :: "rat \<Rightarrow> int" where
  "half_even x =
     (let f = \<lfloor>x\<rfloor>; d = x - of_int f in
      if d < 1 / 2 then f else if 1 / 2 < d then f + 1 else if even f then f else f + 1)"

function digit_len :: "int \<Rightarrow> int \<Rightarrow> nat" where
  "digit_len b n = (if n \<le> 0 \<or> b \<le> 1 then 0 else Suc (digit_len b (n div b)))"
  by auto
termination
proof (relation "measure (\<lambda>(b, n). nat n)")
  fix b n :: int
  assume "\<not> (n \<le> 0 \<or> b \<le> 1)"
  then have "n div b < n" "0 < n" by (auto intro: int_div_less_self)
  then show "((b, n div b), (b, n)) \<in> measure (\<lambda>(b, n). nat n)" by simp
qed simp

declare digit_len.simps [simp del]

definition exponent_of :: "int \<Rightarrow> rat \<Rightarrow> int" where
  "exponent_of b x = (if 1 \<le> x then int (digit_len b \<lfloor>x\<rfloor>) - 1 else - int (digit_len b (\<lceil>1 / x\<rceil> - 1)))"

definition sig_scale :: "int \<Rightarrow> int \<Rightarrow> rat" where
  "sig_scale b e = (if 0 \<le> e then of_int b ^ nat e else 1 / of_int b ^ nat (- e))"

definition round_sig :: "int \<Rightarrow> nat \<Rightarrow> rat \<Rightarrow> rat" where
  "round_sig b p x =
     (if x = 0 then 0
      else let s = sig_scale b (int p - 1 - exponent_of b (abs x))
           in sgn x * of_int (half_even (abs x * s)) / s)"

definition double :: "rat \<Rightarrow> rat" where
  "double x = round_sig 2 53 x"

definition float_add :: "rat \<Rightarrow> rat \<Rightarrow> rat" where
  "float_add x y = double (x + y)"

lemma half_even_cases:
  obtains "half_even x = \<lfloor>x\<rfloor>" | "half_even x = \<lfloor>x\<rfloor> + 1" "of_int \<lfloor>x\<rfloor> < x"
proof -
  have "half_even x = \<lfloor>x\<rfloor> \<or> half_even x = \<lfloor>x\<rfloor> + 1 \<and> 1 / 2 \<le> x - of_int \<lfloor>x\<rfloor>"
    unfolding half_even_def Let_def by (simp split: if_split)
  then consider "half_even x = \<lfloor>x\<rfloor>" | "half_even x = \<lfloor>x\<rfloor> + 1" "1 / 2 \<le> x - of_int \<lfloor>x\<rfloor>" by blast
  then show thesis
  proof cases
    case 2
    have "(0 :: rat) < 1 / 2" by simp
    also note 2(2)
    finally show thesis using 2(1) that(2) by simp
  qed (rule that(1))
qed

lemma half_even_of_int [simp]: "half_even (of_int n) = n"
  by (simp add: half_even_def Let_def)

lemma half_even_le: "x \<le> of_int n \<Longrightarrow> half_even x \<le> n"
proof (cases x rule: half_even_cases)
  case 1
  assume "x \<le> of_int n"
  then have "\<lfloor>x\<rfloor> \<le> n" using floor_mono [of x "of_int n"] by simp
  with 1 show ?thesis by simp
next
  case 2
  assume "x \<le> of_int n"
  with 2(2) have "of_int \<lfloor>x\<rfloor> < (of_int n :: rat)" by (rule less_le_trans)
  with 2(1) show ?thesis by simp
qed

lemma half_even_ge: "of_int n \<le> x \<Longrightarrow> n \<le> half_even x"
proof -
  assume "of_int n \<le> x"
  then have "n \<le> \<lfloor>x\<rfloor>" by (simp add: le_floor_iff)
  then show ?thesis by (cases x rule: half_even_cases) simp_all
qed

lemma half_even_mono: "x \<le> y \<Longrightarrow> half_even x \<le> half_even y"
proof -
  assume le: "x \<le> y"
  show ?thesis
  proof (cases "\<lfloor>x\<rfloor> = \<lfloor>y\<rfloor>")
    case True
    then show ?thesis using le by (auto simp: half_even_def Let_def)
  next
    case False
    then have "\<lfloor>x\<rfloor> + 1 \<le> \<lfloor>y\<rfloor>" using floor_mono [OF le] by simp
    moreover have "half_even x \<le> \<lfloor>x\<rfloor> + 1" and "\<lfloor>y\<rfloor> \<le> half_even y" by (simp_all add: half_even_def Let_def)
    ultimately show ?thesis by simp
  qed
qed

lemma digit_len_bounds:
  assumes "1 < b" "0 < n"
  shows "0 < digit_len b n \<and> b ^ (digit_len b n - 1) \<le> n \<and> n < b ^ digit_len b n"
  using assms
proof (induction b n rule: digit_len.induct)
  case (1 b n)
  show ?case
  proof (cases "n div b = 0")
    case True
    then have "n < b" using 1(2,3) zdiv_eq_0_iff [of n b] by auto
    moreover have "digit_len b n = 1" using 1(2,3) True by (simp add: digit_len.simps [of b n] digit_len.simps [of b 0])
    ultimately show ?thesis using 1(3) by simp
  next
    case False
    have pos: "0 < n div b" using False 1(2,3) by (simp add: pos_imp_zdiv_nonneg_iff less_le)
    let ?k = "digit_len b (n div b)"
    have ih: "0 < ?k" "b ^ (?k - 1) \<le> n div b" "n div b < b ^ ?k" using 1 pos by auto
    have len: "digit_len b n = Suc ?k" using 1(2,3) by (simp add: digit_len.simps [of b n])
    have "b ^ ?k = b ^ (?k - 1) * b" using ih(1) by (metis Suc_diff_1 power_Suc2)
    also have "\<dots> \<le> n div b * b" using ih(2) 1(2) by simp
    also have "\<dots> \<le> n" using 1(2) by (simp add: minus_mod_eq_div_mult [symmetric] pos_mod_sign)
    finally have lo: "b ^ ?k \<le> n" .
    have "n = n div b * b + n mod b" by simp
    also have "\<dots> < n div b * b + b" by (rule add_strict_left_mono) (use 1(2) pos_mod_bound [of b n] in simp)
    also have "\<dots> = (n div b + 1) * b" by (simp add: distrib_right)
    also have "\<dots> \<le> b ^ ?k * b" using ih(3) 1(2) by simp
    finally show ?thesis using lo len by (simp add: mult.commute)
  qed
qed

lemma sig_scale_powi: "1 < b \<Longrightarrow> sig_scale b e = of_int b powi e"
  by (simp add: sig_scale_def power_int_def inverse_eq_divide power_one_over)

lemma sig_scale_pos: "1 < b \<Longrightarrow> 0 < sig_scale b e"
  by (simp add: sig_scale_def)

lemma sig_scale_add: "1 < b \<Longrightarrow> sig_scale b (d + e) = sig_scale b d * sig_scale b e"
  by (simp add: sig_scale_powi power_int_add)

lemma sig_scale_mono: "1 < b \<Longrightarrow> d \<le> e \<Longrightarrow> sig_scale b d \<le> sig_scale b e"
  by (simp add: sig_scale_powi power_int_increasing)

lemma sig_scale_nat: "sig_scale b (int n) = of_int (b ^ n)"
  by (simp add: sig_scale_def)

lemma sig_scale_neg: "sig_scale b (- int n) = 1 / of_int (b ^ n)"
  by (cases "n = 0") (simp_all add: sig_scale_def)

lemma exponent_bounds:
  assumes "1 < b" "0 < x"
  shows "sig_scale b (exponent_of b x) \<le> x" and "x < sig_scale b (exponent_of b x + 1)"
proof -
  have "sig_scale b (exponent_of b x) \<le> x \<and> x < sig_scale b (exponent_of b x + 1)"
  proof (cases "1 \<le> x")
    case True
    let ?k = "digit_len b \<lfloor>x\<rfloor>"
    have k: "0 < ?k" "b ^ (?k - 1) \<le> \<lfloor>x\<rfloor>" "\<lfloor>x\<rfloor> < b ^ ?k" using digit_len_bounds [of b "\<lfloor>x\<rfloor>"] assms True by auto
    have e: "exponent_of b x = int (?k - 1)" "exponent_of b x + 1 = int ?k" using True k(1) by (simp_all add: exponent_of_def of_nat_diff)
    have "of_int (b ^ (?k - 1)) \<le> x" using k(2) by (simp only: le_floor_iff)
    moreover have "x < of_int (b ^ ?k)" using k(3) by (simp only: floor_less_iff)
    moreover have "sig_scale b (exponent_of b x) = of_int (b ^ (?k - 1))" "sig_scale b (exponent_of b x + 1) = of_int (b ^ ?k)"
      by (simp only: e(1) sig_scale_nat, simp only: e(2) sig_scale_nat)
    ultimately show ?thesis by (simp only:)
  next
    case False
    let ?m = "\<lceil>1 / x\<rceil> - 1"
    let ?k = "digit_len b ?m"
    have "1 < 1 / x" using False assms(2) by simp
    then have "0 < ?m" by (simp add: less_ceiling_iff)
    then have k: "0 < ?k" "b ^ (?k - 1) \<le> ?m" "?m < b ^ ?k" using digit_len_bounds [of b ?m] assms(1) by auto
    have e: "exponent_of b x = - int ?k" "exponent_of b x + 1 = - int (?k - 1)" using False k(1) by (simp_all add: exponent_of_def of_nat_diff)
    have "1 / x \<le> of_int (b ^ ?k)" using k(3) by (simp only: ceiling_le_iff [symmetric])
    moreover have "of_int (b ^ (?k - 1)) < 1 / x" using k(2) by (simp only: less_ceiling_iff [symmetric])
    moreover have "sig_scale b (exponent_of b x) = 1 / of_int (b ^ ?k)" "sig_scale b (exponent_of b x + 1) = 1 / of_int (b ^ (?k - 1))"
      by (simp only: e(1) sig_scale_neg, simp only: e(2) sig_scale_neg)
    moreover have "0 < (of_int (b ^ n) :: rat)" for n using assms(1) by simp
    ultimately show ?thesis using assms(2) by (simp only: field_simps)
  qed
  then show "sig_scale b (exponent_of b x) \<le> x" and "x < sig_scale b (exponent_of b x + 1)" by auto
qed

lemma round_sig_bounds:
  assumes "1 < b" "0 < x" "0 < p"
  shows "sig_scale b (exponent_of b x) \<le> round_sig b p x" and "round_sig b p x \<le> sig_scale b (exponent_of b x + 1)"
proof -
  let ?e = "exponent_of b x" and ?s = "sig_scale b (int p - 1 - exponent_of b x)"
  have s: "0 < ?s" using sig_scale_pos assms(1) .
  have r: "round_sig b p x = of_int (half_even (x * ?s)) / ?s" using assms(2) by (simp add: round_sig_def Let_def)
  have lo: "sig_scale b ?e * ?s = of_int (b ^ (p - 1))" and hi: "sig_scale b (?e + 1) * ?s = of_int (b ^ p)"
    using assms(1,3) by (simp_all only: sig_scale_add [symmetric] sig_scale_nat [symmetric]) (simp_all add: of_nat_diff)
  have "of_int (b ^ (p - 1)) \<le> x * ?s"
    unfolding lo [symmetric] using exponent_bounds(1) [OF assms(1,2)] s by (simp add: mult_right_mono)
  then have "of_int (b ^ (p - 1)) \<le> (of_int (half_even (x * ?s)) :: rat)" using half_even_ge by (simp only: of_int_le_iff)
  then show "sig_scale b ?e \<le> round_sig b p x" unfolding r lo [symmetric] using s by (simp add: pos_le_divide_eq)
  have "x * ?s \<le> of_int (b ^ p)"
    unfolding hi [symmetric] using exponent_bounds(2) [OF assms(1,2)] s by (simp add: mult_right_mono less_imp_le)
  then have "(of_int (half_even (x * ?s)) :: rat) \<le> of_int (b ^ p)" using half_even_le by (simp only: of_int_le_iff)
  then show "round_sig b p x \<le> sig_scale b (?e + 1)" unfolding r hi [symmetric] using s by (simp add: pos_divide_le_eq)
qed

lemma round_sig_0 [simp]: "round_sig b p 0 = 0"
  by (simp add: round_sig_def)

lemma round_sig_nonneg: "1 < b \<Longrightarrow> 0 < p \<Longrightarrow> 0 \<le> x \<Longrightarrow> 0 \<le> round_sig b p x"
  using round_sig_bounds(1) [of b x p] sig_scale_pos [of b "exponent_of b x"] by (cases "x = 0") (auto intro: order_trans less_imp_le)

lemma round_sig_mono:
  assumes "1 < b" "0 < p" "0 \<le> x" "x \<le> y"
  shows "round_sig b p x \<le> round_sig b p y"
proof (cases "x = 0")
  case True
  then show ?thesis using round_sig_nonneg assms by simp
next
  case False
  then have x: "0 < x" and y: "0 < y" using assms(3,4) by auto
  show ?thesis
  proof (cases "exponent_of b x < exponent_of b y")
    case True
    have "round_sig b p x \<le> sig_scale b (exponent_of b x + 1)" using round_sig_bounds(2) [OF assms(1) x assms(2)] .
    also have "\<dots> \<le> sig_scale b (exponent_of b y)" using True assms(1) by (intro sig_scale_mono) auto
    also have "\<dots> \<le> round_sig b p y" using round_sig_bounds(1) [OF assms(1) y assms(2)] .
    finally show ?thesis .
  next
    case False
    have "sig_scale b (exponent_of b x) < sig_scale b (exponent_of b y + 1)"
      using exponent_bounds(1) [OF assms(1) x] exponent_bounds(2) [OF assms(1) y] assms(4) by simp
    then have "\<not> exponent_of b y + 1 \<le> exponent_of b x" using sig_scale_mono [OF assms(1)] by (metis not_less)
    with False have e: "exponent_of b x = exponent_of b y" by simp
    have "0 < sig_scale b (int p - 1 - exponent_of b y)" using sig_scale_pos assms(1) .
    then show ?thesis using x y e assms(4)
      by (simp add: round_sig_def Let_def divide_right_mono half_even_mono mult_right_mono)
  qed
qed

text \<open>Evaluation on quotients of numerals.\<close>

lemma half_even_quotient:
  assumes "0 < b"
  shows "half_even (of_int a / of_int b) =
    (let q = a div b; r = 2 * (a mod b) in if r < b then q else if b < r then q + 1 else if even q then q else q + 1)"
proof -
  have f: "\<lfloor>of_int a / of_int b :: rat\<rfloor> = a div b" by (rule floor_divide_of_int_eq)
  have b: "(0 :: rat) < of_int b" using assms by simp
  have "of_int a = (of_int (a div b) * of_int b + of_int (a mod b) :: rat)"
    by (simp flip: of_int_mult of_int_add)
  then have d: "of_int a / of_int b - of_int (a div b) = (of_int (a mod b) / of_int b :: rat)"
    using b by (simp add: field_simps)
  have lt: "of_int r / of_int b < (1 / 2 :: rat) \<longleftrightarrow> 2 * r < b" for r
  proof -
    have "of_int r / of_int b < (1 / 2 :: rat) \<longleftrightarrow> of_int (2 * r) < (of_int b :: rat)"
      using b by (simp add: field_simps)
    then show ?thesis by (simp only: of_int_less_iff)
  qed
  have gt: "(1 / 2 :: rat) < of_int r / of_int b \<longleftrightarrow> b < 2 * r" for r
  proof -
    have "(1 / 2 :: rat) < of_int r / of_int b \<longleftrightarrow> (of_int b :: rat) < of_int (2 * r)"
      using b by (simp add: field_simps)
    then show ?thesis by (simp only: of_int_less_iff)
  qed
  show ?thesis unfolding half_even_def Let_def f d lt gt ..
qed

lemmas half_even_numeral =
  half_even_quotient [of "numeral n" "numeral m", simplified] for n m

lemma half_even_integer: "half_even (numeral n) = numeral n"
  using half_even_of_int [of "numeral n"] by simp

lemma floor_numeral_quotient: "\<lfloor>numeral n / numeral m :: rat\<rfloor> = numeral n div numeral m"
  using floor_divide_of_int_eq [of "numeral n" "numeral m", where 'a = rat] by simp

lemma ceiling_numeral_quotient: "\<lceil>numeral n / numeral m :: rat\<rceil> = - ((- numeral n) div numeral m)"
  using floor_divide_of_int_eq [of "- numeral n" "numeral m", where 'a = rat] by (simp add: ceiling_def)

lemmas double_eval =
  double_def round_sig_def exponent_of_def sig_scale_def half_even_numeral half_even_integer digit_len.simps
  floor_numeral_quotient ceiling_numeral_quotient

text \<open>The float whose \<^verbatim>\<open>repr\<close> is a text such as \<open>0.5\<close>, \<open>-3.0\<close>, \<open>1.5e+20\<close> or \<open>1e-07\<close>; \<open>None\<close> for \<open>nan\<close> and the
  infinities.\<close>

definition float_value :: "string \<Rightarrow> rat option" where
  "float_value t =
     (let mantissa = takeWhile (\<lambda>c. c \<noteq> CHR ''e'') t; exponent = drop (Suc (length mantissa)) t;
          whole = takeWhile (\<lambda>c. c \<noteq> CHR ''.'') mantissa; frac = drop (Suc (length whole)) mantissa
      in case (py_int (whole @ frac), if exponent = [] then Some 0 else py_int exponent) of
           (Some n, Some x) \<Rightarrow>
             (let k = x - int (length frac)
              in Some (double (of_int n * (if 0 \<le> k then 10 ^ nat k else 1 / 10 ^ nat (- k)))))
         | _ \<Rightarrow> None)"

text \<open>\<^verbatim>\<open>int(x)\<close> of a decoded value: a number, a bool or a numeric string. A float truncates towards zero; an
  infinity raises \<open>OverflowError\<close>, which is no \<open>ValueError\<close>.\<close>

definition py_int_json :: "json \<Rightarrow> int res" where
  "py_int_json v =
     (case v of
        JInt i \<Rightarrow> Inr i
      | JBool b \<Rightarrow> Inr (if b then 1 else 0)
      | JFloat t \<Rightarrow>
          (if t = ''inf'' \<or> t = ''-inf'' then Inl (OverflowError ''cannot convert float infinity to integer'')
           else case float_value t of
                  Some x \<Rightarrow> Inr (if 0 \<le> x then \<lfloor>x\<rfloor> else \<lceil>x\<rceil>)
                | None \<Rightarrow> Inl (ValueError ''cannot convert float NaN to integer''))
      | JStr s \<Rightarrow> (case py_int s of
                      Some i \<Rightarrow> Inr i | None \<Rightarrow> Inl (ValueError ''invalid literal for int()''))
      | _ \<Rightarrow> Inl (TypeError ''int() argument must be a string or a number''))"

text \<open>\<^verbatim>\<open>d[k]\<close>.\<close>

definition dict_item :: "string \<Rightarrow> (string \<times> json) list \<Rightarrow> json res" where
  "dict_item k d = (case map_of d k of Some v \<Rightarrow> Inr v | None \<Rightarrow> Inl (KeyError k))"

lemma dict_item_Inr [res_simps]: "dict_item k d = Inr v \<longleftrightarrow> map_of d k = Some v"
  by (auto simp: dict_item_def split: option.splits)

section \<open>Computations with state that may raise\<close>

text \<open>
  A method that mutates its object and may raise: the state is returned with the error too, since
  Python keeps the mutations made before a \<^verbatim>\<open>raise\<close>.
\<close>

type_synonym ('s, 'e, 'a) sm = "'s \<Rightarrow> ('e + 'a) \<times> 's"

definition sret :: "'a \<Rightarrow> ('s, 'e, 'a) sm" where
  "sret x s = (Inr x, s)"

definition sraise :: "'e \<Rightarrow> ('s, 'e, 'a) sm" where
  "sraise e s = (Inl e, s)"

definition sget :: "('s \<Rightarrow> 'a) \<Rightarrow> ('s, 'e, 'a) sm" where
  "sget f s = (Inr (f s), s)"

definition smodify :: "('s \<Rightarrow> 's) \<Rightarrow> ('s, 'e, unit) sm" where
  "smodify f s = (Inr (), f s)"

definition slift :: "'e + 'a \<Rightarrow> ('s, 'e, 'a) sm" where
  "slift r s = (r, s)"

definition sbind :: "('s, 'e, 'a) sm \<Rightarrow> ('a \<Rightarrow> ('s, 'e, 'b) sm) \<Rightarrow> ('s, 'e, 'b) sm" where
  "sbind m f s = (case m s of (Inl e, t) \<Rightarrow> (Inl e, t) | (Inr x, t) \<Rightarrow> f x t)"

definition sensure :: "bool \<Rightarrow> 'e \<Rightarrow> ('s, 'e, unit) sm" where
  "sensure b e = (if b then sret () else sraise e)"

text \<open>An invariant of the state that a computation keeps, whatever it returns. It holds of every composition
  of computations that keep it, raised errors included.\<close>

definition preserves :: "('s \<Rightarrow> bool) \<Rightarrow> ('s, 'e, 'a) sm \<Rightarrow> bool" where
  "preserves I m \<longleftrightarrow> (\<forall>s. I s \<longrightarrow> I (snd (m s)))"

named_theorems keeps

lemma preservesD: "preserves I m \<Longrightarrow> I s \<Longrightarrow> m s = (r, t) \<Longrightarrow> I t"
  by (auto simp: preserves_def)

lemma preserves_sret [keeps]: "preserves I (sret x)"
  by (simp add: preserves_def sret_def)

lemma preserves_sraise [keeps]: "preserves I (sraise e)"
  by (simp add: preserves_def sraise_def)

lemma preserves_sget [keeps]: "preserves I (sget f)"
  by (simp add: preserves_def sget_def)

lemma preserves_slift [keeps]: "preserves I (slift r)"
  by (simp add: preserves_def slift_def)

lemma preserves_sensure [keeps]: "preserves I (sensure b e)"
  by (simp add: sensure_def keeps)

lemma preserves_sbind [keeps]:
  "preserves I m \<Longrightarrow> (\<And>x. preserves I (f x)) \<Longrightarrow> preserves I (sbind m f)"
  by (auto simp: preserves_def sbind_def split: prod.splits sum.splits)

lemma preserves_if [keeps]:
  "(b \<Longrightarrow> preserves I m) \<Longrightarrow> (\<not> b \<Longrightarrow> preserves I n) \<Longrightarrow> preserves I (if b then m else n)"
  by simp

lemma preserves_case_option [keeps]:
  "preserves I m \<Longrightarrow> (\<And>x. preserves I (f x)) \<Longrightarrow> preserves I (case z of None \<Rightarrow> m | Some x \<Rightarrow> f x)"
  by (cases z) auto

lemma preserves_case_sum [keeps]:
  "(\<And>e. preserves I (f e)) \<Longrightarrow> (\<And>x. preserves I (g x)) \<Longrightarrow>
   preserves I (case z of Inl e \<Rightarrow> f e | Inr x \<Rightarrow> g x)"
  by (cases z) auto

lemma preserves_case_prod [keeps]:
  "(\<And>a b. preserves I (f a b)) \<Longrightarrow> preserves I (case z of (a, b) \<Rightarrow> f a b)"
  by (cases z) auto

lemma preserves_Let [keeps]: "(\<And>x. preserves I (f x)) \<Longrightarrow> preserves I (Let z f)"
  by simp

lemma preserves_smodify: "(\<And>s. I s \<Longrightarrow> I (f s)) \<Longrightarrow> preserves I (smodify f)"
  by (simp add: preserves_def smodify_def)

text \<open>
  Assertions before, after a return and after a raise. An operation that may be cut off anywhere is
  specified by what holds when it completes and what holds wherever it stops.
\<close>

definition triple ::
  "('s \<Rightarrow> bool) \<Rightarrow> ('s, 'e, 'a) sm \<Rightarrow> ('a \<Rightarrow> 's \<Rightarrow> bool) \<Rightarrow> ('s \<Rightarrow> bool) \<Rightarrow> bool" where
  "triple P m Q E \<longleftrightarrow>
     (\<forall>s. P s \<longrightarrow> (case m s of (Inl e, t) \<Rightarrow> E t | (Inr x, t) \<Rightarrow> Q x t))"

lemma tripleI:
  assumes "\<And>s e t. P s \<Longrightarrow> m s = (Inl e, t) \<Longrightarrow> E t"
    and "\<And>s x t. P s \<Longrightarrow> m s = (Inr x, t) \<Longrightarrow> Q x t"
  shows "triple P m Q E"
  using assms by (auto simp: triple_def split: prod.splits sum.splits)

lemma tripleD:
  assumes "triple P m Q E" "P s"
  shows "m s = (Inl e, t) \<Longrightarrow> E t" and "m s = (Inr x, t) \<Longrightarrow> Q x t"
  using assms(1) [unfolded triple_def, rule_format, OF assms(2)] by auto

lemma triple_sbind:
  assumes "triple P m R E" and "\<And>x. triple (R x) (f x) Q E"
  shows "triple P (sbind m f) Q E"
proof -
  have "case sbind m f s of (Inl e, t) \<Rightarrow> E t | (Inr x, t) \<Rightarrow> Q x t" if "P s" for s
  proof (cases "m s")
    case (Pair r t)
    show ?thesis
    proof (cases r)
      case (Inl e)
      with Pair tripleD(1) [OF assms(1) that] show ?thesis by (simp add: sbind_def)
    next
      case (Inr x)
      with Pair have "R x t" using tripleD(2) [OF assms(1) that] by simp
      with Pair Inr show ?thesis using assms(2) [unfolded triple_def] by (simp add: sbind_def)
    qed
  qed
  then show ?thesis by (simp add: triple_def)
qed

lemma triple_weaken:
  assumes "triple P' m Q' E'" "\<And>s. P s \<Longrightarrow> P' s" "\<And>x s. Q' x s \<Longrightarrow> Q x s" "\<And>s. E' s \<Longrightarrow> E s"
  shows "triple P m Q E"
proof (rule tripleI)
  fix s e t assume "P s" "m s = (Inl e, t)"
  then show "E t" using tripleD(1) [OF assms(1)] assms(2,4) by blast
next
  fix s x t assume "P s" "m s = (Inr x, t)"
  then show "Q x t" using tripleD(2) [OF assms(1)] assms(2,3) by blast
qed

lemma triple_sret: "(\<And>s. P s \<Longrightarrow> Q x s) \<Longrightarrow> triple P (sret x) Q E"
  by (simp add: triple_def sret_def)

lemma triple_sraise: "(\<And>s. P s \<Longrightarrow> E s) \<Longrightarrow> triple P (sraise e) Q E"
  by (simp add: triple_def sraise_def)

lemma triple_sget: "triple P (sget f) (\<lambda>x s. P s \<and> x = f s) E"
  by (simp add: triple_def sget_def)

lemma triple_sensure: "(\<And>s. P s \<Longrightarrow> E s) \<Longrightarrow> triple P (sensure b e) (\<lambda>_ s. P s \<and> b) E"
  by (simp add: triple_def sensure_def sret_def sraise_def)

lemma preserves_triple: "preserves I m \<longleftrightarrow> triple I m (\<lambda>_. I) I"
  by (simp add: triple_def preserves_def case_prod_unfold split: sum.split)

lemma triple_preserves:
  "preserves I m \<Longrightarrow> (\<And>s. I s \<Longrightarrow> E s) \<Longrightarrow> triple I m (\<lambda>_. I) E"
  by (rule triple_weaken [of I m "\<lambda>_. I" I]) (auto simp: preserves_triple)

lemma triple_case_option:
  "(z = None \<Longrightarrow> triple P m Q E) \<Longrightarrow> (\<And>x. z = Some x \<Longrightarrow> triple P (f x) Q E) \<Longrightarrow>
   triple P (case z of None \<Rightarrow> m | Some x \<Rightarrow> f x) Q E"
  by (cases z) auto

lemma sbind_run [simp]:
  "m s = (Inl e, t) \<Longrightarrow> sbind m f s = (Inl e, t)"
  "m s = (Inr x, t) \<Longrightarrow> sbind m f s = f x t"
  by (simp_all add: sbind_def)

lemma sbind_Inr [res_simps]:
  "sbind m f s = (Inr y, u) \<longleftrightarrow> (\<exists>x t. m s = (Inr x, t) \<and> f x t = (Inr y, u))"
  by (auto simp: sbind_def split: prod.splits sum.splits)

lemma sm_simps [simp]:
  "sbind (sret x) f = f x" "sbind (sraise e) f' = sraise e"
  "sbind (sget g) f s = f (g s) s" "sbind (smodify h) k s = k () (h s)"
  "sbind (slift (Inr x)) f = f x" "sbind (slift (Inl e)) f = sraise e"
  "sensure True e = sret ()" "sensure False e = sraise e"
  by (auto simp: sbind_def sret_def sraise_def sget_def smodify_def slift_def sensure_def)

lemma sbind_assoc: "sbind (sbind m f) g = sbind m (\<lambda>x. sbind (f x) g)"
  by (rule ext) (simp add: sbind_def split: prod.splits sum.splits)

lemma sbind_sensure: "sbind (sensure b e) f s = (if b then f () s else (Inl e, s))"
  by (simp add: sensure_def sraise_def)

section \<open>Dictionaries\<close>

text \<open>
  A Python \<open>dict\<close> whose order matters is an association list with distinct keys:
  \<^const>\<open>map_of\<close> reads it and \<^const>\<open>AList.update\<close> writes it, in place for a key that is
  present and at the end for a new one.
\<close>

abbreviation dict_set :: "'k \<Rightarrow> 'v \<Rightarrow> ('k \<times> 'v) list \<Rightarrow> ('k \<times> 'v) list" where
  "dict_set \<equiv> AList.update"

abbreviation dict_ok :: "('k \<times> 'v) list \<Rightarrow> bool" where
  "dict_ok d \<equiv> distinct (map fst d)"

lemma dict_get_set [simp]: "map_of (dict_set k v d) k' = (if k' = k then Some v else map_of d k')"
  by (simp add: update_conv')

lemma dict_set_fresh: "k \<notin> fst ` set d \<Longrightarrow> dict_set k v d = d @ [(k, v)]"
  by (induction d) auto

section \<open>Logs with sequence numbers\<close>

text \<open>
  Four components keep an append-only log whose records are numbered from one: the fault
  controller's trace, a run's timeline, a run's tool calls and the witness ledger. The contract
  they share: a step leaves the log alone or appends one record numbered by the new length.
\<close>

definition numbered :: "('r \<Rightarrow> nat) \<Rightarrow> 'r list \<Rightarrow> bool" where
  "numbered sq xs \<longleftrightarrow> map sq xs = [1..<Suc (length xs)]"

lemma numbered_Nil [simp]: "numbered sq []"
  by (simp add: numbered_def)

lemma numbered_snoc [simp]: "numbered sq (xs @ [x]) \<longleftrightarrow> numbered sq xs \<and> sq x = Suc (length xs)"
  by (simp add: numbered_def)

lemma numbered_nth: "numbered sq xs \<Longrightarrow> i < length xs \<Longrightarrow> sq (xs ! i) = Suc i"
proof -
  assume "numbered sq xs" and i: "i < length xs"
  then have "map sq xs ! i = [1..<Suc (length xs)] ! i" by (simp only: numbered_def)
  with i show ?thesis by (simp del: upt_Suc)
qed

lemma numbered_distinct: "numbered sq xs \<Longrightarrow> distinct (map sq xs)"
  by (simp add: numbered_def)

locale append_log =
  fixes step :: "'s \<Rightarrow> 's \<Rightarrow> bool"
    and log :: "'s \<Rightarrow> 'r list"
    and sq :: "'r \<Rightarrow> nat"
  assumes step_log:
    "step s t \<Longrightarrow> log t = log s \<or> (\<exists>r. log t = log s @ [r] \<and> sq r = Suc (length (log s)))"
begin

lemma run_prefix: "step\<^sup>*\<^sup>* s t \<Longrightarrow> \<exists>rs. log t = log s @ rs"
proof (induction rule: rtranclp_induct)
  case base
  show ?case by simp
next
  case (step t u)
  then show ?case using step_log [of t u] by auto
qed

lemma run_numbered: "step\<^sup>*\<^sup>* s t \<Longrightarrow> numbered sq (log s) \<Longrightarrow> numbered sq (log t)"
proof (induction rule: rtranclp_induct)
  case base
  then show ?case .
next
  case (step t u)
  then show ?case using step_log [of t u] by auto
qed

end

section \<open>Write-once stores\<close>

text \<open>
  The contract of a store that refuses to bind a key twice: the activity registry, the versioned
  study artifacts, the unit files. Whatever else happens later, a binding stays as it was made.
\<close>

locale write_once =
  fixes key :: "'p \<Rightarrow> 'k"
    and put :: "'p \<Rightarrow> 'v \<Rightarrow> 's \<Rightarrow> 'e + 's"
    and get :: "'k \<Rightarrow> 's \<Rightarrow> 'v option"
  assumes put_get: "put p v s = Inr s' \<Longrightarrow> get (key p) s' = Some v"
    and put_fresh: "put p v s = Inr s' \<Longrightarrow> get (key p) s = None"
    and put_other: "put p v s = Inr s' \<Longrightarrow> k \<noteq> key p \<Longrightarrow> get k s' = get k s"
begin

lemma put_keeps: "put p v s = Inr s' \<Longrightarrow> get k s = Some w \<Longrightarrow> get k s' = Some w"
  using put_fresh [of p v s s'] put_other [of p v s s' k] by (cases "k = key p") auto

lemma puts_keep:
  assumes "foldR (\<lambda>(p, v). put p v) pvs s = Inr s'" and "get k s = Some w"
  shows "get k s' = Some w"
  using assms by (rule foldR_invariant) (auto dest: put_keeps)

lemma puts_get:
  assumes "foldR (\<lambda>(p, v). put p v) pvs s = Inr s'" and "(p, v) \<in> set pvs"
  shows "get (key p) s' = Some v"
  using assms
proof (induction pvs arbitrary: s)
  case (Cons q pvs)
  then obtain t where t: "put (fst q) (snd q) s = Inr t"
      "foldR (\<lambda>(p, v). put p v) pvs t = Inr s'"
    by (auto simp: res_simps split: prod.splits)
  show ?case
  proof (cases "(p, v) = q")
    case True
    with t show ?thesis using puts_keep put_get by fastforce
  next
    case False
    with Cons.prems t show ?thesis using Cons.IH by auto
  qed
qed simp

lemma puts_frame:
  assumes "foldR (\<lambda>(p, v). put p v) pvs s = Inr s'" and "k \<notin> (\<lambda>q. key (fst q)) ` set pvs"
  shows "get k s' = get k s"
  using assms
proof (induction pvs arbitrary: s)
  case (Cons q pvs)
  then obtain t where t: "put (fst q) (snd q) s = Inr t"
      "foldR (\<lambda>(p, v). put p v) pvs t = Inr s'"
    by (auto simp: res_simps split: prod.splits)
  with Cons show ?case using put_other [of "fst q" "snd q" s t k] by auto
qed simp

lemma puts_fresh:
  assumes "foldR (\<lambda>(p, v). put p v) pvs s = Inr s'"
  shows "distinct (map (\<lambda>q. key (fst q)) pvs)" and "q \<in> set pvs \<Longrightarrow> get (key (fst q)) s = None"
proof -
  have "distinct (map (\<lambda>q. key (fst q)) pvs) \<and> (\<forall>q \<in> set pvs. get (key (fst q)) s = None)"
    using assms
  proof (induction pvs arbitrary: s)
    case (Cons q pvs)
    then obtain t where t: "put (fst q) (snd q) s = Inr t"
        "foldR (\<lambda>(p, v). put p v) pvs t = Inr s'"
      by (auto simp: res_simps split: prod.splits)
    then have IH: "distinct (map (\<lambda>q. key (fst q)) pvs)" "\<forall>q \<in> set pvs. get (key (fst q)) t = None"
      using Cons.IH [OF t(2)] by blast+
    then have nin: "key (fst q) \<notin> (\<lambda>q. key (fst q)) ` set pvs"
      using put_get [OF t(1)] by auto
    have "get (key (fst q')) s = None" if q': "q' \<in> set pvs" for q'
    proof -
      from nin q' have "key (fst q') \<noteq> key (fst q)" by (metis image_eqI)
      then have "get (key (fst q')) t = get (key (fst q')) s" by (rule put_other [OF t(1)])
      with IH(2) q' show ?thesis by simp
    qed
    with IH(1) nin show ?case
      using put_fresh [OF t(1)] by simp
  qed simp
  then show "distinct (map (\<lambda>q. key (fst q)) pvs)" and "q \<in> set pvs \<Longrightarrow> get (key (fst q)) s = None"
    by auto
qed

end

end
