(* ===== verification/Sha256.thy ===== *)
theory Sha256
  imports Prelude "HOL-Library.Word"
begin

text \<open>
  \<^verbatim>\<open>hashlib.sha256\<close> of the standard library, as FIPS 180-4 defines it: padding to whole
  64-byte blocks, the message schedule, 64 compression rounds per block on eight 32-bit words.
  Also \<^verbatim>\<open>str.encode("utf-8")\<close>, \<^verbatim>\<open>bytes.hex\<close> and \<^verbatim>\<open>int.from_bytes(..., "big")\<close>.
\<close>

unbundle bit_operations_syntax

type_synonym byte = "8 word"
type_synonym w32 = "32 word"

section \<open>The hash\<close>

definition rotr :: "nat \<Rightarrow> w32 \<Rightarrow> w32" where
  "rotr n x = drop_bit n x OR push_bit (32 - n) x"

text \<open>
  The constants of the standard are the first 32 bits of the fractional parts of roots of primes:
  cube roots of the first 64 primes for the rounds, square roots of the first eight for the initial
  state. \<open>iroot\<close> finds an integer \<open>k\<close>-th root bit by bit.
\<close>

fun iroot :: "nat \<Rightarrow> nat \<Rightarrow> nat \<Rightarrow> nat \<Rightarrow> nat" where
  "iroot k n 0 r = r"
| "iroot k n (Suc b) r = (let c = r + 2 ^ b in iroot k n b (if c ^ k \<le> n then c else r))"

lemma iroot_correct:
  "r ^ k \<le> n \<Longrightarrow> n < (r + 2 ^ b) ^ k \<Longrightarrow>
   iroot k n b r ^ k \<le> n \<and> n < (iroot k n b r + 1) ^ k"
  by (induction b arbitrary: r) (auto simp: Let_def mult_2 add.assoc)

definition root_bits :: "nat \<Rightarrow> nat \<Rightarrow> w32" where
  "root_bits k p = of_nat (iroot k (p * 2 ^ (32 * k)) 36 0)"

definition primes_upto :: "nat \<Rightarrow> nat list" where
  "primes_upto m = filter (\<lambda>n. \<forall>d \<in> set [2..<n]. n mod d \<noteq> 0) [2..<Suc m]"

definition sha_K :: "w32 list" where
  "sha_K = map (root_bits 3) (primes_upto 311)"

datatype hash_state = HS w32 w32 w32 w32 w32 w32 w32 w32

definition sha_init :: hash_state where
  "sha_init = HS (root_bits 2 2) (root_bits 2 3) (root_bits 2 5) (root_bits 2 7)
                 (root_bits 2 11) (root_bits 2 13) (root_bits 2 17) (root_bits 2 19)"

text \<open>A 32-bit word from four big-endian bytes and back.\<close>

fun words_of_bytes :: "byte list \<Rightarrow> w32 list" where
  "words_of_bytes (a # b # c # d # bs) =
     (push_bit 24 (ucast a) OR push_bit 16 (ucast b) OR push_bit 8 (ucast c) OR ucast d)
       # words_of_bytes bs"
| "words_of_bytes _ = []"

definition bytes_of_word :: "w32 \<Rightarrow> byte list" where
  "bytes_of_word w =
     [ucast (drop_bit 24 w), ucast (drop_bit 16 w), ucast (drop_bit 8 w), ucast w]"

definition be_bytes64 :: "nat \<Rightarrow> byte list" where
  "be_bytes64 n = map (\<lambda>i. of_nat (n div 256 ^ i)) [7, 6, 5, 4, 3, 2, 1, 0]"

definition sha_pad :: "byte list \<Rightarrow> byte list" where
  "sha_pad msg =
     (let n = length msg; k = (119 - n mod 64) mod 64
      in msg @ 0x80 # replicate k 0 @ be_bytes64 (8 * n))"

text \<open>The message schedule, newest word first: word \<open>t\<close> needs words \<open>t-2\<close>, \<open>t-7\<close>, \<open>t-15\<close>, \<open>t-16\<close>.\<close>

definition sched_next :: "w32 list \<Rightarrow> w32" where
  "sched_next ws =
     (let x = ws ! 1; y = ws ! 14;
          s1 = rotr 17 x XOR rotr 19 x XOR drop_bit 10 x;
          s0 = rotr 7 y XOR rotr 18 y XOR drop_bit 3 y
      in s1 + ws ! 6 + s0 + ws ! 15)"

fun sched_extend :: "nat \<Rightarrow> w32 list \<Rightarrow> w32 list" where
  "sched_extend 0 ws = ws"
| "sched_extend (Suc n) ws = sched_extend n (sched_next ws # ws)"

definition schedule :: "byte list \<Rightarrow> w32 list" where
  "schedule block = rev (sched_extend 48 (rev (words_of_bytes block)))"

fun sha_round :: "w32 \<times> w32 \<Rightarrow> hash_state \<Rightarrow> hash_state" where
  "sha_round (k, w) (HS a b c d e f g h) =
     (let s1 = rotr 6 e XOR rotr 11 e XOR rotr 25 e;
          ch = (e AND f) XOR (NOT e AND g);
          t1 = h + s1 + ch + k + w;
          s0 = rotr 2 a XOR rotr 13 a XOR rotr 22 a;
          maj = (a AND b) XOR (a AND c) XOR (b AND c)
      in HS (t1 + (s0 + maj)) a b c (d + t1) e f g)"

fun hs_add :: "hash_state \<Rightarrow> hash_state \<Rightarrow> hash_state" where
  "hs_add (HS a b c d e f g h) (HS a' b' c' d' e' f' g' h') =
     HS (a + a') (b + b') (c + c') (d + d') (e + e') (f + f') (g + g') (h + h')"

definition sha_block :: "byte list \<Rightarrow> hash_state \<Rightarrow> hash_state" where
  "sha_block block s = hs_add s (fold sha_round (zip sha_K (schedule block)) s)"

fun sha_blocks :: "nat \<Rightarrow> byte list \<Rightarrow> hash_state \<Rightarrow> hash_state" where
  "sha_blocks 0 bs s = s"
| "sha_blocks (Suc n) bs s = sha_blocks n (drop 64 bs) (sha_block (take 64 bs) s)"

fun hs_bytes :: "hash_state \<Rightarrow> byte list" where
  "hs_bytes (HS a b c d e f g h) = concat (map bytes_of_word [a, b, c, d, e, f, g, h])"

definition sha256 :: "byte list \<Rightarrow> byte list" where
  "sha256 msg = (let p = sha_pad msg in hs_bytes (sha_blocks (length p div 64) p sha_init))"

lemma sha256_length [simp]: "length (sha256 msg) = 32"
proof -
  have "length (hs_bytes s) = 32" for s
    by (cases s) (simp add: bytes_of_word_def)
  then show ?thesis by (simp add: sha256_def Let_def)
qed

lemma be_bytes64_length [simp]: "length (be_bytes64 n) = 8"
  by (simp add: be_bytes64_def)

text \<open>Padding fills whole blocks, so the block loop consumes every byte of the message.\<close>

lemma sha_pad_blocks: "length (sha_pad msg) mod 64 = 0"
proof -
  define q r where "q = length msg div 64" and "r = length msg mod 64"
  then have n: "length msg = 64 * q + r" and r: "r < 64" by simp_all
  have k: "(119 - r) mod 64 = (if r \<le> 55 then 55 - r else 119 - r)"
    using r by (auto simp: mod_if)
  have "length (sha_pad msg) = (if r \<le> 55 then 64 * (q + 1) else 64 * (q + 2))"
    using r by (simp add: sha_pad_def Let_def r_def [symmetric] k n)
  then show ?thesis by auto
qed

section \<open>Text and numbers as bytes\<close>

text \<open>A \<open>str\<close> as its code points; the surrogate code points have no UTF-8 encoding.\<close>

definition utf8_char :: "nat \<Rightarrow> byte list res" where
  "utf8_char c =
     (if c < 0x80 then Inr [of_nat c]
      else if c < 0x800 then Inr [of_nat (0xC0 + c div 64), of_nat (0x80 + c mod 64)]
      else if 0xD800 \<le> c \<and> c \<le> 0xDFFF then Inl (UnicodeEncodeError ''surrogates not allowed'')
      else if c < 0x10000
        then Inr [of_nat (0xE0 + c div 4096), of_nat (0x80 + c div 64 mod 64), of_nat (0x80 + c mod 64)]
      else Inr [of_nat (0xF0 + c div 262144), of_nat (0x80 + c div 4096 mod 64),
                of_nat (0x80 + c div 64 mod 64), of_nat (0x80 + c mod 64)])"

definition utf8_encode :: "nat list \<Rightarrow> byte list res" where
  "utf8_encode cs = rbind (mapR utf8_char cs) (\<lambda>bss. Inr (concat bss))"

definition is_surrogate :: "nat \<Rightarrow> bool" where
  "is_surrogate c \<longleftrightarrow> 0xD800 \<le> c \<and> c \<le> 0xDFFF"

lemma utf8_char_ok: "(\<exists>bs. utf8_char c = Inr bs) \<longleftrightarrow> \<not> is_surrogate c"
  by (auto simp: utf8_char_def is_surrogate_def)

lemma utf8_encode_ok: "(\<exists>bs. utf8_encode cs = Inr bs) \<longleftrightarrow> (\<forall>c \<in> set cs. \<not> is_surrogate c)"
proof (induction cs)
  case (Cons c cs)
  then show ?case
    using utf8_char_ok [of c] by (auto simp: utf8_encode_def res_simps)
qed (simp add: utf8_encode_def)

text \<open>\<^verbatim>\<open>s.encode("utf-8")\<close> of a string over code points below 256, which cannot fail.\<close>

definition str_encode :: "string \<Rightarrow> byte list" where
  "str_encode s =
     concat (map (\<lambda>c. case utf8_char (of_char c) of Inr bs \<Rightarrow> bs | Inl _ \<Rightarrow> []) s)"

lemma str_encode_utf8: "utf8_encode (map of_char s) = Inr (str_encode s)"
proof (induction s)
  case (Cons c s)
  have "\<not> is_surrogate (of_char c)"
    by (cases c) (simp add: is_surrogate_def)
  then obtain bs where "utf8_char (of_char c) = Inr bs"
    using utf8_char_ok by blast
  with Cons show ?case by (auto simp: utf8_encode_def str_encode_def res_simps)
qed (simp_all add: utf8_encode_def str_encode_def)

definition from_bytes_big :: "byte list \<Rightarrow> nat" where
  "from_bytes_big bs = foldl (\<lambda>a b. 256 * a + unat b) 0 bs"

lemma from_bytes_big_snoc: "from_bytes_big (bs @ [b]) = 256 * from_bytes_big bs + unat b"
  by (simp add: from_bytes_big_def)

definition hex_digit :: "nat \<Rightarrow> char" where
  "hex_digit d = (if d < 10 then char_of (48 + d) else char_of (87 + d))"

definition hex :: "byte list \<Rightarrow> string" where
  "hex bs = concat (map (\<lambda>b. [hex_digit (unat b div 16), hex_digit (unat b mod 16)]) bs)"

lemma hex_length: "length (hex bs) = 2 * length bs"
  by (induction bs) (auto simp: hex_def)

text \<open>Two digests print alike only when they are equal.\<close>

lemma hex_digit_inject: "d < 16 \<Longrightarrow> d' < 16 \<Longrightarrow> hex_digit d = hex_digit d' \<Longrightarrow> d = d'"
  by (auto simp: hex_digit_def char_of_eq_iff take_bit_nat_eq_self split: if_splits)

lemma hex_inject [simp]: "hex bs = hex cs \<longleftrightarrow> bs = cs"
proof
  show "hex bs = hex cs \<Longrightarrow> bs = cs"
  proof (induction bs arbitrary: cs)
    case Nil
    then show ?case by (cases cs) (auto simp: hex_def)
  next
    case (Cons b bs)
    then obtain c cs' where cs: "cs = c # cs'" by (cases cs) (auto simp: hex_def)
    have lt: "unat x div 16 < 16" for x :: byte
      using unsigned_less [of x, where ?'a = nat] by simp
    from Cons.prems cs have "hex_digit (unat b div 16) = hex_digit (unat c div 16)"
      "hex_digit (unat b mod 16) = hex_digit (unat c mod 16)" "hex bs = hex cs'"
      by (auto simp: hex_def)
    then have "unat b div 16 = unat c div 16" "unat b mod 16 = unat c mod 16" "bs = cs'"
      using lt hex_digit_inject Cons.IH by auto
    then show ?case using cs by (metis div_mult_mod_eq word_unat_eq_iff)
  qed
qed simp

end
