(* ===== verification/Partition.thy ===== *)
theory Partition
  imports Sha256
begin

text \<open>
  The workflow-to-partition contract, \<^verbatim>\<open>python/durable_contracts/partition.py\<close>: the first eight
  bytes of the SHA-256 of the UTF-8 workflow ID, read big-endian, modulo sixteen partitions.
\<close>

definition PARTITION_COUNT :: nat where
  "PARTITION_COUNT = 16"

definition partition_for :: "nat list \<Rightarrow> nat res" where
  "partition_for workflow_id =
     (if workflow_id = [] then Inl (ValueError ''workflow ID must not be empty'')
      else rbind (utf8_encode workflow_id) (\<lambda>encoded.
        let digest = sha256 encoded; v = from_bytes_big (take 8 digest)
        in Inr (v mod PARTITION_COUNT)))"

section \<open>Properties\<close>

lemma partition_low_nibble:
  assumes "length ds = 32"
  shows "from_bytes_big (take 8 ds) mod 16 = unat (ds ! 7) mod 16"
proof -
  from assms have "take 8 ds = take 7 ds @ [ds ! 7]"
    using take_Suc_conv_app_nth [of 7 ds] by simp
  then have "from_bytes_big (take 8 ds) = 256 * from_bytes_big (take 7 ds) + unat (ds ! 7)"
    by (simp add: from_bytes_big_snoc)
  then show ?thesis by (simp add: mod_add_eq [symmetric] mod_mult_left_eq [symmetric])
qed

text \<open>
  The partition function is total on non-empty encodable IDs and its result is a valid
  partition: the low four bits of the eighth digest byte. An empty ID raises \<open>ValueError\<close>, an
  ID with a lone surrogate raises \<open>UnicodeEncodeError\<close>, and nothing else is refused.
\<close>

theorem partition_for_spec:
  "(partition_for w = Inl (ValueError ''workflow ID must not be empty'')) = (w = [])
   \<and> ((\<exists>p. partition_for w = Inr p) = (w \<noteq> [] \<and> (\<forall>c \<in> set w. \<not> is_surrogate c)))
   \<and> (\<forall>p. partition_for w = Inr p \<longrightarrow>
        p < PARTITION_COUNT
        \<and> (\<exists>enc. utf8_encode w = Inr enc \<and> p = unat (sha256 enc ! 7) mod 16))"
proof (intro conjI)
  have enc_err: "utf8_encode w = Inl e \<Longrightarrow> e = UnicodeEncodeError ''surrogates not allowed''" for e
  proof (induction w arbitrary: e)
    case (Cons c w)
    then show ?case by (auto simp: utf8_encode_def res_simps utf8_char_def split: if_splits)
  qed (simp add: utf8_encode_def)
  then show "(partition_for w = Inl (ValueError ''workflow ID must not be empty'')) = (w = [])"
    by (auto simp: partition_for_def res_simps Let_def)
  show "(\<exists>p. partition_for w = Inr p) = (w \<noteq> [] \<and> (\<forall>c \<in> set w. \<not> is_surrogate c))"
    using utf8_encode_ok [of w] by (auto simp: partition_for_def res_simps Let_def)
  show "\<forall>p. partition_for w = Inr p \<longrightarrow> p < PARTITION_COUNT
        \<and> (\<exists>enc. utf8_encode w = Inr enc \<and> p = unat (sha256 enc ! 7) mod 16)"
    by (auto simp: partition_for_def res_simps Let_def PARTITION_COUNT_def partition_low_nibble
        split: if_splits)
qed

theorem partition_for_spec_witness: "\<exists>p. partition_for [119, 102] = Inr p \<and> p < 16"
proof -
  obtain p where "partition_for [119, 102] = Inr p"
    using partition_for_spec [of "[119, 102]"] by (auto simp: is_surrogate_def)
  then show ?thesis using partition_for_spec [of "[119, 102]"] by (auto simp: PARTITION_COUNT_def)
qed

end
