(* ===== verification/Registry.thy ===== *)
theory Registry
  imports Sha256
begin

text \<open>
  The versioned activity registry of \<^verbatim>\<open>python/workers/registry.py\<close>: a dictionary from
  \<open>name@version\<close> to a callable, write-once per key, and the default registry that the
  worker builds from its environment.
\<close>

section \<open>The registry\<close>

type_synonym activity = "json \<Rightarrow> json res"

record activity_registry =
  activities :: "(string \<times> activity) list"

definition new_registry :: activity_registry where
  "new_registry = \<lparr>activities = []\<rparr>"

definition registry_key :: "string \<Rightarrow> string \<Rightarrow> string" where
  "registry_key name version = name @ ''@'' @ version"

definition register :: "string \<Rightarrow> string \<Rightarrow> activity \<Rightarrow> activity_registry \<Rightarrow> activity_registry res" where
  "register name version activity r =
     rbind (ensure (name \<noteq> [] \<and> version \<noteq> []) (ValueError ''activity name and version are required'')) (\<lambda>_.
       let key = registry_key name version in
       if key \<in> fst ` set (activities r)
       then Inl (ValueError (''activity already registered: '' @ key))
       else Inr (r\<lparr>activities := dict_set key activity (activities r)\<rparr>))"

definition resolve :: "string \<Rightarrow> string \<Rightarrow> activity_registry \<Rightarrow> activity res" where
  "resolve name version r =
     (case map_of (activities r) (registry_key name version) of
        Some a \<Rightarrow> Inr a
      | None \<Rightarrow> Inl (LookupError (''activity is not registered: '' @ name @ ''@'' @ version)))"

text \<open>\<^verbatim>\<open>sorted(key.rsplit("@", 1) for key in ...)\<close>, unpacked into name and version.\<close>

definition manifest :: "activity_registry \<Rightarrow> (string \<times> string) list res" where
  "manifest r =
     rbind (mapR (\<lambda>(key, _). case rsplit1 (CHR ''@'') key of
                     Some p \<Rightarrow> Inr p
                   | None \<Rightarrow> Inl (ValueError ''not enough values to unpack'')) (activities r))
       (\<lambda>ps. Inr (sort ps))"

section \<open>The activities\<close>

text \<open>
  \<^verbatim>\<open>sum(value) if isinstance(value, list) else value\<close>. The parameter \<open>fsum\<close> is the sum of
  a list of numbers of which one is a float (IEEE arithmetic).
\<close>

definition is_number :: "json \<Rightarrow> bool" where
  "is_number v \<longleftrightarrow> (case v of JInt _ \<Rightarrow> True | JBool _ \<Rightarrow> True | JFloat _ \<Rightarrow> True | _ \<Rightarrow> False)"

definition is_float :: "json \<Rightarrow> bool" where
  "is_float v \<longleftrightarrow> (case v of JFloat _ \<Rightarrow> True | _ \<Rightarrow> False)"

definition pure_add :: "(json list \<Rightarrow> json) \<Rightarrow> activity" where
  "pure_add fsum v =
     (case v of
        JArr xs \<Rightarrow>
          if \<exists>x \<in> set xs. \<not> is_number x then Inl (TypeError ''unsupported operand type(s) for +'')
          else if \<exists>x \<in> set xs. is_float x then Inr (fsum xs)
          else Inr (JInt (sum_list (map (\<lambda>x. case as_int x of Some i \<Rightarrow> i | None \<Rightarrow> 0) xs)))
      | _ \<Rightarrow> Inr v)"

definition pure_echo :: activity where
  "pure_echo v = Inr v"

definition cpu_work :: "nat \<Rightarrow> activity" where
  "cpu_work units v =
     Inr (JObj [(''digest'', JStr (hex ((sha256 ^^ units) (replicate 32 0)))),
                (''work_units'', JInt (int units))])"

text \<open>One round of the campaign workload: stir one byte of the block with one byte of the last
  digest, then hash the block.\<close>

definition stir :: "nat \<Rightarrow> byte list \<times> byte list \<Rightarrow> byte list \<times> byte list" where
  "stir i bd =
     (let block = fst bd; digest = snd bd; off = i mod length block;
          block' = block[off := block ! off + digest ! (i mod length digest)]
      in (block', sha256 block'))"

definition sha256_workload :: "nat \<Rightarrow> activity" where
  "sha256_workload work_units v =
     Inr (JObj [(''digest'', JStr (hex (snd (fold stir [0..<work_units]
                                (map of_nat [0..<256], replicate 32 0))))),
                (''work_units'', JInt (int work_units))])"

section \<open>The default registry\<close>

type_synonym environ = "string \<Rightarrow> string option"

definition getenv :: "environ \<Rightarrow> string \<Rightarrow> string \<Rightarrow> string" where
  "getenv env name dflt = (case env name of Some v \<Rightarrow> v | None \<Rightarrow> dflt)"

definition int_or_raise :: "string \<Rightarrow> int res" where
  "int_or_raise text =
     (case py_int text of Some i \<Rightarrow> Inr i | None \<Rightarrow> Inl (ValueError ''invalid literal for int()''))"

definition flag_value :: "environ \<Rightarrow> string \<Rightarrow> bool res" where
  "flag_value env name =
     (let v = getenv env name ''0'' in
      rbind (ensure (v = ''0'' \<or> v = ''1'') (ValueError (name @ '' must be 0 or 1''))) (\<lambda>_.
        Inr (v = ''1'')))"

definition workload_names :: "string list" where
  "workload_names =
     map (\<lambda>i. ''dur050.sha256.seq8.'' @ show_nat i) [0..<8]
     @ map (\<lambda>i. ''dur050.sha256.fanout8.'' @ show_nat i) [0..<8]"

definition register_cpu :: "environ \<Rightarrow> activity_registry \<Rightarrow> activity_registry res" where
  "register_cpu env r =
     rbind (flag_value env ''DUR053_ALLOW_FIXTURE_ACTIVITY'') (\<lambda>on.
       if \<not> on then Inr r
       else rbind (int_or_raise (getenv env ''DUR053_CPU_WORK_UNITS'' ''10000'')) (\<lambda>units.
         rbind (ensure (1 \<le> units \<and> units \<le> 1000000)
                  (ValueError ''DUR053_CPU_WORK_UNITS must be between 1 and 1000000'')) (\<lambda>_.
           register ''dur053.cpu'' ''v1'' (cpu_work (nat units)) r)))"

definition register_sleep :: "environ \<Rightarrow> activity_registry \<Rightarrow> activity_registry res" where
  "register_sleep env r =
     rbind (int_or_raise (getenv env ''DUR048_ACTIVITY_DELAY_MS'' ''0'')) (\<lambda>delay_ms.
       if 0 < delay_ms then register ''dur048.sleep'' ''v1'' pure_echo r else Inr r)"

definition register_workload :: "environ \<Rightarrow> activity_registry \<Rightarrow> activity_registry res" where
  "register_workload env r =
     rbind (flag_value env ''DUR050_ENABLE_SHA256_ACTIVITY'') (\<lambda>on.
       if \<not> on then Inr r
       else case py_int (getenv env ''DUR050_SHA256_WORK_UNITS'' ''5000'') of
         None \<Rightarrow> Inl (ValueError ''DUR050_SHA256_WORK_UNITS must be a positive integer'')
       | Some units \<Rightarrow>
           rbind (ensure (0 < units \<and> units \<le> 1000000)
                    (ValueError ''DUR050_SHA256_WORK_UNITS must be between 1 and 1000000'')) (\<lambda>_.
             foldR (\<lambda>name. register name ''v1'' (sha256_workload (nat units))) workload_names r))"

definition default_registry :: "(json list \<Rightarrow> json) \<Rightarrow> environ \<Rightarrow> activity_registry res" where
  "default_registry fsum env =
     rbind (register ''pure.echo'' ''v1'' pure_echo new_registry) (\<lambda>r.
     rbind (register ''pure.add'' ''v1'' (pure_add fsum) r) (\<lambda>r.
     rbind (register_cpu env r) (\<lambda>r.
     rbind (register_sleep env r) (\<lambda>r.
     register_workload env r))))"

section \<open>Laws of the registry\<close>

definition registered :: "string \<Rightarrow> activity_registry \<Rightarrow> activity option" where
  "registered key r = map_of (activities r) key"

lemma register_Inr [res_simps]:
  "register n v a r = Inr r' \<longleftrightarrow>
     n \<noteq> [] \<and> v \<noteq> [] \<and> registered (registry_key n v) r = None
     \<and> r' = r\<lparr>activities := activities r @ [(registry_key n v, a)]\<rparr>"
  by (auto simp: register_def registered_def Let_def res_simps map_of_eq_None_iff dict_set_fresh)

interpretation reg: write_once "\<lambda>p. registry_key (fst p) (snd p)" "\<lambda>p. register (fst p) (snd p)"
  registered
  by unfold_locales (auto simp: register_Inr registered_def map_add_def split: option.splits)

lemma resolve_iff:
  "resolve n v r = Inr a \<longleftrightarrow> registered (registry_key n v) r = Some a"
  by (auto simp: resolve_def registered_def split: option.splits)

text \<open>A version without the separator makes the key decodable.\<close>

lemma registry_key_decode: "CHR ''@'' \<notin> set v \<Longrightarrow> rsplit1 (CHR ''@'') (registry_key n v) = Some (n, v)"
  by (simp add: registry_key_def rsplit1_last)

lemma registry_key_inject:
  "CHR ''@'' \<notin> set v \<Longrightarrow> CHR ''@'' \<notin> set v' \<Longrightarrow>
   registry_key n v = registry_key n' v' \<longleftrightarrow> n = n' \<and> v = v'"
  by (metis Pair_inject option.inject registry_key_decode)

lemma registers_activities:
  "foldR (\<lambda>(n, v, a). register n v a) entries r = Inr r' \<Longrightarrow>
   activities r' = activities r @ map (\<lambda>(n, v, a). (registry_key n v, a)) entries"
  by (induction entries arbitrary: r) (auto simp: res_simps)

lemma registers_succeed:
  assumes "distinct (map (\<lambda>(n, v, a). registry_key n v) entries)"
    and "\<forall>(n, v, a) \<in> set entries. n \<noteq> [] \<and> v \<noteq> [] \<and> registered (registry_key n v) r = None"
  shows "\<exists>r'. foldR (\<lambda>(n, v, a). register n v a) entries r = Inr r'"
  using assms
proof (induction entries arbitrary: r)
  case (Cons e entries)
  obtain n v a where e: "e = (n, v, a)" by (cases e)
  define t where "t = r\<lparr>activities := activities r @ [(registry_key n v, a)]\<rparr>"
  from Cons.prems e have t: "register n v a r = Inr t"
    by (simp add: register_Inr t_def)
  have "\<exists>r'. foldR (\<lambda>(n, v, a). register n v a) entries t = Inr r'"
  proof (rule Cons.IH)
    show "distinct (map (\<lambda>(n, v, a). registry_key n v) entries)"
      using Cons.prems(1) by simp
    show "\<forall>(n, v, a) \<in> set entries. n \<noteq> [] \<and> v \<noteq> [] \<and> registered (registry_key n v) t = None"
      using Cons.prems e reg.put_other [of "(n, v)" a r t] t by (fastforce simp: image_iff)
  qed
  with e t show ?case by simp
qed simp

text \<open>The names the worker offers under a given environment, and when the environment is valid.\<close>

definition default_names :: "environ \<Rightarrow> string list" where
  "default_names env =
     [''pure.echo'', ''pure.add'']
     @ (if getenv env ''DUR053_ALLOW_FIXTURE_ACTIVITY'' ''0'' = ''1'' then [''dur053.cpu''] else [])
     @ (case py_int (getenv env ''DUR048_ACTIVITY_DELAY_MS'' ''0'') of
          Some d \<Rightarrow> if 0 < d then [''dur048.sleep''] else [] | None \<Rightarrow> [])
     @ (if getenv env ''DUR050_ENABLE_SHA256_ACTIVITY'' ''0'' = ''1'' then workload_names else [])"

definition units_ok :: "environ \<Rightarrow> string \<Rightarrow> string \<Rightarrow> string \<Rightarrow> bool" where
  "units_ok env flag name dflt \<longleftrightarrow>
     getenv env flag ''0'' = ''0''
     \<or> getenv env flag ''0'' = ''1''
       \<and> (case py_int (getenv env name dflt) of Some u \<Rightarrow> 1 \<le> u \<and> u \<le> 1000000 | None \<Rightarrow> False)"

definition config_ok :: "environ \<Rightarrow> bool" where
  "config_ok env \<longleftrightarrow>
     units_ok env ''DUR053_ALLOW_FIXTURE_ACTIVITY'' ''DUR053_CPU_WORK_UNITS'' ''10000''
     \<and> py_int (getenv env ''DUR048_ACTIVITY_DELAY_MS'' ''0'') \<noteq> None
     \<and> units_ok env ''DUR050_ENABLE_SHA256_ACTIVITY'' ''DUR050_SHA256_WORK_UNITS'' ''5000''"

lemma workload_names_eq:
  "workload_names =
    [''dur050.sha256.seq8.0'', ''dur050.sha256.seq8.1'', ''dur050.sha256.seq8.2'',
     ''dur050.sha256.seq8.3'', ''dur050.sha256.seq8.4'', ''dur050.sha256.seq8.5'',
     ''dur050.sha256.seq8.6'', ''dur050.sha256.seq8.7'', ''dur050.sha256.fanout8.0'',
     ''dur050.sha256.fanout8.1'', ''dur050.sha256.fanout8.2'', ''dur050.sha256.fanout8.3'',
     ''dur050.sha256.fanout8.4'', ''dur050.sha256.fanout8.5'', ''dur050.sha256.fanout8.6'',
     ''dur050.sha256.fanout8.7'']"
  by code_simp

lemma flag_value_Inr [res_simps]:
  "flag_value env name = Inr on \<longleftrightarrow>
     (getenv env name ''0'' = ''0'' \<or> getenv env name ''0'' = ''1'') \<and> on = (getenv env name ''0'' = ''1'')"
  by (auto simp: flag_value_def Let_def res_simps)

lemma int_or_raise_Inr [res_simps]: "int_or_raise t = Inr i \<longleftrightarrow> py_int t = Some i"
  by (auto simp: int_or_raise_def split: option.splits)

definition entry_keys :: "string list \<Rightarrow> string list" where
  "entry_keys = map (\<lambda>n. registry_key n ''v1'')"

lemma registered_None: "registered k r = None \<longleftrightarrow> k \<notin> set (map fst (activities r))"
  by (simp add: registered_def map_of_eq_None_iff)

lemma register_cpu_keys:
  "register_cpu env r = Inr r' \<Longrightarrow>
   map fst (activities r') = map fst (activities r)
     @ entry_keys (if getenv env ''DUR053_ALLOW_FIXTURE_ACTIVITY'' ''0'' = ''1'' then [''dur053.cpu''] else [])"
  by (auto simp: register_cpu_def res_simps entry_keys_def split: if_splits)

lemma register_sleep_keys:
  "register_sleep env r = Inr r' \<Longrightarrow>
   map fst (activities r') = map fst (activities r)
     @ entry_keys (case py_int (getenv env ''DUR048_ACTIVITY_DELAY_MS'' ''0'') of
          Some d \<Rightarrow> if 0 < d then [''dur048.sleep''] else [] | None \<Rightarrow> [])"
  by (auto simp: register_sleep_def int_or_raise_def register_Inr entry_keys_def
      split: if_splits option.splits)

lemma workload_registers:
  "foldR (\<lambda>name. register name ''v1'' a) ns r
   = foldR (\<lambda>(n, v, a). register n v a) (map (\<lambda>n. (n, ''v1'', a)) ns) r"
  by (induction ns arbitrary: r) (auto intro!: arg_cong [where f = "rbind _"])

lemma register_workload_keys:
  "register_workload env r = Inr r' \<Longrightarrow>
   map fst (activities r') = map fst (activities r)
     @ entry_keys (if getenv env ''DUR050_ENABLE_SHA256_ACTIVITY'' ''0'' = ''1'' then workload_names else [])"
  by (auto simp: register_workload_def res_simps entry_keys_def workload_registers comp_def
      dest!: registers_activities split: if_splits option.splits)

lemma register_cpu_ok:
  assumes "units_ok env ''DUR053_ALLOW_FIXTURE_ACTIVITY'' ''DUR053_CPU_WORK_UNITS'' ''10000''"
    and "registry_key ''dur053.cpu'' ''v1'' \<notin> set (map fst (activities r))"
  shows "\<exists>r'. register_cpu env r = Inr r'"
  using assms by (auto simp: register_cpu_def units_ok_def res_simps registered_None split: option.splits)

lemma register_sleep_ok:
  assumes "py_int (getenv env ''DUR048_ACTIVITY_DELAY_MS'' ''0'') \<noteq> None"
    and "registry_key ''dur048.sleep'' ''v1'' \<notin> set (map fst (activities r))"
  shows "\<exists>r'. register_sleep env r = Inr r'"
  using assms by (auto simp: register_sleep_def int_or_raise_def register_Inr registered_None)

lemma workload_names_distinct: "distinct (entry_keys workload_names)"
  by (simp add: workload_names_eq entry_keys_def registry_key_def)

lemma register_workload_ok:
  assumes u: "units_ok env ''DUR050_ENABLE_SHA256_ACTIVITY'' ''DUR050_SHA256_WORK_UNITS'' ''5000''"
    and fresh: "set (entry_keys workload_names) \<inter> set (map fst (activities r)) = {}"
  shows "\<exists>r'. register_workload env r = Inr r'"
proof -
  have "\<exists>r'. foldR (\<lambda>name. register name ''v1'' a) workload_names r = Inr r'" for a
    unfolding workload_registers
  proof (rule registers_succeed)
    show "distinct (map (\<lambda>(n, v, a). registry_key n v) (map (\<lambda>n. (n, ''v1'', a)) workload_names))"
      using workload_names_distinct by (simp add: entry_keys_def comp_def)
    have "[] \<notin> set workload_names" by (simp add: workload_names_eq)
    then show "\<forall>(n, v, a) \<in> set (map (\<lambda>n. (n, ''v1'', a)) workload_names).
        n \<noteq> [] \<and> v \<noteq> [] \<and> registered (registry_key n v) r = None"
      using fresh by (auto simp: registered_None entry_keys_def)
  qed
  with u show ?thesis
    by (auto simp: register_workload_def units_ok_def res_simps split: option.splits)
qed

lemma default_registry_keys:
  assumes "default_registry fsum env = Inr r"
  shows "map fst (activities r) = entry_keys (default_names env)"
proof -
  from assms obtain r1 r2 r3 r4 where
    r1: "register ''pure.echo'' ''v1'' pure_echo new_registry = Inr r1"
    and r2: "register ''pure.add'' ''v1'' (pure_add fsum) r1 = Inr r2"
    and r3: "register_cpu env r2 = Inr r3" and r4: "register_sleep env r3 = Inr r4"
    and r5: "register_workload env r4 = Inr r"
    by (auto simp: default_registry_def rbind_eq_Inr)
  from r1 r2 have "map fst (activities r2) = entry_keys [''pure.echo'', ''pure.add'']"
    by (simp add: register_Inr new_registry_def entry_keys_def)
  with register_cpu_keys [OF r3] register_sleep_keys [OF r4] register_workload_keys [OF r5]
  show ?thesis by (simp add: default_names_def entry_keys_def)
qed

lemma default_registry_succeeds:
  assumes "config_ok env"
  shows "\<exists>r. default_registry fsum env = Inr r"
proof -
  define r2 where "r2 = \<lparr>activities = [(registry_key ''pure.echo'' ''v1'', pure_echo),
                                      (registry_key ''pure.add'' ''v1'', pure_add fsum)]\<rparr>"
  have two: "rbind (register ''pure.echo'' ''v1'' pure_echo new_registry)
      (\<lambda>r. register ''pure.add'' ''v1'' (pure_add fsum) r) = Inr r2"
    by (simp add: rbind_eq_Inr register_Inr new_registry_def registered_def r2_def registry_key_def)
  from assms have u1: "units_ok env ''DUR053_ALLOW_FIXTURE_ACTIVITY'' ''DUR053_CPU_WORK_UNITS'' ''10000''"
    and d: "py_int (getenv env ''DUR048_ACTIVITY_DELAY_MS'' ''0'') \<noteq> None"
    and u2: "units_ok env ''DUR050_ENABLE_SHA256_ACTIVITY'' ''DUR050_SHA256_WORK_UNITS'' ''5000''"
    by (simp_all add: config_ok_def)
  obtain r3 where r3: "register_cpu env r2 = Inr r3"
    using register_cpu_ok [OF u1, of r2] by (auto simp: r2_def registry_key_def)
  note k3 = register_cpu_keys [OF r3]
  have "registry_key ''dur048.sleep'' ''v1'' \<notin> set (map fst (activities r3))"
    unfolding k3 by (auto simp: r2_def entry_keys_def registry_key_def)
  then obtain r4 where r4: "register_sleep env r3 = Inr r4"
    using register_sleep_ok [OF d] by blast
  note k4 = register_sleep_keys [OF r4]
  have "set (entry_keys workload_names) \<inter> set (map fst (activities r4)) = {}"
    unfolding k4 k3
    by (auto simp: r2_def entry_keys_def registry_key_def workload_names_eq split: option.splits)
  then obtain r5 where "register_workload env r4 = Inr r5"
    using register_workload_ok [OF u2] by blast
  with two r3 r4 have "default_registry fsum env = Inr r5"
    by (simp add: default_registry_def rbind_eq_Inr) metis
  then show ?thesis by blast
qed

lemma register_cpu_config:
  "register_cpu env r = Inr r' \<Longrightarrow>
   units_ok env ''DUR053_ALLOW_FIXTURE_ACTIVITY'' ''DUR053_CPU_WORK_UNITS'' ''10000''"
  by (auto simp: register_cpu_def units_ok_def rbind_eq_Inr flag_value_Inr int_or_raise_Inr
      ensure_eq_Inr split: if_splits)

lemma register_sleep_config:
  "register_sleep env r = Inr r' \<Longrightarrow> py_int (getenv env ''DUR048_ACTIVITY_DELAY_MS'' ''0'') \<noteq> None"
  by (auto simp: register_sleep_def rbind_eq_Inr int_or_raise_Inr)

lemma register_workload_config:
  "register_workload env r = Inr r' \<Longrightarrow>
   units_ok env ''DUR050_ENABLE_SHA256_ACTIVITY'' ''DUR050_SHA256_WORK_UNITS'' ''5000''"
  by (auto simp: register_workload_def units_ok_def rbind_eq_Inr flag_value_Inr
      ensure_eq_Inr split: if_splits option.splits)

lemma default_registry_config:
  assumes "default_registry fsum env = Inr r"
  shows "config_ok env"
proof -
  from assms obtain r2 r3 r4 where "register_cpu env r2 = Inr r3"
    and "register_sleep env r3 = Inr r4" and "register_workload env r4 = Inr r"
    by (auto simp: default_registry_def rbind_eq_Inr)
  then show ?thesis
    unfolding config_ok_def
    using register_cpu_config register_sleep_config register_workload_config by blast
qed

section \<open>Properties\<close>

text \<open>
  A successful registration makes exactly the registered activity resolvable under its key,
  leaves the resolution of every other key as it was, and can never be repeated for that key.
\<close>

theorem register_resolve:
  assumes "register n v a r = Inr r'"
  shows "resolve n v r' = Inr a
    \<and> (\<forall>n' v'. registry_key n' v' \<noteq> registry_key n v \<longrightarrow> resolve n' v' r' = resolve n' v' r)
    \<and> (\<forall>b. register n v b r' =
            Inl (ValueError (''activity already registered: '' @ registry_key n v)))"
proof (intro conjI allI impI)
  from assms show "resolve n v r' = Inr a"
    using reg.put_get [of "(n, v)" a r r'] by (simp add: resolve_iff)
  fix n' v' assume "registry_key n' v' \<noteq> registry_key n v"
  then show "resolve n' v' r' = resolve n' v' r"
    using reg.put_other [of "(n, v)" a r r'] assms by (simp add: resolve_def registered_def)
next
  fix b
  from assms have "n \<noteq> []" "v \<noteq> []" "registry_key n v \<in> fst ` set (activities r')"
    by (auto simp: register_Inr)
  then show "register n v b r' =
      Inl (ValueError (''activity already registered: '' @ registry_key n v))"
    by (simp add: register_def Let_def)
qed

theorem register_resolve_witness:
  "\<exists>r'. register ''pure.echo'' ''v1'' pure_echo new_registry = Inr r' \<and> resolve ''pure.echo'' ''v1'' r' = Inr pure_echo"
proof -
  obtain r' where "register ''pure.echo'' ''v1'' pure_echo new_registry = Inr r'"
    by (auto simp: register_Inr new_registry_def registered_def)
  then show ?thesis using register_resolve by blast
qed

text \<open>
  The manifest lists exactly the registered (name, version) pairs, sorted, whenever no version
  contains the separator: splitting a key at its last \<open>@\<close> undoes the concatenation.
\<close>

theorem manifest_roundtrip:
  assumes "foldR (\<lambda>(n, v, a). register n v a) entries new_registry = Inr r"
    and "\<forall>(n, v, a) \<in> set entries. CHR ''@'' \<notin> set v"
  shows "manifest r = Inr (sort (map (\<lambda>(n, v, a). (n, v)) entries))"
proof -
  have "activities r = map (\<lambda>(n, v, a). (registry_key n v, a)) entries"
    using registers_activities [OF assms(1)] by (simp add: new_registry_def)
  moreover from assms(2) have
    "mapR (\<lambda>(key, _). case rsplit1 (CHR ''@'') key of Some p \<Rightarrow> Inr p
                     | None \<Rightarrow> Inl (ValueError ''not enough values to unpack''))
       (map (\<lambda>(n, v, a). (registry_key n v, a)) entries) = Inr (map (\<lambda>(n, v, a). (n, v)) entries)"
    by (induction entries) (auto simp: registry_key_decode)
  ultimately show ?thesis by (simp add: manifest_def)
qed

theorem manifest_roundtrip_witness:
  "\<exists>r. foldR (\<lambda>(n, v, a). register n v a)
        [(''b'', ''v1'', pure_echo), (''a'', ''v2'', pure_echo)] new_registry = Inr r
     \<and> manifest r = Inr [(''a'', ''v2''), (''b'', ''v1'')]"
proof -
  let ?es = "[(''b'', ''v1'', pure_echo), (''a'', ''v2'', pure_echo)]"
  obtain r where r: "foldR (\<lambda>(n, v, a). register n v a) ?es new_registry = Inr r"
    using registers_succeed [of ?es new_registry]
    by (auto simp: registry_key_def registered_def new_registry_def)
  have "manifest r = Inr (sort (map (\<lambda>(n, v, a). (n, v)) ?es))"
    by (rule manifest_roundtrip [OF r]) simp
  moreover have "sort (map (\<lambda>(n, v, a :: activity). (n, v)) ?es) = [(''a'', ''v2''), (''b'', ''v1'')]"
    by simp
  ultimately show ?thesis using r by auto
qed

text \<open>
  The default registry exists exactly for the valid environments, so its own registrations
  never collide, and it then offers exactly the documented names, each at version \<open>v1\<close>.
\<close>

theorem default_registry_spec:
  "(\<exists>r. default_registry fsum env = Inr r) = config_ok env
   \<and> (\<forall>r. default_registry fsum env = Inr r \<longrightarrow>
         map fst (activities r) = map (\<lambda>n. registry_key n ''v1'') (default_names env))"
  using default_registry_succeeds default_registry_config default_registry_keys
  by (auto simp: entry_keys_def)

theorem default_registry_spec_witness:
  "\<exists>r. default_registry (\<lambda>xs. JNull) (\<lambda>_. None) = Inr r
     \<and> map fst (activities r) = [''pure.echo@v1'', ''pure.add@v1'']"
proof -
  have py0: "py_int ''0'' = Some 0"
    by code_simp
  have "config_ok (\<lambda>_. None)"
    by (simp add: config_ok_def units_ok_def getenv_def py0)
  then obtain r where r: "default_registry (\<lambda>xs. JNull) (\<lambda>_. None) = Inr r"
    using default_registry_spec [of "\<lambda>xs. JNull" "\<lambda>_. None"] by auto
  then have "map fst (activities r) = map (\<lambda>n. registry_key n ''v1'') (default_names (\<lambda>_. None))"
    using default_registry_spec [of "\<lambda>xs. JNull" "\<lambda>_. None"] by blast
  then show ?thesis using r
    by (simp add: default_names_def getenv_def registry_key_def py0)
qed

end
