(* ===== verification/Redaction.thy ===== *)
theory Redaction
  imports Prelude
begin

text \<open>
  Redaction of evidence text (\<^verbatim>\<open>python/incident_agent/redaction.py\<close>). The patterns are written in
  a small regular-expression language with the semantics of Python's backtracking matcher: the
  candidate lengths of a match are listed in the order the matcher tries them, so the first one is
  the match. The main fact is that nothing the patterns look for survives redaction.
\<close>

section \<open>Backtracking regular expressions\<close>

text \<open>\<open>RRun P lo hi\<close> is the greedy repetition of one character class, \<open>RWordB\<close> the assertion
  \<^verbatim>\<open>\b\<close>.\<close>

datatype rx =
    REps
  | RCls "char \<Rightarrow> bool"
  | RRun "char \<Rightarrow> bool" nat "nat option"
  | RSeq rx rx
  | RAlt rx rx
  | RWordB

text \<open>\<^verbatim>\<open>\w\<close> below code point 256: the ASCII letters, digits and underscore, and the letters and
  numbers of Latin-1.\<close>

definition word_char :: "char \<Rightarrow> bool" where
  "word_char c =
     (let n = (of_char c :: nat) in
      48 \<le> n \<and> n \<le> 57 \<or> 65 \<le> n \<and> n \<le> 90 \<or> n = 95 \<or> 97 \<le> n \<and> n \<le> 122
      \<or> n \<in> {170, 178, 179, 181, 185, 186, 188, 189, 190}
      \<or> 192 \<le> n \<and> n \<noteq> 215 \<and> n \<noteq> 247)"

fun opt_word :: "char option \<Rightarrow> bool" where
  "opt_word None = False"
| "opt_word (Some c) = word_char c"

text \<open>A boundary lies between a position's previous character and its next one.\<close>

definition boundary :: "char option \<Rightarrow> string \<Rightarrow> bool" where
  "boundary p s \<longleftrightarrow> opt_word p \<noteq> (case s of [] \<Rightarrow> False | c # _ \<Rightarrow> word_char c)"

definition prev_at :: "char option \<Rightarrow> string \<Rightarrow> nat \<Rightarrow> char option" where
  "prev_at p s n = (if n = 0 then p else Some (s ! (n - 1)))"

definition run_max :: "(char \<Rightarrow> bool) \<Rightarrow> nat option \<Rightarrow> string \<Rightarrow> nat" where
  "run_max P hi s =
     (let k = length (takeWhile P s) in case hi of None \<Rightarrow> k | Some h \<Rightarrow> min k h)"

fun ms :: "rx \<Rightarrow> char option \<Rightarrow> string \<Rightarrow> nat list" where
  "ms REps p s = [0]"
| "ms (RCls P) p s = (case s of [] \<Rightarrow> [] | c # _ \<Rightarrow> if P c then [1] else [])"
| "ms (RRun P lo hi) p s = rev [lo..<Suc (run_max P hi s)]"
| "ms (RSeq a b) p s =
     concat (map (\<lambda>n. map ((+) n) (ms b (prev_at p s n) (drop n s))) (ms a p s))"
| "ms (RAlt a b) p s = ms a p s @ ms b p s"
| "ms RWordB p s = (if boundary p s then [0] else [])"

text \<open>
  One left-to-right scan for non-overlapping matches, as \<^verbatim>\<open>findall\<close> and \<^verbatim>\<open>sub\<close> do it: the
  assertion at a later position still sees the character before it in the scanned text. No pattern
  of this module matches the empty string, so an empty candidate is never taken.
\<close>

datatype seg = Lit char | Match string

fun segs :: "rx \<Rightarrow> char option \<Rightarrow> string \<Rightarrow> seg list" where
  "segs r p [] = []"
| "segs r p (c # s) =
     (case ms r p (c # s) of
        [] \<Rightarrow> Lit c # segs r (Some c) s
      | n # _ \<Rightarrow>
          if n = 0 then Lit c # segs r (Some c) s
          else Match (take n (c # s)) # segs r (prev_at p (c # s) n) (drop n (c # s)))"

fun seg_text :: "seg \<Rightarrow> string" where
  "seg_text (Lit c) = [c]"
| "seg_text (Match m) = m"

fun seg_sub :: "string \<Rightarrow> seg \<Rightarrow> string" where
  "seg_sub repl (Lit c) = [c]"
| "seg_sub repl (Match m) = repl"

definition findall :: "rx \<Rightarrow> string \<Rightarrow> string list" where
  "findall r text = concat (map (\<lambda>g. case g of Lit c \<Rightarrow> [] | Match m \<Rightarrow> [m]) (segs r None text))"

definition sub :: "rx \<Rightarrow> string \<Rightarrow> string \<Rightarrow> string" where
  "sub r repl text = concat (map (seg_sub repl) (segs r None text))"

section \<open>The patterns and the operations\<close>

definition upper :: "char \<Rightarrow> bool" where
  "upper c \<longleftrightarrow> 65 \<le> (of_char c :: nat) \<and> (of_char c :: nat) \<le> 90"

definition letter :: "char \<Rightarrow> bool" where
  "letter c \<longleftrightarrow> upper c \<or> 97 \<le> (of_char c :: nat) \<and> (of_char c :: nat) \<le> 122"

fun rx_lit :: "string \<Rightarrow> rx" where
  "rx_lit [] = REps"
| "rx_lit (c # s) = RSeq (RCls (\<lambda>x. x = c)) (rx_lit s)"

definition rx_word :: "rx \<Rightarrow> rx" where
  "rx_word r = RSeq RWordB (RSeq r RWordB)"

definition secret_rx :: rx where
  "secret_rx = rx_word
     (RSeq (RAlt (rx_lit ''sk'') (RAlt (rx_lit ''pk'') (RAlt (rx_lit ''token'') (rx_lit ''secret''))))
       (RSeq (rx_lit ''_'')
         (RRun (\<lambda>c. letter c \<or> is_digit c \<or> c \<in> set ''_-'') 8 None)))"

definition email_rx :: rx where
  "email_rx = rx_word
     (RSeq (RRun (\<lambda>c. letter c \<or> is_digit c \<or> c \<in> set ''._%+-'') 1 None)
       (RSeq (rx_lit ''@'')
         (RSeq (RRun (\<lambda>c. letter c \<or> is_digit c \<or> c \<in> set ''.-'') 1 None)
           (RSeq (rx_lit ''.'') (RRun letter 2 None)))))"

definition ip_rx :: rx where
  "ip_rx = rx_word
     (let octet = RRun is_digit 1 (Some 3); part = RSeq octet (rx_lit ''.'')
      in RSeq part (RSeq part (RSeq part octet)))"

definition canary_rx :: rx where
  "canary_rx = rx_word
     (RSeq (rx_lit ''CANARY_'')
       (RSeq (RAlt (rx_lit ''SECRET'') (rx_lit ''PII''))
         (RSeq (rx_lit ''_'')
           (RRun (\<lambda>c. upper c \<or> is_digit c \<or> c \<in> set ''_-'') 1 None))))"

definition PATTERNS :: "(string \<times> rx \<times> string) list" where
  "PATTERNS =
     [(''secret'', secret_rx, ''[REDACTED:SECRET]''),
      (''email'', email_rx, ''[REDACTED:EMAIL]''),
      (''ip'', ip_rx, ''[REDACTED:IP]''),
      (''canary'', canary_rx, ''[REDACTED:CANARY]'')]"

record redaction_result =
  rr_text :: string
  rr_count :: nat
  rr_categories :: "string list"

definition redact_with :: "string \<times> rx \<times> string \<Rightarrow> redaction_result \<Rightarrow> redaction_result" where
  "redact_with = (\<lambda>(category, pattern, replacement) acc.
     (let matches = findall pattern (rr_text acc) in
      if matches \<noteq> []
      then \<lparr> rr_text = sub pattern replacement (rr_text acc),
             rr_count = rr_count acc + length matches,
             rr_categories = rr_categories acc @ replicate (length matches) category \<rparr>
      else acc))"

definition redact :: "string \<Rightarrow> redaction_result" where
  "redact text = fold redact_with PATTERNS \<lparr> rr_text = text, rr_count = 0, rr_categories = [] \<rparr>"

definition scan_downstream :: "(string \<times> string) list \<Rightarrow> (string \<times> string) list" where
  "scan_downstream surfaces =
     concat (map (\<lambda>(surface, text).
       let result = redact text in
       if rr_count result \<noteq> 0 then [(surface, join '','' (rr_categories result))] else []) surfaces)"

section \<open>What a match can be\<close>

text \<open>Syntactic facts of a pattern: every character it consumes satisfies \<open>Q\<close>; every match
  consumes some character that satisfies \<open>Q\<close>.\<close>

fun rx_all :: "(char \<Rightarrow> bool) \<Rightarrow> rx \<Rightarrow> bool" where
  "rx_all Q REps = True"
| "rx_all Q (RCls P) = (\<forall>c. P c \<longrightarrow> Q c)"
| "rx_all Q (RRun P lo hi) = (\<forall>c. P c \<longrightarrow> Q c)"
| "rx_all Q (RSeq a b) = (rx_all Q a \<and> rx_all Q b)"
| "rx_all Q (RAlt a b) = (rx_all Q a \<and> rx_all Q b)"
| "rx_all Q RWordB = True"

fun rx_has :: "(char \<Rightarrow> bool) \<Rightarrow> rx \<Rightarrow> bool" where
  "rx_has Q REps = False"
| "rx_has Q (RCls P) = (\<forall>c. P c \<longrightarrow> Q c)"
| "rx_has Q (RRun P lo hi) = (0 < lo \<and> (\<forall>c. P c \<longrightarrow> Q c))"
| "rx_has Q (RSeq a b) = (rx_has Q a \<or> rx_has Q b)"
| "rx_has Q (RAlt a b) = (rx_has Q a \<and> rx_has Q b)"
| "rx_has Q RWordB = False"

lemma run_max_le: "run_max P hi s \<le> length (takeWhile P s)"
  by (auto simp: run_max_def Let_def split: option.splits)

lemma take_run:
  assumes "n \<le> run_max P hi s"
  shows "n \<le> length s" and "c \<in> set (take n s) \<Longrightarrow> P c"
proof -
  from assms have n: "n \<le> length (takeWhile P s)" using run_max_le [of P hi s] by simp
  then show "n \<le> length s" using length_takeWhile_le [of P s] by simp
  have "take n s = take n (takeWhile P s)"
    using n takeWhile_eq_take [of P s] by (metis min.absorb1 take_take)
  then show "c \<in> set (take n s) \<Longrightarrow> P c" by (metis in_set_takeD set_takeWhileD)
qed

lemma ms_SeqE:
  assumes "n \<in> set (ms (RSeq a b) p s)"
  obtains i j where "n = i + j" "i \<in> set (ms a p s)" "j \<in> set (ms b (prev_at p s i) (drop i s))"
  using assms by auto

lemma ms_length: "n \<in> set (ms r p s) \<Longrightarrow> n \<le> length s"
proof (induction r arbitrary: p s n)
  case (RRun P lo hi)
  then show ?case using take_run(1) [of n P hi s] by auto
next
  case (RSeq a b)
  from RSeq.prems obtain i j where ij: "n = i + j" "i \<in> set (ms a p s)"
      "j \<in> set (ms b (prev_at p s i) (drop i s))"
    by (rule ms_SeqE)
  then show ?case using RSeq.IH(1) [OF ij(2)] RSeq.IH(2) [OF ij(3)] by simp
qed (auto split: list.splits if_splits)

lemma ms_all: "n \<in> set (ms r p s) \<Longrightarrow> rx_all Q r \<Longrightarrow> c \<in> set (take n s) \<Longrightarrow> Q c"
proof (induction r arbitrary: p s n)
  case (RRun P lo hi)
  then show ?case using take_run(2) [of n P hi s c] by auto
next
  case (RSeq a b)
  from RSeq.prems(1) obtain i j where ij: "n = i + j" "i \<in> set (ms a p s)"
      "j \<in> set (ms b (prev_at p s i) (drop i s))"
    by (rule ms_SeqE)
  then have "c \<in> set (take i s) \<or> c \<in> set (take j (drop i s))"
    using RSeq.prems(3) by (auto simp: take_add)
  then show ?case using RSeq.IH(1) [OF ij(2)] RSeq.IH(2) [OF ij(3)] RSeq.prems(2) by auto
qed (auto split: list.splits if_splits)

lemma ms_has: "n \<in> set (ms r p s) \<Longrightarrow> rx_has Q r \<Longrightarrow> \<exists>c \<in> set (take n s). Q c"
proof (induction r arbitrary: p s n)
  case (RRun P lo hi)
  then have n: "0 < n" "n \<le> run_max P hi s" by auto
  then obtain c where "c \<in> set (take n s)"
    using take_run(1) [OF n(2)] by (cases s; cases n) auto
  then show ?case using take_run(2) [OF n(2)] RRun.prems(2) by auto
next
  case (RSeq a b)
  from RSeq.prems(1) obtain i j where ij: "n = i + j" "i \<in> set (ms a p s)"
      "j \<in> set (ms b (prev_at p s i) (drop i s))"
    by (rule ms_SeqE)
  have "set (take n s) = set (take i s) \<union> set (take j (drop i s))"
    by (simp add: ij(1) take_add)
  then show ?case using RSeq.IH(1) [OF ij(2)] RSeq.IH(2) [OF ij(3)] RSeq.prems(2) by auto
qed (auto split: list.splits if_splits)

lemma ms_word:
  assumes "n \<in> set (ms (rx_word r) p s)"
  shows "boundary p s" and "boundary (prev_at p s n) (drop n s)"
  using assms by (auto simp: rx_word_def prev_at_def split: if_splits)


lemma prev_at_add:
  "i + j \<le> length s \<Longrightarrow> prev_at p s (i + j) = prev_at (prev_at p s i) (drop i s) j"
  by (cases j) (auto simp: prev_at_def)

section \<open>A substitution creates no match\<close>

text \<open>
  How a text and the text after a substitution relate from one position on: they agree up to the
  end or up to an opening bracket, and a boundary of the new text is a boundary of the old one.
\<close>

inductive sub_ok :: "char option \<Rightarrow> string \<Rightarrow> char option \<Rightarrow> string \<Rightarrow> bool" where
  sub_end: "(boundary p' [] \<longrightarrow> boundary p []) \<Longrightarrow> sub_ok p [] p' []"
| sub_lit: "(boundary p' (c # s') \<longrightarrow> boundary p (c # s)) \<Longrightarrow> sub_ok (Some c) s (Some c) s'
    \<Longrightarrow> sub_ok p (c # s) p' (c # s')"
| sub_stop: "(boundary p' (CHR ''['' # x) \<longrightarrow> boundary p s) \<Longrightarrow> sub_ok p s p' (CHR ''['' # x)"

lemma sub_ok_boundary: "sub_ok p s p' s' \<Longrightarrow> boundary p' s' \<Longrightarrow> boundary p s"
  by (induction rule: sub_ok.induct) auto

lemma sub_ok_step:
  assumes "sub_ok p s p' (c # s')" and "c \<noteq> CHR ''[''"
  shows "\<exists>t. s = c # t \<and> sub_ok (Some c) t (Some c) s'"
  using assms by (cases rule: sub_ok.cases) auto

text \<open>A run of characters other than the bracket in the new text is there in the old one.\<close>

lemma sub_ok_drop:
  assumes "sub_ok p s p' s'" and "n \<le> length s'" and "CHR ''['' \<notin> set (take n s')"
  shows "n \<le> length s \<and> take n s = take n s'
    \<and> sub_ok (prev_at p s n) (drop n s) (prev_at p' s' n) (drop n s')"
  using assms
proof (induction n arbitrary: p s p' s')
  case 0
  then show ?case by (simp add: prev_at_def)
next
  case (Suc n)
  then obtain c u where s': "s' = c # u" "c \<noteq> CHR ''[''"
    by (cases s') auto
  with Suc.prems obtain t where t: "s = c # t" "sub_ok (Some c) t (Some c) u"
    using sub_ok_step [of p s p' c u] by auto
  have "n \<le> length t \<and> take n t = take n u
      \<and> sub_ok (prev_at (Some c) t n) (drop n t) (prev_at (Some c) u n) (drop n u)"
    using Suc.prems s' by (intro Suc.IH [OF t(2)]) auto
  moreover have "prev_at q (c # x) (Suc n) = prev_at (Some c) x n" for q x
    by (cases n) (auto simp: prev_at_def)
  ultimately show ?case using s' t by simp
qed

lemma takeWhile_take_le:
  "n \<le> length (takeWhile P s') \<Longrightarrow> take n s = take n s' \<Longrightarrow> n \<le> length (takeWhile P s)"
proof (induction n arbitrary: s s')
  case (Suc n)
  then show ?case by (cases s; cases s') (auto split: if_splits)
qed simp

lemma ms_sub_ok:
  assumes "n \<in> set (ms r p' s')" and "sub_ok p s p' s'" and "rx_all (\<lambda>c. c \<noteq> CHR ''['') r"
  shows "n \<in> set (ms r p s)"
  using assms
proof (induction r arbitrary: p s p' s' n)
  case (RCls P)
  then have n: "n = 1" and s': "\<exists>c u. s' = c # u \<and> P c"
    by (auto split: list.splits if_splits)
  with RCls.prems show ?case using sub_ok_step by fastforce
next
  case (RRun P lo hi)
  let ?b = "CHR ''[''"
  from RRun.prems(1) have n: "lo \<le> n" "n \<le> run_max P hi s'" by auto
  have "?b \<notin> set (take n s')"
    using take_run(2) [OF n(2), of ?b] RRun.prems(3) by auto
  then have t: "take n s = take n s'"
    using sub_ok_drop [OF RRun.prems(2) take_run(1) [OF n(2)]] by blast
  have "n \<le> length (takeWhile P s')" using n(2) run_max_le le_trans by blast
  then have "n \<le> length (takeWhile P s)" using t by (rule takeWhile_take_le)
  with n have "n \<le> run_max P hi s" by (auto simp: run_max_def Let_def split: option.splits)
  with n(1) show ?case by (simp del: upt_Suc)
next
  case (RSeq a b)
  from RSeq.prems(1) obtain i j where ij: "n = i + j" "i \<in> set (ms a p' s')"
      "j \<in> set (ms b (prev_at p' s' i) (drop i s'))"
    by (rule ms_SeqE)
  have all: "rx_all (\<lambda>c. c \<noteq> CHR ''['') a" "rx_all (\<lambda>c. c \<noteq> CHR ''['') b"
    using RSeq.prems(3) by auto
  have i: "i \<in> set (ms a p s)" by (rule RSeq.IH(1) [OF ij(2) RSeq.prems(2) all(1)])
  have "sub_ok (prev_at p s i) (drop i s) (prev_at p' s' i) (drop i s')"
    using sub_ok_drop [OF RSeq.prems(2) ms_length [OF ij(2)]] ms_all [OF ij(2) all(1)] by blast
  then have "j \<in> set (ms b (prev_at p s i) (drop i s))"
    by (rule RSeq.IH(2) [OF ij(3) _ all(2)])
  with i ij(1) show ?case by auto
qed (auto dest: sub_ok_boundary split: if_splits)

text \<open>No position of a text starts a match.\<close>

fun no_match :: "rx \<Rightarrow> char option \<Rightarrow> string \<Rightarrow> bool" where
  "no_match r p [] = True"
| "no_match r p (c # s) = (ms r p (c # s) = [] \<and> no_match r (Some c) s)"

lemma no_match_segs: "no_match r p s \<Longrightarrow> segs r p s = map Lit s"
  by (induction s arbitrary: p) auto

lemma no_match_findall: "no_match r None s \<Longrightarrow> findall r s = []"
  by (induction s) (simp_all add: findall_def no_match_segs)

lemma no_match_drop: "no_match r p s \<Longrightarrow> n \<le> length s \<Longrightarrow> no_match r (prev_at p s n) (drop n s)"
proof (induction n arbitrary: p s)
  case (Suc n)
  then obtain c u where s: "s = c # u" by (cases s) auto
  have "prev_at p (c # u) (Suc n) = prev_at (Some c) u n"
    by (cases n) (auto simp: prev_at_def)
  with s Suc show ?case by simp
qed (simp add: prev_at_def)

text \<open>The replacement texts: a bracketed word of upper-case letters and colons.\<close>

definition marker :: "string \<Rightarrow> bool" where
  "marker w \<longleftrightarrow> (\<exists>u. w = CHR ''['' # u @ [CHR '']''] \<and> (\<forall>c \<in> set u. upper c \<or> c = CHR '':''))"

definition redactable :: "rx \<Rightarrow> bool" where
  "redactable r \<longleftrightarrow> rx_all (\<lambda>c. c \<notin> set ''[]:'') r \<and> rx_has (\<lambda>c. \<not> upper c) r"

lemma rx_all_mono: "rx_all Q r \<Longrightarrow> (\<And>c. Q c \<Longrightarrow> Q' c) \<Longrightarrow> rx_all Q' r"
  by (induction r) auto

lemma ms_in_marker:
  assumes r: "redactable r" and u: "\<forall>c \<in> set u. upper c \<or> c = CHR '':''"
    and b: "b = u @ CHR '']'' # x \<or> b = CHR ''['' # u @ CHR '']'' # x"
  shows "ms r p b = []"
proof (rule ccontr)
  assume "ms r p b \<noteq> []"
  then obtain n where n: "n \<in> set (ms r p b)" by (cases "ms r p b") auto
  from r have all: "\<And>c. c \<in> set (take n b) \<Longrightarrow> c \<notin> set ''[]:''"
    and has: "\<exists>c \<in> set (take n b). \<not> upper c"
    using ms_all [OF n] ms_has [OF n] unfolding redactable_def by blast+
  from has have n0: "0 < n" by (cases n) auto
  have "CHR ''['' \<notin> set (take n b)" "CHR '']'' \<notin> set (take n b)" using all by auto
  with b n0 have b': "b = u @ CHR '']'' # x" by (cases n) auto
  have "n \<le> length u"
  proof (rule ccontr)
    assume "\<not> n \<le> length u"
    then obtain k where "n - length u = Suc k" by (metis Suc_diff_Suc not_le)
    then have "CHR '']'' \<in> set (take n b)" by (simp add: b')
    then show False using all by auto
  qed
  then have "set (take n b) \<subseteq> set u" by (simp add: b' set_take_subset)
  then show False using has all u by fastforce
qed

lemma no_match_marker_tail:
  assumes "redactable r" and "\<forall>c \<in> set u. upper c \<or> c = CHR '':''"
    and "no_match r (Some (CHR '']'')) x"
  shows "no_match r p (u @ CHR '']'' # x)"
  using assms(2)
proof (induction u arbitrary: p)
  case Nil
  then show ?case using ms_in_marker [OF assms(1), of "[]" "CHR '']'' # x" x p] assms(3) by simp
next
  case (Cons c u)
  then show ?case
    using ms_in_marker [OF assms(1), of "c # u" "(c # u) @ CHR '']'' # x" x p] by simp
qed


definition render :: "rx \<Rightarrow> string \<Rightarrow> char option \<Rightarrow> string \<Rightarrow> string" where
  "render q w p s = concat (map (seg_sub w) (segs q p s))"

lemma ms_pos: "n \<in> set (ms q p s) \<Longrightarrow> redactable q \<Longrightarrow> 0 < n"
  using ms_has [of n q p s "\<lambda>c. \<not> upper c"] by (cases n) (auto simp: redactable_def)

lemma render_Cons:
  assumes "redactable q"
  shows "render q w p (c # s) =
     (case ms q p (c # s) of
        [] \<Rightarrow> c # render q w (Some c) s
      | n # _ \<Rightarrow> w @ render q w (prev_at p (c # s) n) (drop n (c # s)))"
proof (cases "ms q p (c # s)")
  case (Cons n ns)
  then have "0 < n" using ms_pos [OF _ assms, of n p "c # s"] by simp
  with Cons show ?thesis by (simp add: render_def)
qed (simp add: render_def)

lemma render_boundary:
  assumes "redactable q" and "q = rx_word q'" and "marker w"
    and "boundary p' (render q w p s)" and "opt_word p' = opt_word p"
  shows "boundary p s"
proof (cases s)
  case Nil
  with assms(4,5) show ?thesis by (simp add: render_def boundary_def)
next
  case (Cons c t)
  show ?thesis
  proof (cases "ms q p s")
    case Nil
    with Cons assms show ?thesis by (simp add: render_Cons boundary_def)
  next
    case (Cons n ns)
    then show ?thesis using ms_word(1) [of n q' p s] assms(2) by simp
  qed
qed

lemma sub_ok_render:
  assumes "redactable q" and "q = rx_word q'" and "marker w"
    and "boundary p' (render q w p s) \<longrightarrow> boundary p s"
  shows "sub_ok p s p' (render q w p s)"
  using assms(4)
proof (induction s arbitrary: p p')
  case Nil
  then show ?case by (simp add: render_def sub_end)
next
  case (Cons c s)
  show ?case
  proof (cases "ms q p (c # s)")
    case Nil
    then have r: "render q w p (c # s) = c # render q w (Some c) s"
      by (simp add: render_Cons assms(1))
    have "sub_ok (Some c) s (Some c) (render q w (Some c) s)"
      by (rule Cons.IH) (use render_boundary [OF assms(1-3)] in blast)
    with Cons.prems show ?thesis unfolding r by (auto intro: sub_lit)
  next
    case (Cons n ns)
    then obtain x where "render q w p (c # s) = CHR ''['' # x"
      using assms(1,3) by (auto simp: render_Cons marker_def)
    with Cons.prems show ?thesis by (auto intro: sub_stop)
  qed
qed

text \<open>
  Substituting a marker for the matches of \<open>q\<close> leaves no match of \<open>q\<close> behind, and brings no
  match of another pattern into a text that had none.
\<close>

lemma no_match_render:
  assumes q: "redactable q" "q = rx_word q'" "marker w" and r: "redactable r"
    and "r = q \<or> no_match r p s" and "boundary p' (render q w p s) \<longrightarrow> boundary p s"
  shows "no_match r p' (render q w p s)"
  using assms(5,6)
proof (induction "length s" arbitrary: p p' s rule: less_induct)
  case less
  show ?case
  proof (cases s)
    case Nil
    then show ?thesis by (simp add: render_def)
  next
    case s: (Cons c t)
    have ok: "sub_ok p s p' (render q w p s)" by (rule sub_ok_render [OF q less.prems(2)])
    have nb: "rx_all (\<lambda>c. c \<noteq> CHR ''['') r"
      using r unfolding redactable_def by (auto elim: rx_all_mono)
    show ?thesis
    proof (cases "ms q p s")
      case Nil
      then have e: "render q w p s = c # render q w (Some c) t"
        by (simp add: s render_Cons q(1))
      have "ms r p s = []" using Nil less.prems(1) s by auto
      then have m: "ms r p' (render q w p s) = []"
        using ms_sub_ok [OF _ ok nb] by (metis list.set_intros(1) neq_Nil_conv empty_iff list.set(1))
      have "no_match r (Some c) (render q w (Some c) t)"
      proof (rule less.hyps)
        show "length t < length s" by (simp add: s)
        show "r = q \<or> no_match r (Some c) t" using less.prems(1) s by auto
        show "boundary (Some c) (render q w (Some c) t) \<longrightarrow> boundary (Some c) t"
          using render_boundary [OF q] by blast
      qed
      with m show ?thesis unfolding e by simp
    next
      case (Cons n ns)
      then have n: "n \<in> set (ms q p s)" by simp
      let ?p = "prev_at p s n" and ?s = "drop n s"
      obtain u where w: "w = CHR ''['' # u @ [CHR '']'']" "\<forall>c \<in> set u. upper c \<or> c = CHR '':''"
        using q(3) by (auto simp: marker_def)
      let ?x = "render q w ?p ?s"
      have e: "render q w p s = CHR ''['' # u @ CHR '']'' # ?x"
        using Cons by (simp add: s render_Cons q(1) w(1))
      have "no_match r (Some (CHR '']'')) ?x"
      proof (rule less.hyps)
        show "length ?s < length s" using ms_pos [OF n q(1)] s by simp
        show "r = q \<or> no_match r ?p ?s"
          using less.prems(1) no_match_drop ms_length [OF n] by blast
        show "boundary (Some (CHR '']'')) ?x \<longrightarrow> boundary ?p ?s"
          using ms_word(2) [of n q' p s] n q(2) by simp
      qed
      then show ?thesis
        using no_match_marker_tail [OF r w(2)] ms_in_marker [OF r w(2) disjI2 [OF refl]]
        unfolding e by simp
    qed
  qed
qed

lemma sub_render: "sub q w s = render q w None s"
  by (simp add: sub_def render_def)

lemma no_match_sub:
  assumes "redactable q" "q = rx_word q'" "marker w" "redactable r" "r = q \<or> no_match r None s"
  shows "no_match r None (sub q w s)"
  unfolding sub_render using assms render_boundary [OF assms(1-3)]
  by (intro no_match_render [OF assms(1-4)]) auto

section \<open>The four patterns\<close>

lemma patterns_redactable:
  "redactable secret_rx" "redactable email_rx" "redactable ip_rx" "redactable canary_rx"
  by (auto simp: redactable_def secret_rx_def email_rx_def ip_rx_def canary_rx_def rx_word_def
      Let_def letter_def upper_def is_digit_def)

lemma patterns_word:
  "\<exists>r. secret_rx = rx_word r" "\<exists>r. email_rx = rx_word r" "\<exists>r. ip_rx = rx_word r"
  "\<exists>r. canary_rx = rx_word r"
  by (auto simp: secret_rx_def email_rx_def ip_rx_def canary_rx_def)

lemma markerI:
  assumes "w \<noteq> []" "hd w = CHR ''[''" "tl w \<noteq> []" "last (tl w) = CHR '']''"
    and "\<forall>c \<in> set (butlast (tl w)). upper c \<or> c = CHR '':''"
  shows "marker w"
  unfolding marker_def
  by (rule exI [of _ "butlast (tl w)"]) (use assms in \<open>metis append_butlast_last_id list.collapse\<close>)

lemma marker_texts:
  "marker ''[REDACTED:SECRET]''" "marker ''[REDACTED:EMAIL]''" "marker ''[REDACTED:IP]''"
  "marker ''[REDACTED:CANARY]''"
  by (rule markerI; simp add: upper_def)+


lemma redact_with_text:
  "rr_text (redact_with (k, q, w) acc) = sub q w (rr_text acc) \<or>
   no_match q None (rr_text acc) \<and> redact_with (k, q, w) acc = acc"
  if "redactable q"
proof (cases "findall q (rr_text acc) = []")
  case True
  have "findall q s = [] \<Longrightarrow> no_match q None s" for s
  proof -
    have "concat (map (\<lambda>g. case g of Lit c \<Rightarrow> [] | Match m \<Rightarrow> [m]) (segs q p s)) = [] \<Longrightarrow> no_match q p s" for p
    proof (induction s arbitrary: p)
      case (Cons c s)
      show ?case
      proof (cases "ms q p (c # s)")
        case (Cons n ns)
        then have "0 < n" using ms_pos [OF _ that, of n p "c # s"] by simp
        with Cons Cons.prems show ?thesis by simp
      qed (use Cons in auto)
    qed simp
    then show "findall q s = [] \<Longrightarrow> no_match q None s" by (simp add: findall_def)
  qed
  with True show ?thesis by (simp add: redact_with_def)
qed (simp add: redact_with_def Let_def)

text \<open>One pattern's pass leaves that pattern without a match and keeps the others so.\<close>

lemma redact_with_clears:
  assumes "redactable q" "\<exists>q'. q = rx_word q'" "marker w" "redactable r"
    and "r = q \<or> no_match r None (rr_text acc)"
  shows "no_match r None (rr_text (redact_with (k, q, w) acc))"
  using redact_with_text [OF assms(1), of k w acc] assms no_match_sub [of q _ w r "rr_text acc"]
  by auto

lemma no_match_redact_with: "no_match q None (rr_text acc) \<Longrightarrow> redact_with (k, q, w) acc = acc"
  by (simp add: redact_with_def no_match_findall)

lemmas pattern_facts = patterns_redactable patterns_word marker_texts

lemma redact_no_match:
  "no_match secret_rx None (rr_text (redact t))" "no_match email_rx None (rr_text (redact t))"
  "no_match ip_rx None (rr_text (redact t))" "no_match canary_rx None (rr_text (redact t))"
  by (simp_all add: redact_def PATTERNS_def redact_with_clears pattern_facts)

lemma redact_clean:
  assumes "no_match secret_rx None t" "no_match email_rx None t" "no_match ip_rx None t"
    "no_match canary_rx None t"
  shows "redact t = \<lparr> rr_text = t, rr_count = 0, rr_categories = [] \<rparr>"
  using assms by (simp add: redact_def PATTERNS_def no_match_redact_with)

lemmas redact_again = redact_clean [OF redact_no_match]

text \<open>
  C32. Redaction is complete and idempotent: redacting an already redacted text finds nothing and
  leaves it unchanged. In particular no substitution of a later pattern assembles a secret, an
  address or a canary out of the text around it.
\<close>

theorem redact_idempotent:
  "redact (rr_text (redact t)) = \<lparr> rr_text = rr_text (redact t), rr_count = 0, rr_categories = [] \<rparr>"
  by (intro redact_clean redact_no_match)

text \<open>
  A downstream scan of surfaces that only hold redacted text reports no leak, and the scan of
  any surfaces names exactly those on which redaction would change something, in order.
\<close>

theorem scan_downstream_spec:
  "scan_downstream (map (\<lambda>(k, t). (k, rr_text (redact t))) surfaces) = []
   \<and> map fst (scan_downstream surfaces)
     = map fst (filter (\<lambda>(k, t). rr_count (redact t) \<noteq> 0) surfaces)"
  by (induction surfaces)
    (auto simp: scan_downstream_def Let_def redact_again)


definition accounted :: "string \<Rightarrow> redaction_result \<Rightarrow> bool" where
  "accounted t acc \<longleftrightarrow>
     rr_count acc = length (rr_categories acc) \<and> (rr_count acc = 0 \<longrightarrow> rr_text acc = t)"

lemma redact_with_accounted: "accounted t acc \<Longrightarrow> accounted t (redact_with pat acc)"
  by (cases pat) (auto simp: redact_with_def accounted_def Let_def)

lemma redact_accounted: "accounted t (redact t)"
proof -
  have "accounted t (fold redact_with pats acc)" if "accounted t acc" for pats acc
    using that by (induction pats arbitrary: acc) (auto simp: redact_with_accounted)
  then show ?thesis by (simp add: redact_def accounted_def)
qed

text \<open>
  The count of a redaction is the number of categories it reports, and it is zero exactly when
  the text comes out unchanged.
\<close>

theorem redact_count:
  "rr_count (redact t) = length (rr_categories (redact t))
   \<and> (rr_count (redact t) = 0 \<longleftrightarrow> rr_text (redact t) = t)"
  using redact_accounted [of t] redact_again [of t] by (auto simp: accounted_def)

end
