(* ===== verification/Mcp.thy ===== *)
theory Mcp
  imports Redaction
begin

text \<open>
  The evidence tools of the incident agent: the data contracts
  (\<^verbatim>\<open>python/incident_agent/models.py\<close>), the bounded tool server
  (\<^verbatim>\<open>python/incident_agent/mcp.py\<close>) and the encoding of its results across the tool protocol
  (\<^verbatim>\<open>python/incident_agent/mcp_protocol.py\<close>). The retrieval index is the parameter
  \<open>search\<close> of the operations that use it and the protocol SDK the parameter \<open>sdk\<close> of the client
  facade.

  Python floats (scores, latencies) are carried by their printed text; a latency is an input of the
  operation, as the clock is not modelled.
\<close>

section \<open>Data contracts\<close>

record evidence_chunk =
  ec_chunk_id :: string
  ec_document_id :: string
  ec_version :: string
  ec_service :: string
  ec_text :: string
  ec_source_type :: string
  ec_relevant_families :: "string list"
  ec_canary :: bool
  ec_near_duplicate_group :: "string option"
  ec_decisive_detail :: string

record incident_case =
  case_id :: string
  family :: string
  split_name :: string
  service :: string
  query :: string
  answerable :: bool
  document_dependent :: bool
  relevant_chunk_ids :: "string list"
  logs :: "dict list"
  metrics :: "dict list"
  expected_diagnosis :: string
  expected_action :: "dict option"
  canary_fixture :: bool

record retrieval_hit =
  hit_chunk_id :: string
  hit_document_id :: string
  hit_version :: string
  hit_service :: string
  hit_score :: string
  hit_snippet :: string

record retrieval_response =
  resp_arm :: string
  resp_query :: string
  pre_gate_keyword :: "retrieval_hit list"
  pre_gate_dense :: "retrieval_hit list"
  pre_gate_hybrid :: "retrieval_hit list"
  delivered :: "retrieval_hit list"
  sufficient :: bool
  reason :: string

record tool_result =
  tr_method :: string
  tr_schema_version :: string
  tr_data :: dict
  tr_evidence_ids :: "string list"
  tr_redactions :: int

section \<open>The server and its state\<close>

definition SCHEMA_VERSION :: string where
  "SCHEMA_VERSION = ''m6-mcp-v1''"

definition METHOD_ARGUMENTS :: "(string \<times> string list) list" where
  "METHOD_ARGUMENTS =
     [(''query_logs'', [''case_id'', ''service'', ''level'']),
      (''query_metrics'', [''case_id'', ''service'', ''metric'']),
      (''search_runbooks'', [''query'', ''arm'']),
      (''remediation_status'', [''resource_id''])]"

definition METHODS :: "string list" where
  "METHODS = map fst METHOD_ARGUMENTS"

record mcp_call =
  mc_sequence :: nat
  mc_method :: string
  mc_latency_ms :: string
  mc_evidence_ids :: "string list"
  mc_redactions :: int

text \<open>\<open>MCPValidationError\<close> is the module's own subclass of \<open>ValueError\<close>; anything else that
  escapes an operation is a built-in exception.\<close>

datatype mcp_exn = MCPValidationError string | Raised exn

record mcp_server =
  max_calls :: int
  max_rows :: int
  redact_outputs :: bool
  include_retrieval_diagnostics :: bool
  srv_calls :: "(string \<times> mcp_call list) list"
  srv_results :: "(string \<times> tool_result list) list"
  srv_status :: "(string \<times> dict) list"
  srv_cases :: "(string \<times> incident_case) list"

type_synonym 'a srv = "(mcp_server, mcp_exn, 'a) sm"

definition new_server ::
  "int \<Rightarrow> int \<Rightarrow> bool \<Rightarrow> bool \<Rightarrow> incident_case list \<Rightarrow> mcp_server" where
  "new_server mcalls mrows redacted diagnostics cases =
     \<lparr> max_calls = mcalls, max_rows = mrows, redact_outputs = redacted,
       include_retrieval_diagnostics = diagnostics,
       srv_calls = [], srv_results = [], srv_status = [],
       srv_cases = fold (\<lambda>c. dict_set (case_id c) c) cases [] \<rparr>"

text \<open>\<^verbatim>\<open>d.get(k, default)\<close> and \<^verbatim>\<open>d.setdefault(k, default)\<close>.\<close>

definition dict_get :: "'k \<Rightarrow> 'v \<Rightarrow> ('k \<times> 'v) list \<Rightarrow> 'v" where
  "dict_get k v d = (case map_of d k of Some w \<Rightarrow> w | None \<Rightarrow> v)"

definition setdefault :: "'k \<Rightarrow> 'v \<Rightarrow> ('k \<times> 'v) list \<Rightarrow> ('k \<times> 'v) list" where
  "setdefault k v d = (if map_of d k = None then dict_set k v d else d)"

definition calls :: "mcp_server \<Rightarrow> string \<Rightarrow> mcp_call list" where
  "calls srv run_id = dict_get run_id [] (srv_calls srv)"

definition results :: "mcp_server \<Rightarrow> string \<Rightarrow> tool_result list" where
  "results srv run_id = dict_get run_id [] (srv_results srv)"

text \<open>
  A Python value as a dictionary key: containers are unhashable, and only a string can equal one of
  the server's keys.
\<close>

definition hash_key :: "json \<Rightarrow> string option res" where
  "hash_key v = (case v of JArr _ \<Rightarrow> Inl (TypeError ''unhashable type'')
                  | JObj _ \<Rightarrow> Inl (TypeError ''unhashable type'')
                  | JStr s \<Rightarrow> Inr (Some s) | _ \<Rightarrow> Inr None)"

text \<open>\<^verbatim>\<open>==\<close> of two decoded values: a bool is the integer it stands for, an integer equals the
  float that prints with \<open>.0\<close>, and the order of an object's keys does not matter.\<close>

fun norm :: "json \<Rightarrow> json" where
  "norm (JBool b) = JFloat (if b then ''1.0'' else ''0.0'')"
| "norm (JInt i) = JFloat (show_int i @ ''.0'')"
| "norm (JFloat t) = JFloat (if t = ''-0.0'' then ''0.0'' else t)"
| "norm (JArr xs) = JArr (map norm xs)"
| "norm (JObj d) = JObj (sort_key fst (map (\<lambda>(k, v). (k, norm v)) d))"
| "norm v = v"

definition py_eq :: "json \<Rightarrow> json \<Rightarrow> bool" where
  "py_eq a b \<longleftrightarrow> norm a = norm b"

text \<open>\<^verbatim>\<open>xs[:n]\<close>.\<close>

definition py_prefix :: "int \<Rightarrow> 'a list \<Rightarrow> 'a list" where
  "py_prefix n xs = (if 0 \<le> n then take (nat n) xs else take (length xs - nat (- n)) xs)"

section \<open>Operations\<close>

definition validate :: "string \<Rightarrow> string \<Rightarrow> dict \<Rightarrow> string list \<Rightarrow> unit srv" where
  "validate run_id mname arguments allowed =
     sbind (sensure (mname \<in> set METHODS)
              (MCPValidationError (''method is not allowlisted: '' @ mname))) (\<lambda>_.
     sbind (let unknown = sort (remdups (filter (\<lambda>k. k \<notin> set allowed) (map fst arguments))) in
            sensure (unknown = [])
              (MCPValidationError (''unknown arguments for '' @ mname @ '': ''
                 @ py_repr (JArr (map JStr unknown))))) (\<lambda>_.
     sbind (smodify (\<lambda>srv. srv\<lparr>srv_calls := setdefault run_id [] (srv_calls srv)\<rparr>)) (\<lambda>_.
     sbind (sget (\<lambda>srv. int (length (calls srv run_id)) < max_calls srv)) (\<lambda>free.
     sensure free (MCPValidationError ''MCP call budget exceeded'')))))"

definition append_at :: "'k \<Rightarrow> 'v \<Rightarrow> ('k \<times> 'v list) list \<Rightarrow> ('k \<times> 'v list) list" where
  "append_at k v d = dict_set k (dict_get k [] d @ [v]) d"

definition record_call :: "string \<Rightarrow> string \<Rightarrow> string \<Rightarrow> tool_result \<Rightarrow> tool_result srv" where
  "record_call run_id mname latency result =
     sbind (smodify (\<lambda>srv. srv\<lparr>srv_results := append_at run_id result (srv_results srv)\<rparr>)) (\<lambda>_.
     sbind (smodify (\<lambda>srv. srv\<lparr>srv_calls := append_at run_id
              \<lparr> mc_sequence = length (calls srv run_id) + 1, mc_method = mname,
                mc_latency_ms = latency, mc_evidence_ids = tr_evidence_ids result,
                mc_redactions = tr_redactions result \<rparr> (srv_calls srv)\<rparr>)) (\<lambda>_.
     sret result))"

definition safe_text :: "mcp_server \<Rightarrow> string \<Rightarrow> string \<times> nat" where
  "safe_text srv text =
     (if \<not> redact_outputs srv then (text, 0)
      else let result = redact text in (rr_text result, rr_count result))"

definition lift_py :: "'a res \<Rightarrow> 'a srv" where
  "lift_py r = (case r of Inl e \<Rightarrow> sraise (Raised e) | Inr x \<Rightarrow> sret x)"

text \<open>The rows a case shows to a query: none for another service, otherwise those whose field
  equals the argument, if it is given, up to the row bound.\<close>

fun filterR :: "('a \<Rightarrow> 'e + bool) \<Rightarrow> 'a list \<Rightarrow> 'e + 'a list" where
  "filterR f [] = Inr []"
| "filterR f (x # xs) = rbind (f x) (\<lambda>b. rbind (filterR f xs) (\<lambda>ys. Inr (if b then x # ys else ys)))"

definition select_rows ::
  "mcp_server \<Rightarrow> (incident_case \<Rightarrow> dict list) \<Rightarrow> string \<Rightarrow> json \<Rightarrow> json \<Rightarrow> json \<Rightarrow> dict list res" where
  "select_rows srv table field cid svc arg =
     rbind (hash_key cid) (\<lambda>key.
     case Option.bind key (map_of (srv_cases srv)) of
       None \<Rightarrow> Inr []
     | Some c \<Rightarrow>
         if svc \<noteq> JStr (service c) then Inr []
         else rbind (filterR (\<lambda>row. if \<not> truthy arg then Inr True
                        else rbind (dict_item field row) (\<lambda>v. Inr (py_eq v arg))) (table c))
                (\<lambda>rows. Inr (py_prefix (max_rows srv) rows)))"

definition safe_row :: "mcp_server \<Rightarrow> dict \<Rightarrow> dict \<times> nat" where
  "safe_row srv row =
     (let (text, count) = safe_text srv (py_str (dict_get ''message'' (JStr []) row))
      in (dict_set ''message'' (JStr text) row, count))"

definition log_id :: "json \<Rightarrow> dict \<Rightarrow> string res" where
  "log_id cid row = rbind (dict_item ''timestamp'' row)
     (\<lambda>t. Inr (''log:'' @ py_str cid @ '':'' @ py_str t))"

definition query_logs :: "string \<Rightarrow> string \<Rightarrow> json \<Rightarrow> json \<Rightarrow> json \<Rightarrow> tool_result srv" where
  "query_logs latency run_id cid svc level =
     sbind (validate run_id ''query_logs''
              [(''case_id'', cid), (''service'', svc), (''level'', level)]
              (dict_get ''query_logs'' [] METHOD_ARGUMENTS)) (\<lambda>_.
     sbind (sget (\<lambda>srv. select_rows srv logs ''level'' cid svc level)) (\<lambda>r. sbind (lift_py r) (\<lambda>rows.
     sbind (sget (\<lambda>srv. map (safe_row srv) rows)) (\<lambda>safe.
     sbind (lift_py (mapR (log_id cid) (map fst safe))) (\<lambda>ids.
     record_call run_id ''query_logs'' latency
       \<lparr> tr_method = ''query_logs'', tr_schema_version = SCHEMA_VERSION,
         tr_data = [(''rows'', JArr (map (\<lambda>(row, _). JObj row) safe))],
         tr_evidence_ids = ids, tr_redactions = int (sum_list (map snd safe)) \<rparr>)))))"

definition metric_id :: "json \<Rightarrow> dict \<Rightarrow> string res" where
  "metric_id cid row = rbind (dict_item ''name'' row) (\<lambda>n. rbind (dict_item ''timestamp'' row)
     (\<lambda>t. Inr (''metric:'' @ py_str cid @ '':'' @ py_str n @ '':'' @ py_str t)))"

definition query_metrics :: "string \<Rightarrow> string \<Rightarrow> json \<Rightarrow> json \<Rightarrow> json \<Rightarrow> tool_result srv" where
  "query_metrics latency run_id cid svc metric =
     sbind (validate run_id ''query_metrics''
              [(''case_id'', cid), (''service'', svc), (''metric'', metric)]
              (dict_get ''query_metrics'' [] METHOD_ARGUMENTS)) (\<lambda>_.
     sbind (sget (\<lambda>srv. select_rows srv metrics ''name'' cid svc metric)) (\<lambda>r. sbind (lift_py r) (\<lambda>rows.
     sbind (lift_py (mapR (metric_id cid) rows)) (\<lambda>ids.
     record_call run_id ''query_metrics'' latency
       \<lparr> tr_method = ''query_metrics'', tr_schema_version = SCHEMA_VERSION,
         tr_data = [(''rows'', JArr (map JObj rows))],
         tr_evidence_ids = ids, tr_redactions = 0 \<rparr>))))"

definition evidence_row :: "retrieval_hit \<Rightarrow> string \<Rightarrow> json" where
  "evidence_row hit snippet =
     JObj [(''chunk_id'', JStr (hit_chunk_id hit)), (''document_id'', JStr (hit_document_id hit)),
           (''version'', JStr (hit_version hit)), (''service'', JStr (hit_service hit)),
           (''score'', JFloat (hit_score hit)), (''snippet'', JStr snippet)]"

definition search_runbooks ::
  "(json \<Rightarrow> string \<Rightarrow> retrieval_response res) \<Rightarrow> string \<Rightarrow> string \<Rightarrow> json \<Rightarrow> json \<Rightarrow> tool_result srv" where
  "search_runbooks search latency run_id qry arm =
     sbind (validate run_id ''search_runbooks'' [(''query'', qry), (''arm'', arm)]
              (dict_get ''search_runbooks'' [] METHOD_ARGUMENTS)) (\<lambda>_.
     sbind (lift_py (hash_key arm)) (\<lambda>key.
     case key of
       None \<Rightarrow> sraise (MCPValidationError ''arm must be keyword, dense, or hybrid'')
     | Some a \<Rightarrow>
     sbind (sensure (a \<in> set [''keyword'', ''dense'', ''hybrid''])
              (MCPValidationError ''arm must be keyword, dense, or hybrid'')) (\<lambda>_.
     sbind (lift_py (search qry a)) (\<lambda>response.
     sbind (sget (\<lambda>srv. map (\<lambda>h. (h, safe_text srv (hit_snippet h))) (delivered response))) (\<lambda>safe.
     sbind (sget include_retrieval_diagnostics) (\<lambda>diagnostics.
     record_call run_id ''search_runbooks'' latency
       \<lparr> tr_method = ''search_runbooks'', tr_schema_version = SCHEMA_VERSION,
         tr_data = [(''arm'', JStr a),
                    (''evidence'', JArr (map (\<lambda>(h, t, _). evidence_row h t) safe))]
                   @ (if diagnostics then [(''sufficient'', JBool (sufficient response)),
                                           (''reason'', JStr (reason response))] else []),
         tr_evidence_ids = map hit_chunk_id (delivered response),
         tr_redactions = int (sum_list (map (\<lambda>(_, _, n). n) safe)) \<rparr>))))))"

definition remediation_status :: "string \<Rightarrow> string \<Rightarrow> json \<Rightarrow> tool_result srv" where
  "remediation_status latency run_id resource_id =
     sbind (validate run_id ''remediation_status'' [(''resource_id'', resource_id)]
              (dict_get ''remediation_status'' [] METHOD_ARGUMENTS)) (\<lambda>_.
     sbind (lift_py (hash_key resource_id)) (\<lambda>key.
     sbind (sget (\<lambda>srv. Option.bind key (map_of (srv_status srv)))) (\<lambda>status.
     record_call run_id ''remediation_status'' latency
       \<lparr> tr_method = ''remediation_status'', tr_schema_version = SCHEMA_VERSION,
         tr_data = (case status of Some d \<Rightarrow> d
                    | None \<Rightarrow> [(''resource_id'', resource_id), (''state'', JStr ''UNCHANGED'')]),
         tr_evidence_ids = [], tr_redactions = 0 \<rparr>)))"

definition set_remediation_status :: "string \<Rightarrow> string \<Rightarrow> unit srv" where
  "set_remediation_status resource_id state =
     sbind (sensure (state \<in> set [''UNCHANGED'', ''APPLIED'', ''VERIFIED'', ''FAILED''])
              (Raised (ValueError ''invalid remediation status''))) (\<lambda>_.
     smodify (\<lambda>srv. srv\<lparr>srv_status := dict_set resource_id
       [(''resource_id'', JStr resource_id), (''state'', JStr state)] (srv_status srv)\<rparr>))"

text \<open>
  Dispatch by name. Binding the keyword arguments raises a \<open>TypeError\<close> for an unknown or a missing
  one, and \<open>call\<close> turns every \<open>TypeError\<close> into its own error; the interpreter's wording after the
  prefix is not modelled.
\<close>

definition bind_args :: "string list \<Rightarrow> (string \<times> json) list \<Rightarrow> dict \<Rightarrow> json list res" where
  "bind_args required optional arguments =
     rbind (ensure (\<forall>k \<in> set (map fst arguments). k \<in> set required \<or> k \<in> fst ` set optional)
              (TypeError ''unexpected keyword argument'')) (\<lambda>_.
     rbind (mapR (\<lambda>k. case map_of arguments k of Some v \<Rightarrow> Inr v
                      | None \<Rightarrow> Inl (TypeError ''missing argument'')) required) (\<lambda>xs.
     Inr (xs @ map (\<lambda>(k, v). dict_get k v arguments) optional)))"

definition as_validation :: "string \<Rightarrow> 'a srv \<Rightarrow> 'a srv" where
  "as_validation mname m srv =
     (case m srv of
        (Inl (Raised (TypeError _)), srv') \<Rightarrow>
          (Inl (MCPValidationError (''invalid arguments for '' @ mname)), srv')
      | r \<Rightarrow> r)"

definition call ::
  "(json \<Rightarrow> string \<Rightarrow> retrieval_response res) \<Rightarrow> string \<Rightarrow> string \<Rightarrow> string \<Rightarrow> dict \<Rightarrow> tool_result srv" where
  "call search latency run_id mname arguments =
     (if mname = ''query_logs'' then as_validation mname
        (sbind (lift_py (bind_args [''case_id'', ''service''] [(''level'', JStr [])] arguments))
           (\<lambda>xs. query_logs latency run_id (xs ! 0) (xs ! 1) (xs ! 2)))
      else if mname = ''query_metrics'' then as_validation mname
        (sbind (lift_py (bind_args [''case_id'', ''service''] [(''metric'', JStr [])] arguments))
           (\<lambda>xs. query_metrics latency run_id (xs ! 0) (xs ! 1) (xs ! 2)))
      else if mname = ''search_runbooks'' then as_validation mname
        (sbind (lift_py (bind_args [''query''] [(''arm'', JStr ''hybrid'')] arguments))
           (\<lambda>xs. search_runbooks search latency run_id (xs ! 0) (xs ! 1)))
      else if mname = ''remediation_status'' then as_validation mname
        (sbind (lift_py (bind_args [''resource_id''] [] arguments))
           (\<lambda>xs. remediation_status latency run_id (xs ! 0)))
      else sraise (MCPValidationError (''method is not allowlisted: '' @ mname)))"

definition serialize_tool_result :: "tool_result \<Rightarrow> string" where
  "serialize_tool_result r = json_dumps '', '' '': ''
     (JObj [(''method'', JStr (tr_method r)), (''schema_version'', JStr (tr_schema_version r)),
            (''data'', JObj (tr_data r)), (''evidence_ids'', JArr (map JStr (tr_evidence_ids r))),
            (''redactions'', JInt (tr_redactions r))])"

section \<open>The shape of a tool call\<close>

lemma dict_get_set' [simp]: "dict_get k v (dict_set k' w d) = (if k = k' then w else dict_get k v d)"
  by (simp add: dict_get_def)

lemma dict_get_setdefault [simp]: "dict_get k v (setdefault k' v d) = dict_get k v d"
  by (simp add: setdefault_def dict_get_def)

lemma dict_get_append_at [simp]:
  "dict_get k [] (append_at k' v d) = (if k = k' then dict_get k [] d @ [v] else dict_get k [] d)"
  by (simp add: append_at_def)

definition touched :: "string \<Rightarrow> mcp_server \<Rightarrow> mcp_server" where
  "touched run_id srv = srv\<lparr>srv_calls := setdefault run_id [] (srv_calls srv)\<rparr>"

definition logged :: "string \<Rightarrow> string \<Rightarrow> string \<Rightarrow> tool_result \<Rightarrow> mcp_server \<Rightarrow> mcp_server" where
  "logged run_id mname latency result srv = snd (record_call run_id mname latency result srv)"

text \<open>A computation that only reads the server, and one that ends by recording its result.\<close>

definition reads :: "'a srv \<Rightarrow> bool" where
  "reads m \<longleftrightarrow> (\<forall>s. snd (m s) = s)"

definition records :: "string \<Rightarrow> string \<Rightarrow> string \<Rightarrow> tool_result srv \<Rightarrow> bool" where
  "records run_id mname latency m \<longleftrightarrow>
     (\<forall>s. case m s of (Inl e, t) \<Rightarrow> t = s
          | (Inr res, t) \<Rightarrow> tr_method res = mname \<and> t = logged run_id mname latency res s)"

lemma recordsI:
  assumes "\<And>s e t. m s = (Inl e, t) \<Longrightarrow> t = s"
    and "\<And>s res t. m s = (Inr res, t) \<Longrightarrow>
      tr_method res = mname \<and> t = logged run_id mname latency res s"
  shows "records run_id mname latency m"
  unfolding records_def using assms by (auto split: prod.splits sum.splits)

lemma recordsD:
  assumes "records run_id mname latency m"
  shows "m s = (Inl e, t) \<Longrightarrow> t = s"
    and "m s = (Inr res, t) \<Longrightarrow> tr_method res = mname \<and> t = logged run_id mname latency res s"
  using assms [unfolded records_def, rule_format, of s] by simp_all

named_theorems rec_intros

lemma reads_intros [rec_intros]:
  "reads (sret x)" "reads (sraise e)" "reads (sget f)" "reads (sensure b e)" "reads (lift_py r)"
  by (simp_all add: reads_def sret_def sraise_def sget_def sensure_def lift_py_def split: sum.splits)

lemma records_record [rec_intros]:
  "tr_method res = mname \<Longrightarrow> records run_id mname latency (record_call run_id mname latency res)"
  by (simp add: records_def logged_def record_call_def sret_def)

lemma records_bind [rec_intros]:
  "reads m \<Longrightarrow> (\<And>x. records run_id mname latency (f x)) \<Longrightarrow> records run_id mname latency (sbind m f)"
proof (rule recordsI)
  fix s
  assume m: "reads m" and f: "\<And>x. records run_id mname latency (f x)"
  obtain r where r: "m s = (r, s)" using m by (metis reads_def prod.collapse)
  show "t = s" if "sbind m f s = (Inl e, t)" for e t
    using that r f by (cases r) (auto dest: recordsD)
  show "tr_method res = mname \<and> t = logged run_id mname latency res s"
    if "sbind m f s = (Inr res, t)" for res t
    using that r f by (cases r) (auto dest: recordsD)
qed

lemma records_raise [rec_intros]: "records run_id mname latency (sraise e)"
  by (simp add: records_def sraise_def)

lemma records_option [rec_intros]:
  "records run_id mname latency m \<Longrightarrow> (\<And>x. records run_id mname latency (f x)) \<Longrightarrow>
   records run_id mname latency (case z of None \<Rightarrow> m | Some x \<Rightarrow> f x)"
  by (cases z) auto

lemma calls_touched [simp]: "calls (touched run_id srv) k = calls srv k"
  by (simp add: calls_def touched_def)

lemma results_touched [simp]: "results (touched run_id srv) k = results srv k"
  by (simp add: results_def touched_def)

lemma touched_frame [simp]:
  "max_calls (touched run_id srv) = max_calls srv" "max_rows (touched run_id srv) = max_rows srv"
  by (simp_all add: touched_def)

lemma logged_frame [simp]:
  "max_calls (logged run_id m l res srv) = max_calls srv"
  "max_rows (logged run_id m l res srv) = max_rows srv"
  by (simp_all add: logged_def record_call_def sret_def)

lemma calls_logged [simp]:
  "calls (logged run_id m l res srv) k =
     (if k = run_id then calls srv k @ [\<lparr> mc_sequence = Suc (length (calls srv k)), mc_method = m,
        mc_latency_ms = l, mc_evidence_ids = tr_evidence_ids res, mc_redactions = tr_redactions res \<rparr>]
      else calls srv k)"
  by (simp add: calls_def logged_def record_call_def sret_def)

lemma results_logged [simp]:
  "results (logged run_id m l res srv) k =
     (if k = run_id then results srv k @ [res] else results srv k)"
  by (simp add: results_def logged_def record_call_def sret_def)

lemma validate_cases:
  assumes "mname \<in> set METHODS" "set (map fst arguments) \<subseteq> set allowed"
  shows "validate run_id mname arguments allowed srv =
    (if int (length (calls srv run_id)) < max_calls srv then (Inr (), touched run_id srv)
     else (Inl (MCPValidationError ''MCP call budget exceeded''), touched run_id srv))"
proof -
  have "filter (\<lambda>k. k \<notin> set allowed) (map fst arguments) = []"
    using assms(2) by (auto simp: filter_empty_conv)
  with assms(1) show ?thesis
    unfolding validate_def
    by (simp add: touched_def [symmetric] sensure_def sret_def sraise_def Let_def del: set_map)
qed

text \<open>
  What any tool does: it refuses and at most touches the run's empty log, or it had budget left and
  appends exactly one call and the result it returns.
\<close>

definition tool_shape ::
  "string \<Rightarrow> string \<Rightarrow> string \<Rightarrow> mcp_server \<Rightarrow> (mcp_exn + tool_result) \<times> mcp_server \<Rightarrow> bool" where
  "tool_shape run_id mname latency srv out \<longleftrightarrow>
     (case out of
        (Inl e, srv') \<Rightarrow> srv' = srv \<or> srv' = touched run_id srv
      | (Inr res, srv') \<Rightarrow>
          int (length (calls srv run_id)) < max_calls srv \<and> mname \<in> set METHODS
          \<and> tr_method res = mname \<and> srv' = logged run_id mname latency res (touched run_id srv))"

lemma tool_shape_bind:
  assumes "mname \<in> set METHODS" "set (map fst arguments) \<subseteq> set allowed"
    and "records run_id mname latency m"
  shows "tool_shape run_id mname latency srv
    (sbind (validate run_id mname arguments allowed) (\<lambda>_. m) srv)"
proof (cases "int (length (calls srv run_id)) < max_calls srv")
  case True
  obtain r t where "m (touched run_id srv) = (r, t)" by (cases "m (touched run_id srv)")
  with True show ?thesis
    using validate_cases [OF assms(1,2), of run_id srv] assms(1) recordsD [OF assms(3)]
    by (cases r) (auto simp: tool_shape_def)
next
  case False
  then show ?thesis
    using validate_cases [OF assms(1,2), of run_id srv] by (simp add: tool_shape_def)
qed

lemmas method_facts = METHODS_def METHOD_ARGUMENTS_def dict_get_def

lemma query_logs_shape:
  "tool_shape run_id ''query_logs'' latency srv (query_logs latency run_id cid svc level srv)"
  unfolding query_logs_def
  by (rule tool_shape_bind) (auto simp: method_facts intro!: rec_intros)

lemma query_metrics_shape:
  "tool_shape run_id ''query_metrics'' latency srv (query_metrics latency run_id cid svc metric srv)"
  unfolding query_metrics_def
  by (rule tool_shape_bind) (auto simp: method_facts intro!: rec_intros)

lemma search_runbooks_shape:
  "tool_shape run_id ''search_runbooks'' latency srv
     (search_runbooks search latency run_id qry arm srv)"
  unfolding search_runbooks_def
  by (rule tool_shape_bind) (auto simp: method_facts intro!: rec_intros)

lemma remediation_status_shape:
  "tool_shape run_id ''remediation_status'' latency srv
     (remediation_status latency run_id resource_id srv)"
  unfolding remediation_status_def
  by (rule tool_shape_bind) (auto simp: method_facts intro!: rec_intros)

lemmas tool_shapes =
  query_logs_shape query_metrics_shape search_runbooks_shape remediation_status_shape

lemma tool_shape_Inl: "tool_shape run_id mname latency srv (Inl e, srv)"
  by (simp add: tool_shape_def)

lemma tool_shape_bound:
  assumes "\<And>x. tool_shape run_id mname latency srv (f x srv)"
  shows "tool_shape run_id mname latency srv (sbind (lift_py r) f srv)"
  using assms by (cases r) (auto simp: lift_py_def tool_shape_def sraise_def)

lemma tool_shape_as_validation:
  "tool_shape run_id mname latency srv (m srv) \<Longrightarrow>
   tool_shape run_id mname latency srv (as_validation n m srv)"
  by (cases "m srv") (auto simp: as_validation_def tool_shape_def split: sum.splits mcp_exn.splits exn.splits)

lemma call_shape: "tool_shape run_id mname latency srv (call search latency run_id mname arguments srv)"
  unfolding call_def sraise_def
  by (simp split: if_split)
    (auto intro!: tool_shape_as_validation tool_shape_bound tool_shapes tool_shape_Inl)

section \<open>Runs of the server\<close>

text \<open>One request served, by name through \<open>call\<close> or by the tool method itself, or one change of
  a remediation status.\<close>

inductive mcp_step :: "mcp_server \<Rightarrow> mcp_server \<Rightarrow> bool" where
  step_call: "call search latency run_id mname arguments srv = (r, srv') \<Longrightarrow> mcp_step srv srv'"
| step_logs: "query_logs latency run_id cid svc level srv = (r, srv') \<Longrightarrow> mcp_step srv srv'"
| step_metrics: "query_metrics latency run_id cid svc metric srv = (r, srv') \<Longrightarrow> mcp_step srv srv'"
| step_search: "search_runbooks search latency run_id qry arm srv = (r, srv') \<Longrightarrow> mcp_step srv srv'"
| step_status: "remediation_status latency run_id rid srv = (r, srv') \<Longrightarrow> mcp_step srv srv'"
| step_set: "set_remediation_status resource_id state srv = (u, srv') \<Longrightarrow> mcp_step srv srv'"

lemma set_remediation_status_frame:
  assumes "set_remediation_status resource_id state srv = (u, srv')"
  shows "calls srv' = calls srv" "results srv' = results srv" "max_calls srv' = max_calls srv"
  using assms unfolding set_remediation_status_def
  by (auto simp: sbind_def sensure_def sret_def sraise_def smodify_def fun_eq_iff calls_def results_def
      split: if_splits)

lemma mcp_step_shape:
  assumes "mcp_step srv srv'"
  obtains (set) "calls srv' = calls srv" "results srv' = results srv" "max_calls srv' = max_calls srv"
  | (tool) run_id mname latency r where "tool_shape run_id mname latency srv (r, srv')"
  using assms
proof (cases rule: mcp_step.cases)
  case (step_set resource_id state u)
  then show ?thesis using set_remediation_status_frame set by blast
qed (metis tool call_shape tool_shapes)+

text \<open>The record of one run: numbered calls within the budget, each paired with its result.\<close>

definition call_matches :: "mcp_call \<Rightarrow> tool_result \<Rightarrow> bool" where
  "call_matches c res \<longleftrightarrow> mc_method c = tr_method res \<and> mc_method c \<in> set METHODS
     \<and> mc_evidence_ids c = tr_evidence_ids res \<and> mc_redactions c = tr_redactions res"

definition run_ok :: "mcp_server \<Rightarrow> string \<Rightarrow> bool" where
  "run_ok srv run_id \<longleftrightarrow>
     int (length (calls srv run_id)) \<le> max 0 (max_calls srv)
     \<and> list_all2 call_matches (calls srv run_id) (results srv run_id)"

lemma tool_shape_run_ok:
  assumes "tool_shape k mname latency srv (r, srv')" and "run_ok srv run_id"
  shows "run_ok srv' run_id"
  using assms
  by (cases r) (auto simp: tool_shape_def run_ok_def call_matches_def list_all2_appendI)

lemma mcp_step_run_ok: "mcp_step srv srv' \<Longrightarrow> run_ok srv run_id \<Longrightarrow> run_ok srv' run_id"
  by (erule mcp_step_shape) (simp add: run_ok_def, blast intro: tool_shape_run_ok)

lemma mcp_step_log:
  assumes "mcp_step srv srv'"
  shows "calls srv' k = calls srv k
    \<or> (\<exists>c. calls srv' k = calls srv k @ [c] \<and> mc_sequence c = Suc (length (calls srv k)))"
  using assms
proof (cases rule: mcp_step_shape)
  case (tool run_id mname latency r)
  then show ?thesis by (cases r) (auto simp: tool_shape_def)
qed simp

interpretation mcp_log: append_log mcp_step "\<lambda>srv. calls srv k" mc_sequence for k
  by unfold_locales (rule mcp_step_log)

lemma mcp_max_calls: "mcp_step srv srv' \<Longrightarrow> max_calls srv' = max_calls srv"
proof (erule mcp_step_shape)
  fix run_id mname latency r
  assume "tool_shape run_id mname latency srv (r, srv')"
  then show "max_calls srv' = max_calls srv" by (cases r) (auto simp: tool_shape_def)
qed

text \<open>
  C31. Budget and audit of the tool server. After any sequence of requests, well formed or not, a
  run's recorded calls are numbered consecutively from one, there are never more of them than the
  configured budget, and they correspond one to one and in order to the results returned, with the
  same allowlisted method, evidence identifiers and redaction count.
\<close>

theorem mcp_run_audit:
  assumes "mcp_step\<^sup>*\<^sup>* (new_server mcalls mrows redacted diagnostics cases) srv"
  shows "numbered mc_sequence (calls srv run_id)
    \<and> int (length (calls srv run_id)) \<le> max 0 mcalls
    \<and> list_all2 call_matches (calls srv run_id) (results srv run_id)"
proof -
  let ?s = "new_server mcalls mrows redacted diagnostics cases"
  have init: "calls ?s run_id = []" "run_ok ?s run_id" "max_calls ?s = mcalls"
    by (simp_all add: new_server_def calls_def results_def run_ok_def dict_get_def)
  have "run_ok srv run_id \<and> max_calls srv = mcalls"
    using assms by (induction rule: rtranclp_induct) (auto simp: init mcp_step_run_ok mcp_max_calls)
  moreover have "numbered mc_sequence (calls srv run_id)"
    using mcp_log.run_numbered [OF assms, of run_id] init(1) by simp
  ultimately show ?thesis by (auto simp: run_ok_def)
qed

theorem mcp_run_audit_witness:
  "\<exists>srv. mcp_step\<^sup>*\<^sup>* (new_server 1 20 True True []) srv
     \<and> length (calls srv ''r'') = 1 \<and> numbered mc_sequence (calls srv ''r'')"
proof -
  let ?s = "new_server 1 20 True True []"
  let ?t = "snd (remediation_status ''0.1'' ''r'' (JStr ''db'') ?s)"
  have "mcp_step ?s ?t" by (rule step_status [where r = "fst (remediation_status ''0.1'' ''r'' (JStr ''db'') ?s)"]) simp
  then have run: "mcp_step\<^sup>*\<^sup>* ?s ?t" by blast
  moreover have "length (calls ?t ''r'') = 1" by code_simp
  ultimately show ?thesis using mcp_run_audit [OF run, of "''r''"] by blast
qed

definition tool_arguments :: "string \<Rightarrow> string list" where
  "tool_arguments mname = dict_get mname [] METHOD_ARGUMENTS"

lemma as_validation_no_TypeError: "fst (as_validation mname m srv) \<noteq> Inl (Raised (TypeError t))"
  by (cases "m srv") (simp add: as_validation_def split: sum.split mcp_exn.split exn.split)

lemma bind_args_unknown:
  assumes "k \<in> set (map fst arguments)" "k \<notin> set required" "k \<notin> fst ` set optional"
  shows "bind_args required optional arguments = Inl (TypeError ''unexpected keyword argument'')"
proof -
  have "\<not> (\<forall>k \<in> set (map fst arguments). k \<in> set required \<or> k \<in> fst ` set optional)"
    using assms by blast
  then show ?thesis unfolding bind_args_def ensure_def by (simp only: if_False rbind_Inl)
qed

lemma as_validation_TypeError:
  "as_validation mname (sbind (lift_py (Inl (TypeError t))) f) srv =
     (Inl (MCPValidationError (''invalid arguments for '' @ mname)), srv)"
  by (simp add: as_validation_def lift_py_def sraise_def)

lemma METHODS_set:
  "set METHODS = {''query_logs'', ''query_metrics'', ''search_runbooks'', ''remediation_status''}"
  by (simp add: METHODS_def METHOD_ARGUMENTS_def)

lemma call_unknown_argument:
  assumes "mname \<in> set METHODS" "k \<in> set (map fst arguments)" "k \<notin> set (tool_arguments mname)"
  shows "call search latency run_id mname arguments srv =
    (Inl (MCPValidationError (''invalid arguments for '' @ mname)), srv)"
proof -
  consider "mname = ''query_logs''" | "mname = ''query_metrics''" | "mname = ''search_runbooks''"
    | "mname = ''remediation_status''"
    using assms(1) unfolding METHODS_set by blast
  then show ?thesis
  proof cases
    case 1
    have "bind_args [''case_id'', ''service''] [(''level'', JStr [])] arguments
        = Inl (TypeError ''unexpected keyword argument'')"
      using assms(2,3) 1 by (intro bind_args_unknown [of k]) (auto simp: tool_arguments_def method_facts)
    then show ?thesis unfolding call_def 1 by (simp add: as_validation_TypeError)
  next
    case 2
    have "bind_args [''case_id'', ''service''] [(''metric'', JStr [])] arguments
        = Inl (TypeError ''unexpected keyword argument'')"
      using assms(2,3) 2 by (intro bind_args_unknown [of k]) (auto simp: tool_arguments_def method_facts)
    then show ?thesis unfolding call_def 2 by (simp add: as_validation_TypeError)
  next
    case 3
    have "bind_args [''query''] [(''arm'', JStr ''hybrid'')] arguments
        = Inl (TypeError ''unexpected keyword argument'')"
      using assms(2,3) 3 by (intro bind_args_unknown [of k]) (auto simp: tool_arguments_def method_facts)
    then show ?thesis unfolding call_def 3 by (simp add: as_validation_TypeError)
  next
    case 4
    have "bind_args [''resource_id''] [] arguments = Inl (TypeError ''unexpected keyword argument'')"
      using assms(2,3) 4 by (intro bind_args_unknown [of k]) (auto simp: tool_arguments_def method_facts)
    then show ?thesis unfolding call_def 4 by (simp add: as_validation_TypeError)
  qed
qed

lemma call_unknown_method:
  "mname \<notin> set METHODS \<Longrightarrow> call search latency run_id mname arguments srv =
    (Inl (MCPValidationError (''method is not allowlisted: '' @ mname)), srv)"
  by (auto simp: call_def METHODS_def METHOD_ARGUMENTS_def sraise_def)

text \<open>
  The allowlist. A request for a method outside the four tools, or with an argument a tool does
  not take, is refused with a validation error and changes nothing; whatever the request, no
  \<open>TypeError\<close> leaves the dispatcher.
\<close>

theorem call_allowlist:
  assumes "mname \<notin> set METHODS \<or> \<not> set (map fst arguments) \<subseteq> set (tool_arguments mname)"
  shows "(\<exists>msg. call search latency run_id mname arguments srv = (Inl (MCPValidationError msg), srv))
    \<and> fst (call search latency run_id other arguments' srv) \<noteq> Inl (Raised (TypeError t))"
proof
  show "\<exists>msg. call search latency run_id mname arguments srv = (Inl (MCPValidationError msg), srv)"
  proof (cases "mname \<in> set METHODS")
    case True
    with assms obtain k where "k \<in> set (map fst arguments)" "k \<notin> set (tool_arguments mname)"
      by blast
    with True show ?thesis by (blast intro: call_unknown_argument)
  qed (blast intro: call_unknown_method)
  show "fst (call search latency run_id other arguments' srv) \<noteq> Inl (Raised (TypeError t))"
    unfolding call_def by (simp add: as_validation_no_TypeError sraise_def)
qed

theorem call_allowlist_witness:
  "\<exists>msg. call (\<lambda>_ _. Inl (ValueError [])) ''0.1'' ''r'' ''query_logs''
      [(''case_id'', JStr ''c''), (''tenant'', JStr ''x'')] (new_server 8 20 True True [])
    = (Inl (MCPValidationError msg), new_server 8 20 True True [])"
  using call_allowlist [of "''query_logs''" "[(''case_id'', JStr ''c''), (''tenant'', JStr ''x'')]"]
  by (simp add: tool_arguments_def method_facts)

section \<open>What the log tool returns\<close>

lemma lift_py_Inr [res_simps]: "lift_py r s = (Inr x, t) \<longleftrightarrow> r = Inr x \<and> t = s"
  by (auto simp: lift_py_def sret_def sraise_def split: sum.splits)

lemma sget_Inr [res_simps]: "sget f s = (Inr x, t) \<longleftrightarrow> x = f s \<and> t = s"
  by (auto simp: sget_def)

lemma filterR_set: "filterR f xs = Inr ys \<Longrightarrow> set ys \<subseteq> set xs"
  by (induction xs arbitrary: ys) (fastforce simp: res_simps split: if_splits)+

lemma py_prefix_set: "set (py_prefix n xs) \<subseteq> set xs"
  by (auto simp: py_prefix_def dest: in_set_takeD)

lemma py_prefix_length: "0 \<le> n \<Longrightarrow> int (length (py_prefix n xs)) \<le> n"
  by (simp add: py_prefix_def)

lemma select_rows_Inr:
  assumes "select_rows srv table field cid svc arg = Inr rows"
  shows "0 \<le> max_rows srv \<Longrightarrow> int (length rows) \<le> max_rows srv"
    and "row \<in> set rows \<Longrightarrow> \<exists>k c. cid = JStr k \<and> map_of (srv_cases srv) k = Some c
           \<and> svc = JStr (service c) \<and> row \<in> set (table c)"
  using assms filterR_set py_prefix_set
  by (fastforce simp: select_rows_def res_simps hash_key_def py_prefix_length
      split: option.splits if_splits json.splits)+

lemma safe_row_clean:
  assumes "redact_outputs srv"
  shows "\<exists>m. map_of (fst (safe_row srv row)) ''message'' = Some (JStr m) \<and> rr_count (redact m) = 0"
  using assms by (simp add: safe_row_def safe_text_def Let_def redact_again)

lemma record_call_Inr [res_simps]:
  "record_call run_id mname latency res s = (Inr res', t) \<longleftrightarrow>
     res' = res \<and> t = logged run_id mname latency res s"
  by (auto simp: logged_def record_call_def sret_def)

lemma validate_Inr: "validate run_id mname arguments allowed s = (Inr u, t) \<Longrightarrow> t = touched run_id s"
  by (auto simp: validate_def touched_def sbind_def sensure_def sret_def sraise_def smodify_def sget_def
      Let_def split: if_splits)

lemma touched_reads [simp]:
  "select_rows (touched run_id s) = select_rows s" "safe_row (touched run_id s) = safe_row s"
  by (simp_all add: fun_eq_iff select_rows_def safe_row_def safe_text_def touched_def
      cong: option.case_cong if_cong)

text \<open>
  What \<open>query_logs\<close> hands out: with redaction on and a row bound configured, at most that many
  rows, one evidence identifier per row, each row a log line of the named case of the named service
  with only its message replaced, and no message in which redaction would still find anything.
\<close>

theorem query_logs_evidence:
  assumes "query_logs latency run_id cid svc level srv = (Inr res, srv')"
    and "redact_outputs srv" and "0 \<le> max_rows srv"
  shows "\<exists>rows. tr_data res = [(''rows'', JArr (map JObj rows))]
    \<and> int (length rows) \<le> max_rows srv \<and> length (tr_evidence_ids res) = length rows
    \<and> (\<forall>row \<in> set rows. \<exists>k c row0 m. cid = JStr k \<and> map_of (srv_cases srv) k = Some c
          \<and> svc = JStr (service c) \<and> row0 \<in> set (logs c)
          \<and> row = dict_set ''message'' (JStr m) row0 \<and> rr_count (redact m) = 0)"
proof -
  from assms(1) obtain rows ids where rows: "select_rows srv logs ''level'' cid svc level = Inr rows"
    and ids: "mapR (log_id cid) (map fst (map (safe_row srv) rows)) = Inr ids"
    and res: "tr_data res = [(''rows'', JArr (map (\<lambda>(row, _). JObj row) (map (safe_row srv) rows)))]"
      "tr_evidence_ids res = ids"
    unfolding query_logs_def by (auto simp: res_simps dest!: validate_Inr)
  let ?rows = "map (\<lambda>r. fst (safe_row srv r)) rows"
  have "tr_data res = [(''rows'', JArr (map JObj ?rows))]"
    using res(1) by (simp add: case_prod_unfold comp_def)
  moreover have "length (tr_evidence_ids res) = length ?rows"
    using ids res(2) by (auto simp: mapR_eq_Inr dest: list_all2_lengthD)
  moreover have "int (length ?rows) \<le> max_rows srv"
    using select_rows_Inr(1) [OF rows assms(3)] by simp
  moreover have "\<exists>k c row0 m. cid = JStr k \<and> map_of (srv_cases srv) k = Some c
          \<and> svc = JStr (service c) \<and> row0 \<in> set (logs c)
          \<and> row = dict_set ''message'' (JStr m) row0 \<and> rr_count (redact m) = 0"
    if "row \<in> set ?rows" for row
  proof -
    from that obtain row0 where r0: "row0 \<in> set rows" "row = fst (safe_row srv row0)" by auto
    obtain m where "row = dict_set ''message'' (JStr m) row0" "rr_count (redact m) = 0"
      using r0(2) assms(2) by (simp add: safe_row_def safe_text_def Let_def redact_again)
    with select_rows_Inr(2) [OF rows r0(1)] show ?thesis by blast
  qed
  ultimately show ?thesis by blast
qed

definition sample_case :: incident_case where
  "sample_case = \<lparr> case_id = ''c1'', family = ''f'', split_name = ''development'', service = ''db'',
     query = ''q'', answerable = True, document_dependent = False, relevant_chunk_ids = [],
     logs = [[(''timestamp'', JStr ''t1''), (''level'', JStr ''ERROR''),
              (''message'', JStr ''1.1.1.1'')]],
     metrics = [], expected_diagnosis = [], expected_action = None, canary_fixture = False \<rparr>"

lemma redact_sample:
  "redact ''1.1.1.1'' =
     \<lparr> rr_text = ''[REDACTED:IP]'', rr_count = 1, rr_categories = [''ip''] \<rparr>"
  by code_simp

theorem query_logs_evidence_witness:
  "\<exists>res srv'. query_logs ''0.1'' ''r'' (JStr ''c1'') (JStr ''db'') (JStr [])
       (new_server 8 20 True True [sample_case]) = (Inr res, srv')
     \<and> tr_redactions res = 1 \<and> tr_evidence_ids res = [''log:c1:t1'']
     \<and> (\<exists>rows. tr_data res = [(''rows'', JArr (map JObj rows))] \<and> int (length rows) \<le> 20)"
proof -
  let ?srv = "new_server 8 20 True True [sample_case]"
  let ?out = "query_logs ''0.1'' ''r'' (JStr ''c1'') (JStr ''db'') (JStr []) ?srv"
  have ok: "(case fst ?out of Inl e \<Rightarrow> False
      | Inr res \<Rightarrow> tr_redactions res = 1 \<and> tr_evidence_ids res = [''log:c1:t1''])"
    unfolding query_logs_def
    by (simp add: validate_cases method_facts calls_def new_server_def sample_case_def select_rows_def
        hash_key_def py_prefix_def safe_row_def safe_text_def redact_sample log_id_def dict_item_def
        lift_py_def record_call_def sret_def touched_def setdefault_def)
  obtain r t where out: "?out = (r, t)" by fastforce
  with ok obtain res where "r = Inr res" by (cases r) auto
  with out have run: "?out = (Inr res, t)" by simp
  have "redact_outputs ?srv" "max_rows ?srv = 20" by (simp_all add: new_server_def)
  with query_logs_evidence [OF run] ok run show ?thesis by auto
qed

section \<open>The protocol boundary\<close>

text \<open>
  The tool server encodes a result as an object, the SDK carries it to the client, and the facade
  decodes the object back. The SDK is the parameter \<open>sdk\<close>: given the error or the object a tool
  produced, it yields the text of its error blocks or the object of the reply (structured content, or the
  first text block that parses to an object).
\<close>

definition validate_raw_arguments :: "string \<Rightarrow> json option \<Rightarrow> mcp_exn + unit" where
  "validate_raw_arguments mname raw =
     (case Option.bind raw as_dict of
        None \<Rightarrow> Inl (MCPValidationError (''arguments for '' @ mname @ '' must be an object''))
      | Some d \<Rightarrow>
          let unknown = sort (remdups (filter (\<lambda>k. k \<notin> set (dict_get mname [] METHOD_ARGUMENTS))
                                (map fst d)))
          in ensure (unknown = []) (MCPValidationError (''unknown arguments for '' @ mname @ '': ''
               @ py_repr (JArr (map JStr unknown)))))"

definition encoded :: "tool_result \<Rightarrow> dict" where
  "encoded r =
     [(''method'', JStr (tr_method r)), (''schema_version'', JStr (tr_schema_version r)),
      (''data'', JObj (tr_data r)), (''evidence_ids'', JArr (map JStr (tr_evidence_ids r))),
      (''redactions'', JInt (tr_redactions r))]"

text \<open>Iterating a decoded value: the elements of an array, the characters of a string, the keys of
  an object.\<close>

definition py_iter :: "json \<Rightarrow> json list res" where
  "py_iter v = (case v of JArr xs \<Rightarrow> Inr xs | JStr s \<Rightarrow> Inr (map (\<lambda>c. JStr [c]) s)
                 | JObj d \<Rightarrow> Inr (map (\<lambda>(k, _). JStr k) d)
                 | _ \<Rightarrow> Inl (TypeError ''object is not iterable''))"

definition decode_payload :: "dict \<Rightarrow> tool_result res" where
  "decode_payload payload =
     rbind (dict_item ''data'' payload) (\<lambda>d.
     case as_dict d of
       None \<Rightarrow> Inl (TypeError ''data is not an object'')
     | Some data \<Rightarrow>
         rbind (dict_item ''method'' payload) (\<lambda>m.
         rbind (dict_item ''schema_version'' payload) (\<lambda>v.
         rbind (py_iter (dict_get ''evidence_ids'' (JArr []) payload)) (\<lambda>ids.
         rbind (py_int_json (dict_get ''redactions'' (JInt 0) payload)) (\<lambda>n.
         Inr \<lparr> tr_method = py_str m, tr_schema_version = py_str v, tr_data = data,
               tr_evidence_ids = map py_str ids, tr_redactions = n \<rparr>)))))"

text \<open>\<^verbatim>\<open>MCPClientFacade._call\<close>: an error block, or a payload that is no result, becomes a validation
  error.\<close>

definition facade_call ::
  "(mcp_exn + json \<Rightarrow> string + json) \<Rightarrow> string \<Rightarrow> tool_result srv \<Rightarrow> tool_result srv" where
  "facade_call sdk mname tool srv =
     (case tool srv of (out, srv') \<Rightarrow>
        (case sdk (map_sum id (\<lambda>r. JObj (encoded r)) out) of
           Inl detail \<Rightarrow> Inl (MCPValidationError
             (if detail \<noteq> [] then detail else ''MCP tool call rejected: '' @ mname))
         | Inr payload \<Rightarrow>
             (case as_dict payload of
                None \<Rightarrow> Inl (MCPValidationError (''MCP tool returned no structured result: '' @ mname))
              | Some d \<Rightarrow> (case decode_payload d of Inr r \<Rightarrow> Inr r
                         | Inl e \<Rightarrow> Inl (if value_error e then MCPValidationError ''MCP result failed schema validation''
                                       else Raised e))),
         srv'))"

lemma decode_encoded: "decode_payload (encoded r) = Inr r"
  by (simp add: decode_payload_def encoded_def dict_item_def dict_get_def py_iter_def py_int_json_def
      comp_def)

text \<open>
  The facade is transparent: over an SDK that delivers a tool's object unchanged and reports a
  tool's exception as an error, a call through the facade returns exactly the result of the tool
  and leaves the server as the tool does, and every exception of the tool surfaces as a validation
  error.
\<close>

theorem facade_transparent:
  assumes "\<And>p. sdk (Inr p) = Inr p" and "\<And>e. \<exists>detail. sdk (Inl e) = Inl detail"
  shows "snd (facade_call sdk mname tool srv) = snd (tool srv)
    \<and> (\<forall>res. fst (facade_call sdk mname tool srv) = Inr res \<longleftrightarrow> fst (tool srv) = Inr res)
    \<and> (\<forall>e. fst (facade_call sdk mname tool srv) = Inl e \<longrightarrow> (\<exists>msg. e = MCPValidationError msg))"
proof (cases "tool srv")
  case (Pair out srv')
  then show ?thesis
  proof (cases out)
    case (Inl e)
    with assms(2) [of e] Pair show ?thesis by (auto simp: facade_call_def)
  next
    case (Inr r)
    with assms(1) Pair show ?thesis by (auto simp: facade_call_def decode_encoded)
  qed
qed

theorem facade_transparent_witness:
  "fst (facade_call (map_sum (\<lambda>_. ''tool error'') id) ''remediation_status''
      (remediation_status ''0.1'' ''r'' (JStr ''db'')) (new_server 8 20 True True [])) =
   Inr \<lparr> tr_method = ''remediation_status'', tr_schema_version = ''m6-mcp-v1'',
         tr_data = [(''resource_id'', JStr ''db''), (''state'', JStr ''UNCHANGED'')],
         tr_evidence_ids = [], tr_redactions = 0 \<rparr>"
proof -
  let ?res = "\<lparr> tr_method = ''remediation_status'', tr_schema_version = ''m6-mcp-v1'',
         tr_data = [(''resource_id'', JStr ''db''), (''state'', JStr ''UNCHANGED'')],
         tr_evidence_ids = [], tr_redactions = 0 \<rparr>"
  have "fst (remediation_status ''0.1'' ''r'' (JStr ''db'') (new_server 8 20 True True [])) = Inr ?res"
    by code_simp
  with facade_transparent [of "map_sum (\<lambda>_. ''tool error'') id"] show ?thesis by simp
qed

end
