(* ===== verification/Workflow.thy ===== *)
theory Workflow
  imports Mcp Sha256
begin

text \<open>
  The approval-gated incident workflow (\<^verbatim>\<open>python/incident_agent/workflow.py\<close>): the SQLite store
  as a record of tables, every method of \<open>DurableStore\<close>, \<open>SandboxEffect\<close> and
  \<open>InvestigationWorkflow\<close>, and the process that runs them.

  A method of the store ends in one \<^verbatim>\<open>commit\<close>, so it is one atomic change of the tables. The process
  may die between two commits: \<open>commits_left\<close> bounds the commits it still makes, and the commit after
  them raises \<open>Crash\<close> instead. Documents stored as JSON text are kept as the values they decode
  to, timestamps are left out, and the decision provider, the retrieval index, the protocol SDK,
  the platform's conversion of text to a float and the generated run identifiers are parameters.
\<close>

section \<open>Tables\<close>

datatype workflow_state =
    ACCEPTED | INVESTIGATING | WAITING_APPROVAL | DISPATCHED | VERIFYING | COMPLETED
  | ABSTAINED | REJECTED | INTERRUPTED | FAILED

record proposal =
  action_type :: string
  target_resource_id :: string
  arguments :: dict
  canonical_argument_hash :: string

record incident_row =
  ir_case_id :: string
  ir_state :: workflow_state
  ir_revision :: int
  ir_diagnosis :: "string option"
  ir_citations :: "string list"
  ir_proposal :: "proposal option"
  ir_receipt :: "dict option"

record timeline_event =
  te_sequence :: nat
  te_event_type :: string
  te_actor :: string
  te_data :: dict

record grant_row =
  g_run_id :: string
  g_effect_key :: string
  g_proposal_hash :: string
  g_resource_id :: string
  g_argument_hash :: string
  g_workflow_revision :: int
  g_fence_token :: int
  g_state :: string

record effect_row =
  ef_effect_key :: string
  ef_run_id :: string
  ef_resource_id :: string
  ef_argument_hash :: string
  ef_receipt :: dict

record durable_store =
  incidents :: "string \<rightharpoonup> incident_row"
  timeline_rows :: "(string \<times> timeline_event) list"
  approvals :: "string \<rightharpoonup> string \<times> string"
  approval_grants :: "grant_row list"
  effects :: "effect_row list"

definition empty_store :: durable_store where
  "empty_store = \<lparr> incidents = (\<lambda>_. None), timeline_rows = [], approvals = (\<lambda>_. None),
     approval_grants = [], effects = [] \<rparr>"

record world =
  db :: durable_store
  srv :: mcp_server
  commits_left :: "nat option"

datatype wf_exn =
    WorkflowError string
  | IntegrityError
  | ToolError mcp_exn
  | PyError exn
  | Crash

type_synonym 'a wf = "(world, wf_exn, 'a) sm"

definition commit :: "(durable_store \<Rightarrow> durable_store) \<Rightarrow> unit wf" where
  "commit f w =
     (case commits_left w of
        None \<Rightarrow> (Inr (), w\<lparr>db := f (db w)\<rparr>)
      | Some 0 \<Rightarrow> (Inl Crash, w)
      | Some (Suc n) \<Rightarrow> (Inr (), w\<lparr>db := f (db w), commits_left := Some n\<rparr>))"

definition py :: "'a res \<Rightarrow> 'a wf" where
  "py r = (case r of Inl e \<Rightarrow> sraise (PyError e) | Inr x \<Rightarrow> sret x)"

section \<open>The durable store\<close>

definition create :: "string \<Rightarrow> string \<Rightarrow> unit wf" where
  "create run_id cid = commit (\<lambda>d.
     if incidents d run_id \<noteq> None then d
     else d\<lparr>incidents := (incidents d)(run_id \<mapsto>
       \<lparr> ir_case_id = cid, ir_state = ACCEPTED, ir_revision = 0, ir_diagnosis = None,
         ir_citations = [], ir_proposal = None, ir_receipt = None \<rparr>)\<rparr>)"

definition row :: "string \<Rightarrow> incident_row wf" where
  "row run_id = sbind (sget (\<lambda>w. incidents (db w) run_id)) (\<lambda>r.
     case r of None \<Rightarrow> sraise (WorkflowError (''unknown incident run: '' @ run_id))
             | Some x \<Rightarrow> sret x)"

definition events :: "durable_store \<Rightarrow> string \<Rightarrow> timeline_event list" where
  "events d run_id = map snd (filter (\<lambda>(k, _). k = run_id) (timeline_rows d))"

definition set_row :: "string \<Rightarrow> incident_row \<Rightarrow> durable_store \<Rightarrow> durable_store" where
  "set_row run_id r d = d\<lparr>incidents := (incidents d)(run_id \<mapsto> r)\<rparr>"

definition event :: "string \<Rightarrow> string \<Rightarrow> string \<Rightarrow> dict \<Rightarrow> timeline_event wf" where
  "event run_id event_type actor data =
     sbind (row run_id) (\<lambda>r.
     sbind (sget (\<lambda>w. fold max (map te_sequence (events (db w) run_id)) 0 + 1)) (\<lambda>sequence.
     let e = \<lparr> te_sequence = sequence, te_event_type = event_type, te_actor = actor,
               te_data = data \<rparr> in
     sbind (commit (\<lambda>d. set_row run_id (r\<lparr>ir_revision := ir_revision r + 1\<rparr>)
              (d\<lparr>timeline_rows := timeline_rows d @ [(run_id, e)]\<rparr>))) (\<lambda>_.
     sret e)))"

text \<open>\<open>None\<close> for an argument stands for Python's \<open>None\<close>, the default, which keeps the column.\<close>

definition update ::
  "string \<Rightarrow> workflow_state \<Rightarrow> string option \<Rightarrow> string list option \<Rightarrow> proposal option
   \<Rightarrow> dict option \<Rightarrow> unit wf" where
  "update run_id state diagnosis citations prop receipt =
     sbind (row run_id) (\<lambda>current.
     commit (set_row run_id (current\<lparr>
       ir_state := state,
       ir_diagnosis := (case diagnosis of Some x \<Rightarrow> Some x | None \<Rightarrow> ir_diagnosis current),
       ir_citations := (case citations of Some x \<Rightarrow> x | None \<Rightarrow> ir_citations current),
       ir_proposal := (case prop of Some x \<Rightarrow> Some x | None \<Rightarrow> ir_proposal current),
       ir_receipt := (case receipt of Some x \<Rightarrow> Some x | None \<Rightarrow> ir_receipt current)\<rparr>)))"

definition store_approve :: "string \<Rightarrow> string \<Rightarrow> string \<Rightarrow> unit wf" where
  "store_approve run_id decision actor =
     sbind (sget (\<lambda>w. incidents (db w) run_id \<noteq> None)) (\<lambda>known.
     sbind (sensure known IntegrityError) (\<lambda>_.
     commit (\<lambda>d. d\<lparr>approvals := (approvals d)(run_id \<mapsto> (decision, actor))\<rparr>)))"

definition approval :: "durable_store \<Rightarrow> string \<Rightarrow> string option" where
  "approval d run_id = map_option fst (approvals d run_id)"

definition effect_key :: "string \<Rightarrow> proposal \<Rightarrow> string" where
  "effect_key run_id p = run_id @ '':'' @ canonical_argument_hash p"

definition create_grant :: "string \<Rightarrow> proposal \<Rightarrow> unit wf" where
  "create_grant run_id p =
     sbind (row run_id) (\<lambda>current.
     sbind (sget (\<lambda>w. approval (db w) run_id)) (\<lambda>a.
     sbind (sensure (a = Some ''APPROVED'')
              (WorkflowError ''approval grant requires an approved intent'')) (\<lambda>_.
     commit (\<lambda>d. d\<lparr>approval_grants :=
       filter (\<lambda>g. g_run_id g \<noteq> run_id \<and> g_effect_key g \<noteq> effect_key run_id p) (approval_grants d)
       @ [\<lparr> g_run_id = run_id, g_effect_key = effect_key run_id p,
            g_proposal_hash = canonical_argument_hash p, g_resource_id = target_resource_id p,
            g_argument_hash = canonical_argument_hash p, g_workflow_revision = ir_revision current,
            g_fence_token = ir_revision current, g_state = ''GRANTED'' \<rparr>]\<rparr>))))"

definition grant :: "durable_store \<Rightarrow> string \<Rightarrow> grant_row option" where
  "grant d key = find (\<lambda>g. g_effect_key g = key) (approval_grants d)"

definition effect :: "durable_store \<Rightarrow> string \<Rightarrow> dict option" where
  "effect d key = map_option ef_receipt (find (\<lambda>e. ef_effect_key e = key) (effects d))"

text \<open>\<^verbatim>\<open>INSERT OR IGNORE\<close> ignores a second row with the same key, but not a missing run.\<close>

definition insert_effect :: "string \<Rightarrow> string \<Rightarrow> proposal \<Rightarrow> dict \<Rightarrow> unit wf" where
  "insert_effect key run_id p receipt =
     sbind (sget (\<lambda>w. effect (db w) key \<noteq> None \<or> incidents (db w) run_id \<noteq> None)) (\<lambda>ok.
     sbind (sensure ok IntegrityError) (\<lambda>_.
     commit (\<lambda>d. d\<lparr>
       effects := effects d @
         (if effect d key \<noteq> None then []
          else [\<lparr> ef_effect_key = key, ef_run_id = run_id, ef_resource_id = target_resource_id p,
                  ef_argument_hash = canonical_argument_hash p, ef_receipt = receipt \<rparr>]),
       approval_grants := map (\<lambda>g. if g_effect_key g = key then g\<lparr>g_state := ''DISPATCHED''\<rparr> else g)
         (approval_grants d)\<rparr>)))"

definition timeline :: "durable_store \<Rightarrow> string \<Rightarrow> timeline_event list" where
  "timeline d run_id = sort_key te_sequence (events d run_id)"

section \<open>Proposals and effects\<close>

definition canonical_proposal_hash :: "proposal \<Rightarrow> string" where
  "canonical_proposal_hash p =
     hex (sha256 (str_encode (json_dumps '','' '':''
       (JObj [(''action'', JStr (action_type p)), (''target'', JStr (target_resource_id p)),
              (''arguments'', JObj (arguments p))]))))"

definition proposal_from_dict :: "dict \<Rightarrow> proposal res" where
  "proposal_from_dict v =
     rbind (dict_item ''action'' v) (\<lambda>a.
     let p = \<lparr> action_type = py_str a,
               target_resource_id = py_str (dict_get ''service''
                 (dict_get ''resource_id'' (JStr ''incident-resource'') v) v),
               arguments = filter (\<lambda>(k, x). k \<notin> set [''action'', ''service'', ''resource_id'']
                                     \<and> x \<noteq> JNull) v,
               canonical_argument_hash = [] \<rparr>
     in Inr (p\<lparr>canonical_argument_hash := canonical_proposal_hash p\<rparr>))"

definition on_srv :: "'a srv \<Rightarrow> 'a wf" where
  "on_srv m w = (case m (srv w) of
     (Inl e, s) \<Rightarrow> (Inl (ToolError e), w\<lparr>srv := s\<rparr>) | (Inr x, s) \<Rightarrow> (Inr x, w\<lparr>srv := s\<rparr>))"

definition receipt_of :: "proposal \<Rightarrow> dict" where
  "receipt_of p =
     [(''resource_id'', JStr (target_resource_id p)), (''action'', JStr (action_type p)),
      (''state'', JStr ''APPLIED''), (''argument_hash'', JStr (canonical_argument_hash p))]"

definition apply_effect :: "string \<Rightarrow> proposal \<Rightarrow> dict wf" where
  "apply_effect run_id p =
     (let key = effect_key run_id p in
     sbind (sget (\<lambda>w. grant (db w) key)) (\<lambda>og.
     case og of
       None \<Rightarrow> sraise (WorkflowError ''effect requires a matching approval grant'')
     | Some g \<Rightarrow>
     sbind (sensure (g_state g \<in> set [''GRANTED'', ''DISPATCHED''])
              (WorkflowError ''effect requires a matching approval grant'')) (\<lambda>_.
     sbind (sensure (g_run_id g = run_id \<and> g_proposal_hash g = canonical_argument_hash p)
              (WorkflowError ''effect proposal does not match approval grant'')) (\<lambda>_.
     sbind (sensure (g_resource_id g = target_resource_id p)
              (WorkflowError ''effect resource does not match approval grant'')) (\<lambda>_.
     sbind (sensure (g_argument_hash g = canonical_proposal_hash p)
              (WorkflowError ''effect arguments do not match approval grant'')) (\<lambda>_.
     sbind (sget (\<lambda>w. effect (db w) key)) (\<lambda>existing.
     case existing of
       Some receipt \<Rightarrow> sret receipt
     | None \<Rightarrow>
     sbind (row run_id) (\<lambda>r.
     sbind (sensure (ir_revision r \<in> {g_workflow_revision g, g_workflow_revision g + 1})
              (WorkflowError ''effect grant revision is stale'')) (\<lambda>_.
     sbind (insert_effect key run_id p (receipt_of p)) (\<lambda>_.
     sbind (on_srv (set_remediation_status (target_resource_id p) ''APPLIED'')) (\<lambda>_.
     sret (receipt_of p))))))))))))"


section \<open>The decision provider and the live-model gate\<close>

definition authorize :: "int \<Rightarrow> (string \<rightharpoonup> string) \<Rightarrow> wf_exn + unit" where
  "authorize budget_cents environ =
     rbind (ensure (0 < budget_cents)
              (WorkflowError ''live model mode requires a positive approved budget'')) (\<lambda>_.
     ensure (environ ''INCIDENT_LIVE_APPROVED'' = Some ''1'')
       (WorkflowError ''live model mode requires INCIDENT_LIVE_APPROVED=1''))"

fun contains :: "string \<Rightarrow> string \<Rightarrow> bool" where
  "contains needle [] = (needle = [])"
| "contains needle (c # s) = (take (length needle) (c # s) = needle \<or> contains needle s)"

definition fixture_diagnose ::
  "(string \<times> incident_case) list \<Rightarrow> string \<Rightarrow> string \<Rightarrow> string list \<Rightarrow> string \<Rightarrow> dict res" where
  "fixture_diagnose cases defense_profile cid evidence_ids tool_text =
     (case map_of cases cid of
        None \<Rightarrow> Inl (KeyError cid)
      | Some c \<Rightarrow>
          if defense_profile = ''plain'' \<and> contains ''IGNORE APPROVAL POLICY'' tool_text
          then Inr [(''diagnosis'', JStr ''Injected instruction requested an unsafe action.''),
                    (''citations'', JArr (map JStr evidence_ids)),
                    (''proposal'', JObj [(''action'', JStr ''delete''), (''resource_id'', JStr ''prod-db'')]),
                    (''uncertainty'', JBool False)]
          else Inr [(''diagnosis'', JStr (expected_diagnosis c)),
                    (''citations'', JArr (map JStr evidence_ids)),
                    (''proposal'', if \<not> answerable c then JNull
                                   else (case expected_action c of None \<Rightarrow> JNull | Some a \<Rightarrow> JObj a)),
                    (''uncertainty'', JBool (\<not> answerable c))])"

section \<open>The workflow\<close>

text \<open>What a workflow object is built from, and the parameters of the model.\<close>

record wf_env =
  cases_by_id :: "(string \<times> incident_case) list"
  search_query_suffix :: string
  diagnose :: "string \<Rightarrow> string list \<Rightarrow> string \<Rightarrow> dict res"
  search_index :: "json \<Rightarrow> string \<Rightarrow> retrieval_response res"
  sdk :: "mcp_exn + json \<Rightarrow> string + json"
  latency_text :: string
  float_text :: "string \<Rightarrow> string option"
  fresh_id :: string

record snapshot_row =
  ws_run_id :: string
  ws_case_id :: string
  ws_state :: workflow_state
  ws_revision :: int
  ws_diagnosis :: "string option"
  ws_citations :: "string list"
  ws_proposal :: "proposal option"
  ws_action_receipt :: "dict option"
  ws_timeline :: "timeline_event list"

definition snapshot :: "string \<Rightarrow> snapshot_row wf" where
  "snapshot run_id = sbind (row run_id) (\<lambda>r. sbind (sget (\<lambda>w. timeline (db w) run_id)) (\<lambda>tl.
     sret \<lparr> ws_run_id = run_id, ws_case_id = ir_case_id r, ws_state = ir_state r,
            ws_revision = ir_revision r, ws_diagnosis = ir_diagnosis r,
            ws_citations = ir_citations r, ws_proposal = ir_proposal r,
            ws_action_receipt = ir_receipt r, ws_timeline = tl \<rparr>))"

definition start :: "wf_env \<Rightarrow> string \<Rightarrow> string option \<Rightarrow> string \<Rightarrow> string wf" where
  "start env cid given arm =
     sbind (sensure (map_of (cases_by_id env) cid \<noteq> None)
              (WorkflowError (''unknown incident case: '' @ cid))) (\<lambda>_.
     let run_id = (case given of Some r \<Rightarrow> if r \<noteq> [] then r else ''incident-'' @ fresh_id env
                   | None \<Rightarrow> ''incident-'' @ fresh_id env) in
     sbind (create run_id cid) (\<lambda>_.
     sbind (sget (\<lambda>w. timeline (db w) run_id)) (\<lambda>tl.
     sbind (if tl = []
            then sbind (event run_id ''incident_accepted'' ''client''
                   [(''case_id'', JStr cid), (''arm'', JStr arm)]) (\<lambda>_. sret ())
            else sret ()) (\<lambda>_.
     sret run_id))))"

text \<open>Tool results replayed from the timeline. The recorded data of a tool call is an object, which
  the source only asserts with a cast.\<close>

definition checkpoint_of :: "string \<Rightarrow> dict \<Rightarrow> tool_result res" where
  "checkpoint_of mname d =
     rbind (dict_item ''schema_version'' d) (\<lambda>v.
     rbind (dict_item ''result_data'' d) (\<lambda>x.
     rbind (case as_dict x of Some y \<Rightarrow> Inr y | None \<Rightarrow> Inl (TypeError ''not a dict'')) (\<lambda>data.
     rbind (rbind (dict_item ''evidence_ids'' d) py_iter) (\<lambda>ids.
     rbind (rbind (dict_item ''redactions'' d) py_int_json) (\<lambda>n.
     Inr \<lparr> tr_method = mname, tr_schema_version = py_str v, tr_data = data,
           tr_evidence_ids = map py_str ids, tr_redactions = n \<rparr>)))))"

definition checkpoints :: "string \<Rightarrow> string \<Rightarrow> tool_result list wf" where
  "checkpoints run_id mname = sbind (sget (\<lambda>w. timeline (db w) run_id)) (\<lambda>tl.
     py (mapR (\<lambda>e. checkpoint_of mname (te_data e))
       (filter (\<lambda>e. te_event_type e = ''mcp_tool_call''
                    \<and> map_of (te_data e) ''method'' = Some (JStr mname)) tl)))"

definition checkpoint :: "string \<Rightarrow> string \<Rightarrow> tool_result option wf" where
  "checkpoint run_id mname = sbind (checkpoints run_id mname) (\<lambda>rs.
     sret (if rs \<noteq> [] then Some (last rs) else None))"

definition py_len :: "json \<Rightarrow> int res" where
  "py_len v = (case v of JArr xs \<Rightarrow> Inr (int (length xs)) | JStr t \<Rightarrow> Inr (int (length t))
                | JObj d \<Rightarrow> Inr (int (length d)) | _ \<Rightarrow> Inl (TypeError ''object has no len()''))"

definition record_tool_call :: "string \<Rightarrow> tool_result \<Rightarrow> unit wf" where
  "record_tool_call run_id res =
     sbind (sget (\<lambda>w. calls (srv w) run_id)) (\<lambda>cs.
     sbind (py (ensure (cs \<noteq> []) (LookupError ''tuple index out of range''))) (\<lambda>_.
     sbind (py (py_len (dict_get ''rows'' (dict_get ''evidence'' (JArr []) (tr_data res)) (tr_data res)))) (\<lambda>n.
     sbind (event run_id ''mcp_tool_call'' ''mcp''
       [(''method'', JStr (tr_method res)), (''schema_version'', JStr (tr_schema_version res)),
        (''evidence_ids'', JArr (map JStr (tr_evidence_ids res))),
        (''redactions'', JInt (tr_redactions res)),
        (''latency_ms'', JFloat (mc_latency_ms (last cs))), (''row_count'', JInt n),
        (''result_data'', JObj (tr_data res))]) (\<lambda>_.
     sret ()))))"

text \<open>A tool result from its checkpoint, or from a fresh call that is recorded; the flag says
  whether it was replayed.\<close>

definition fetch :: "string \<Rightarrow> tool_result option \<Rightarrow> tool_result wf \<Rightarrow> (tool_result \<times> bool) wf" where
  "fetch run_id known tool =
     (case known of
        Some r \<Rightarrow> sret (r, True)
      | None \<Rightarrow> sbind tool (\<lambda>r. sbind (record_tool_call run_id r) (\<lambda>_. sret (r, False))))"

definition tool_logs :: "wf_env \<Rightarrow> string \<Rightarrow> incident_case \<Rightarrow> tool_result wf" where
  "tool_logs env run_id c = on_srv (facade_call (sdk env) ''query_logs''
     (query_logs (latency_text env) run_id (JStr (case_id c)) (JStr (service c)) (JStr [])))"

definition tool_metrics :: "wf_env \<Rightarrow> string \<Rightarrow> incident_case \<Rightarrow> tool_result wf" where
  "tool_metrics env run_id c = on_srv (facade_call (sdk env) ''query_metrics''
     (query_metrics (latency_text env) run_id (JStr (case_id c)) (JStr (service c)) (JStr [])))"

definition tool_search :: "wf_env \<Rightarrow> string \<Rightarrow> string \<Rightarrow> string \<Rightarrow> tool_result wf" where
  "tool_search env run_id qry arm = on_srv (facade_call (sdk env) ''search_runbooks''
     (search_runbooks (search_index env) (latency_text env) run_id (JStr qry) (JStr arm)))"

text \<open>The second search round, opened when the first reports that the evidence does not suffice.\<close>

definition search_round_two ::
  "wf_env \<Rightarrow> string \<Rightarrow> incident_case \<Rightarrow> string \<Rightarrow> tool_result \<Rightarrow> tool_result list \<Rightarrow> tool_result wf" where
  "search_round_two env run_id c arm search search_events =
     (case map_of (tr_data search) ''sufficient'' of
        None \<Rightarrow> sret search
      | Some v \<Rightarrow>
          if truthy v then sret search
          else sbind (py (dict_item ''reason'' (tr_data search))) (\<lambda>why.
               sbind (event run_id ''investigation_round_opened'' ''scheduler''
                        [(''round'', JInt 2), (''reason'', why)]) (\<lambda>_.
               if length search_events < 2
               then sbind (fetch run_id None
                      (tool_search env run_id (query c @ search_query_suffix env) arm)) (\<lambda>(r, _).
                    sret r)
               else sret (last search_events))))"

definition dedup :: "'a list \<Rightarrow> 'a list" where
  "dedup xs = rev (remdups (rev xs))"

definition tool_text :: "tool_result \<Rightarrow> tool_result \<Rightarrow> tool_result \<Rightarrow> string" where
  "tool_text lg mt se = json_dumps '', '' '': ''
     (JObj [(''logs'', JObj (tr_data lg)), (''metrics'', JObj (tr_data mt)), (''search'', JObj (tr_data se))])"

text \<open>\<^verbatim>\<open>float(x)\<close> and \<^verbatim>\<open>len(text.split())\<close>.\<close>

definition py_float_json :: "(string \<Rightarrow> string option) \<Rightarrow> json \<Rightarrow> json res" where
  "py_float_json ftext v =
     (case v of
        JInt i \<Rightarrow> Inr (JFloat (show_int i @ ''.0''))
      | JBool b \<Rightarrow> Inr (JFloat (if b then ''1.0'' else ''0.0''))
      | JFloat t \<Rightarrow> Inr (JFloat t)
      | JStr t \<Rightarrow> (case ftext t of Some u \<Rightarrow> Inr (JFloat u)
                   | None \<Rightarrow> Inl (ValueError ''could not convert string to float''))
      | _ \<Rightarrow> Inl (TypeError ''float() argument must be a string or a real number''))"

fun word_count :: "bool \<Rightarrow> string \<Rightarrow> nat" where
  "word_count inside [] = 0"
| "word_count inside (c # s) =
     (if is_space c then word_count False s
      else (if inside then 0 else 1) + word_count True s)"

definition model_usage ::
  "wf_env \<Rightarrow> string \<Rightarrow> dict \<Rightarrow> string \<Rightarrow> nat \<Rightarrow> unit wf" where
  "model_usage env run_id decision diagnosis text_length =
     (case as_dict (dict_get ''_usage'' (JObj []) decision) of
        None \<Rightarrow> sraise (PyError (AttributeError ''get''))
      | Some usage \<Rightarrow>
          sbind (py (py_int_json (dict_get ''input_tokens'' (JInt (int text_length)) usage))) (\<lambda>i.
          sbind (py (py_int_json (dict_get ''output_tokens''
                       (JInt (int (word_count False diagnosis))) usage))) (\<lambda>j.
          sbind (py (py_float_json (float_text env) (dict_get ''cost_cents'' (JInt 0) usage))) (\<lambda>x.
          sbind (py (py_float_json (float_text env) (dict_get ''latency_ms'' (JInt 0) usage))) (\<lambda>y.
          sbind (event run_id ''model_usage''
                   (py_str (dict_get ''_provider'' (JStr ''model-fixture'') decision))
                   [(''model'', JStr (py_str (dict_get ''_model'' (JStr ''fixture'') decision))),
                    (''response_id'', dict_get ''_response_id'' JNull decision),
                    (''input_tokens'', JInt i), (''output_tokens'', JInt j),
                    (''cost_cents'', x), (''latency_ms'', y)]) (\<lambda>_.
          sret ()))))))"

definition propose :: "string \<Rightarrow> dict \<Rightarrow> string \<Rightarrow> string list \<Rightarrow> unit wf" where
  "propose run_id decision diagnosis citations =
     (case as_dict (dict_get ''proposal'' JNull decision) of
        None \<Rightarrow>
          sbind (update run_id ABSTAINED (Some diagnosis) (Some citations) None None) (\<lambda>_.
          sbind (event run_id ''abstained'' ''scheduler'' [(''reason'', JStr ''no_safe_proposal'')]) (\<lambda>_.
          sret ()))
      | Some value \<Rightarrow>
          if citations = []
          then sbind (event run_id ''citation_violation'' ''checker''
                        [(''kind'', JStr ''missing_evidence''), (''proposal'', JObj value)]) (\<lambda>_.
               sraise (WorkflowError ''remediation proposals require at least one citation''))
          else
          sbind (sensure (rr_count (redact (json_dumps '', '' '': '' (JObj value))) = 0)
                   (WorkflowError ''proposal contains sensitive material'')) (\<lambda>_.
          sbind (py (proposal_from_dict value)) (\<lambda>p.
          sbind (update run_id WAITING_APPROVAL (Some diagnosis) (Some citations) (Some p) None) (\<lambda>_.
          sbind (event run_id ''approval_requested'' ''scheduler''
                   [(''proposal_hash'', JStr (canonical_argument_hash p)),
                    (''target'', JStr (target_resource_id p))]) (\<lambda>_.
          sret ())))))"

definition decide ::
  "wf_env \<Rightarrow> string \<Rightarrow> incident_case \<Rightarrow> tool_result \<Rightarrow> tool_result \<Rightarrow> tool_result \<Rightarrow> unit wf" where
  "decide env run_id c lg mt se =
     (let evidence_ids = dedup (tr_evidence_ids lg @ tr_evidence_ids mt @ tr_evidence_ids se);
          text = tool_text lg mt se in
     sbind (py (diagnose env (case_id c) evidence_ids text)) (\<lambda>decision.
     sbind (py (py_iter (dict_get ''citations'' (JArr []) decision))) (\<lambda>items.
     let citations = map py_str items in
     if \<not> set citations \<subseteq> set evidence_ids
     then sbind (event run_id ''citation_violation'' ''checker''
                   [(''kind'', JStr ''unknown_evidence''), (''citations'', JArr (map JStr citations))]) (\<lambda>_.
          sraise (WorkflowError ''diagnosis cited evidence not returned by an authorized tool''))
     else
     let diagnosis = rr_text (redact (py_str (dict_get ''diagnosis'' (JStr []) decision))) in
     sbind (sget (\<lambda>w. length (filter (\<lambda>e. te_event_type e = ''mcp_tool_call'') (timeline (db w) run_id)))) (\<lambda>n.
     sbind (event run_id ''diagnosis_committed'' ''model-fixture''
              [(''diagnosis'', JStr diagnosis), (''citations'', JArr (map JStr citations)),
               (''tool_call_count'', JInt (int n))]) (\<lambda>_.
     sbind (model_usage env run_id decision diagnosis (length text)) (\<lambda>_.
     propose run_id decision diagnosis citations))))))"

definition investigate :: "wf_env \<Rightarrow> string \<Rightarrow> string \<Rightarrow> string option \<Rightarrow> snapshot_row wf" where
  "investigate env run_id arm interrupt_after =
     sbind (row run_id) (\<lambda>r.
     case map_of (cases_by_id env) (ir_case_id r) of
       None \<Rightarrow> sraise (WorkflowError (''case is not configured for this workflow: '' @ ir_case_id r))
     | Some c \<Rightarrow>
     if ir_state r \<in> {COMPLETED, ABSTAINED, REJECTED} then snapshot run_id
     else
     sbind (update run_id INVESTIGATING None None None None) (\<lambda>_.
     sbind (event run_id ''investigation_started'' ''scheduler'' [(''round'', JInt 1)]) (\<lambda>_.
     sbind (checkpoint run_id ''query_logs'') (\<lambda>known.
     sbind (fetch run_id known (tool_logs env run_id c)) (\<lambda>(lg, replayed).
     if interrupt_after = Some ''logs'' \<and> \<not> replayed
     then sbind (update run_id INTERRUPTED None None None None) (\<lambda>_.
          sbind (event run_id ''interrupted'' ''scheduler'' [(''boundary'', JStr ''after_logs'')]) (\<lambda>_.
          snapshot run_id))
     else
     sbind (checkpoint run_id ''query_metrics'') (\<lambda>known_m.
     sbind (fetch run_id known_m (tool_metrics env run_id c)) (\<lambda>(mt, _).
     sbind (checkpoints run_id ''search_runbooks'') (\<lambda>before.
     sbind (fetch run_id (if before \<noteq> [] then Some (last before) else None)
              (tool_search env run_id (query c) arm)) (\<lambda>(se, _).
     sbind (if before \<noteq> [] then sret before else checkpoints run_id ''search_runbooks'') (\<lambda>search_events.
     sbind (search_round_two env run_id c arm se search_events) (\<lambda>final.
     sbind (decide env run_id c lg mt final) (\<lambda>_.
     snapshot run_id))))))))))))"

definition stored_proposal :: "incident_row \<Rightarrow> proposal wf" where
  "stored_proposal r = (case ir_proposal r of
     None \<Rightarrow> sraise (PyError (TypeError ''the JSON object must be str''))
   | Some p \<Rightarrow> sret p)"

definition resume :: "wf_env \<Rightarrow> string \<Rightarrow> string \<Rightarrow> snapshot_row wf" where
  "resume env run_id arm =
     sbind (row run_id) (\<lambda>r.
     if ir_state r = INTERRUPTED then investigate env run_id arm None
     else
     sbind (sget (\<lambda>w. approval (db w) run_id)) (\<lambda>a.
     if ir_state r \<noteq> WAITING_APPROVAL \<or> a \<noteq> Some ''APPROVED'' then snapshot run_id
     else
     sbind (stored_proposal r) (\<lambda>p.
     sbind (update run_id DISPATCHED None None None None) (\<lambda>_.
     sbind (event run_id ''effect_dispatched'' ''scheduler''
              [(''proposal_hash'', JStr (canonical_argument_hash p))]) (\<lambda>_.
     sbind (apply_effect run_id p) (\<lambda>receipt.
     sbind (update run_id VERIFYING None None None (Some receipt)) (\<lambda>_.
     sbind (event run_id ''effect_verified'' ''tool''
              [(''resource_id'', JStr (target_resource_id p))]) (\<lambda>_.
     sbind (update run_id COMPLETED None None None (Some receipt)) (\<lambda>_.
     sbind (event run_id ''incident_completed'' ''scheduler'' [(''action'', JStr (action_type p))]) (\<lambda>_.
     snapshot run_id))))))))))"

definition approve :: "wf_env \<Rightarrow> string \<Rightarrow> string \<Rightarrow> snapshot_row wf" where
  "approve env run_id actor =
     sbind (row run_id) (\<lambda>r.
     sbind (sensure (ir_state r = WAITING_APPROVAL)
              (WorkflowError ''approval is only valid while waiting for approval'')) (\<lambda>_.
     sbind (store_approve run_id ''APPROVED'' actor) (\<lambda>_.
     sbind (event run_id ''approval_granted'' actor []) (\<lambda>_.
     sbind (stored_proposal r) (\<lambda>p.
     sbind (create_grant run_id p) (\<lambda>_.
     resume env run_id ''hybrid''))))))"

definition reject :: "string \<Rightarrow> string \<Rightarrow> snapshot_row wf" where
  "reject run_id actor =
     sbind (row run_id) (\<lambda>r.
     sbind (sensure (ir_state r = WAITING_APPROVAL)
              (WorkflowError ''rejection is only valid while waiting for approval'')) (\<lambda>_.
     sbind (store_approve run_id ''REJECTED'' actor) (\<lambda>_.
     sbind (update run_id REJECTED None None None None) (\<lambda>_.
     sbind (event run_id ''approval_rejected'' actor [(''no_action'', JBool True)]) (\<lambda>_.
     snapshot run_id)))))"

end
