(* ===== verification/Workflow_Safety.thy ===== *)
theory Workflow_Safety
  imports Workflow
begin

text \<open>
  Safety of the incident workflow: an invariant of the tables that every method keeps at every
  commit, so also when the process dies between two commits, and what follows from it for
  approvals, effects and timelines.
\<close>

section \<open>The invariant\<close>

definition approved_at :: "durable_store \<Rightarrow> string \<Rightarrow> nat \<Rightarrow> bool" where
  "approved_at d k i \<longleftrightarrow> i < length (events d k) \<and> te_event_type (events d k ! i) = ''approval_granted''"

definition dispatched_at :: "durable_store \<Rightarrow> string \<Rightarrow> string \<Rightarrow> nat \<Rightarrow> bool" where
  "dispatched_at d k h i \<longleftrightarrow> i < length (events d k) \<and> te_event_type (events d k ! i) = ''effect_dispatched''
     \<and> te_data (events d k ! i) = [(''proposal_hash'', JStr h)]"

definition grant_ok :: "durable_store \<Rightarrow> grant_row \<Rightarrow> bool" where
  "grant_ok d g \<longleftrightarrow> g_effect_key g = g_run_id g @ '':'' @ g_argument_hash g
     \<and> g_proposal_hash g = g_argument_hash g
     \<and> (\<exists>i. g_workflow_revision g = int (Suc i) \<and> approved_at d (g_run_id g) i)"

definition effect_ok :: "durable_store \<Rightarrow> effect_row \<Rightarrow> bool" where
  "effect_ok d e \<longleftrightarrow> ef_effect_key e = ef_run_id e @ '':'' @ ef_argument_hash e
     \<and> CHR '':'' \<notin> set (ef_argument_hash e)
     \<and> (\<exists>i. approved_at d (ef_run_id e) i \<and> dispatched_at d (ef_run_id e) (ef_argument_hash e) (Suc i))"

definition has_effect :: "durable_store \<Rightarrow> string \<Rightarrow> dict \<Rightarrow> bool" where
  "has_effect d k receipt \<longleftrightarrow> (\<exists>e \<in> set (effects d). ef_run_id e = k \<and> ef_receipt e = receipt)"

definition row_ok :: "durable_store \<Rightarrow> string \<Rightarrow> incident_row \<Rightarrow> bool" where
  "row_ok d k r \<longleftrightarrow> ir_revision r = int (length (events d k))
     \<and> (ir_state r \<in> {VERIFYING, COMPLETED} \<longrightarrow> (\<exists>receipt. ir_receipt r = Some receipt \<and> has_effect d k receipt))
     \<and> (events d k = [] \<longrightarrow> ir_state r \<in> {ACCEPTED, INVESTIGATING})"

definition store_ok :: "durable_store \<Rightarrow> bool" where
  "store_ok d \<longleftrightarrow>
     (\<forall>k. numbered te_sequence (events d k))
     \<and> (\<forall>k r. incidents d k = Some r \<longrightarrow> row_ok d k r)
     \<and> (\<forall>k. incidents d k = None \<longrightarrow> events d k = [])
     \<and> (\<forall>g \<in> set (approval_grants d). grant_ok d g)
     \<and> (\<forall>e \<in> set (effects d). effect_ok d e)
     \<and> distinct (map ef_effect_key (effects d))"

lemma store_okD:
  assumes "store_ok d"
  shows "numbered te_sequence (events d k)" "incidents d k = Some r \<Longrightarrow> row_ok d k r"
    "incidents d k = None \<Longrightarrow> events d k = []" "g \<in> set (approval_grants d) \<Longrightarrow> grant_ok d g"
    "e \<in> set (effects d) \<Longrightarrow> effect_ok d e" "distinct (map ef_effect_key (effects d))"
  using assms by (auto simp: store_ok_def)

lemma store_ok_empty: "store_ok empty_store"
  by (simp add: store_ok_def empty_store_def events_def)

text \<open>Reading the timeline back in the order of its numbers gives the order it was written in.\<close>

lemma numbered_sorted: "numbered te_sequence es \<Longrightarrow> sort_key te_sequence es = es"
  by (rule sort_key_id_if_sorted) (simp add: numbered_def del: upt_Suc)

lemma timeline_events: "store_ok d \<Longrightarrow> timeline d k = events d k"
  by (simp add: timeline_def numbered_sorted store_okD(1))

section \<open>Changes of the tables\<close>

lemma set_row_simps [simp]:
  "incidents (set_row k r d) = (incidents d)(k \<mapsto> r)" "events (set_row k r d) = events d"
  "timeline_rows (set_row k r d) = timeline_rows d" "approvals (set_row k r d) = approvals d"
  "approval_grants (set_row k r d) = approval_grants d" "effects (set_row k r d) = effects d"
  by (simp_all add: set_row_def events_def fun_eq_iff)

lemma events_add [simp]:
  "events (d\<lparr>timeline_rows := timeline_rows d @ [(k, e)]\<rparr>) k' = events d k' @ (if k' = k then [e] else [])"
  by (simp add: events_def)

lemma events_frame [simp]:
  "events (d\<lparr>incidents := x1\<rparr>) = events d" "events (d\<lparr>approvals := x2\<rparr>) = events d"
  "events (d\<lparr>approval_grants := x3\<rparr>) = events d" "events (d\<lparr>effects := x4\<rparr>) = events d"
  by (simp_all add: events_def fun_eq_iff)

text \<open>The facts about events survive any extension of the timelines.\<close>

definition extends :: "durable_store \<Rightarrow> durable_store \<Rightarrow> bool" where
  "extends d d' \<longleftrightarrow> (\<forall>k. \<exists>es. events d' k = events d k @ es) \<and> (\<exists>xs. effects d' = effects d @ xs)"

lemma extends_approved: "extends d d' \<Longrightarrow> approved_at d k i \<Longrightarrow> approved_at d' k i"
  unfolding extends_def approved_at_def by (metis length_append nth_append trans_less_add1)

lemma extends_dispatched: "extends d d' \<Longrightarrow> dispatched_at d k h i \<Longrightarrow> dispatched_at d' k h i"
  unfolding extends_def dispatched_at_def by (metis length_append nth_append trans_less_add1)

lemma extends_grant: "extends d d' \<Longrightarrow> grant_ok d g \<Longrightarrow> grant_ok d' g"
  unfolding grant_ok_def by (blast intro: extends_approved)

lemma extends_effect: "extends d d' \<Longrightarrow> effect_ok d e \<Longrightarrow> effect_ok d' e"
  unfolding effect_ok_def by (blast intro: extends_approved extends_dispatched)

lemma extends_has_effect: "extends d d' \<Longrightarrow> has_effect d k x \<Longrightarrow> has_effect d' k x"
  unfolding extends_def has_effect_def by force

lemma row_ok_frame:
  assumes "row_ok d k r" "events d' k = events d k" "effects d' = effects d"
  shows "row_ok d' k r"
  using assms by (simp add: row_ok_def has_effect_def)

definition next_event :: "string \<Rightarrow> string \<Rightarrow> string \<Rightarrow> dict \<Rightarrow> durable_store \<Rightarrow> timeline_event" where
  "next_event k t a x d = \<lparr> te_sequence = Suc (length (events d k)), te_event_type = t, te_actor = a, te_data = x \<rparr>"

lemma next_event_simps [simp]:
  "te_sequence (next_event k t a x d) = Suc (length (events d k))"
  "te_event_type (next_event k t a x d) = t" "te_data (next_event k t a x d) = x"
  by (simp_all add: next_event_def)

definition add_event :: "string \<Rightarrow> incident_row \<Rightarrow> timeline_event \<Rightarrow> durable_store \<Rightarrow> durable_store" where
  "add_event k r e d = set_row k (r\<lparr>ir_revision := ir_revision r + 1\<rparr>)
     (d\<lparr>timeline_rows := timeline_rows d @ [(k, e)]\<rparr>)"

lemma add_event_simps [simp]:
  "events (add_event k r e d) k' = events d k' @ (if k' = k then [e] else [])"
  "incidents (add_event k r e d) = (incidents d)(k \<mapsto> r\<lparr>ir_revision := ir_revision r + 1\<rparr>)"
  "approvals (add_event k r e d) = approvals d" "effects (add_event k r e d) = effects d"
  "approval_grants (add_event k r e d) = approval_grants d"
  by (simp_all add: add_event_def)

lemma add_event_extends: "extends d (add_event k r e d)"
  by (simp add: extends_def)

lemma store_ok_add_event:
  assumes ok: "store_ok d" and r: "incidents d k = Some r"
  shows "store_ok (add_event k r (next_event k t a x d) d)"
proof -
  let ?d = "add_event k r (next_event k t a x d) d"
  have ext: "extends d ?d" by (rule add_event_extends)
  have rows: "row_ok ?d k' r'" if "incidents ?d k' = Some r'" for k' r'
  proof (cases "k' = k")
    case True
    with that store_okD(2) [OF ok r] show ?thesis
      by (auto simp: row_ok_def has_effect_def)
  next
    case False
    with that show ?thesis using store_okD(2) [OF ok, of k' r'] by (auto intro: row_ok_frame)
  qed
  have "numbered te_sequence (events ?d k')" for k'
    using store_okD(1) [OF ok] by (simp add: next_event_def)
  moreover have "incidents ?d k' = None \<longrightarrow> events ?d k' = []" for k'
    using store_okD(3) [OF ok, of k'] by (simp split: if_splits)
  ultimately show ?thesis
    using rows store_okD(4-6) [OF ok] extends_grant [OF ext] extends_effect [OF ext]
    unfolding store_ok_def by simp
qed

lemma store_ok_set_row:
  assumes ok: "store_ok d" and "row_ok d k r"
  shows "store_ok (set_row k r d)"
proof -
  have ext: "extends d (set_row k r d)" by (simp add: extends_def)
  have "row_ok (set_row k r d) k' r'" if "incidents (set_row k r d) k' = Some r'" for k' r'
    using that assms(2) store_okD(2) [OF ok, of k' r'] by (auto intro: row_ok_frame split: if_splits)
  then show ?thesis
    using store_okD [OF ok] extends_grant [OF ext] extends_effect [OF ext]
    unfolding store_ok_def by (simp add: split: if_splits)
qed

lemma store_ok_approvals: "store_ok (d\<lparr>approvals := x\<rparr>) \<longleftrightarrow> store_ok d"
  by (simp add: store_ok_def row_ok_def has_effect_def grant_ok_def effect_ok_def approved_at_def
      dispatched_at_def)


section \<open>What each method of the store does\<close>

lemma commit_cases:
  assumes "commit f w = (res, w')"
  obtains "res = Inl Crash" "w' = w" | "res = Inr ()" "db w' = f (db w)" "srv w' = srv w"
  using assms by (auto simp: commit_def split: option.splits nat.splits)

lemma row_cases:
  assumes "row k w = (res, w')"
  obtains e where "res = Inl e" "w' = w" "incidents (db w) k = None"
  | r where "res = Inr r" "w' = w" "incidents (db w) k = Some r"
  using assms by (auto simp: row_def sret_def sraise_def split: option.splits)

lemma row_run:
  "incidents (db w) k = Some r \<Longrightarrow> row k w = (Inr r, w)"
  "incidents (db w) k = None \<Longrightarrow> row k w = (Inl (WorkflowError (''unknown incident run: '' @ k)), w)"
  by (simp_all add: row_def sret_def sraise_def)

lemma fold_max_numbered:
  assumes "numbered te_sequence es"
  shows "fold max (map te_sequence es) 0 = length es"
proof -
  have "fold max [1..<Suc n] 0 = n" for n :: nat
    by (induction n) auto
  then show ?thesis using assms by (simp add: numbered_def del: upt_Suc)
qed

lemma event_cases:
  assumes "event k t a x w = (res, w')" and "store_ok (db w)"
  obtains e where "res = Inl e" "w' = w"
  | r where "res = Inr (next_event k t a x (db w))" "incidents (db w) k = Some r"
      "db w' = add_event k r (next_event k t a x (db w)) (db w)" "srv w' = srv w"
proof -
  have seq: "fold max (map te_sequence (events (db w) k)) 0 + 1 = Suc (length (events (db w) k))"
    by (simp add: fold_max_numbered [OF store_okD(1) [OF assms(2)]])
  let ?e = "next_event k t a x (db w)"
  show thesis
  proof (cases "incidents (db w) k")
    case None
    with assms(1) that(1) show thesis by (auto simp: event_def row_def sraise_def)
  next
    case (Some r)
    have eq: "event k t a x w = sbind (commit (add_event k r ?e)) (\<lambda>_. sret ?e) w"
      using row_run(1) [OF Some] by (simp add: event_def Let_def seq [simplified] next_event_def
          add_event_def [abs_def])
    obtain c u where c: "commit (add_event k r ?e) w = (c, u)" by fastforce
    then show thesis
    proof (cases rule: commit_cases)
      case 1
      with c eq assms(1) that(1) show thesis by auto
    next
      case 2
      with c eq assms(1) Some that(2) show thesis by (auto simp: sret_def)
    qed
  qed
qed

definition updated ::
  "workflow_state \<Rightarrow> string option \<Rightarrow> string list option \<Rightarrow> proposal option \<Rightarrow> dict option
   \<Rightarrow> incident_row \<Rightarrow> incident_row" where
  "updated st dg ci pr rc r = r\<lparr>
       ir_state := st,
       ir_diagnosis := (case dg of Some x \<Rightarrow> Some x | None \<Rightarrow> ir_diagnosis r),
       ir_citations := (case ci of Some x \<Rightarrow> x | None \<Rightarrow> ir_citations r),
       ir_proposal := (case pr of Some x \<Rightarrow> Some x | None \<Rightarrow> ir_proposal r),
       ir_receipt := (case rc of Some x \<Rightarrow> Some x | None \<Rightarrow> ir_receipt r)\<rparr>"

lemma updated_simps [simp]:
  "ir_revision (updated st dg ci pr rc r) = ir_revision r" "ir_state (updated st dg ci pr rc r) = st"
  "ir_receipt (updated st dg ci pr rc r) = (case rc of Some x \<Rightarrow> Some x | None \<Rightarrow> ir_receipt r)"
  "ir_proposal (updated st dg ci pr rc r) = (case pr of Some x \<Rightarrow> Some x | None \<Rightarrow> ir_proposal r)"
  by (simp_all add: updated_def)

lemma update_cases:
  assumes "update k st dg ci pr rc w = (res, w')"
  obtains e where "res = Inl e" "w' = w"
  | r where "res = Inr ()" "incidents (db w) k = Some r"
      "db w' = set_row k (updated st dg ci pr rc r) (db w)" "srv w' = srv w"
proof (cases "incidents (db w) k")
  case None
  with assms that(1) show thesis by (auto simp: update_def row_def sraise_def)
next
  case (Some r)
  then have "update k st dg ci pr rc w = commit (set_row k (updated st dg ci pr rc r)) w"
    using row_run(1) [OF Some] by (simp add: update_def updated_def)
  with assms have "commit (set_row k (updated st dg ci pr rc r)) w = (res, w')" by simp
  then show thesis using Some that by (cases rule: commit_cases) auto
qed

text \<open>A row that leaves the reserved states alone, or enters them with a recorded effect, may be
  written.\<close>

lemma row_ok_updated:
  assumes "row_ok d k r" and "events d k \<noteq> [] \<or> st = INVESTIGATING"
    and "st \<in> {VERIFYING, COMPLETED} \<longrightarrow> (\<exists>x. rc = Some x \<and> has_effect d k x)"
  shows "row_ok d k (updated st dg ci pr rc r)"
  using assms by (auto simp: row_ok_def split: option.splits)

definition live :: "string \<Rightarrow> world \<Rightarrow> bool" where
  "live k w \<longleftrightarrow> store_ok (db w) \<and> events (db w) k \<noteq> []"

abbreviation stored :: "world \<Rightarrow> bool" where
  "stored w \<equiv> store_ok (db w)"

lemma live_stored: "live k w \<Longrightarrow> stored w"
  by (simp add: live_def)

definition last_is :: "string \<Rightarrow> string \<Rightarrow> dict \<Rightarrow> world \<Rightarrow> bool" where
  "last_is k t x w \<longleftrightarrow> live k w \<and> te_event_type (last (events (db w) k)) = t
     \<and> te_data (last (events (db w) k)) = x"

lemma event_last: "triple stored (event k t a x) (\<lambda>_. last_is k t x) stored"
proof (rule tripleI)
  fix w e w' assume ok: "stored w" and "event k t a x w = (Inl e, w')"
  from this(2) ok show "stored w'" by (cases rule: event_cases) (use ok in auto)
next
  fix w e w' assume ok: "stored w" and "event k t a x w = (Inr e, w')"
  from this(2) ok show "last_is k t x w'"
    by (cases rule: event_cases)
      (use ok in \<open>auto simp: last_is_def live_def store_ok_add_event\<close>)
qed

lemma event_stored [keeps]: "preserves stored (event k t a x)"
  unfolding preserves_triple
  by (rule triple_weaken [OF event_last]) (auto simp: last_is_def live_def)

lemma event_keeps_live [keeps]: "preserves (live k) (event k' t a x)"
  unfolding preserves_def
proof (intro allI impI)
  fix w assume l: "live k w"
  obtain res w' where e: "event k' t a x w = (res, w')" by fastforce
  from this live_stored [OF l] show "live k (snd (event k' t a x w))"
  proof (cases rule: event_cases)
    case (1 e)
    with e l show ?thesis by simp
  next
    case (2 r)
    with e l show ?thesis by (simp add: live_def store_ok_add_event)
  qed
qed

lemma update_ok:
  assumes "stored w" "events (db w) k \<noteq> [] \<or> st = INVESTIGATING"
    and "st \<in> {VERIFYING, COMPLETED} \<longrightarrow> (\<exists>x. rc = Some x \<and> has_effect (db w) k x)"
    and "update k st dg ci pr rc w = (res, w')"
  shows "stored w' \<and> events (db w') = events (db w) \<and> effects (db w') = effects (db w)"
  using assms(4)
proof (cases rule: update_cases)
  case (2 r)
  have "row_ok (db w) k r" using 2(2) assms(1) store_okD(2) by blast
  then have "row_ok (db w) k (updated st dg ci pr rc r)" by (rule row_ok_updated [OF _ assms(2,3)])
  with 2 assms(1) show ?thesis by (simp add: store_ok_set_row)
qed (use assms in auto)

lemma update_keeps_live [keeps]:
  assumes "st \<notin> {VERIFYING, COMPLETED}"
  shows "preserves (live k) (update k st dg ci pr rc)"
  unfolding preserves_def
proof (intro allI impI)
  fix w assume l: "live k w"
  obtain res w' where u: "update k st dg ci pr rc w = (res, w')" by fastforce
  have "stored w' \<and> events (db w') = events (db w) \<and> effects (db w') = effects (db w)"
    using l assms by (intro update_ok [OF _ _ _ u]) (auto simp: live_def)
  with u l show "live k (snd (update k st dg ci pr rc w))" by (simp add: live_def)
qed

lemma update_investigating [keeps]: "preserves stored (update k INVESTIGATING dg ci pr rc)"
  unfolding preserves_def
proof (intro allI impI)
  fix w assume ok: "stored w"
  obtain res w' where u: "update k INVESTIGATING dg ci pr rc w = (res, w')" by fastforce
  have "stored w' \<and> events (db w') = events (db w) \<and> effects (db w') = effects (db w)"
    using ok by (intro update_ok [OF _ _ _ u]) auto
  with u show "stored (snd (update k INVESTIGATING dg ci pr rc w))" by simp
qed

lemma reads_keep [keeps]: "preserves I (row k)"
  unfolding row_def by (intro keeps)

lemma py_keep [keeps]: "preserves I (py r)"
  unfolding py_def by (intro keeps)

lemma on_srv_keep [keeps]: "preserves (\<lambda>w. I (db w)) (on_srv m)"
  by (auto simp: preserves_def on_srv_def split: prod.splits sum.splits)

lemma on_srv_live [keeps]: "preserves (live k) (on_srv m)"
  unfolding live_def [abs_def] by (rule on_srv_keep)


section \<open>The methods of the workflow keep the invariant\<close>

lemmas wf_reads = snapshot_def checkpoint_def checkpoints_def stored_proposal_def

lemma reads_frame [keeps]:
  "preserves I (snapshot k)" "preserves I (checkpoints k m)" "preserves I (checkpoint k m)"
  "preserves I (stored_proposal r)"
  unfolding wf_reads by (intro keeps)+

lemma record_tool_call_live [keeps]: "preserves (live k) (record_tool_call k' res)"
  unfolding record_tool_call_def by (intro keeps)

lemma tools_live [keeps]:
  "preserves (live k) (tool_logs env k' c)" "preserves (live k) (tool_metrics env k' c)"
  "preserves (live k) (tool_search env k' q arm)"
  unfolding tool_logs_def tool_metrics_def tool_search_def by (intro keeps)+

lemma fetch_live [keeps]:
  "preserves (live k) tool \<Longrightarrow> preserves (live k) (fetch k' known tool)"
  unfolding fetch_def by (intro keeps)

lemma search_round_two_live [keeps]: "preserves (live k) (search_round_two env k' c arm se ss)"
  unfolding search_round_two_def by (intro keeps)

lemma model_usage_live [keeps]: "preserves (live k) (model_usage env k' d x n)"
  unfolding model_usage_def by (intro keeps)

lemma propose_live [keeps]: "preserves (live k) (propose k d x cs)"
  unfolding propose_def by (intro keeps) auto

lemma decide_live [keeps]: "preserves (live k) (decide env k c lg mt se)"
  unfolding decide_def by (intro keeps)

lemma triple_keep_then:
  "preserves I m \<Longrightarrow> (\<And>x. triple I (f x) (\<lambda>_. I) I) \<Longrightarrow> triple I (sbind m f) (\<lambda>_. I) I"
  by (rule triple_sbind) (auto simp: preserves_triple)

lemma investigate_stored [keeps]: "preserves stored (investigate env k arm stop)"
proof -
  have tail: "preserves stored (sbind (event k t a x) f)" if "\<And>e. preserves (live k) (f e)" for t a x
      and f :: "timeline_event \<Rightarrow> snapshot_row wf"
    unfolding preserves_triple
  proof (rule triple_sbind)
    show "triple stored (event k t a x) (\<lambda>_. live k) stored"
      by (rule triple_weaken [OF event_last]) (auto simp: last_is_def)
    show "triple (live k) (f e) (\<lambda>_. stored) stored" for e
      by (rule triple_weaken [of "live k" "f e" "\<lambda>_. live k" "live k"])
        (use that in \<open>auto simp: preserves_triple live_stored\<close>)
  qed
  show ?thesis
    unfolding investigate_def
    by (intro keeps tail) (auto intro!: keeps)
qed


section \<open>Applying an effect\<close>

definition with_effect :: "string \<Rightarrow> proposal \<Rightarrow> durable_store \<Rightarrow> durable_store" where
  "with_effect k p d = d\<lparr>
       effects := effects d @ [\<lparr> ef_effect_key = effect_key k p, ef_run_id = k,
         ef_resource_id = target_resource_id p, ef_argument_hash = canonical_argument_hash p,
         ef_receipt = receipt_of p \<rparr>],
       approval_grants := map (\<lambda>g. if g_effect_key g = effect_key k p then g\<lparr>g_state := ''DISPATCHED''\<rparr> else g)
         (approval_grants d)\<rparr>"

text \<open>The guards of \<open>apply_effect\<close>: the grant it found lets this proposal through.\<close>

definition grant_admits :: "string \<Rightarrow> proposal \<Rightarrow> grant_row \<Rightarrow> bool" where
  "grant_admits k p g \<longleftrightarrow> g_state g \<in> {''GRANTED'', ''DISPATCHED''} \<and> g_run_id g = k
     \<and> g_proposal_hash g = canonical_argument_hash p \<and> g_resource_id g = target_resource_id p
     \<and> g_argument_hash g = canonical_proposal_hash p"

lemma insert_effect_fresh:
  assumes "effect (db w) (effect_key k p) = None" and "incidents (db w) k \<noteq> None"
  shows "insert_effect (effect_key k p) k p (receipt_of p) w = commit (with_effect k p) w"
proof -
  have "insert_effect (effect_key k p) k p (receipt_of p) w
      = commit (\<lambda>d. d\<lparr>effects := effects d @ (if effect d (effect_key k p) \<noteq> None then []
          else [\<lparr> ef_effect_key = effect_key k p, ef_run_id = k, ef_resource_id = target_resource_id p,
                  ef_argument_hash = canonical_argument_hash p, ef_receipt = receipt_of p \<rparr>]),
          approval_grants := map (\<lambda>g. if g_effect_key g = effect_key k p
            then g\<lparr>g_state := ''DISPATCHED''\<rparr> else g) (approval_grants d)\<rparr>) w"
    using assms(2) by (simp add: insert_effect_def)
  also have "\<dots> = commit (with_effect k p) w"
    using assms(1) by (simp add: commit_def with_effect_def split: option.split nat.split)
  finally show ?thesis .
qed

lemma set_applied: "\<exists>s. on_srv (set_remediation_status r ''APPLIED'') w = (Inr (), w\<lparr>srv := s\<rparr>)"
  by (simp add: on_srv_def set_remediation_status_def smodify_def) blast

lemma apply_effect_cases:
  assumes "apply_effect k p w = (res, w')"
  obtains e where "res = Inl e" "w' = w"
  | g receipt where "grant (db w) (effect_key k p) = Some g" "grant_admits k p g"
      "effect (db w) (effect_key k p) = Some receipt" "res = Inr receipt" "w' = w"
  | g r where "grant (db w) (effect_key k p) = Some g" "grant_admits k p g"
      "effect (db w) (effect_key k p) = None" "incidents (db w) k = Some r"
      "ir_revision r \<in> {g_workflow_revision g, g_workflow_revision g + 1}"
      "res = Inr (receipt_of p)" "db w' = with_effect k p (db w)"
proof (cases "grant (db w) (effect_key k p)")
  case None
  with assms that(1) show thesis by (auto simp: apply_effect_def Let_def sraise_def)
next
  case g: (Some g)
  show thesis
  proof (cases "grant_admits k p g")
    case False
    with assms g that(1) show thesis
      by (auto simp: apply_effect_def Let_def grant_admits_def sbind_sensure split: if_splits)
  next
    case adm: True
    show thesis
    proof (cases "effect (db w) (effect_key k p)")
      case (Some receipt)
      with assms g adm that(2) show thesis by (auto simp: apply_effect_def Let_def grant_admits_def sret_def)
    next
      case e: None
      show thesis
      proof (cases "incidents (db w) k")
        case None
        with assms g adm e that(1) row_run(2) [OF None] show thesis
          by (auto simp: apply_effect_def Let_def grant_admits_def)
      next
        case r: (Some r)
        show thesis
        proof (cases "ir_revision r \<in> {g_workflow_revision g, g_workflow_revision g + 1}")
          case False
          with assms g adm e row_run(1) [OF r] that(1) show thesis
            by (auto simp: apply_effect_def Let_def grant_admits_def sraise_def)
        next
          case rev: True
          then have run: "apply_effect k p w =
              sbind (insert_effect (effect_key k p) k p (receipt_of p)) (\<lambda>_.
              sbind (on_srv (set_remediation_status (target_resource_id p) ''APPLIED'')) (\<lambda>_.
              sret (receipt_of p))) w"
            using g adm e row_run(1) [OF r] by (auto simp: apply_effect_def Let_def grant_admits_def)
          have ins: "insert_effect (effect_key k p) k p (receipt_of p) w = commit (with_effect k p) w"
            by (rule insert_effect_fresh [OF e]) (simp add: r)
          obtain c u where c: "commit (with_effect k p) w = (c, u)" by fastforce
          obtain s where s: "on_srv (set_remediation_status (target_resource_id p) ''APPLIED'') u
              = (Inr (), u\<lparr>srv := s\<rparr>)"
            using set_applied by blast
          from c show thesis
            by (cases rule: commit_cases)
              (use run ins c s assms that(1) that(3) [OF g adm e r rev] in \<open>auto simp: sret_def\<close>)
        qed
      qed
    qed
  qed
qed

lemma hex_no_colon: "CHR '':'' \<notin> set (hex bs)"
proof -
  have "hex_digit d \<noteq> CHR '':''" if "d < 16" for d
    using that by (auto simp: hex_digit_def char_of_eq_iff take_bit_nat_eq_self split: if_splits)
  moreover have "unat b div 16 < 16" "unat b mod 16 < 16" for b :: byte
    using unsigned_less [of b, where ?'a = nat] by simp_all
  ultimately have "hex_digit (unat b div 16) \<noteq> CHR '':''" "hex_digit (unat b mod 16) \<noteq> CHR '':''"
    for b :: byte by blast+
  then show ?thesis by (induction bs) (simp_all add: hex_def, metis)
qed

lemma proposal_hash_no_colon: "CHR '':'' \<notin> set (canonical_proposal_hash p)"
  by (simp add: canonical_proposal_hash_def hex_no_colon)

lemma effect_key_inject:
  assumes "k @ CHR '':'' # h = k' @ CHR '':'' # h'" "CHR '':'' \<notin> set h" "CHR '':'' \<notin> set h'"
  shows "k = k' \<and> h = h'"
  using assms rsplit1_last by (metis option.inject prod.inject)

lemma find_SomeD: "find P xs = Some x \<Longrightarrow> x \<in> set xs \<and> P x"
  by (auto simp: find_Some_iff)


lemma effect_found:
  assumes "stored w" "grant_admits k p g" "grant (db w) (effect_key k p) = Some g"
    and "effect (db w) (effect_key k p) = Some receipt"
  shows "has_effect (db w) k receipt"
proof -
  obtain e where e: "e \<in> set (effects (db w))" "ef_effect_key e = effect_key k p" "ef_receipt e = receipt"
    using assms(4) by (auto simp: effect_def dest: find_SomeD)
  have "g \<in> set (approval_grants (db w))" using assms(3) by (auto simp: grant_def dest: find_SomeD)
  then have "grant_ok (db w) g" using store_okD(4) [OF assms(1)] by blast
  with assms(2) have "CHR '':'' \<notin> set (canonical_argument_hash p)"
    using proposal_hash_no_colon by (auto simp: grant_ok_def grant_admits_def)
  moreover have "effect_ok (db w) e" using store_okD(5) [OF assms(1)] e(1) by blast
  ultimately have "ef_run_id e = k \<and> ef_argument_hash e = canonical_argument_hash p"
    using e(2) by (intro effect_key_inject) (simp_all add: effect_ok_def effect_key_def)
  with e show ?thesis by (auto simp: has_effect_def)
qed

lemma with_effect_simps [simp]:
  "events (with_effect k p d) = events d" "incidents (with_effect k p d) = incidents d"
  "approvals (with_effect k p d) = approvals d"
  by (simp_all add: with_effect_def)

text \<open>
  The heart of the argument: when the last event is the dispatch of the proposal and the grant's
  revision admits it, the event before the dispatch is the approval.
\<close>

lemma store_ok_with_effect:
  assumes ok: "stored w" and last: "last_is k ''effect_dispatched'' [(''proposal_hash'', JStr (canonical_argument_hash p))] w"
    and g: "grant (db w) (effect_key k p) = Some g" "grant_admits k p g"
    and new: "effect (db w) (effect_key k p) = None"
    and r: "incidents (db w) k = Some r" "ir_revision r \<in> {g_workflow_revision g, g_workflow_revision g + 1}"
  shows "store_ok (with_effect k p (db w))"
proof -
  let ?d = "db w" and ?d' = "with_effect k p (db w)" and ?es = "events (db w) k"
  have ext: "extends ?d ?d'" by (auto simp: extends_def with_effect_def)
  have "g \<in> set (approval_grants ?d)" using g(1) by (auto simp: grant_def dest: find_SomeD)
  then have gok: "grant_ok ?d g" using store_okD(4) [OF ok] by blast
  then obtain i where i: "g_workflow_revision g = int (Suc i)" "approved_at ?d k i"
    using g(2) by (auto simp: grant_ok_def grant_admits_def)
  have len: "ir_revision r = int (length ?es)" using store_okD(2) [OF ok r(1)] by (simp add: row_ok_def)
  have "length ?es \<noteq> Suc i"
  proof
    assume "length ?es = Suc i"
    then have "last ?es = ?es ! i" by (metis diff_Suc_1 last_conv_nth length_0_conv nat.distinct(1))
    then show False using i(2) last by (simp add: approved_at_def last_is_def)
  qed
  then have "length ?es = Suc (Suc i)" using r(2) len i(1) by auto
  then have disp: "dispatched_at ?d k (canonical_argument_hash p) (Suc i)"
    using last by (auto simp: dispatched_at_def last_is_def last_conv_nth live_def)
  have hash: "canonical_argument_hash p = canonical_proposal_hash p"
    using gok g(2) unfolding grant_ok_def grant_admits_def by metis
  have eff: "effect_ok ?d' \<lparr> ef_effect_key = effect_key k p, ef_run_id = k,
         ef_resource_id = target_resource_id p, ef_argument_hash = canonical_argument_hash p,
         ef_receipt = receipt_of p \<rparr>"
    unfolding effect_ok_def
    using proposal_hash_no_colon [of p] extends_approved [OF ext i(2)] extends_dispatched [OF ext disp]
    by (auto simp: effect_key_def hash)
  have fresh: "effect_key k p \<notin> set (map ef_effect_key (effects ?d))"
    using new by (auto simp: effect_def find_None_iff)
  have "row_ok ?d' k' r'" if "incidents ?d k' = Some r'" for k' r'
    using store_okD(2) [OF ok that] extends_has_effect [OF ext] by (auto simp: row_ok_def)
  moreover have "grant_ok ?d' x" if "x \<in> set (approval_grants ?d')" for x
  proof -
    from that obtain y where y: "y \<in> set (approval_grants ?d)" "x = y \<or> x = y\<lparr>g_state := ''DISPATCHED''\<rparr>"
      by (auto simp: with_effect_def)
    then show ?thesis
      using extends_grant [OF ext store_okD(4) [OF ok y(1)]] by (auto simp: grant_ok_def)
  qed
  moreover have "effect_ok ?d' e" if "e \<in> set (effects ?d')" for e
    using that eff extends_effect [OF ext] store_okD(5) [OF ok] by (auto simp: with_effect_def)
  moreover have "distinct (map ef_effect_key (effects ?d'))"
    using fresh store_okD(6) [OF ok] by (simp add: with_effect_def)
  ultimately show ?thesis
    using store_okD(1,3) [OF ok] unfolding store_ok_def by simp
qed

definition done_at :: "string \<Rightarrow> dict \<Rightarrow> world \<Rightarrow> bool" where
  "done_at k receipt w \<longleftrightarrow> live k w \<and> has_effect (db w) k receipt"

lemma apply_effect_triple:
  "triple (last_is k ''effect_dispatched'' [(''proposal_hash'', JStr (canonical_argument_hash p))])
     (apply_effect k p) (\<lambda>receipt. done_at k receipt) stored"
proof (rule tripleI)
  fix w e w' assume l: "last_is k ''effect_dispatched'' [(''proposal_hash'', JStr (canonical_argument_hash p))] w"
    and a: "apply_effect k p w = (Inl e, w')"
  from a show "stored w'"
    by (cases rule: apply_effect_cases) (use l in \<open>auto simp: last_is_def live_def\<close>)
next
  fix w x w' assume l: "last_is k ''effect_dispatched'' [(''proposal_hash'', JStr (canonical_argument_hash p))] w"
    and a: "apply_effect k p w = (Inr x, w')"
  have ok: "stored w" and ne: "events (db w) k \<noteq> []" using l by (auto simp: last_is_def live_def)
  from a show "done_at k x w'"
  proof (cases rule: apply_effect_cases)
    case (2 g receipt)
    with ok ne effect_found [OF ok] show ?thesis by (auto simp: done_at_def live_def)
  next
    case (3 g r)
    with ne store_ok_with_effect [OF ok l 3(1-5)] show ?thesis
      by (auto simp: done_at_def live_def has_effect_def with_effect_def)
  qed simp
qed

lemma event_done: "preserves (done_at k receipt) (event k' t a x)"
  unfolding preserves_def
proof (intro allI impI)
  fix w assume d: "done_at k receipt w"
  obtain res w' where e: "event k' t a x w = (res, w')" by fastforce
  have "stored w" using d by (simp add: done_at_def live_def)
  from e this show "done_at k receipt (snd (event k' t a x w))"
  proof (cases rule: event_cases)
    case (2 r)
    with e d show ?thesis by (simp add: done_at_def live_def store_ok_add_event has_effect_def)
  qed (use e d in simp)
qed

lemma update_done: "preserves (done_at k receipt) (update k st dg ci pr (Some receipt))"
  unfolding preserves_def
proof (intro allI impI)
  fix w assume d: "done_at k receipt w"
  obtain res w' where u: "update k st dg ci pr (Some receipt) w = (res, w')" by fastforce
  have "stored w' \<and> events (db w') = events (db w) \<and> effects (db w') = effects (db w)"
    using d by (intro update_ok [OF _ _ _ u]) (auto simp: done_at_def live_def)
  with u d show "done_at k receipt (snd (update k st dg ci pr (Some receipt) w))"
    by (simp add: done_at_def live_def has_effect_def)
qed


section \<open>Every method keeps the invariant\<close>

lemma store_approve_stored [keeps]:
  "preserves stored (store_approve k x a)" "preserves (live k') (store_approve k x a)"
proof -
  have c: "preserves I (commit (\<lambda>d. d\<lparr>approvals := (approvals d)(k \<mapsto> (x, a))\<rparr>))"
    if "\<And>w w'. I w \<Longrightarrow> db w' = (db w)\<lparr>approvals := (approvals (db w))(k \<mapsto> (x, a))\<rparr> \<Longrightarrow> I w'" for I
    unfolding preserves_def
  proof (intro allI impI)
    fix w assume i: "I w"
    obtain res w' where cm: "commit (\<lambda>d. d\<lparr>approvals := (approvals d)(k \<mapsto> (x, a))\<rparr>) w = (res, w')"
      by fastforce
    then show "I (snd (commit (\<lambda>d. d\<lparr>approvals := (approvals d)(k \<mapsto> (x, a))\<rparr>) w))"
      by (cases rule: commit_cases) (use i that cm in auto)
  qed
  show "preserves stored (store_approve k x a)" "preserves (live k') (store_approve k x a)"
    unfolding store_approve_def
    by (intro keeps c; simp add: store_ok_approvals live_def)+
qed

lemma create_grant_triple: "triple (last_is k ''approval_granted'' x) (create_grant k p) (\<lambda>_. stored) stored"
proof (rule triple_weaken [where Q' = "\<lambda>_. stored" and E' = stored])
  show "triple (last_is k ''approval_granted'' x) (create_grant k p) (\<lambda>_. stored) stored"
    unfolding create_grant_def
  proof (rule triple_sbind)
    show "triple (last_is k ''approval_granted'' x) (row k)
        (\<lambda>r w. last_is k ''approval_granted'' x w \<and> incidents (db w) k = Some r) stored"
      by (rule tripleI; erule row_cases) (auto simp: last_is_def live_def)
    fix r
    let ?P = "\<lambda>w. last_is k ''approval_granted'' x w \<and> incidents (db w) k = Some r"
    let ?f = "\<lambda>d. d\<lparr>approval_grants :=
       filter (\<lambda>g. g_run_id g \<noteq> k \<and> g_effect_key g \<noteq> effect_key k p) (approval_grants d)
       @ [\<lparr> g_run_id = k, g_effect_key = effect_key k p,
            g_proposal_hash = canonical_argument_hash p, g_resource_id = target_resource_id p,
            g_argument_hash = canonical_argument_hash p, g_workflow_revision = ir_revision r,
            g_fence_token = ir_revision r, g_state = ''GRANTED'' \<rparr>]\<rparr>"
    have ok: "store_ok (?f (db w))" if P: "?P w" for w
    proof -
      have s: "stored w" using P by (simp add: last_is_def live_def)
      have ext: "extends (db w) (?f (db w))" by (simp add: extends_def)
      let ?es = "events (db w) k"
      have ne: "?es \<noteq> []" using P by (simp add: last_is_def live_def)
      then have len: "length ?es = Suc (length ?es - 1)" by simp
      have "approved_at (db w) k (length ?es - 1)"
        using P ne by (auto simp: approved_at_def last_is_def last_conv_nth)
      moreover have "ir_revision r = int (Suc (length ?es - 1))"
        using store_okD(2) [OF s, of k r] P len by (simp add: row_ok_def)
      ultimately have new: "grant_ok (?f (db w)) \<lparr> g_run_id = k, g_effect_key = effect_key k p,
            g_proposal_hash = canonical_argument_hash p, g_resource_id = target_resource_id p,
            g_argument_hash = canonical_argument_hash p, g_workflow_revision = ir_revision r,
            g_fence_token = ir_revision r, g_state = ''GRANTED'' \<rparr>"
        using extends_approved [OF ext] by (auto simp: grant_ok_def effect_key_def)
      have "row_ok (?f (db w)) k' r'" if "incidents (db w) k' = Some r'" for k' r'
        using store_okD(2) [OF s that] by (auto intro: row_ok_frame)
      then show ?thesis
        using new store_okD [OF s] extends_grant [OF ext] extends_effect [OF ext]
        unfolding store_ok_def by simp
    qed
    have "triple ?P (commit ?f) (\<lambda>_. stored) stored"
      by (rule tripleI; erule commit_cases) (use ok in \<open>auto simp: last_is_def live_def\<close>)
    then show "triple ?P (sbind (sget (\<lambda>w. approval (db w) k)) (\<lambda>a.
       sbind (sensure (a = Some ''APPROVED'') (WorkflowError ''approval grant requires an approved intent''))
        (\<lambda>_. commit ?f))) (\<lambda>_. stored) stored"
      by (auto intro!: triple_sbind [OF triple_sget] triple_sbind [OF triple_sensure]
          elim!: triple_weaken simp: last_is_def live_def)
  qed
qed auto

lemma triple_stored:
  "preserves stored m \<Longrightarrow> (\<And>w. P w \<Longrightarrow> stored w) \<Longrightarrow> triple P m (\<lambda>_. stored) stored"
  unfolding preserves_triple by (rule triple_weaken)

lemma resume_stored [keeps]: "preserves stored (resume env k arm)"
proof -
  have tail: "triple (done_at k receipt)
      (sbind (update k VERIFYING None None None (Some receipt)) (\<lambda>_.
       sbind (event k t a x) (\<lambda>_.
       sbind (update k COMPLETED None None None (Some receipt)) (\<lambda>_.
       sbind (event k t' a' x') (\<lambda>_. snapshot k))))) (\<lambda>_. stored) stored" for receipt t a x t' a' x'
  proof (rule triple_weaken)
    show "triple (done_at k receipt) (sbind (update k VERIFYING None None None (Some receipt)) (\<lambda>_.
       sbind (event k t a x) (\<lambda>_.
       sbind (update k COMPLETED None None None (Some receipt)) (\<lambda>_.
       sbind (event k t' a' x') (\<lambda>_. snapshot k))))) (\<lambda>_. done_at k receipt) (done_at k receipt)"
      unfolding preserves_triple [symmetric] by (intro keeps update_done event_done)
  qed (auto simp: done_at_def live_def)
  have mid: "preserves stored (sbind (event k ''effect_dispatched'' a
       [(''proposal_hash'', JStr (canonical_argument_hash p))]) (\<lambda>_. sbind (apply_effect k p) f))"
    if "\<And>receipt. triple (done_at k receipt) (f receipt) (\<lambda>_. stored) stored"
    for a p and f :: "dict \<Rightarrow> snapshot_row wf"
    unfolding preserves_triple
    by (rule triple_sbind [OF event_last], rule triple_sbind [OF apply_effect_triple], rule that)
  have wait: "triple (live k) (sbind (stored_proposal r) (\<lambda>p. sbind (update k DISPATCHED None None None None)
      (\<lambda>_. f p))) (\<lambda>_. stored) stored" if "\<And>p. preserves stored (f p)"
    for r and f :: "proposal \<Rightarrow> snapshot_row wf"
  proof (intro triple_sbind)
    show "triple (live k) (stored_proposal r) (\<lambda>_. live k) stored"
      by (rule triple_preserves) (auto intro: keeps live_stored)
    show "triple (live k) (update k DISPATCHED None None None None) (\<lambda>_. live k) stored"
      by (rule triple_preserves) (auto intro!: keeps live_stored)
    show "triple (live k) (f p) (\<lambda>_. stored) stored" for p
      using that [of p] unfolding preserves_triple by (rule triple_weaken) (auto simp: live_stored)
  qed
  show ?thesis
    unfolding resume_def preserves_triple
  proof (rule triple_sbind)
    show "triple stored (row k) (\<lambda>r w. stored w \<and> incidents (db w) k = Some r) stored"
      by (rule tripleI; erule row_cases) auto
    fix r
    let ?P = "\<lambda>w. stored w \<and> incidents (db w) k = Some r"
    have live: "live k w" if "?P w" "ir_state r = WAITING_APPROVAL" for w
      using that store_okD(2) [of "db w" k r] by (auto simp: live_def row_ok_def)
    show "triple ?P (if ir_state r = INTERRUPTED then investigate env k arm None else
        sbind (sget (\<lambda>w. approval (db w) k)) (\<lambda>a.
        if ir_state r \<noteq> WAITING_APPROVAL \<or> a \<noteq> Some ''APPROVED'' then snapshot k else
        sbind (stored_proposal r) (\<lambda>p. sbind (update k DISPATCHED None None None None) (\<lambda>_.
        sbind (event k ''effect_dispatched'' ''scheduler''
          [(''proposal_hash'', JStr (canonical_argument_hash p))]) (\<lambda>_.
        sbind (apply_effect k p) (\<lambda>receipt.
        sbind (update k VERIFYING None None None (Some receipt)) (\<lambda>_.
        sbind (event k ''effect_verified'' ''tool'' [(''resource_id'', JStr (target_resource_id p))]) (\<lambda>_.
        sbind (update k COMPLETED None None None (Some receipt)) (\<lambda>_.
        sbind (event k ''incident_completed'' ''scheduler'' [(''action'', JStr (action_type p))]) (\<lambda>_.
        snapshot k)))))))))) (\<lambda>_. stored) stored"
    proof (cases "ir_state r = WAITING_APPROVAL")
      case True
      then have ni: "ir_state r \<noteq> INTERRUPTED" by simp
      show ?thesis
        unfolding if_not_P [OF ni]
      proof (rule triple_sbind [OF triple_sget])
        fix a :: "string option"
        show "triple (\<lambda>w. ?P w \<and> a = approval (db w) k)
          (if ir_state r \<noteq> WAITING_APPROVAL \<or> a \<noteq> Some ''APPROVED'' then snapshot k else
            sbind (stored_proposal r) (\<lambda>p. sbind (update k DISPATCHED None None None None) (\<lambda>_.
            sbind (event k ''effect_dispatched'' ''scheduler''
              [(''proposal_hash'', JStr (canonical_argument_hash p))]) (\<lambda>_.
            sbind (apply_effect k p) (\<lambda>receipt.
            sbind (update k VERIFYING None None None (Some receipt)) (\<lambda>_.
            sbind (event k ''effect_verified'' ''tool'' [(''resource_id'', JStr (target_resource_id p))]) (\<lambda>_.
            sbind (update k COMPLETED None None None (Some receipt)) (\<lambda>_.
            sbind (event k ''incident_completed'' ''scheduler'' [(''action'', JStr (action_type p))]) (\<lambda>_.
            snapshot k))))))))) (\<lambda>_. stored) stored"
        proof (cases "a = Some ''APPROVED''")
          case False
          then show ?thesis by (auto intro!: triple_stored keeps)
        next
          case approved: True
          show ?thesis
            using True approved
            by (simp only: simp_thms if_False)
              (rule triple_weaken [OF wait [OF mid [OF tail]]], auto intro: live)
        qed
      qed
    next
      case False
      then show ?thesis by (auto intro!: triple_stored keeps)
    qed
  qed
qed


lemma triple_live: "preserves (live k) m \<Longrightarrow> triple (live k) m (\<lambda>_. live k) stored"
  by (rule triple_preserves) (auto intro: live_stored)

text \<open>A method that reads the row of a run first knows the run is live unless it is fresh.\<close>

lemma preserves_after_row:
  assumes "\<And>r. ir_state r \<notin> {ACCEPTED, INVESTIGATING} \<Longrightarrow> triple (live k) (f r) (\<lambda>_. stored) stored"
    and "\<And>r. ir_state r \<in> {ACCEPTED, INVESTIGATING} \<Longrightarrow> preserves stored (f r)"
  shows "preserves stored (sbind (row k) f)"
  unfolding preserves_triple
proof (rule triple_sbind)
  show "triple stored (row k) (\<lambda>r w. stored w \<and> incidents (db w) k = Some r) stored"
    by (rule tripleI; erule row_cases) auto
  fix r
  show "triple (\<lambda>w. stored w \<and> incidents (db w) k = Some r) (f r) (\<lambda>_. stored) stored"
  proof (cases "ir_state r \<in> {ACCEPTED, INVESTIGATING}")
    case True
    then show ?thesis by (auto intro!: triple_stored assms(2))
  next
    case False
    show ?thesis
      by (rule triple_weaken [OF assms(1) [OF False]])
        (use False in \<open>auto simp: live_def row_ok_def dest: store_okD(2)\<close>)
  qed
qed

lemma reject_stored [keeps]: "preserves stored (reject k a)"
  unfolding reject_def
proof (rule preserves_after_row)
  fix r
  show "triple (live k) (sbind (sensure (ir_state r = WAITING_APPROVAL)
      (WorkflowError ''rejection is only valid while waiting for approval'')) (\<lambda>_.
      sbind (store_approve k ''REJECTED'' a) (\<lambda>_. sbind (update k REJECTED None None None None) (\<lambda>_.
      sbind (event k ''approval_rejected'' a [(''no_action'', JBool True)]) (\<lambda>_. snapshot k)))))
      (\<lambda>_. stored) stored"
    by (rule triple_weaken [OF triple_live]) (auto intro!: keeps live_stored)
qed (auto simp: sensure_def keeps)

lemma approve_stored [keeps]: "preserves stored (approve env k a)"
proof -
  have tail: "preserves stored (sbind (event k ''approval_granted'' a []) (\<lambda>_. sbind (stored_proposal r) (\<lambda>p.
      sbind (create_grant k p) (\<lambda>_. resume env k ''hybrid''))))" for r
    unfolding preserves_triple
  proof (intro triple_sbind)
    show "triple stored (event k ''approval_granted'' a []) (\<lambda>_. last_is k ''approval_granted'' []) stored"
      by (rule event_last)
    show "triple (last_is k ''approval_granted'' []) (stored_proposal r) (\<lambda>_. last_is k ''approval_granted'' []) stored"
      by (rule triple_preserves) (auto intro: keeps simp: last_is_def live_def)
    show "triple (last_is k ''approval_granted'' []) (create_grant k p) (\<lambda>_. stored) stored" for p
      by (rule create_grant_triple)
    show "triple stored (resume env k ''hybrid'') (\<lambda>_. stored) stored"
      using resume_stored by (simp add: preserves_triple)
  qed
  show ?thesis
    unfolding approve_def
    by (rule preserves_sbind [OF reads_keep], rule preserves_sbind [OF preserves_sensure],
        rule preserves_sbind [OF store_approve_stored(1)], rule tail)
qed

lemma create_stored [keeps]: "preserves stored (create k c)"
  unfolding preserves_def
proof (intro allI impI)
  fix w assume ok: "stored w"
  obtain res w' where c: "create k c w = (res, w')" by fastforce
  let ?f = "\<lambda>d. if incidents d k \<noteq> None then d
     else set_row k \<lparr> ir_case_id = c, ir_state = ACCEPTED, ir_revision = 0, ir_diagnosis = None,
         ir_citations = [], ir_proposal = None, ir_receipt = None \<rparr> d"
  have "row_ok (db w) k \<lparr> ir_case_id = c, ir_state = ACCEPTED, ir_revision = 0, ir_diagnosis = None,
         ir_citations = [], ir_proposal = None, ir_receipt = None \<rparr>" if "incidents (db w) k = None"
    using store_okD(3) [OF ok that] by (simp add: row_ok_def)
  then have "store_ok (?f (db w))" using ok store_ok_set_row by simp
  moreover have "commit ?f w = (res, w')" using c unfolding create_def set_row_def by simp
  ultimately show "stored (snd (create k c w))"
    using c ok by (auto elim: commit_cases)
qed

lemma start_stored [keeps]: "preserves stored (start env c given arm)"
  unfolding start_def by (intro keeps)

section \<open>Runs of the workflow\<close>

text \<open>
  One method call, on any workflow object over the database; it may be cut off at any commit, since
  a restart of the process may set the number of commits it will live for, and brings up a new tool
  server.
\<close>

inductive wf_step :: "world \<Rightarrow> world \<Rightarrow> bool" where
  wf_start: "start env c given arm w = (res, w') \<Longrightarrow> wf_step w w'"
| wf_investigate: "investigate env k arm stop w = (res, w') \<Longrightarrow> wf_step w w'"
| wf_approve: "approve env k a w = (res, w') \<Longrightarrow> wf_step w w'"
| wf_reject: "reject k a w = (res, w') \<Longrightarrow> wf_step w w'"
| wf_resume: "resume env k arm w = (res, w') \<Longrightarrow> wf_step w w'"
| wf_restart: "wf_step w (w\<lparr>srv := s, commits_left := n\<rparr>)"

definition fresh_world :: "mcp_server \<Rightarrow> nat option \<Rightarrow> world" where
  "fresh_world s n = \<lparr> db = empty_store, srv = s, commits_left = n \<rparr>"

lemma wf_step_preserves:
  assumes "wf_step w w'" and "I (db w)"
    and "\<And>env c g arm. preserves (\<lambda>w. I (db w)) (start env c g arm)"
    and "\<And>env k arm stop. preserves (\<lambda>w. I (db w)) (investigate env k arm stop)"
    and "\<And>env k a. preserves (\<lambda>w. I (db w)) (approve env k a)"
    and "\<And>k a. preserves (\<lambda>w. I (db w)) (reject k a)"
    and "\<And>env k arm. preserves (\<lambda>w. I (db w)) (resume env k arm)"
  shows "I (db w')"
  using assms(1)
proof (cases rule: wf_step.cases)
  case (wf_restart s n)
  with assms(2) show ?thesis by simp
qed (use assms(2-) preservesD [of "\<lambda>w. I (db w)"] in blast)+

lemma wf_step_stored: "wf_step w w' \<Longrightarrow> stored w \<Longrightarrow> stored w'"
  by (rule wf_step_preserves [of w w' store_ok]) (auto intro: keeps)

lemma wf_reach_stored: "wf_step\<^sup>*\<^sup>* (fresh_world s n) w \<Longrightarrow> stored w"
  by (induction rule: rtranclp_induct) (auto simp: fresh_world_def store_ok_empty wf_step_stored)


text \<open>
  C1. No effect without approval. In every state the workflow can reach, through any sequence of
  calls on any runs, by any actors and with any decision provider, and with the process dying at any
  commit, each recorded effect belongs to a run whose timeline has an approval immediately followed
  by the dispatch of exactly the proposal hash the effect was applied for.
\<close>

theorem effect_needs_approval:
  assumes "wf_step\<^sup>*\<^sup>* (fresh_world s n) w" and "e \<in> set (effects (db w))"
  shows "\<exists>i. Suc i < length (timeline (db w) (ef_run_id e))
    \<and> te_event_type (timeline (db w) (ef_run_id e) ! i) = ''approval_granted''
    \<and> te_event_type (timeline (db w) (ef_run_id e) ! Suc i) = ''effect_dispatched''
    \<and> te_data (timeline (db w) (ef_run_id e) ! Suc i) = [(''proposal_hash'', JStr (ef_argument_hash e))]"
proof -
  have ok: "stored w" using wf_reach_stored [OF assms(1)] .
  then have "effect_ok (db w) e" using assms(2) store_okD(5) by blast
  then show ?thesis
    by (auto simp: effect_ok_def approved_at_def dispatched_at_def timeline_events [OF ok])
qed

text \<open>
  C4. At most one effect per approved proposal, and a completed run has its effect. In every
  reachable state effect keys are unique, each key is made of the run and the applied hash, and a
  run in state \<open>VERIFYING\<close> or \<open>COMPLETED\<close> carries the receipt of an effect recorded for it.
\<close>

theorem effects_unique_and_complete:
  assumes "wf_step\<^sup>*\<^sup>* (fresh_world s n) w"
  shows "distinct (map ef_effect_key (effects (db w)))
    \<and> (\<forall>e \<in> set (effects (db w)). ef_effect_key e = ef_run_id e @ '':'' @ ef_argument_hash e)
    \<and> (\<forall>k r. incidents (db w) k = Some r \<and> ir_state r \<in> {VERIFYING, COMPLETED} \<longrightarrow>
          (\<exists>e \<in> set (effects (db w)). ef_run_id e = k \<and> ir_receipt r = Some (ef_receipt e)))"
proof -
  have ok: "stored w" using wf_reach_stored [OF assms] .
  have "\<exists>e \<in> set (effects (db w)). ef_run_id e = k \<and> ir_receipt r = Some (ef_receipt e)"
    if "incidents (db w) k = Some r" "ir_state r \<in> {VERIFYING, COMPLETED}" for k r
    using store_okD(2) [OF ok that(1)] that(2) by (auto simp: row_ok_def has_effect_def)
  then show ?thesis
    using store_okD(5,6) [OF ok] by (auto simp: effect_ok_def)
qed

text \<open>
  The timeline is a faithful history. In every reachable state a run's timeline is numbered
  consecutively from one, the run's revision is the length of its timeline, and only known runs have
  events.
\<close>

theorem timeline_revision:
  assumes "wf_step\<^sup>*\<^sup>* (fresh_world s n) w"
  shows "numbered te_sequence (timeline (db w) k)
    \<and> (case incidents (db w) k of None \<Rightarrow> timeline (db w) k = []
       | Some r \<Rightarrow> ir_revision r = int (length (timeline (db w) k)))"
proof -
  have ok: "stored w" using wf_reach_stored [OF assms] .
  then show ?thesis
    using store_okD(1,3) [OF ok] store_okD(2) [OF ok, of k]
    by (auto simp: timeline_events row_ok_def split: option.split)
qed

section \<open>History is only ever extended\<close>

lemma extends_refl [simp]: "extends d d"
  by (simp add: extends_def)

lemma extends_trans: "extends a b \<Longrightarrow> extends b c \<Longrightarrow> extends a c"
  unfolding extends_def by (metis append.assoc)

named_theorems hist

lemma commit_keeps:
  assumes "\<And>d. I d \<Longrightarrow> I (f d)"
  shows "preserves (\<lambda>w. I (db w)) (commit f)"
  unfolding preserves_def
proof (intro allI impI)
  fix w :: world assume i: "I (db w)"
  obtain res w' where c: "commit f w = (res, w')" by fastforce
  then show "I (db (snd (commit f w)))"
    by (cases rule: commit_cases) (use c i assms in auto)
qed

lemma commit_extends: "(\<And>d. extends d (f d)) \<Longrightarrow> preserves (\<lambda>w. extends d0 (db w)) (commit f)"
  by (rule commit_keeps) (blast intro: extends_trans)

lemma event_extends [hist]: "preserves (\<lambda>w. extends d0 (db w)) (event k t a x)"
  unfolding event_def by (intro keeps commit_extends) (auto simp: extends_def)

lemma update_extends [hist]: "preserves (\<lambda>w. extends d0 (db w)) (update k st dg ci pr rc)"
  unfolding update_def by (intro keeps commit_extends) (auto simp: extends_def)

lemma store_ops_extend [hist]:
  "preserves (\<lambda>w. extends d0 (db w)) (store_approve k x a)"
  "preserves (\<lambda>w. extends d0 (db w)) (create_grant k p)"
  "preserves (\<lambda>w. extends d0 (db w)) (create k c)"
  "preserves (\<lambda>w. extends d0 (db w)) (insert_effect key k p rc)"
  unfolding store_approve_def create_grant_def create_def insert_effect_def
  by (intro keeps commit_extends; auto simp: extends_def)+

lemma apply_effect_extends [hist]: "preserves (\<lambda>w. extends d0 (db w)) (apply_effect k p)"
  unfolding apply_effect_def by (intro keeps hist)

lemma tools_extend [hist]:
  "preserves (\<lambda>w. extends d0 (db w)) (record_tool_call k res)"
  "preserves (\<lambda>w. extends d0 (db w)) (tool_logs env k c)"
  "preserves (\<lambda>w. extends d0 (db w)) (tool_metrics env k c)"
  "preserves (\<lambda>w. extends d0 (db w)) (tool_search env k q arm)"
  unfolding record_tool_call_def tool_logs_def tool_metrics_def tool_search_def
  by (intro keeps hist)+

lemma fetch_extends [hist]:
  "preserves (\<lambda>w. extends d0 (db w)) tool \<Longrightarrow> preserves (\<lambda>w. extends d0 (db w)) (fetch k known tool)"
  unfolding fetch_def by (intro keeps hist)

lemma decision_extends [hist]:
  "preserves (\<lambda>w. extends d0 (db w)) (search_round_two env k c arm se ss)"
  "preserves (\<lambda>w. extends d0 (db w)) (model_usage env k d x m)"
  "preserves (\<lambda>w. extends d0 (db w)) (propose k d x cs)"
  unfolding search_round_two_def model_usage_def propose_def by (intro keeps hist)+

lemma methods_extend [hist]:
  "preserves (\<lambda>w. extends d0 (db w)) (decide env k c lg mt se)"
  "preserves (\<lambda>w. extends d0 (db w)) (reject k a)"
  "preserves (\<lambda>w. extends d0 (db w)) (start env c' given arm)"
  unfolding decide_def reject_def start_def by (intro keeps hist)+

lemma investigate_extends [hist]: "preserves (\<lambda>w. extends d0 (db w)) (investigate env k arm stop)"
  unfolding investigate_def by (intro keeps hist)

lemma resume_extends [hist]: "preserves (\<lambda>w. extends d0 (db w)) (resume env k arm)"
  unfolding resume_def by (intro keeps hist)

lemma approve_extends [hist]: "preserves (\<lambda>w. extends d0 (db w)) (approve env k a)"
  unfolding approve_def by (intro keeps hist)

text \<open>
  Append-only history: whatever calls are made and wherever the process dies, no timeline event
  and no effect is ever changed, reordered or removed.
\<close>

theorem history_append_only:
  assumes "wf_step\<^sup>*\<^sup>* w w'"
  shows "(\<forall>k. \<exists>es. events (db w') k = events (db w) k @ es) \<and> (\<exists>xs. effects (db w') = effects (db w) @ xs)"
proof -
  have "extends (db w) (db w')" using assms
  proof (induction rule: rtranclp_induct)
    case (step u v)
    show ?case
      by (rule wf_step_preserves [OF step.hyps(2), of "extends (db w)"]) (use step.IH in \<open>auto intro: hist\<close>)
  qed simp
  then show ?thesis by (simp add: extends_def)
qed


section \<open>Finished runs stay finished\<close>

text \<open>What the tables hold about one run.\<close>

definition same_run :: "string \<Rightarrow> durable_store \<Rightarrow> durable_store \<Rightarrow> bool" where
  "same_run k d d' \<longleftrightarrow> incidents d' k = incidents d k \<and> events d' k = events d k
     \<and> approvals d' k = approvals d k
     \<and> filter (\<lambda>e. ef_run_id e = k) (effects d') = filter (\<lambda>e. ef_run_id e = k) (effects d)"

lemma same_run_refl [simp]: "same_run k d d"
  by (simp add: same_run_def)

lemma same_run_trans: "same_run k a b \<Longrightarrow> same_run k b c \<Longrightarrow> same_run k a c"
  by (simp add: same_run_def)

lemma commit_same_run:
  "(\<And>d. same_run k d (f d)) \<Longrightarrow> preserves (\<lambda>w. same_run k d0 (db w)) (commit f)"
  by (rule commit_keeps) (blast intro: same_run_trans)

named_theorems frame

lemma event_frame [frame]: "j \<noteq> k \<Longrightarrow> preserves (\<lambda>w. same_run k d0 (db w)) (event j t a x)"
  unfolding event_def by (intro keeps commit_same_run) (auto simp: same_run_def)

lemma update_frame [frame]: "j \<noteq> k \<Longrightarrow> preserves (\<lambda>w. same_run k d0 (db w)) (update j st dg ci pr rc)"
  unfolding update_def by (intro keeps commit_same_run) (auto simp: same_run_def)

lemma store_ops_frame [frame]:
  "j \<noteq> k \<Longrightarrow> preserves (\<lambda>w. same_run k d0 (db w)) (store_approve j x a)"
  "j \<noteq> k \<Longrightarrow> preserves (\<lambda>w. same_run k d0 (db w)) (create_grant j p)"
  "j \<noteq> k \<Longrightarrow> preserves (\<lambda>w. same_run k d0 (db w)) (create j c)"
  "j \<noteq> k \<Longrightarrow> preserves (\<lambda>w. same_run k d0 (db w)) (insert_effect key j p rc)"
  unfolding store_approve_def create_grant_def create_def insert_effect_def
  by (intro keeps commit_same_run; auto simp: same_run_def)+

lemma apply_effect_frame [frame]: "j \<noteq> k \<Longrightarrow> preserves (\<lambda>w. same_run k d0 (db w)) (apply_effect j p)"
  unfolding apply_effect_def by (intro keeps frame)

lemma tools_frame [frame]:
  "j \<noteq> k \<Longrightarrow> preserves (\<lambda>w. same_run k d0 (db w)) (record_tool_call j res)"
  "preserves (\<lambda>w. same_run k d0 (db w)) (tool_logs env j c)"
  "preserves (\<lambda>w. same_run k d0 (db w)) (tool_metrics env j c)"
  "preserves (\<lambda>w. same_run k d0 (db w)) (tool_search env j q arm)"
  unfolding record_tool_call_def tool_logs_def tool_metrics_def tool_search_def
  by (intro keeps frame; assumption)+

lemma fetch_frame [frame]:
  "j \<noteq> k \<Longrightarrow> preserves (\<lambda>w. same_run k d0 (db w)) tool \<Longrightarrow>
   preserves (\<lambda>w. same_run k d0 (db w)) (fetch j known tool)"
  unfolding fetch_def by (intro keeps frame)

lemma decision_frame [frame]:
  "j \<noteq> k \<Longrightarrow> preserves (\<lambda>w. same_run k d0 (db w)) (search_round_two env j c arm se ss)"
  "j \<noteq> k \<Longrightarrow> preserves (\<lambda>w. same_run k d0 (db w)) (model_usage env j d x m)"
  "j \<noteq> k \<Longrightarrow> preserves (\<lambda>w. same_run k d0 (db w)) (propose j d x cs)"
  unfolding search_round_two_def model_usage_def propose_def by (intro keeps frame; assumption)+

lemma decide_frame [frame]:
  "j \<noteq> k \<Longrightarrow> preserves (\<lambda>w. same_run k d0 (db w)) (decide env j c lg mt se)"
  unfolding decide_def by (intro keeps frame; assumption)

lemma investigate_frame [frame]:
  "j \<noteq> k \<Longrightarrow> preserves (\<lambda>w. same_run k d0 (db w)) (investigate env j arm stop)"
  unfolding investigate_def by (intro keeps frame; assumption)

lemma resume_frame [frame]: "j \<noteq> k \<Longrightarrow> preserves (\<lambda>w. same_run k d0 (db w)) (resume env j arm)"
  unfolding resume_def by (intro keeps frame; assumption)

lemma approve_frame [frame]:
  "j \<noteq> k \<Longrightarrow> preserves (\<lambda>w. same_run k d0 (db w)) (approve env j a)"
  "j \<noteq> k \<Longrightarrow> preserves (\<lambda>w. same_run k d0 (db w)) (reject j a)"
  unfolding approve_def reject_def by (intro keeps frame; assumption)+

lemma frameD:
  assumes "\<And>d0. preserves (\<lambda>w. same_run k d0 (db w)) m" and "m w = (res, w')"
  shows "same_run k (db w) (db w')"
  using preservesD [OF assms(1) [of "db w"] _ assms(2)] by simp

definition terminal :: "workflow_state set" where
  "terminal = {COMPLETED, ABSTAINED, REJECTED}"

text \<open>On a finished run every method raises or reports, and changes nothing.\<close>

lemma terminal_noop:
  assumes ok: "stored w" and r: "incidents (db w) k = Some r" "ir_state r \<in> terminal"
  shows "investigate env k arm stop w = (res, w') \<Longrightarrow> w' = w"
    and "resume env k arm w = (res, w') \<Longrightarrow> w' = w"
    and "approve env k a w = (res, w') \<Longrightarrow> w' = w"
    and "reject k a w = (res, w') \<Longrightarrow> w' = w"
proof -
  have snap: "\<exists>x. snapshot k w = (Inr x, w)"
    using row_run(1) [OF r(1)] by (simp add: snapshot_def sret_def)
  have st: "ir_state r \<noteq> WAITING_APPROVAL" "ir_state r \<noteq> INTERRUPTED" "ir_state r \<in> {COMPLETED, ABSTAINED, REJECTED}"
    using r(2) by (auto simp: terminal_def)
  show "investigate env k arm stop w = (res, w') \<Longrightarrow> w' = w"
    using snap st(3) row_run(1) [OF r(1)]
    by (auto simp: investigate_def sraise_def split: option.splits)
  show "resume env k arm w = (res, w') \<Longrightarrow> w' = w"
    using snap st row_run(1) [OF r(1)] by (auto simp: resume_def)
  show "approve env k a w = (res, w') \<Longrightarrow> w' = w" "reject k a w = (res, w') \<Longrightarrow> w' = w"
    using st(1) row_run(1) [OF r(1)] by (auto simp: approve_def reject_def sraise_def)
qed

lemma create_known:
  assumes "incidents (db w) k \<noteq> None"
  shows "\<exists>res w'. create k c w = (res, w') \<and> db w' = db w \<and> srv w' = srv w"
proof -
  obtain res w' where c: "create k c w = (res, w')" by fastforce
  then have "db w' = db w \<and> srv w' = srv w"
    unfolding create_def by (cases rule: commit_cases) (use assms in auto)
  with c show ?thesis by blast
qed

lemma start_terminal:
  assumes ok: "stored w" and r: "incidents (db w) k = Some r" "ir_state r \<in> terminal"
    and run: "start env c given arm w = (res, w')"
  shows "same_run k (db w) (db w')"
proof -
  let ?j = "case given of Some r \<Rightarrow> if r \<noteq> [] then r else ''incident-'' @ fresh_id env
            | None \<Rightarrow> ''incident-'' @ fresh_id env"
  show ?thesis
  proof (cases "?j = k")
    case False
    have "preserves (\<lambda>w. same_run k d0 (db w)) (start env c given arm)" for d0
      unfolding start_def Let_def by (intro keeps frame False)
    then show ?thesis using run by (rule frameD)
  next
    case True
    have ne: "timeline (db w) k \<noteq> []"
      using store_okD(2) [OF ok r(1)] r(2) by (auto simp: timeline_events [OF ok] row_ok_def terminal_def)
    obtain cres w1 where c: "create k c w = (cres, w1)" "db w1 = db w"
      using create_known [of w k c] r(1) by auto
    have "db w' = db w"
      using run c ne True unfolding start_def Let_def
      by (cases cres) (auto simp: sbind_sensure sret_def split: if_splits)
    then show ?thesis by simp
  qed
qed

lemma step_frame:
  assumes "m w = (res, w')" and "j = k \<Longrightarrow> w' = w"
    and "\<And>d0. j \<noteq> k \<Longrightarrow> preserves (\<lambda>w. same_run k d0 (db w)) m"
  shows "same_run k (db w) (db w')"
  using assms frameD [of k m w res w'] by (cases "j = k") auto

lemma terminal_step:
  assumes "wf_step w w'" "stored w" "incidents (db w) k = Some r" "ir_state r \<in> terminal"
  shows "same_run k (db w) (db w')"
  using assms(1)
proof (cases rule: wf_step.cases)
  case (wf_start env c given arm res)
  then show ?thesis using start_terminal assms(2-4) by blast
next
  case (wf_investigate env j arm stop res)
  show ?thesis
    by (rule step_frame [of "investigate env j arm stop", OF wf_investigate, of j]) (use wf_investigate terminal_noop(1) [OF assms(2-4)] in \<open>blast intro: investigate_frame\<close>)+
next
  case (wf_approve env j a res)
  show ?thesis
    by (rule step_frame [of "approve env j a", OF wf_approve, of j]) (use wf_approve terminal_noop(3) [OF assms(2-4)] in \<open>blast intro: approve_frame(1)\<close>)+
next
  case (wf_reject j a res)
  show ?thesis
    by (rule step_frame [of "reject j a", OF wf_reject, of j]) (use wf_reject terminal_noop(4) [OF assms(2-4)] in \<open>blast intro: approve_frame(2)\<close>)+
next
  case (wf_resume env j arm res)
  show ?thesis
    by (rule step_frame [of "resume env j arm", OF wf_resume, of j]) (use wf_resume terminal_noop(2) [OF assms(2-4)] in \<open>blast intro: resume_frame\<close>)+
qed simp

text \<open>
  C3. Terminal states are final. Once a run of a reachable world is completed, abstained or
  rejected, no later call on any run, crash or restart changes its row, its timeline, its approval
  or its effects: a rejected run in particular never gains an effect.
\<close>

theorem terminal_final:
  assumes "wf_step\<^sup>*\<^sup>* (fresh_world s n) w" and "wf_step\<^sup>*\<^sup>* w w'"
    and "incidents (db w) k = Some r" and "ir_state r \<in> {COMPLETED, ABSTAINED, REJECTED}"
  shows "incidents (db w') k = Some r \<and> timeline (db w') k = timeline (db w) k
    \<and> approval (db w') k = approval (db w) k
    \<and> filter (\<lambda>e. ef_run_id e = k) (effects (db w')) = filter (\<lambda>e. ef_run_id e = k) (effects (db w))"
proof -
  have "same_run k (db w) (db w')" using assms(2)
  proof (induction rule: rtranclp_induct)
    case (step u v)
    have "stored u" using wf_reach_stored assms(1) step.hyps(1) by (metis rtranclp_trans)
    moreover have "incidents (db u) k = Some r" using step.IH assms(3) by (simp add: same_run_def)
    ultimately have "same_run k (db u) (db v)"
      using terminal_step [OF step.hyps(2)] assms(4) by (auto simp: terminal_def)
    with step.IH show ?case by (rule same_run_trans)
  qed simp
  then show ?thesis using assms(3) by (simp add: same_run_def timeline_def approval_def)
qed

end
