(* ===== verification/Workflow_Runs.thy ===== *)
theory Workflow_Runs
  imports Workflow_Safety
begin

text \<open>
  What single calls of the incident workflow do: the guards of an effect, the replay of effects and
  of recorded tool results, the run of an approval to completion, and the state in which an approval
  cut off before its grant leaves a run.
\<close>

section \<open>The effect guard\<close>

text \<open>When an effect is refused: there is no grant for the run and the hash of the proposal, or it is not usable, or
  its run, hash, resource or recomputed argument hash differs from the proposal's; or no effect is recorded yet
  and the run is unknown or had any further event than the dispatch.\<close>

definition effect_refused :: "durable_store \<Rightarrow> string \<Rightarrow> proposal \<Rightarrow> bool" where
  "effect_refused d k p \<longleftrightarrow>
     (case grant d (effect_key k p) of
        None \<Rightarrow> True
      | Some g \<Rightarrow> \<not> grant_admits k p g
          \<or> effect d (effect_key k p) = None
            \<and> (case incidents d k of None \<Rightarrow> True
               | Some r \<Rightarrow> ir_revision r \<noteq> g_workflow_revision g \<and> ir_revision r \<noteq> g_workflow_revision g + 1))"

lemma refused_raises:
  assumes "effect_refused (db w) k p"
  shows "\<exists>msg. apply_effect k p w = (Inl (WorkflowError msg), w)"
proof (cases "grant (db w) (effect_key k p)")
  case None
  then show ?thesis by (simp add: apply_effect_def Let_def sraise_def)
next
  case g: (Some g)
  show ?thesis
  proof (cases "grant_admits k p g")
    case False
    with g show ?thesis
      by (auto simp: apply_effect_def Let_def grant_admits_def sbind_sensure)
  next
    case True
    with assms g have e: "effect (db w) (effect_key k p) = None" by (simp add: effect_refused_def)
    show ?thesis
    proof (cases "incidents (db w) k")
      case None
      with g True e row_run(2) [OF None] show ?thesis
        by (auto simp: apply_effect_def Let_def grant_admits_def)
    next
      case (Some r)
      with g True e assms row_run(1) [OF Some] show ?thesis
        by (auto simp: effect_refused_def apply_effect_def Let_def grant_admits_def sraise_def)
    qed
  qed
qed

lemma admitted_no_error:
  assumes "\<not> effect_refused (db w) k p"
  shows "apply_effect k p w \<noteq> (Inl (WorkflowError msg), w')"
proof -
  from assms obtain g where g: "grant (db w) (effect_key k p) = Some g" and a: "grant_admits k p g"
    by (auto simp: effect_refused_def split: option.splits)
  show ?thesis
  proof (cases "effect (db w) (effect_key k p)")
    case (Some receipt)
    with g a show ?thesis by (auto simp: apply_effect_def Let_def grant_admits_def sret_def)
  next
    case None
    with assms g a obtain r where r: "incidents (db w) k = Some r"
        "ir_revision r = g_workflow_revision g \<or> ir_revision r = g_workflow_revision g + 1"
      by (auto simp: effect_refused_def split: option.splits)
    show ?thesis using g a None r row_run(1) [OF r(1)]
      by (auto simp: apply_effect_def Let_def grant_admits_def insert_effect_def commit_def sbind_def on_srv_def
          set_remediation_status_def sget_def sensure_def sret_def sraise_def smodify_def
          split: option.splits nat.splits sum.splits prod.splits if_splits)
  qed
qed

text \<open>
  C6. Tampering is refused, and nothing else. Applying a proposal raises a workflow error exactly when the store
  holds no usable grant of the run for exactly this hash, resource and recomputed arguments, or when no effect is
  recorded under its key and the run has moved on past the dispatch; then nothing changes. In particular a stale
  revision does not refuse the replay of a recorded effect.
\<close>

theorem apply_effect_refuses:
  "((\<exists>msg. apply_effect k p w = (Inl (WorkflowError msg), w)) \<longleftrightarrow> effect_refused (db w) k p)
   \<and> ((\<exists>msg w'. apply_effect k p w = (Inl (WorkflowError msg), w')) \<longleftrightarrow> effect_refused (db w) k p)"
  using refused_raises admitted_no_error by metis

lemma find_map_state:
  "find (\<lambda>g. g_effect_key g = key)
     (map (\<lambda>g. if g_effect_key g = key' then g\<lparr>g_state := x\<rparr> else g) gs)
   = map_option (\<lambda>g. if g_effect_key g = key' then g\<lparr>g_state := x\<rparr> else g)
       (find (\<lambda>g. g_effect_key g = key) gs)"
  by (induction gs) auto

lemma find_append:
  "find P (xs @ ys) = (case find P xs of None \<Rightarrow> find P ys | Some x \<Rightarrow> Some x)"
  by (induction xs) auto

lemma apply_existing:
  assumes "grant (db w) (effect_key k p) = Some g" "grant_admits k p g"
    and "effect (db w) (effect_key k p) = Some receipt"
  shows "apply_effect k p w = (Inr receipt, w)"
  using assms by (auto simp: apply_effect_def Let_def grant_admits_def sret_def)

lemma effect_receipt:
  assumes "apply_effect k p w = (Inr receipt, w')"
  shows "effect (db w') (effect_key k p) = Some receipt"
  using assms
  by (cases rule: apply_effect_cases)
    (auto simp: effect_def with_effect_def find_append split: option.splits)

text \<open>
  C5. An effect is applied once. After an application has returned a receipt, applying the same
  proposal again, however often, returns the same receipt and changes nothing, and the first
  application recorded at most one effect.
\<close>

theorem apply_effect_once:
  assumes "apply_effect k p w = (Inr receipt, w')"
  shows "apply_effect k p w' = (Inr receipt, w')
    \<and> length (effects (db w')) \<le> Suc (length (effects (db w)))
    \<and> effect (db w') (effect_key k p) = Some receipt"
  using assms
proof (cases rule: apply_effect_cases)
  case (2 g receipt')
  with assms show ?thesis by auto
next
  case (3 g r)
  let ?g = "g\<lparr>g_state := ''DISPATCHED''\<rparr>"
  have key: "g_effect_key g = effect_key k p"
    using 3(1) by (auto simp: grant_def dest: find_SomeD)
  have "grant (db w') (effect_key k p) = Some ?g"
    using 3(1,7) key by (simp add: grant_def with_effect_def find_map_state)
  moreover have "grant_admits k p ?g" using 3(2) by (simp add: grant_admits_def)
  moreover have "effect (db w') (effect_key k p) = Some receipt" by (rule effect_receipt [OF assms])
  ultimately show ?thesis using 3(7) apply_existing by (simp add: with_effect_def)
qed simp

section \<open>Uninterrupted methods\<close>

lemma commit_None: "commits_left w = None \<Longrightarrow> commit f w = (Inr (), w\<lparr>db := f (db w)\<rparr>)"
  by (simp add: commit_def)

lemma event_None:
  assumes "commits_left w = None" "stored w" "incidents (db w) k = Some r"
  shows "event k t a x w = (Inr (next_event k t a x (db w)),
     w\<lparr>db := add_event k r (next_event k t a x (db w)) (db w)\<rparr>)"
proof -
  have "fold max (map te_sequence (events (db w) k)) 0 = length (events (db w) k)"
    by (rule fold_max_numbered [OF store_okD(1) [OF assms(2)]])
  then show ?thesis
    using row_run(1) [OF assms(3)] assms(1)
    by (simp add: event_def Let_def commit_None sret_def next_event_def add_event_def)
qed

lemma update_None:
  assumes "commits_left w = None" "incidents (db w) k = Some r"
  shows "update k st dg ci pr rc w = (Inr (), w\<lparr>db := set_row k (updated st dg ci pr rc r) (db w)\<rparr>)"
  using row_run(1) [OF assms(2)] assms(1) by (simp add: update_def updated_def commit_None)

lemma store_approve_None:
  assumes "commits_left w = None" "incidents (db w) k = Some r"
  shows "store_approve k x a w = (Inr (), w\<lparr>db := (db w)\<lparr>approvals := (approvals (db w))(k \<mapsto> (x, a))\<rparr>\<rparr>)"
  using assms by (simp add: store_approve_def commit_None)

definition new_grant :: "string \<Rightarrow> proposal \<Rightarrow> int \<Rightarrow> grant_row" where
  "new_grant k p n = \<lparr> g_run_id = k, g_effect_key = effect_key k p,
            g_proposal_hash = canonical_argument_hash p, g_resource_id = target_resource_id p,
            g_argument_hash = canonical_argument_hash p, g_workflow_revision = n,
            g_fence_token = n, g_state = ''GRANTED'' \<rparr>"

definition with_grant :: "string \<Rightarrow> proposal \<Rightarrow> int \<Rightarrow> durable_store \<Rightarrow> durable_store" where
  "with_grant k p n d = d\<lparr>approval_grants :=
       filter (\<lambda>g. g_run_id g \<noteq> k \<and> g_effect_key g \<noteq> effect_key k p) (approval_grants d) @ [new_grant k p n]\<rparr>"

lemma create_grant_None:
  assumes "commits_left w = None" "incidents (db w) k = Some r" "approval (db w) k = Some ''APPROVED''"
  shows "create_grant k p w = (Inr (), w\<lparr>db := with_grant k p (ir_revision r) (db w)\<rparr>)"
  using row_run(1) [OF assms(2)] assms
  by (simp add: create_grant_def commit_None with_grant_def new_grant_def)

lemma with_grant_simps [simp]:
  "incidents (with_grant k p n d) = incidents d" "events (with_grant k p n d) = events d"
  "approvals (with_grant k p n d) = approvals d" "effects (with_grant k p n d) = effects d"
  by (simp_all add: with_grant_def)

lemma grant_with_grant: "grant (with_grant k p n d) (effect_key k p) = Some (new_grant k p n)"
proof -
  have "find (\<lambda>g. g_effect_key g = effect_key k p)
      (filter (\<lambda>g. g_run_id g \<noteq> k \<and> g_effect_key g \<noteq> effect_key k p) gs) = None" for gs :: "grant_row list"
    by (auto simp: find_None_iff)
  then show ?thesis by (simp add: grant_def with_grant_def find_append new_grant_def)
qed


lemma apply_effect_None:
  assumes "commits_left w = None" "incidents (db w) k = Some r"
    and "grant (db w) (effect_key k p) = Some g" "grant_admits k p g"
    and "ir_revision r = g_workflow_revision g + 1"
  obtains receipt w' where "apply_effect k p w = (Inr receipt, w')" "commits_left w' = None"
    "incidents (db w') = incidents (db w)" "events (db w') = events (db w)"
    "approvals (db w') = approvals (db w)"
proof (cases "effect (db w) (effect_key k p)")
  case (Some receipt)
  then show thesis using that apply_existing assms by blast
next
  case None
  obtain s where s: "on_srv (set_remediation_status (target_resource_id p) ''APPLIED'')
      (w\<lparr>db := with_effect k p (db w)\<rparr>) = (Inr (), w\<lparr>db := with_effect k p (db w), srv := s\<rparr>)"
    using set_applied [of "target_resource_id p" "w\<lparr>db := with_effect k p (db w)\<rparr>"] by auto
  have "insert_effect (effect_key k p) k p (receipt_of p) w = (Inr (), w\<lparr>db := with_effect k p (db w)\<rparr>)"
    using insert_effect_fresh [OF None] assms(1,2) by (simp add: commit_None)
  then have "apply_effect k p w = (Inr (receipt_of p), w\<lparr>db := with_effect k p (db w), srv := s\<rparr>)"
    using assms(3-5) None s row_run(1) [OF assms(2)]
    by (auto simp: apply_effect_def Let_def grant_admits_def sret_def)
  then show thesis using that assms(1) by fastforce
qed

text \<open>The tail of \<open>resume\<close>, from the dispatch on.\<close>

lemma dispatch_completes:
  assumes w: "commits_left w = None" "live k w" "incidents (db w) k = Some r"
    and g: "grant (db w) (effect_key k p) = Some g" "grant_admits k p g" "ir_revision r = g_workflow_revision g"
  obtains snap w' receipt where
    "sbind (update k DISPATCHED None None None None) (\<lambda>_.
     sbind (event k ''effect_dispatched'' ''scheduler''
              [(''proposal_hash'', JStr (canonical_argument_hash p))]) (\<lambda>_.
     sbind (apply_effect k p) (\<lambda>receipt.
     sbind (update k VERIFYING None None None (Some receipt)) (\<lambda>_.
     sbind (event k ''effect_verified'' ''tool''
              [(''resource_id'', JStr (target_resource_id p))]) (\<lambda>_.
     sbind (update k COMPLETED None None None (Some receipt)) (\<lambda>_.
     sbind (event k ''incident_completed'' ''scheduler'' [(''action'', JStr (action_type p))]) (\<lambda>_.
     snapshot k))))))) w = (Inr snap, w')"
    "ws_state snap = COMPLETED" "ws_action_receipt snap = Some receipt"
    "effect (db w') (effect_key k p) = Some receipt"
    "map te_event_type (ws_timeline snap) = map te_event_type (events (db w) k)
       @ [''effect_dispatched'', ''effect_verified'', ''incident_completed'']"
    "\<exists>r'. incidents (db w') k = Some r' \<and> ir_state r' = COMPLETED"
proof -
  let ?r1 = "updated DISPATCHED None None None None r"
  define w1 where "w1 = w\<lparr>db := set_row k ?r1 (db w)\<rparr>"
  have u1: "update k DISPATCHED None None None None w = (Inr (), w1)"
    unfolding w1_def by (rule update_None [OF w(1,3)])
  have l1: "live k w1"
    using preservesD [OF update_keeps_live w(2) u1] by simp
  define e1 where "e1 = next_event k ''effect_dispatched'' ''scheduler''
      [(''proposal_hash'', JStr (canonical_argument_hash p))] (db w1)"
  define w2 where "w2 = w1\<lparr>db := add_event k ?r1 e1 (db w1)\<rparr>"
  have ev1: "event k ''effect_dispatched'' ''scheduler''
      [(''proposal_hash'', JStr (canonical_argument_hash p))] w1 = (Inr e1, w2)"
    unfolding w2_def e1_def by (rule event_None) (use w l1 in \<open>auto simp: w1_def live_def\<close>)
  have last2: "last_is k ''effect_dispatched'' [(''proposal_hash'', JStr (canonical_argument_hash p))] w2"
    using tripleD(2) [OF event_last _ ev1] l1 by (simp add: live_def)
  obtain receipt w3 where a: "apply_effect k p w2 = (Inr receipt, w3)" "commits_left w3 = None"
      "incidents (db w3) = incidents (db w2)" "events (db w3) = events (db w2)"
      "approvals (db w3) = approvals (db w2)"
  proof (rule apply_effect_None)
    show "commits_left w2 = None" "incidents (db w2) k = Some (?r1\<lparr>ir_revision := ir_revision ?r1 + 1\<rparr>)"
      using w(1) by (simp_all add: w2_def w1_def)
    show "grant (db w2) (effect_key k p) = Some g" using g(1) by (simp add: w2_def w1_def grant_def)
    show "grant_admits k p g" by (rule g(2))
    show "ir_revision (?r1\<lparr>ir_revision := ir_revision ?r1 + 1\<rparr>) = g_workflow_revision g + 1"
      using g(3) by simp
  qed blast
  have d3: "done_at k receipt w3" using tripleD(2) [OF apply_effect_triple last2 a(1)] .
  let ?r2 = "?r1\<lparr>ir_revision := ir_revision ?r1 + 1\<rparr>"
  have i3: "incidents (db w3) k = Some ?r2" by (simp add: a(3) w2_def)
  define w4 where "w4 = w3\<lparr>db := set_row k (updated VERIFYING None None None (Some receipt) ?r2) (db w3)\<rparr>"
  have u4: "update k VERIFYING None None None (Some receipt) w3 = (Inr (), w4)"
    unfolding w4_def by (rule update_None [OF a(2) i3])
  have d4: "done_at k receipt w4" using preservesD [OF update_done d3 u4] .
  let ?r4 = "updated VERIFYING None None None (Some receipt) ?r2"
  define e5 where "e5 = next_event k ''effect_verified'' ''tool''
      [(''resource_id'', JStr (target_resource_id p))] (db w4)"
  define w5 where "w5 = w4\<lparr>db := add_event k ?r4 e5 (db w4)\<rparr>"
  have ev5: "event k ''effect_verified'' ''tool'' [(''resource_id'', JStr (target_resource_id p))] w4 = (Inr e5, w5)"
    unfolding w5_def e5_def by (rule event_None) (use a(2) d4 in \<open>auto simp: w4_def done_at_def live_def\<close>)
  have d5: "done_at k receipt w5" using preservesD [OF event_done d4 ev5] .
  let ?r5 = "?r4\<lparr>ir_revision := ir_revision ?r4 + 1\<rparr>"
  define w6 where "w6 = w5\<lparr>db := set_row k (updated COMPLETED None None None (Some receipt) ?r5) (db w5)\<rparr>"
  have u6: "update k COMPLETED None None None (Some receipt) w5 = (Inr (), w6)"
    unfolding w6_def by (rule update_None) (simp_all add: w5_def w4_def a(2))
  have d6: "done_at k receipt w6" using preservesD [OF update_done d5 u6] .
  let ?r6 = "updated COMPLETED None None None (Some receipt) ?r5"
  define e7 where "e7 = next_event k ''incident_completed'' ''scheduler'' [(''action'', JStr (action_type p))] (db w6)"
  define w7 where "w7 = w6\<lparr>db := add_event k ?r6 e7 (db w6)\<rparr>"
  have ev7: "event k ''incident_completed'' ''scheduler'' [(''action'', JStr (action_type p))] w6 = (Inr e7, w7)"
    unfolding w7_def e7_def
    by (rule event_None) (use a(2) d6 in \<open>auto simp: w6_def w5_def w4_def done_at_def live_def\<close>)
  have d7: "stored w7" using preservesD [OF event_done d6 ev7] by (simp add: done_at_def live_def)
  have i7: "incidents (db w7) k = Some (?r6\<lparr>ir_revision := ir_revision ?r6 + 1\<rparr>)" by (simp add: w7_def)
  have evs: "map te_event_type (events (db w7) k) = map te_event_type (events (db w) k)
       @ [''effect_dispatched'', ''effect_verified'', ''incident_completed'']"
    by (simp add: w7_def w6_def w5_def w4_def a(4) w2_def w1_def e1_def e5_def e7_def)
  obtain snap where snap: "snapshot k w7 = (Inr snap, w7)" "ws_state snap = COMPLETED"
      "ws_action_receipt snap = Some receipt" "ws_timeline snap = events (db w7) k"
    using row_run(1) [OF i7] by (simp add: snapshot_def sret_def timeline_events [OF d7])
  have "effect (db w7) (effect_key k p) = effect (db w3) (effect_key k p)"
    by (simp add: effect_def w7_def w6_def w5_def w4_def)
  then have eff: "effect (db w7) (effect_key k p) = Some receipt"
    using effect_receipt [OF a(1)] by simp
  show thesis
    by (rule that [of snap w7 receipt]) (simp_all add: u1 ev1 a(1) u4 ev5 u6 ev7 snap eff evs i7)
qed


section \<open>Stored proposals\<close>

text \<open>A stored proposal carries its canonical hash, and a run that waits for approval has one: only \<open>propose\<close>
  stores a proposal, the one \<open>proposal_from_dict\<close> built, together with the state \<open>WAITING_APPROVAL\<close>.\<close>

definition proposal_ok :: "incident_row \<Rightarrow> bool" where
  "proposal_ok r \<longleftrightarrow>
     (case ir_proposal r of
        None \<Rightarrow> ir_state r \<noteq> WAITING_APPROVAL
      | Some p \<Rightarrow> canonical_argument_hash p = canonical_proposal_hash p)"

definition proposals_ok :: "durable_store \<Rightarrow> bool" where
  "proposals_ok d \<longleftrightarrow> (\<forall>k r. incidents d k = Some r \<longrightarrow> proposal_ok r)"

lemma proposals_set_row [simp]: "proposals_ok d \<Longrightarrow> proposal_ok r \<Longrightarrow> proposals_ok (set_row k r d)"
  by (auto simp: proposals_ok_def set_row_def)

lemma proposal_ok_revision [simp]: "proposal_ok (r\<lparr>ir_revision := n\<rparr>) \<longleftrightarrow> proposal_ok r"
  by (simp add: proposal_ok_def cong: option.case_cong)

lemma proposal_from_dict_hash:
  "proposal_from_dict v = Inr p \<Longrightarrow> canonical_argument_hash p = canonical_proposal_hash p"
  by (auto simp: proposal_from_dict_def Let_def rbind_eq_Inr canonical_proposal_hash_def)

named_theorems proposal_keeps

lemma event_proposals [proposal_keeps]: "preserves (\<lambda>w. proposals_ok (db w)) (event k t a x)"
  unfolding preserves_def
proof (intro allI impI)
  fix w :: world assume ok: "proposals_ok (db w)"
  show "proposals_ok (db (snd (event k t a x w)))"
  proof (cases "incidents (db w) k")
    case None
    with ok show ?thesis by (simp add: event_def row_def sraise_def)
  next
    case (Some r)
    with ok have r: "proposal_ok r" by (auto simp: proposals_ok_def)
    have "proposals_ok (d\<lparr>timeline_rows := es\<rparr>) \<longleftrightarrow> proposals_ok d" for d es by (simp add: proposals_ok_def)
    with r have "preserves (\<lambda>w. proposals_ok (db w)) (commit (\<lambda>d. set_row k (r\<lparr>ir_revision := n\<rparr>) (d\<lparr>timeline_rows := es d\<rparr>)))" for n es
      by (intro commit_keeps) simp
    then have keep: "preserves (\<lambda>w. proposals_ok (db w))
        (sbind (commit (\<lambda>d. set_row k (r\<lparr>ir_revision := n\<rparr>) (d\<lparr>timeline_rows := es d\<rparr>))) (\<lambda>_. sret e))" for n es e
      by (intro keeps)
    show ?thesis
      by (simp add: event_def row_run(1) [OF Some] Let_def)
        (rule keep [unfolded preserves_def, rule_format, where es = "\<lambda>d. timeline_rows d @ _", OF ok])
  qed
qed

lemma update_proposals [proposal_keeps]:
  assumes "case pr of None \<Rightarrow> st \<noteq> WAITING_APPROVAL | Some p \<Rightarrow> canonical_argument_hash p = canonical_proposal_hash p"
  shows "preserves (\<lambda>w. proposals_ok (db w)) (update k st dg ci pr rc)"
  unfolding preserves_def
proof (intro allI impI)
  fix w :: world assume ok: "proposals_ok (db w)"
  obtain res w' where u: "update k st dg ci pr rc w = (res, w')" by fastforce
  then have "proposals_ok (db w')"
  proof (cases rule: update_cases)
    case (2 r)
    with ok have "proposal_ok r" by (auto simp: proposals_ok_def)
    with assms have "proposal_ok (updated st dg ci pr rc r)" by (auto simp: proposal_ok_def split: option.splits)
    with ok 2 show ?thesis by simp
  qed (use ok in simp)
  with u show "proposals_ok (db (snd (update k st dg ci pr rc w)))" by simp
qed

lemma create_proposals [proposal_keeps]: "preserves (\<lambda>w. proposals_ok (db w)) (create k c)"
  unfolding create_def by (rule commit_keeps) (auto simp: proposals_ok_def proposal_ok_def)

lemma store_ops_proposals [proposal_keeps]:
  "preserves (\<lambda>w. proposals_ok (db w)) (store_approve k x a)"
  "preserves (\<lambda>w. proposals_ok (db w)) (create_grant k p)"
  "preserves (\<lambda>w. proposals_ok (db w)) (insert_effect key k p rc)"
  unfolding store_approve_def create_grant_def insert_effect_def
  by (intro keeps commit_keeps; auto simp: proposals_ok_def)+

lemma apply_effect_proposals [proposal_keeps]: "preserves (\<lambda>w. proposals_ok (db w)) (apply_effect k p)"
  unfolding apply_effect_def by (intro keeps proposal_keeps)

lemma tools_proposals [proposal_keeps]:
  "preserves (\<lambda>w. proposals_ok (db w)) (record_tool_call k res)"
  "preserves (\<lambda>w. proposals_ok (db w)) (tool_logs env k c)"
  "preserves (\<lambda>w. proposals_ok (db w)) (tool_metrics env k c)"
  "preserves (\<lambda>w. proposals_ok (db w)) (tool_search env k q arm)"
  unfolding record_tool_call_def tool_logs_def tool_metrics_def tool_search_def
  by (intro keeps proposal_keeps)+

lemma fetch_proposals [proposal_keeps]:
  "preserves (\<lambda>w. proposals_ok (db w)) tool \<Longrightarrow> preserves (\<lambda>w. proposals_ok (db w)) (fetch k known tool)"
  unfolding fetch_def by (intro keeps proposal_keeps)

lemma preserves_py_bind: "(\<And>x. r = Inr x \<Longrightarrow> preserves I (f x)) \<Longrightarrow> preserves I (sbind (py r) f)"
  by (cases r) (auto simp: py_def preserves_def sbind_def sraise_def sret_def)

lemma propose_proposals [proposal_keeps]: "preserves (\<lambda>w. proposals_ok (db w)) (propose k d x cs)"
  unfolding propose_def
  by (intro preserves_case_option preserves_if preserves_py_bind preserves_sbind keeps proposal_keeps)
    (auto dest: proposal_from_dict_hash)

lemma decision_proposals [proposal_keeps]:
  "preserves (\<lambda>w. proposals_ok (db w)) (search_round_two env k c arm se ss)"
  "preserves (\<lambda>w. proposals_ok (db w)) (model_usage env k d x m)"
  unfolding search_round_two_def model_usage_def by (intro keeps proposal_keeps)+

lemma methods_proposals [proposal_keeps]:
  "preserves (\<lambda>w. proposals_ok (db w)) (decide env k c lg mt se)"
  "preserves (\<lambda>w. proposals_ok (db w)) (reject k a)"
  "preserves (\<lambda>w. proposals_ok (db w)) (start env c' given arm)"
  unfolding decide_def reject_def start_def by (intro keeps proposal_keeps; simp)+

lemma investigate_proposals [proposal_keeps]: "preserves (\<lambda>w. proposals_ok (db w)) (investigate env k arm stop)"
  unfolding investigate_def by (intro keeps proposal_keeps; simp)

lemma resume_proposals [proposal_keeps]: "preserves (\<lambda>w. proposals_ok (db w)) (resume env k arm)"
  unfolding resume_def by (intro keeps proposal_keeps; simp)

lemma approve_proposals [proposal_keeps]: "preserves (\<lambda>w. proposals_ok (db w)) (approve env k a)"
  unfolding approve_def by (intro keeps proposal_keeps)

lemma wf_reach_proposals: "wf_step\<^sup>*\<^sup>* (fresh_world s n) w \<Longrightarrow> proposals_ok (db w)"
proof (induction rule: rtranclp_induct)
  case base
  show ?case by (simp add: fresh_world_def empty_store_def proposals_ok_def)
next
  case (step w w')
  show ?case by (rule wf_step_preserves [OF step.hyps(2), of proposals_ok]) (use step.IH in \<open>auto intro: proposal_keeps\<close>)
qed

section \<open>Approval\<close>

lemma approve_run:
  assumes w: "commits_left w = None" "stored w" "incidents (db w) k = Some r"
    and r: "ir_state r = WAITING_APPROVAL" "ir_proposal r = Some p"
      "canonical_argument_hash p = canonical_proposal_hash p"
  obtains snap w' receipt where "approve env k a w = (Inr snap, w')"
    "ws_state snap = COMPLETED" "ws_action_receipt snap = Some receipt"
    "effect (db w') (effect_key k p) = Some receipt"
    "map te_event_type (ws_timeline snap) = map te_event_type (timeline (db w) k)
       @ [''approval_granted'', ''effect_dispatched'', ''effect_verified'', ''incident_completed'']"
    "\<exists>r'. incidents (db w') k = Some r' \<and> ir_state r' = COMPLETED"
proof -
  define w1 where "w1 = w\<lparr>db := (db w)\<lparr>approvals := (approvals (db w))(k \<mapsto> (''APPROVED'', a))\<rparr>\<rparr>"
  have s1: "store_approve k ''APPROVED'' a w = (Inr (), w1)"
    unfolding w1_def by (rule store_approve_None [OF w(1,3)])
  have ok1: "stored w1" using w(2) by (simp add: w1_def store_ok_approvals)
  define e where "e = next_event k ''approval_granted'' a [] (db w1)"
  define w2 where "w2 = w1\<lparr>db := add_event k r e (db w1)\<rparr>"
  have ev: "event k ''approval_granted'' a [] w1 = (Inr e, w2)"
    unfolding w2_def e_def by (rule event_None) (use w ok1 in \<open>simp_all add: w1_def\<close>)
  have l2: "last_is k ''approval_granted'' [] w2" using tripleD(2) [OF event_last ok1 ev] .
  let ?r2 = "r\<lparr>ir_revision := ir_revision r + 1\<rparr>"
  define w3 where "w3 = w2\<lparr>db := with_grant k p (ir_revision ?r2) (db w2)\<rparr>"
  have gr: "create_grant k p w2 = (Inr (), w3)"
    unfolding w3_def by (rule create_grant_None) (use w in \<open>simp_all add: w2_def w1_def approval_def\<close>)
  have ok3: "stored w3" using tripleD(2) [OF create_grant_triple l2 gr] .
  have i3: "incidents (db w3) k = Some ?r2" by (simp add: w3_def w2_def)
  have live3: "live k w3"
    using ok3 by (simp add: live_def w3_def w2_def)
  have c3: "commits_left w3 = None" using w(1) by (simp add: w3_def w2_def w1_def)
  have g3: "grant (db w3) (effect_key k p) = Some (new_grant k p (ir_revision ?r2))"
    by (simp add: w3_def grant_with_grant)
  have adm: "grant_admits k p (new_grant k p (ir_revision ?r2))"
    using r(3) by (simp add: grant_admits_def new_grant_def)
  obtain snap w' receipt where run: "sbind (update k DISPATCHED None None None None) (\<lambda>_.
     sbind (event k ''effect_dispatched'' ''scheduler''
              [(''proposal_hash'', JStr (canonical_argument_hash p))]) (\<lambda>_.
     sbind (apply_effect k p) (\<lambda>receipt.
     sbind (update k VERIFYING None None None (Some receipt)) (\<lambda>_.
     sbind (event k ''effect_verified'' ''tool''
              [(''resource_id'', JStr (target_resource_id p))]) (\<lambda>_.
     sbind (update k COMPLETED None None None (Some receipt)) (\<lambda>_.
     sbind (event k ''incident_completed'' ''scheduler'' [(''action'', JStr (action_type p))]) (\<lambda>_.
     snapshot k))))))) w3 = (Inr snap, w')"
    and res: "ws_state snap = COMPLETED" "ws_action_receipt snap = Some receipt"
    "effect (db w') (effect_key k p) = Some receipt"
    "map te_event_type (ws_timeline snap) = map te_event_type (events (db w3) k)
       @ [''effect_dispatched'', ''effect_verified'', ''incident_completed'']"
    "\<exists>r'. incidents (db w') k = Some r' \<and> ir_state r' = COMPLETED"
    by (rule dispatch_completes [OF c3 live3 i3 g3 adm]) (simp_all add: new_grant_def)
  have appr: "approval (db w3) k = Some ''APPROVED''" by (simp add: approval_def w3_def w2_def w1_def)
  have "resume env k ''hybrid'' w3 = (Inr snap, w')"
    using run row_run(1) [OF i3] r(1,2) appr by (simp add: resume_def stored_proposal_def)
  then have "approve env k a w = (Inr snap, w')"
    using row_run(1) [OF w(3)] r(1,2) s1 ev gr by (simp add: approve_def stored_proposal_def)
  moreover have "map te_event_type (events (db w3) k)
      = map te_event_type (timeline (db w) k) @ [''approval_granted'']"
    by (simp add: w3_def w2_def w1_def e_def timeline_events [OF w(2)])
  ultimately show thesis using res by (intro that [of snap w' receipt]) simp_all
qed

text \<open>
  C2. An approved proposal is carried out. In a reachable world, approving a run that waits for
  approval, with no crash, returns a snapshot in state \<open>COMPLETED\<close>. The run has a stored proposal, the
  receipt of the snapshot is the one recorded for the effect of exactly that run and proposal, and
  the timeline has grown by the approval, the dispatch, the verification and the completion, in this
  order.
\<close>

theorem approve_completes:
  assumes "wf_step\<^sup>*\<^sup>* (fresh_world s n) w" and "commits_left w = None"
    and "incidents (db w) k = Some r" and "ir_state r = WAITING_APPROVAL"
  shows "\<exists>p snap w' receipt. ir_proposal r = Some p \<and> approve env k a w = (Inr snap, w')
    \<and> ws_state snap = COMPLETED
    \<and> ws_action_receipt snap = Some receipt \<and> effect (db w') (effect_key k p) = Some receipt
    \<and> map te_event_type (ws_timeline snap) = map te_event_type (timeline (db w) k)
        @ [''approval_granted'', ''effect_dispatched'', ''effect_verified'', ''incident_completed'']"
proof -
  have "proposal_ok r" using wf_reach_proposals [OF assms(1)] assms(3) by (auto simp: proposals_ok_def)
  with assms(4) obtain p where p: "ir_proposal r = Some p" "canonical_argument_hash p = canonical_proposal_hash p"
    by (auto simp: proposal_ok_def split: option.splits)
  from approve_run [OF assms(2) wf_reach_stored [OF assms(1)] assms(3,4) p] p(1) show ?thesis by metis
qed

section \<open>An approval cut off before its grant\<close>

text \<open>
  C33. A run can be stranded. When the process died after recording the approval of a run but before
  its grant, resuming the run raises a workflow error and leaves it in state \<open>DISPATCHED\<close>; from
  there neither \<open>approve\<close> nor \<open>reject\<close> is accepted and \<open>resume\<close> only reports, so the approved
  effect is not carried out.
\<close>

theorem resume_without_grant_strands:
  assumes "commits_left w = None" and "store_ok (db w)" and "incidents (db w) k = Some r"
    and "ir_state r = WAITING_APPROVAL" and "ir_proposal r = Some p"
    and "approval (db w) k = Some ''APPROVED''" and "grant (db w) (effect_key k p) = None"
  shows "\<exists>msg w' r'. resume env k arm w = (Inl (WorkflowError msg), w')
    \<and> incidents (db w') k = Some r' \<and> ir_state r' = DISPATCHED \<and> effects (db w') = effects (db w)
    \<and> (\<exists>snap. resume env' k arm' w' = (Inr snap, w'))
    \<and> (\<exists>msg. approve env' k a w' = (Inl (WorkflowError msg), w'))
    \<and> (\<exists>msg. reject k a w' = (Inl (WorkflowError msg), w'))"
proof -
  have live: "live k w" using store_okD(2) [OF assms(2,3)] assms(2,4) by (auto simp: live_def row_ok_def)
  let ?r1 = "updated DISPATCHED None None None None r"
  define w1 where "w1 = w\<lparr>db := set_row k ?r1 (db w)\<rparr>"
  have u1: "update k DISPATCHED None None None None w = (Inr (), w1)"
    unfolding w1_def by (rule update_None [OF assms(1,3)])
  have l1: "live k w1" using preservesD [OF update_keeps_live live u1] by simp
  define e1 where "e1 = next_event k ''effect_dispatched'' ''scheduler''
      [(''proposal_hash'', JStr (canonical_argument_hash p))] (db w1)"
  define w2 where "w2 = w1\<lparr>db := add_event k ?r1 e1 (db w1)\<rparr>"
  have ev1: "event k ''effect_dispatched'' ''scheduler''
      [(''proposal_hash'', JStr (canonical_argument_hash p))] w1 = (Inr e1, w2)"
    unfolding w2_def e1_def by (rule event_None) (use assms l1 in \<open>auto simp: w1_def live_def\<close>)
  have g2: "grant (db w2) (effect_key k p) = None" using assms(7) by (simp add: w2_def w1_def grant_def)
  have "apply_effect k p w2 = (Inl (WorkflowError ''effect requires a matching approval grant''), w2)"
    using g2 by (simp add: apply_effect_def Let_def sraise_def)
  then have run: "resume env k arm w = (Inl (WorkflowError ''effect requires a matching approval grant''), w2)"
    using row_run(1) [OF assms(3)] assms(4-6) u1 ev1 by (simp add: resume_def stored_proposal_def)
  let ?r2 = "?r1\<lparr>ir_revision := ir_revision ?r1 + 1\<rparr>"
  have i2: "incidents (db w2) k = Some ?r2" and eff: "effects (db w2) = effects (db w)"
    by (simp_all add: w2_def w1_def)
  have "\<exists>snap. resume env' k arm' w2 = (Inr snap, w2)"
    using row_run(1) [OF i2] by (simp add: resume_def snapshot_def sret_def)
  moreover have "\<exists>msg. approve env' k a w2 = (Inl (WorkflowError msg), w2)"
    "\<exists>msg. reject k a w2 = (Inl (WorkflowError msg), w2)"
    using row_run(1) [OF i2] by (simp_all add: approve_def reject_def sraise_def)
  ultimately show ?thesis using run i2 eff
    by (intro exI [of _ "''effect requires a matching approval grant''"] exI [of _ w2] exI [of _ ?r2]) simp
qed


section \<open>A concrete run\<close>

text \<open>A case with one log line, a provider that proposes an action on it, and a tool server; the run
  is started, investigated and waits for approval.\<close>

definition demo_case :: incident_case where
  "demo_case = \<lparr> case_id = ''c'', family = ''f'', split_name = ''development'', service = ''s'',
     query = ''q'', answerable = True, document_dependent = False, relevant_chunk_ids = [],
     logs = [[(''timestamp'', JStr ''t'')]],
     metrics = [], expected_diagnosis = [], expected_action = None, canary_fixture = False \<rparr>"

definition demo_env :: wf_env where
  "demo_env = \<lparr> cases_by_id = [(''c'', demo_case)], search_query_suffix = [],
     diagnose = (\<lambda>_ ids _. Inr [(''citations'', JArr (map JStr ids)),
       (''proposal'', JObj [(''action'', JStr ''x'')])]),
     search_index = (\<lambda>_ _. Inr \<lparr> resp_arm = [], resp_query = [], pre_gate_keyword = [],
       pre_gate_dense = [], pre_gate_hybrid = [], delivered = [], sufficient = True, reason = [] \<rparr>),
     sdk = map_sum (\<lambda>_. ''error'') id, latency_text = ''0.1'', float_text = (\<lambda>_. None), fresh_id = ''1'' \<rparr>"

definition demo_server :: mcp_server where
  "demo_server = new_server 8 20 False True [demo_case]"

definition demo_proposal :: proposal where
  "demo_proposal = \<lparr> action_type = ''x'', target_resource_id = ''incident-resource'', arguments = [],
     canonical_argument_hash = canonical_proposal_hash \<lparr> action_type = ''x'',
       target_resource_id = ''incident-resource'', arguments = [], canonical_argument_hash = [] \<rparr> \<rparr>"

lemma demo_proposal: "proposal_from_dict [(''action'', JStr ''x'')] = Inr demo_proposal"
  by (simp add: proposal_from_dict_def dict_item_def dict_get_def demo_proposal_def)

lemma demo_proposal_hash: "canonical_argument_hash demo_proposal = canonical_proposal_hash demo_proposal"
  by (simp add: demo_proposal_def canonical_proposal_hash_def)

lemma redact_demo: "rr_count (redact (json_dumps '', '' '': '' (JObj [(''action'', JStr ''x'')]))) = 0"
  by code_simp

lemma redact_Nil: "redact [] = \<lparr> rr_text = [], rr_count = 0, rr_categories = [] \<rparr>"
  by (rule redact_clean) simp_all

lemmas wf_exec = Let_def create_def event_def row_def sbind_assoc commit_None timeline_def events_def
  set_row_def sret_def sbind_sensure checkpoint_def checkpoints_def fetch_def py_def update_def
  search_round_two_def decide_def propose_def model_usage_def record_tool_call_def checkpoint_of_def
  dict_item_def dict_get_def py_iter_def py_int_json_def py_len_def py_float_json_def snapshot_def
  redact_Nil redact_demo [simplified] dedup_def demo_proposal

text \<open>The three tool calls of the investigation and the server after each.\<close>

definition demo_logs :: tool_result where
  "demo_logs = \<lparr> tr_method = ''query_logs'', tr_schema_version = ''m6-mcp-v1'',
     tr_data = [(''rows'', JArr [JObj [(''timestamp'', JStr ''t''), (''message'', JStr [])]])],
     tr_evidence_ids = [''log:c:t''], tr_redactions = 0 \<rparr>"

definition demo_metrics :: tool_result where
  "demo_metrics = \<lparr> tr_method = ''query_metrics'', tr_schema_version = ''m6-mcp-v1'',
     tr_data = [(''rows'', JArr [])], tr_evidence_ids = [], tr_redactions = 0 \<rparr>"

definition demo_search :: tool_result where
  "demo_search = \<lparr> tr_method = ''search_runbooks'', tr_schema_version = ''m6-mcp-v1'',
     tr_data = [(''arm'', JStr ''hybrid''), (''evidence'', JArr []), (''sufficient'', JBool True),
                (''reason'', JStr [])], tr_evidence_ids = [], tr_redactions = 0 \<rparr>"

definition demo_srv1 :: mcp_server where
  "demo_srv1 = logged ''r'' ''query_logs'' ''0.1'' demo_logs (touched ''r'' demo_server)"

definition demo_srv2 :: mcp_server where
  "demo_srv2 = logged ''r'' ''query_metrics'' ''0.1'' demo_metrics (touched ''r'' demo_srv1)"

definition demo_srv3 :: mcp_server where
  "demo_srv3 = logged ''r'' ''search_runbooks'' ''0.1'' demo_search (touched ''r'' demo_srv2)"

lemma demo_cases [simp]:
  "srv_cases demo_server = [(''c'', demo_case)]" "srv_cases demo_srv1 = [(''c'', demo_case)]"
  "max_calls demo_server = 8" "max_calls demo_srv1 = 8" "max_calls demo_srv2 = 8"
  "max_rows demo_server = 20" "max_rows demo_srv1 = 20"
  "redact_outputs demo_server = False" "include_retrieval_diagnostics demo_srv2 = True"
  "calls demo_server k = []"
  by (simp_all add: demo_srv1_def demo_srv2_def demo_server_def new_server_def demo_case_def touched_def
      logged_def record_call_def sret_def calls_def dict_get_def)

lemma demo_calls:
  "length (calls demo_srv1 ''r'') = 1" "length (calls demo_srv2 ''r'') = 2"
  "mc_latency_ms (last (calls demo_srv1 ''r'')) = ''0.1''"
  "mc_latency_ms (last (calls demo_srv2 ''r'')) = ''0.1''"
  "mc_latency_ms (last (calls demo_srv3 ''r'')) = ''0.1''" "calls demo_srv1 ''r'' \<noteq> []"
  "calls demo_srv2 ''r'' \<noteq> []" "calls demo_srv3 ''r'' \<noteq> []"
  by (simp_all add: demo_srv1_def demo_srv2_def demo_srv3_def)

lemma record_call_run: "record_call k m l res s = (Inr res, logged k m l res s)"
  by (simp add: logged_def record_call_def sret_def)

lemma touched_settings [simp]:
  "redact_outputs (touched k s) = redact_outputs s" "safe_row (touched k s) = safe_row s"
  "include_retrieval_diagnostics (touched k s) = include_retrieval_diagnostics s"
  by (simp_all add: touched_def fun_eq_iff safe_row_def safe_text_def)

lemma demo_query_logs:
  "query_logs ''0.1'' ''r'' (JStr ''c'') (JStr ''s'') (JStr []) demo_server = (Inr demo_logs, demo_srv1)"
proof -
  have "select_rows demo_server logs ''level'' (JStr ''c'') (JStr ''s'') (JStr [])
      = Inr [[(''timestamp'', JStr ''t'')]]"
    by (simp add: select_rows_def hash_key_def demo_case_def py_prefix_def)
  moreover have "map (safe_row demo_server) [[(''timestamp'', JStr ''t'')]]
      = [([(''timestamp'', JStr ''t''), (''message'', JStr [])], 0)]"
    by (simp add: safe_row_def safe_text_def dict_get_def)
  ultimately show ?thesis
    by (simp add: query_logs_def validate_cases method_facts lift_py_def record_call_run log_id_def
        dict_item_def demo_srv1_def demo_logs_def SCHEMA_VERSION_def)
qed

lemma demo_query_metrics:
  "query_metrics ''0.1'' ''r'' (JStr ''c'') (JStr ''s'') (JStr []) demo_srv1 = (Inr demo_metrics, demo_srv2)"
proof -
  have "select_rows demo_srv1 metrics ''name'' (JStr ''c'') (JStr ''s'') (JStr []) = Inr []"
    by (simp add: select_rows_def hash_key_def demo_case_def py_prefix_def)
  then show ?thesis
    by (simp add: query_metrics_def validate_cases method_facts lift_py_def record_call_run
        demo_calls demo_srv2_def demo_metrics_def SCHEMA_VERSION_def)
qed

lemma demo_search_runbooks:
  "search_runbooks (search_index demo_env) ''0.1'' ''r'' (JStr ''q'') (JStr ''hybrid'') demo_srv2
   = (Inr demo_search, demo_srv3)"
  by (simp add: search_runbooks_def validate_cases method_facts lift_py_def record_call_run hash_key_def
      demo_calls demo_env_def demo_srv3_def demo_search_def SCHEMA_VERSION_def)

lemma demo_tool:
  assumes "tool (srv w) = (Inr res, s)"
  shows "on_srv (facade_call (sdk demo_env) m tool) w = (Inr res, w\<lparr>srv := s\<rparr>)"
  using assms by (simp add: on_srv_def facade_call_def demo_env_def decode_encoded)

lemma demo_fields:
  "latency_text demo_env = ''0.1''" "case_id demo_case = ''c''" "service demo_case = ''s''" "query demo_case = ''q''"
  by (simp_all add: demo_env_def demo_case_def)

lemma demo_tools:
  "srv w = demo_server \<Longrightarrow> tool_logs demo_env ''r'' demo_case w = (Inr demo_logs, w\<lparr>srv := demo_srv1\<rparr>)"
  "srv w = demo_srv1 \<Longrightarrow> tool_metrics demo_env ''r'' demo_case w = (Inr demo_metrics, w\<lparr>srv := demo_srv2\<rparr>)"
  "srv w = demo_srv2 \<Longrightarrow>
   tool_search demo_env ''r'' (query demo_case) ''hybrid'' w = (Inr demo_search, w\<lparr>srv := demo_srv3\<rparr>)"
  unfolding tool_logs_def tool_metrics_def tool_search_def
  using demo_query_logs demo_query_metrics demo_search_runbooks
  by (auto intro!: demo_tool simp: demo_fields)

definition demo_started :: world where
  "demo_started = \<lparr> db = \<lparr> incidents = [''r'' \<mapsto> \<lparr> ir_case_id = ''c'', ir_state = ACCEPTED,
       ir_revision = 1, ir_diagnosis = None, ir_citations = [], ir_proposal = None, ir_receipt = None \<rparr>],
     timeline_rows = [(''r'', \<lparr> te_sequence = 1, te_event_type = ''incident_accepted'',
       te_actor = ''client'', te_data = [(''case_id'', JStr ''c''), (''arm'', JStr ''hybrid'')] \<rparr>)],
     approvals = (\<lambda>_. None), approval_grants = [], effects = [] \<rparr>,
     srv = demo_server, commits_left = None \<rparr>"

lemma demo_started:
  "start demo_env ''c'' (Some ''r'') ''hybrid'' (fresh_world demo_server None) = (Inr ''r'', demo_started)"
  by (simp add: wf_exec start_def demo_env_def fresh_world_def empty_store_def demo_started_def)

definition demo_waiting :: world where
  "demo_waiting = snd (investigate demo_env ''r'' ''hybrid'' None demo_started)"

definition waiting_ok :: "world \<Rightarrow> bool" where
  "waiting_ok w \<longleftrightarrow> commits_left w = None \<and> approvals (db w) = (\<lambda>_. None) \<and> approval_grants (db w) = []
     \<and> (\<exists>r. incidents (db w) ''r'' = Some r \<and> ir_state r = WAITING_APPROVAL \<and> ir_proposal r = Some demo_proposal)"

lemma demo_env_cases:
  "cases_by_id demo_env = [(''c'', demo_case)]" "diagnose demo_env cid ids txt = Inr [(''citations'', JArr (map JStr ids)),
       (''proposal'', JObj [(''action'', JStr ''x'')])]" "float_text demo_env = (\<lambda>_. None)"
  by (simp_all add: demo_env_def)

lemmas demo_results = demo_logs_def demo_metrics_def demo_search_def

lemma sbind_weak_cong: "m = m' \<Longrightarrow> sbind m f = sbind m' f"
  by simp

lemma demo_waiting: "waiting_ok demo_waiting"
  unfolding demo_waiting_def
  apply (simp add: wf_exec investigate_def demo_started_def demo_env_cases demo_tools demo_calls demo_results cong: sbind_weak_cong)
  apply (simp add: waiting_ok_def)
  done

lemmas demo_waits = demo_waiting [unfolded waiting_ok_def]

lemma demo_reach: "wf_step\<^sup>*\<^sup>* (fresh_world demo_server None) demo_waiting"
proof -
  have "wf_step (fresh_world demo_server None) demo_started" by (rule wf_start [OF demo_started])
  moreover have "wf_step demo_started demo_waiting"
    by (rule wf_investigate [of demo_env "''r''" "''hybrid''" None _
          "fst (investigate demo_env ''r'' ''hybrid'' None demo_started)"]) (simp add: demo_waiting_def)
  ultimately show ?thesis by (meson converse_rtranclp_into_rtranclp rtranclp.rtrancl_refl)
qed

definition demo_done :: world where
  "demo_done = snd (approve demo_env ''r'' ''alice'' demo_waiting)"

lemma demo_done:
  "wf_step\<^sup>*\<^sup>* (fresh_world demo_server None) demo_done"
  "\<exists>r. incidents (db demo_done) ''r'' = Some r \<and> ir_state r = COMPLETED"
  "\<exists>e. e \<in> set (effects (db demo_done))"
proof -
  obtain r where r: "incidents (db demo_waiting) ''r'' = Some r" "ir_state r = WAITING_APPROVAL"
      "ir_proposal r = Some demo_proposal"
    using demo_waits by blast
  have c: "commits_left demo_waiting = None" using demo_waits by blast
  obtain snap w' receipt where a: "approve demo_env ''r'' ''alice'' demo_waiting = (Inr snap, w')"
      "effect (db w') (effect_key ''r'' demo_proposal) = Some receipt"
      "\<exists>r'. incidents (db w') ''r'' = Some r' \<and> ir_state r' = COMPLETED"
    by (rule approve_run [OF c wf_reach_stored [OF demo_reach] r demo_proposal_hash, of demo_env "''alice''"])
  then have d: "demo_done = w'" by (simp add: demo_done_def)
  have "wf_step demo_waiting demo_done" by (rule wf_approve [OF a(1) [folded d]])
  with demo_reach show "wf_step\<^sup>*\<^sup>* (fresh_world demo_server None) demo_done" by simp
  show "\<exists>r. incidents (db demo_done) ''r'' = Some r \<and> ir_state r = COMPLETED" using a(3) d by simp
  show "\<exists>e. e \<in> set (effects (db demo_done))"
    using a(2) d by (auto simp: effect_def dest!: find_SomeD)
qed

text \<open>An approval that dies right after the approval row, and the process that comes up after it.\<close>

definition demo_cut :: world where
  "demo_cut = (snd (approve demo_env ''r'' ''alice'' (demo_waiting\<lparr>srv := demo_server, commits_left := Some 1\<rparr>)))
     \<lparr>srv := demo_server, commits_left := None\<rparr>"

lemma demo_cut:
  "wf_step\<^sup>*\<^sup>* (fresh_world demo_server None) demo_cut"
  "commits_left demo_cut = None" "approval (db demo_cut) ''r'' = Some ''APPROVED''"
  "incidents (db demo_cut) = incidents (db demo_waiting)" "approval_grants (db demo_cut) = []"
proof -
  obtain r where r: "incidents (db demo_waiting) ''r'' = Some r" "ir_state r = WAITING_APPROVAL"
    using demo_waits by blast
  let ?w = "demo_waiting\<lparr>srv := demo_server, commits_left := Some 1\<rparr>"
  have row: "row ''r'' w = (Inr r, w)" if "incidents (db w) ''r'' = Some r" for w
    using row_run(1) [OF that] .
  have a: "approve demo_env ''r'' ''alice'' ?w = (Inl Crash, ?w\<lparr>db := (db ?w)\<lparr>approvals :=
      (approvals (db ?w))(''r'' \<mapsto> (''APPROVED'', ''alice''))\<rparr>, commits_left := Some 0\<rparr>)"
    using r by (simp add: approve_def store_approve_def commit_def event_def row Let_def)
  have "wf_step demo_waiting ?w" by (rule wf_restart)
  moreover have "wf_step ?w (snd (approve demo_env ''r'' ''alice'' ?w))" using wf_approve a by fastforce
  moreover have "wf_step (snd (approve demo_env ''r'' ''alice'' ?w)) demo_cut"
    unfolding demo_cut_def by (rule wf_restart)
  ultimately show "wf_step\<^sup>*\<^sup>* (fresh_world demo_server None) demo_cut"
    using demo_reach by (meson rtranclp.rtrancl_into_rtrancl)
  show "commits_left demo_cut = None" "approval (db demo_cut) ''r'' = Some ''APPROVED''"
    "incidents (db demo_cut) = incidents (db demo_waiting)" "approval_grants (db demo_cut) = []"
    unfolding demo_cut_def a using demo_waits by (simp_all add: approval_def)
qed

section \<open>The properties at the concrete run\<close>

theorem approve_completes_witness:
  "\<exists>snap w'. approve demo_env ''r'' ''alice'' demo_waiting = (Inr snap, w') \<and> ws_state snap = COMPLETED
    \<and> effect (db w') (effect_key ''r'' demo_proposal) \<noteq> None"
proof -
  obtain r where r: "incidents (db demo_waiting) ''r'' = Some r" "ir_state r = WAITING_APPROVAL"
      "ir_proposal r = Some demo_proposal"
    using demo_waits by blast
  have "commits_left demo_waiting = None" using demo_waits by blast
  from approve_completes [OF demo_reach this r(1,2), of demo_env "''alice''"] r(3)
  show ?thesis by auto
qed

theorem effect_needs_approval_witness:
  "\<exists>e i. e \<in> set (effects (db demo_done))
     \<and> te_event_type (timeline (db demo_done) (ef_run_id e) ! i) = ''approval_granted''
     \<and> te_event_type (timeline (db demo_done) (ef_run_id e) ! Suc i) = ''effect_dispatched''"
  using demo_done(3) effect_needs_approval [OF demo_done(1)] by blast

theorem effects_unique_and_complete_witness:
  "\<exists>r e. incidents (db demo_done) ''r'' = Some r \<and> ir_state r = COMPLETED
     \<and> e \<in> set (effects (db demo_done)) \<and> ir_receipt r = Some (ef_receipt e)"
  using demo_done(2) effects_unique_and_complete [OF demo_done(1)] by blast

theorem timeline_revision_witness:
  "\<exists>r. incidents (db demo_done) ''r'' = Some r \<and> ir_revision r = int (length (timeline (db demo_done) ''r''))"
  using demo_done(2) timeline_revision [OF demo_done(1), of "''r''"] by auto

theorem history_append_only_witness:
  "\<exists>es. events (db demo_done) ''r'' = events (db (fresh_world demo_server None)) ''r'' @ es"
  using history_append_only [OF demo_done(1)] by blast

theorem terminal_final_witness:
  "\<exists>r. incidents (db (snd (reject ''r'' ''bob'' demo_done))) ''r'' = Some r \<and> ir_state r = COMPLETED"
proof -
  obtain r where r: "incidents (db demo_done) ''r'' = Some r" "ir_state r = COMPLETED"
    using demo_done(2) by blast
  have "wf_step demo_done (snd (reject ''r'' ''bob'' demo_done))"
    by (rule wf_reject [of "''r''" "''bob''" _ "fst (reject ''r'' ''bob'' demo_done)"]) simp
  then have "wf_step\<^sup>*\<^sup>* demo_done (snd (reject ''r'' ''bob'' demo_done))" by blast
  from terminal_final [OF demo_done(1) this r(1)] r(2) show ?thesis by auto
qed

theorem resume_without_grant_strands_witness:
  "\<exists>msg w' r'. resume demo_env ''r'' ''hybrid'' demo_cut = (Inl (WorkflowError msg), w')
    \<and> incidents (db w') ''r'' = Some r' \<and> ir_state r' = DISPATCHED"
proof -
  obtain r where r: "incidents (db demo_cut) ''r'' = Some r" "ir_state r = WAITING_APPROVAL"
      "ir_proposal r = Some demo_proposal"
    using demo_waits demo_cut(4) by auto
  have "grant (db demo_cut) (effect_key ''r'' demo_proposal) = None"
    by (simp add: grant_def demo_cut(5))
  from resume_without_grant_strands [OF demo_cut(2) wf_reach_stored [OF demo_cut(1)] r demo_cut(3) this]
  show ?thesis by blast
qed

definition granted_world :: world where
  "granted_world = \<lparr> db = \<lparr> incidents = [''r'' \<mapsto> \<lparr> ir_case_id = ''c'', ir_state = WAITING_APPROVAL,
       ir_revision = 2, ir_diagnosis = None, ir_citations = [], ir_proposal = Some demo_proposal,
       ir_receipt = None \<rparr>], timeline_rows = [], approvals = (\<lambda>_. None),
     approval_grants = [new_grant ''r'' demo_proposal 1], effects = [] \<rparr>,
     srv = demo_server, commits_left = None \<rparr>"

theorem apply_effect_once_witness:
  "\<exists>receipt w'. apply_effect ''r'' demo_proposal granted_world = (Inr receipt, w')
     \<and> apply_effect ''r'' demo_proposal w' = (Inr receipt, w')"
proof -
  have c: "commits_left granted_world = None"
    and g: "grant (db granted_world) (effect_key ''r'' demo_proposal) = Some (new_grant ''r'' demo_proposal 1)"
    and adm: "grant_admits ''r'' demo_proposal (new_grant ''r'' demo_proposal 1)"
    by (simp_all add: granted_world_def grant_def new_grant_def grant_admits_def demo_proposal_hash)
  obtain r where r: "incidents (db granted_world) ''r'' = Some r" "ir_revision r = 2"
    by (simp add: granted_world_def)
  have "ir_revision r = g_workflow_revision (new_grant ''r'' demo_proposal 1) + 1"
    by (simp add: r(2) new_grant_def)
  then obtain receipt w' where run: "apply_effect ''r'' demo_proposal granted_world = (Inr receipt, w')"
    by (rule apply_effect_None [OF c r(1) g adm])
  then show ?thesis using apply_effect_once [OF run] by blast
qed

end
