(* ===== verification/Spend_Ledger.thy ===== *)
theory Spend_Ledger
  imports Prelude
begin

text \<open>
  The write-ahead spend ledgers of the two paid studies
  (\<^verbatim>\<open>python/incident_agent/dur055_budget.py\<close> and \<^verbatim>\<open>dur056_budget.py\<close>). Every operation reads the
  ledger file, changes the decoded data and replaces the file atomically, under a lock; so an
  operation is a function from the file to its result and the file afterwards. Amounts are Python
  \<open>Decimal\<close>s, modelled as rationals: with the study's prices all sums and products fit the default
  context of 28 digits and are exact; formatting with \<^verbatim>\<open>.8f\<close> rounds half to even. The random
  identifiers and the time stamp are inputs.
\<close>

section \<open>Amounts\<close>

text \<open>\<^verbatim>\<open>f"{x:.8f}"\<close> read back as a decimal: the nearest multiple of \<open>10\<^sup>-\<^sup>8\<close>, ties to even.\<close>

definition round8 :: "rat \<Rightarrow> rat" where
  "round8 x = of_int (half_even (x * 10 ^ 8)) / 10 ^ 8"

definition on_grid :: "rat \<Rightarrow> bool" where
  "on_grid x \<longleftrightarrow> (\<exists>n. x = of_int n / 10 ^ 8)"

lemma round8_grid [simp]: "on_grid (round8 x)"
  by (auto simp: on_grid_def round8_def)

lemma round8_on_grid: "on_grid x \<Longrightarrow> round8 x = x"
  by (auto simp: on_grid_def round8_def)

lemma round8_le: "on_grid b \<Longrightarrow> x \<le> b \<Longrightarrow> round8 x \<le> b"
  by (auto simp: on_grid_def round8_def field_simps intro!: half_even_le)

lemma round8_nonneg: "0 \<le> x \<Longrightarrow> 0 \<le> round8 x"
  using half_even_ge [of 0 "x * 10 ^ 8"] by (simp add: round8_def)

lemma on_grid_add [intro]: "on_grid x \<Longrightarrow> on_grid y \<Longrightarrow> on_grid (x + y)"
  by (auto simp: on_grid_def add_divide_distrib [symmetric] simp flip: of_int_add)

lemma on_grid_diff [intro]: "on_grid x \<Longrightarrow> on_grid y \<Longrightarrow> on_grid (x - y)"
  by (auto simp: on_grid_def diff_divide_distrib [symmetric] simp flip: of_int_diff)

lemma on_grid_0 [simp]: "on_grid 0"
  by (auto simp: on_grid_def intro: exI [of _ 0])

section \<open>The ledger\<close>

text \<open>A price record; \<open>None\<close> is a missing key.\<close>

record price =
  input_rate :: "rat option"
  cached_rate :: "rat option"
  output_rate :: "rat option"

record usage =
  us_input_tokens :: int
  us_cached_tokens :: int
  us_output_tokens :: int
  us_reasoning_tokens :: int
  us_response_id :: "string option"
  us_latency_ms :: string
  us_cost :: rat

record request_entry =
  rq_call_id :: string
  rq_model :: string
  rq_operation :: string
  rq_state :: string
  rq_request_bytes :: int
  rq_output_reservation :: int
  rq_reserved :: rat
  rq_usage :: "usage option"
  rq_failure :: "string option"

record reconciliation_entry =
  rc_event_id :: string
  rc_call_id :: string
  rc_amount :: rat
  rc_reason :: string
  rc_evidence :: string
  rc_at :: string

datatype ledger_entry = Request request_entry | Reconciliation reconciliation_entry | OtherEntry json

text \<open>\<open>price_sources\<close> is \<open>None\<close> when the field is no object; a price that is no object is \<open>None\<close>.\<close>

record ledger =
  lg_schema :: string
  lg_cap :: rat
  price_sources :: "(string \<times> price option) list option"
  lg_spent :: rat
  lg_reserved :: rat
  lg_uncertain :: rat
  lg_status :: string
  lg_entries :: "ledger_entry list"

text \<open>What the path holds: nothing that can be read as JSON, a document of another shape, a
  ledger.\<close>

datatype ledger_file = Unreadable | Malformed | Ledger ledger

datatype spend_exn = SpendError string | SpendRaised exn

type_synonym 'a spend = "ledger_file \<Rightarrow> (spend_exn + 'a) \<times> ledger_file"

definition read_ledger :: "string \<Rightarrow> ledger_file \<Rightarrow> spend_exn + ledger" where
  "read_ledger study f = (case f of
     Unreadable \<Rightarrow> Inl (SpendError (''cannot read '' @ study @ '' spend ledger''))
   | Malformed \<Rightarrow> Inl (SpendError (study @ '' spend ledger is malformed''))
   | Ledger l \<Rightarrow> Inr l)"

text \<open>An operation computes its answer and the data to write from the data it read; when it raises,
  nothing is written, unless it raises after the write.\<close>

definition transact :: "string \<Rightarrow> (ledger \<Rightarrow> spend_exn + ('a \<times> ledger)) \<Rightarrow> 'a spend" where
  "transact study body f =
     (case rbind (read_ledger study f) body of
        Inl e \<Rightarrow> (Inl e, f) | Inr (x, l) \<Rightarrow> (Inr x, Ledger l))"

fun find_request :: "string \<Rightarrow> ledger_entry list \<Rightarrow> request_entry option" where
  "find_request cid [] = None"
| "find_request cid (Request r # es) = (if rq_call_id r = cid then Some r else find_request cid es)"
| "find_request cid (_ # es) = find_request cid es"

text \<open>The entry is updated in place, so the first entry with the identifier changes.\<close>

fun update_request :: "string \<Rightarrow> (request_entry \<Rightarrow> request_entry) \<Rightarrow> ledger_entry list \<Rightarrow> ledger_entry list" where
  "update_request cid g [] = []"
| "update_request cid g (Request r # es) =
     (if rq_call_id r = cid then Request (g r) # es else Request r # update_request cid g es)"
| "update_request cid g (e # es) = e # update_request cid g es"

definition get_entry :: "string \<Rightarrow> string \<Rightarrow> ledger \<Rightarrow> spend_exn + request_entry" where
  "get_entry msg cid l = (case find_request cid (lg_entries l) of
     Some r \<Rightarrow> Inr r | None \<Rightarrow> Inl (SpendError msg))"

definition committed :: "ledger \<Rightarrow> rat" where
  "committed l = lg_spent l + lg_reserved l + lg_uncertain l"

definition new_request :: "string \<Rightarrow> string \<Rightarrow> string \<Rightarrow> int \<Rightarrow> int \<Rightarrow> rat \<Rightarrow> request_entry" where
  "new_request cid model op bytes out amount =
     \<lparr> rq_call_id = cid, rq_model = model, rq_operation = op, rq_state = ''RESERVED'',
       rq_request_bytes = bytes, rq_output_reservation = out, rq_reserved = amount,
       rq_usage = None, rq_failure = None \<rparr>"

definition mark_settled ::
  "int \<Rightarrow> int \<Rightarrow> int \<Rightarrow> int \<Rightarrow> string option \<Rightarrow> string \<Rightarrow> rat \<Rightarrow> request_entry \<Rightarrow> request_entry" where
  "mark_settled input cached output reasoning response_id latency cost r =
     r\<lparr>rq_state := ''SETTLED'', rq_usage := Some
       \<lparr> us_input_tokens = input, us_cached_tokens = cached, us_output_tokens = output,
         us_reasoning_tokens = reasoning, us_response_id = response_id,
         us_latency_ms = latency, us_cost = round8 cost \<rparr>\<rparr>"

lemma mark_settled_simps [simp]:
  "rq_reserved (mark_settled i c j r x t y e) = rq_reserved e"
  "rq_state (mark_settled i c j r x t y e) = ''SETTLED''"
  by (simp_all add: mark_settled_def)

section \<open>The DUR-055 ledger\<close>

definition open_055 :: "ledger_file \<Rightarrow> spend_exn + unit" where
  "open_055 f = rbind (read_ledger ''DUR-055'' f) (\<lambda>l.
     rbind (ensure (lg_schema l = ''dur055-spend-ledger.v1'')
              (SpendError ''DUR-055 spend ledger schema is invalid'')) (\<lambda>_.
     ensure (lg_cap l = 100) (SpendError ''DUR-055 spend cap must remain exactly $100.00'')))"

definition price_055 :: "string \<Rightarrow> ledger \<Rightarrow> spend_exn + price" where
  "price_055 model l =
     (case Option.bind (price_sources l) (\<lambda>ps. map_of ps model) of
        None \<Rightarrow> Inl (SpendError (''no authorized price is recorded for model '' @ model))
      | Some None \<Rightarrow> Inl (SpendError (''price record for '' @ model @ '' is malformed''))
      | Some (Some p) \<Rightarrow> Inr p)"

definition rate_055 :: "string \<Rightarrow> rat option \<Rightarrow> spend_exn + rat" where
  "rate_055 key r = (case r of Some x \<Rightarrow> Inr x | None \<Rightarrow> Inl (SpendError (''missing API price field: '' @ key)))"

text \<open>The part of an operation under the lock, on the data just read.\<close>

definition reserve_locked_055 ::
  "string \<Rightarrow> string \<Rightarrow> string \<Rightarrow> int \<Rightarrow> int \<Rightarrow> ledger \<Rightarrow> spend_exn + (string \<times> ledger)" where
  "reserve_locked_055 cid model op request_bytes max_output_tokens l =
     rbind (price_055 model l) (\<lambda>p.
     rbind (rate_055 ''input_usd_per_million_tokens'' (input_rate p)) (\<lambda>irate.
     rbind (if max_output_tokens \<noteq> 0 then rate_055 ''output_usd_per_million_tokens'' (output_rate p)
            else Inr 0) (\<lambda>orate.
     let amount = of_int request_bytes * irate / 1000000 + of_int max_output_tokens * orate / 1000000 in
     rbind (ensure (committed l + amount \<le> lg_cap l)
              (SpendError ''DUR-055 $100 cap reservation rejected'')) (\<lambda>_.
     Inr (cid, l\<lparr>lg_reserved := round8 (lg_reserved l + amount), lg_status := ''IN_PROGRESS'',
            lg_entries := lg_entries l
              @ [Request (new_request cid model op request_bytes max_output_tokens (round8 amount))]\<rparr>)))))"

definition reserve_055 :: "string \<Rightarrow> string \<Rightarrow> string \<Rightarrow> int \<Rightarrow> int \<Rightarrow> string spend" where
  "reserve_055 cid model op request_bytes max_output_tokens f =
     (if request_bytes \<le> 0 \<or> 100000 < request_bytes
      then (Inl (SpendError ''DUR-055 request must be between 1 and 100000 bytes''), f)
      else if max_output_tokens < 0 \<or> 2000 < max_output_tokens
      then (Inl (SpendError ''DUR-055 max_output_tokens is outside the reserved bound''), f)
      else transact ''DUR-055'' (reserve_locked_055 cid model op request_bytes max_output_tokens) f)"

definition charge_055 ::
  "string \<Rightarrow> int \<Rightarrow> int \<Rightarrow> int \<Rightarrow> int \<Rightarrow> string option \<Rightarrow> string \<Rightarrow> rat \<Rightarrow> request_entry \<Rightarrow> ledger
   \<Rightarrow> spend_exn + (rat \<times> ledger)" where
  "charge_055 cid input output cached reasoning response_id latency actual e l =
     (let reserved = round8 (lg_reserved l - rq_reserved e);
          spent = lg_spent l + actual in
      rbind (ensure (spent + reserved + lg_uncertain l \<le> lg_cap l)
               (SpendError ''provider usage would exceed the DUR-055 $100 cap'')) (\<lambda>_.
      Inr (actual, l\<lparr>lg_reserved := reserved, lg_spent := round8 spent,
             lg_entries := update_request cid
               (mark_settled input cached output reasoning response_id latency actual) (lg_entries l)\<rparr>)))"

definition settle_locked_055 ::
  "string \<Rightarrow> int \<Rightarrow> int \<Rightarrow> int \<Rightarrow> int \<Rightarrow> string option \<Rightarrow> string \<Rightarrow> ledger \<Rightarrow> spend_exn + (rat \<times> ledger)" where
  "settle_locked_055 cid input output cached reasoning response_id latency l =
     rbind (get_entry ''DUR-055 spend reservation does not exist'' cid l) (\<lambda>e.
     rbind (ensure (rq_state e = ''RESERVED'')
              (SpendError ''only an open DUR-055 reservation can be settled'')) (\<lambda>_.
     rbind (price_055 (rq_model e) l) (\<lambda>p.
     rbind (rate_055 ''input_usd_per_million_tokens'' (input_rate p)) (\<lambda>irate.
     let crate = (case cached_rate p of Some c \<Rightarrow> c | None \<Rightarrow> irate) in
     rbind (if output \<noteq> 0 then rate_055 ''output_usd_per_million_tokens'' (output_rate p)
            else Inr 0) (\<lambda>orate.
     charge_055 cid input output cached reasoning response_id latency
       ((of_int (input - cached) * irate + of_int cached * crate + of_int output * orate) / 1000000) e l)))))"

definition settle_055 ::
  "string \<Rightarrow> int \<Rightarrow> int \<Rightarrow> int \<Rightarrow> int \<Rightarrow> string option \<Rightarrow> string \<Rightarrow> rat spend" where
  "settle_055 cid input output cached reasoning response_id latency f =
     (if Min {input, output, cached, reasoning} < 0
      then (Inl (SpendError ''provider usage cannot contain negative token counts''), f)
      else if input < cached then (Inl (SpendError ''cached input tokens exceed total input tokens''), f)
      else transact ''DUR-055'' (settle_locked_055 cid input output cached reasoning response_id latency) f)"

text \<open>Releasing a reservation is the same in both ledgers.\<close>

definition released :: "string \<Rightarrow> bool \<Rightarrow> string \<Rightarrow> request_entry \<Rightarrow> ledger \<Rightarrow> ledger" where
  "released cid outcome_uncertain detail e l =
     l\<lparr>lg_reserved := round8 (lg_reserved l - rq_reserved e),
       lg_uncertain := (if outcome_uncertain then round8 (lg_uncertain l + rq_reserved e) else lg_uncertain l),
       lg_entries := update_request cid (\<lambda>r. r\<lparr>
           rq_state := (if outcome_uncertain then ''UNCERTAIN'' else ''REJECTED''),
           rq_failure := Some (take 500 detail)\<rparr>) (lg_entries l),
       lg_status := (if outcome_uncertain then ''RECONCILIATION_REQUIRED'' else ''IN_PROGRESS'')\<rparr>"

definition fail_055 :: "string \<Rightarrow> bool \<Rightarrow> string \<Rightarrow> unit spend" where
  "fail_055 cid outcome_uncertain detail = transact ''DUR-055'' (\<lambda>l.
     rbind (get_entry ''DUR-055 spend reservation does not exist'' cid l) (\<lambda>e.
     if rq_state e \<noteq> ''RESERVED'' then Inr ((), l)
     else Inr ((), released cid outcome_uncertain detail e l)))"

section \<open>The DUR-056 ledger\<close>

definition open_056 :: "ledger_file \<Rightarrow> spend_exn + unit" where
  "open_056 f = rbind (read_ledger ''DUR-056'' f) (\<lambda>l.
     rbind (ensure (lg_schema l = ''dur056-spend-ledger.v1'')
              (SpendError ''DUR-056 spend ledger schema is invalid'')) (\<lambda>_.
     rbind (ensure (lg_cap l = 25) (SpendError ''DUR-056 spend cap must remain exactly $25.00'')) (\<lambda>_.
     ensure (case price_sources l of None \<Rightarrow> False
             | Some ps \<Rightarrow> {''gpt-6-luna'', ''text-embedding-3-small''} \<subseteq> fst ` set ps)
       (SpendError ''DUR-056 authorized model prices are missing''))))"

definition price_056 :: "string \<Rightarrow> ledger \<Rightarrow> spend_exn + price" where
  "price_056 model l =
     (case Option.bind (price_sources l) (\<lambda>ps. map_of ps model) of
        Some (Some p) \<Rightarrow> Inr p
      | _ \<Rightarrow> Inl (SpendError (''no authorized price is recorded for model '' @ model)))"

definition CAP_USD :: rat where
  "CAP_USD = 25"

definition reserve_locked_056 ::
  "string \<Rightarrow> string \<Rightarrow> string \<Rightarrow> int \<Rightarrow> int \<Rightarrow> ledger \<Rightarrow> spend_exn + (string \<times> ledger)" where
  "reserve_locked_056 cid model op request_bytes max_output_tokens l =
     rbind (price_056 model l) (\<lambda>p.
     rbind (case input_rate p of Some x \<Rightarrow> Inr x
            | None \<Rightarrow> Inl (SpendError (''DUR-056 price for '' @ model @ '' is malformed''))) (\<lambda>irate.
     let orate = (case output_rate p of Some x \<Rightarrow> x | None \<Rightarrow> 0);
         amount = (of_int request_bytes * irate + of_int max_output_tokens * orate) / 1000000 in
     rbind (ensure (committed l + amount \<le> CAP_USD)
              (SpendError ''DUR-056 $25 cap rejected reservation'')) (\<lambda>_.
     Inr (cid, l\<lparr>lg_reserved := round8 (lg_reserved l + amount), lg_status := ''IN_PROGRESS'',
            lg_entries := lg_entries l
              @ [Request (new_request cid model op request_bytes max_output_tokens (round8 amount))]\<rparr>))))"

definition reserve_056 :: "string \<Rightarrow> string \<Rightarrow> string \<Rightarrow> int \<Rightarrow> int \<Rightarrow> string spend" where
  "reserve_056 cid model op request_bytes max_output_tokens f =
     (if op = [] \<or> 160 < length op
      then (Inl (SpendError ''DUR-056 operation label is invalid''), f)
      else if request_bytes \<le> 0 \<or> 100000 < request_bytes
      then (Inl (SpendError ''DUR-056 request must be between 1 and 100000 bytes''), f)
      else if max_output_tokens < 0 \<or> 2000 < max_output_tokens
      then (Inl (SpendError ''DUR-056 max_output_tokens is outside the reserved bound''), f)
      else transact ''DUR-056'' (reserve_locked_056 cid model op request_bytes max_output_tokens) f)"

text \<open>Settling writes the ledger before it raises for a breach of the cap; the status of an earlier
  breach makes it raise too.\<close>

definition settled ::
  "string \<Rightarrow> int \<Rightarrow> int \<Rightarrow> int \<Rightarrow> string option \<Rightarrow> string \<Rightarrow> rat \<Rightarrow> request_entry \<Rightarrow> ledger \<Rightarrow> ledger" where
  "settled cid input output reasoning response_id latency cost e l =
     (let reserved = round8 (lg_reserved l - rq_reserved e); new_spent = lg_spent l + cost in
      l\<lparr>lg_reserved := reserved, lg_spent := round8 new_spent,
        lg_entries := update_request cid
          (mark_settled input 0 output reasoning response_id latency cost) (lg_entries l),
        lg_status := (if CAP_USD < new_spent + reserved + lg_uncertain l then ''CAP_BREACH_RECORDED''
                      else lg_status l)\<rparr>)"

definition settle_locked_056 ::
  "string \<Rightarrow> int \<Rightarrow> int \<Rightarrow> int \<Rightarrow> string option \<Rightarrow> string \<Rightarrow> ledger \<Rightarrow> spend_exn + ((rat \<times> string) \<times> ledger)" where
  "settle_locked_056 cid input output reasoning response_id latency l =
     rbind (get_entry ''DUR-056 reservation does not exist'' cid l) (\<lambda>e.
     rbind (ensure (rq_state e = ''RESERVED'')
              (SpendError ''only an open DUR-056 reservation can be settled'')) (\<lambda>_.
     rbind (price_056 (rq_model e) l) (\<lambda>p.
     rbind (case input_rate p of Some x \<Rightarrow> Inr x
            | None \<Rightarrow> Inl (SpendRaised (KeyError ''input_usd_per_million_tokens''))) (\<lambda>irate.
     let orate = (case output_rate p of Some x \<Rightarrow> x | None \<Rightarrow> 0);
         cost = (of_int input * irate + of_int output * orate) / 1000000;
         l' = settled cid input output reasoning response_id latency cost e l in
     Inr ((cost, lg_status l'), l')))))"

definition settle_056 ::
  "string \<Rightarrow> int \<Rightarrow> int \<Rightarrow> int \<Rightarrow> string option \<Rightarrow> string \<Rightarrow> rat spend" where
  "settle_056 cid input output reasoning response_id latency f =
     (if Min {input, output, reasoning} < 0
      then (Inl (SpendError ''DUR-056 provider usage cannot be negative''), f)
      else
        (case transact ''DUR-056'' (settle_locked_056 cid input output reasoning response_id latency) f of
           (Inl e, f') \<Rightarrow> (Inl e, f')
         | (Inr (cost, status), f') \<Rightarrow>
             if status = ''CAP_BREACH_RECORDED''
             then (Inl (SpendError ''provider usage exceeded the DUR-056 cap reservation''), f')
             else (Inr cost, f')))"

definition fail_056 :: "string \<Rightarrow> bool \<Rightarrow> string \<Rightarrow> unit spend" where
  "fail_056 cid outcome_uncertain detail = transact ''DUR-056'' (\<lambda>l.
     rbind (get_entry ''DUR-056 reservation does not exist'' cid l) (\<lambda>e.
     if rq_state e \<noteq> ''RESERVED'' then Inr ((), l)
     else Inr ((), released cid outcome_uncertain detail e l)))"


fun reconciled_ids :: "ledger_entry list \<Rightarrow> string list" where
  "reconciled_ids [] = []"
| "reconciled_ids (Reconciliation r # es) =
     (if rc_call_id r \<noteq> [] then rc_call_id r # reconciled_ids es else reconciled_ids es)"
| "reconciled_ids (_ # es) = reconciled_ids es"

text \<open>The dictionary of requests keeps the last entry with an identifier.\<close>

definition target_amount :: "ledger \<Rightarrow> string \<Rightarrow> spend_exn + (string \<times> rat)" where
  "target_amount l cid =
     (case (if cid = [] then None else find_request cid (rev (lg_entries l))) of
        None \<Rightarrow> Inl (SpendError ''NOT_SENT reconciliation requires UNCERTAIN requests'')
      | Some e \<Rightarrow>
          rbind (ensure (rq_state e = ''UNCERTAIN'')
                   (SpendError ''NOT_SENT reconciliation requires UNCERTAIN requests'')) (\<lambda>_.
          rbind (ensure (0 < rq_reserved e)
                   (SpendError ''NOT_SENT reconciliation amount must be positive'')) (\<lambda>_.
          Inr (cid, rq_reserved e))))"

record reconcile_summary =
  requests_reconciled :: nat
  amount_reconciled :: rat
  uncertain_remaining :: rat
  summary_status :: string

definition reconcile_locked ::
  "(string \<Rightarrow> string) \<Rightarrow> string \<Rightarrow> string list \<Rightarrow> string \<Rightarrow> string \<Rightarrow> ledger
   \<Rightarrow> spend_exn + (reconcile_summary \<times> ledger)" where
  "reconcile_locked event_id now call_ids reason evidence l =
     rbind (ensure (\<forall>c \<in> set call_ids. c \<notin> set (reconciled_ids (lg_entries l)))
              (SpendError ''request already has a ledger reconciliation'')) (\<lambda>_.
     rbind (mapR (target_amount l) call_ids) (\<lambda>targets.
     let total = sum_list (map snd targets) in
     rbind (ensure (total \<le> lg_uncertain l)
              (SpendError ''NOT_SENT reconciliation exceeds uncertain ledger amount'')) (\<lambda>_.
     let remaining = lg_uncertain l - total;
         status = (if 0 < remaining then ''RECONCILIATION_REQUIRED'' else ''IN_PROGRESS'') in
     Inr (\<lparr> requests_reconciled = length targets, amount_reconciled = total,
            uncertain_remaining = remaining, summary_status = status \<rparr>,
          l\<lparr>lg_entries := lg_entries l @ map (\<lambda>(c, amount). Reconciliation
              \<lparr> rc_event_id = event_id c, rc_call_id = c, rc_amount = round8 amount,
                rc_reason = take 500 reason, rc_evidence = take 300 evidence, rc_at = now \<rparr>) targets,
            lg_uncertain := round8 remaining, lg_status := status\<rparr>))))"

definition reconcile_not_sent ::
  "(string \<Rightarrow> string) \<Rightarrow> string \<Rightarrow> string list \<Rightarrow> string \<Rightarrow> string \<Rightarrow> reconcile_summary spend" where
  "reconcile_not_sent event_id now call_ids reason evidence f =
     (if call_ids = [] \<or> \<not> distinct call_ids
      then (Inl (SpendError ''NOT_SENT reconciliation requires unique request IDs''), f)
      else if strip reason = [] \<or> strip evidence = []
      then (Inl (SpendError ''NOT_SENT reconciliation requires reason and evidence''), f)
      else transact ''DUR-056'' (reconcile_locked event_id now call_ids reason evidence) f)"

record ledger_totals =
  tot_cap :: rat
  tot_spent :: rat
  tot_reserved :: rat
  tot_uncertain :: rat
  tot_status :: string

definition snapshot_ledger :: "string \<Rightarrow> ledger_file \<Rightarrow> spend_exn + ledger_totals" where
  "snapshot_ledger study f = rbind (read_ledger study f) (\<lambda>l. Inr
     \<lparr> tot_cap = lg_cap l, tot_spent = lg_spent l, tot_reserved = lg_reserved l,
       tot_uncertain = lg_uncertain l, tot_status = lg_status l \<rparr>)"

section \<open>Operations as data\<close>

datatype op_055 =
    Reserve055 string string string int int
  | Settle055 string int int int int "string option" string
  | Fail055 string bool string

fun run_055 :: "op_055 \<Rightarrow> unit spend" where
  "run_055 (Reserve055 cid m op b n) f = map_prod (map_sum id (\<lambda>_. ())) id (reserve_055 cid m op b n f)"
| "run_055 (Settle055 cid i j c r x t) f = map_prod (map_sum id (\<lambda>_. ())) id (settle_055 cid i j c r x t f)"
| "run_055 (Fail055 cid u d) f = fail_055 cid u d f"

datatype op_056 =
    Reserve056 string string string int int
  | Settle056 string int int int "string option" string
  | Fail056 string bool string
  | Reconcile056 "string \<Rightarrow> string" string "string list" string string

fun run_056 :: "op_056 \<Rightarrow> unit spend" where
  "run_056 (Reserve056 cid m op b n) f = map_prod (map_sum id (\<lambda>_. ())) id (reserve_056 cid m op b n f)"
| "run_056 (Settle056 cid i j r x t) f = map_prod (map_sum id (\<lambda>_. ())) id (settle_056 cid i j r x t f)"
| "run_056 (Fail056 cid u d) f = fail_056 cid u d f"
| "run_056 (Reconcile056 ev now cs why ev') f = map_prod (map_sum id (\<lambda>_. ())) id (reconcile_not_sent ev now cs why ev' f)"

fun run_ops :: "('op \<Rightarrow> unit spend) \<Rightarrow> 'op list \<Rightarrow> ledger_file \<Rightarrow> ledger_file" where
  "run_ops run [] f = f"
| "run_ops run (op # ops) f = run_ops run ops (snd (run op f))"

section \<open>The cap\<close>

text \<open>The contract both ledgers share: an operation that returns leaves a file that keeps the cap.
  The stricter one: an operation that raises writes nothing.\<close>

locale capped_ledger =
  fixes run :: "'op \<Rightarrow> unit spend" and capped :: "ledger_file \<Rightarrow> bool"
  assumes returns_capped: "capped f \<Longrightarrow> run op f = (Inr u, f') \<Longrightarrow> capped f'"
begin

text \<open>The first operation to leave the cap is one that raises after writing.\<close>

lemma first_breach:
  assumes "capped f"
  shows "capped (run_ops run ops f) \<or>
    (\<exists>pre op post e. ops = pre @ op # post \<and> capped (run_ops run pre f)
      \<and> fst (run op (run_ops run pre f)) = Inl e \<and> \<not> capped (snd (run op (run_ops run pre f))))"
  using assms
proof (induction ops arbitrary: f)
  case (Cons op ops)
  obtain r f' where r: "run op f = (r, f')" by fastforce
  show ?case
  proof (cases "capped f'")
    case True
    from Cons.IH [OF True] show ?thesis
    proof (elim disjE exE conjE)
      fix pre op' post e
      assume "ops = pre @ op' # post" "capped (run_ops run pre f')"
        "fst (run op' (run_ops run pre f')) = Inl e"
        "\<not> capped (snd (run op' (run_ops run pre f')))"
      then show ?thesis using r
        by (intro disjI2 exI [of _ "op # pre"] exI [of _ op'] exI [of _ post] exI [of _ e]) simp
    qed (simp add: r)
  next
    case False
    with Cons.prems r returns_capped obtain e where "r = Inl e" by (cases r) auto
    then show ?thesis using r Cons.prems False
      by (intro disjI2 exI [of _ "[]"] exI [of _ op] exI [of _ ops] exI [of _ e]) simp
  qed
qed simp

end

locale strict_ledger = capped_ledger +
  assumes raises_unchanged: "run op f = (Inl e, f') \<Longrightarrow> f' = f"
begin

lemma always_capped: "capped f \<Longrightarrow> capped (run_ops run ops f)"
  using first_breach [of f ops] raises_unchanged by (metis prod.collapse)

end

text \<open>Every total is a multiple of \<open>10\<^sup>-\<^sup>8\<close>, so is every reservation; prices and reservations are
  not negative; and the cap is kept.\<close>

definition entry_grid :: "ledger_entry \<Rightarrow> bool" where
  "entry_grid e = (case e of Request r \<Rightarrow> on_grid (rq_reserved r) \<and> 0 \<le> rq_reserved r | _ \<Rightarrow> True)"

definition price_ok :: "price \<Rightarrow> bool" where
  "price_ok p \<longleftrightarrow> (\<forall>x \<in> set_option (input_rate p) \<union> set_option (cached_rate p) \<union> set_option (output_rate p). 0 \<le> x)"

definition prices_ok :: "ledger \<Rightarrow> bool" where
  "prices_ok l \<longleftrightarrow> (\<forall>ps \<in> set_option (price_sources l). \<forall>(m, op) \<in> set ps. \<forall>p \<in> set_option op. price_ok p)"

definition ledger_inside :: "rat \<Rightarrow> ledger \<Rightarrow> bool" where
  "ledger_inside cap l \<longleftrightarrow> on_grid (lg_spent l) \<and> on_grid (lg_reserved l) \<and> on_grid (lg_uncertain l)
     \<and> list_all entry_grid (lg_entries l) \<and> prices_ok l \<and> committed l \<le> cap"

definition capped_055 :: "ledger_file \<Rightarrow> bool" where
  "capped_055 f = (case f of Ledger l \<Rightarrow> lg_cap l = 100 \<and> ledger_inside 100 l | _ \<Rightarrow> True)"

definition capped_056 :: "ledger_file \<Rightarrow> bool" where
  "capped_056 f = (case f of Ledger l \<Rightarrow> ledger_inside CAP_USD l | _ \<Rightarrow> True)"

lemma find_request_grid:
  "list_all entry_grid es \<Longrightarrow> find_request cid es = Some r \<Longrightarrow> on_grid (rq_reserved r) \<and> 0 \<le> rq_reserved r"
  by (induction cid es rule: find_request.induct) (auto simp: entry_grid_def split: if_splits)

lemma update_request_grid:
  "list_all entry_grid es \<Longrightarrow> (\<And>r. rq_reserved (g r) = rq_reserved r) \<Longrightarrow>
   list_all entry_grid (update_request cid g es)"
  by (induction cid g es rule: update_request.induct) (auto simp: entry_grid_def)

lemma round8_cap:
  assumes "on_grid a" "on_grid b" "on_grid cap" "a + x + b \<le> cap"
  shows "a + round8 x + b \<le> cap"
proof -
  have "on_grid (cap - a - b)" using assms by auto
  moreover have "x \<le> cap - a - b" using assms(4) by simp
  ultimately have "round8 x \<le> cap - a - b" by (rule round8_le)
  then show ?thesis by simp
qed

lemma on_grid_caps [simp]: "on_grid 25" "on_grid 100" "on_grid CAP_USD"
proof -
  show *: "on_grid 25" "on_grid 100"
    unfolding on_grid_def by (rule exI [of _ 2500000000], simp) (rule exI [of _ 10000000000], simp)
  show "on_grid CAP_USD" unfolding CAP_USD_def by (rule *(1))
qed

lemma inside_status [simp]: "ledger_inside cap (l\<lparr>lg_status := st\<rparr>) = ledger_inside cap l"
  by (simp add: ledger_inside_def committed_def prices_ok_def)

lemma inside_reserve:
  assumes "ledger_inside cap l" "on_grid cap" "committed l + amount \<le> cap" "0 \<le> amount"
  shows "ledger_inside cap (l\<lparr>lg_reserved := round8 (lg_reserved l + amount), lg_status := st,
    lg_entries := lg_entries l @ [Request (new_request cid m op b n (round8 amount))]\<rparr>)"
  using assms round8_cap [of "lg_spent l" "lg_uncertain l" cap "lg_reserved l + amount"]
  by (simp add: ledger_inside_def committed_def entry_grid_def new_request_def prices_ok_def
      round8_nonneg add.assoc)

lemma inside_settle:
  assumes "ledger_inside cap l" "on_grid cap"
    and "lg_spent l + cost + round8 (lg_reserved l - rq_reserved e) + lg_uncertain l \<le> cap"
    and "\<And>r. rq_reserved (g r) = rq_reserved r"
  shows "ledger_inside cap (l\<lparr>lg_reserved := round8 (lg_reserved l - rq_reserved e),
    lg_spent := round8 (lg_spent l + cost), lg_entries := update_request cid g (lg_entries l)\<rparr>)"
  using assms update_request_grid [of "lg_entries l" g cid]
    round8_cap [of 0 "round8 (lg_reserved l - rq_reserved e) + lg_uncertain l" cap "lg_spent l + cost"]
  by (auto simp: ledger_inside_def committed_def prices_ok_def add.assoc on_grid_add)

lemma inside_release:
  assumes "ledger_inside cap l" and "find_request cid (lg_entries l) = Some e"
  shows "ledger_inside cap (released cid u d e l)"
proof -
  have e: "on_grid (rq_reserved e)" "0 \<le> rq_reserved e"
    using assms find_request_grid by (auto simp: ledger_inside_def)
  have "list_all entry_grid (update_request cid g (lg_entries l))" if "\<And>r. rq_reserved (g r) = rq_reserved r" for g
    using assms(1) update_request_grid that by (simp add: ledger_inside_def)
  with assms(1) e show ?thesis
    by (auto simp: ledger_inside_def committed_def released_def prices_ok_def round8_on_grid on_grid_diff on_grid_add)
qed

lemma price_bounds:
  assumes "prices_ok l" and "price_055 m l = Inr p \<or> price_056 m l = Inr p"
  shows "input_rate p = Some x \<Longrightarrow> 0 \<le> x" "output_rate p = Some x \<Longrightarrow> 0 \<le> x"
proof -
  obtain ps where "price_sources l = Some ps" "(m, Some p) \<in> set ps"
    using assms(2) by (auto simp: price_055_def price_056_def split: option.splits bind_splits dest: map_of_SomeD)
  with assms(1) have "price_ok p" by (fastforce simp: prices_ok_def)
  then show "input_rate p = Some x \<Longrightarrow> 0 \<le> x" "output_rate p = Some x \<Longrightarrow> 0 \<le> x"
    by (auto simp: price_ok_def)
qed

lemma transact_cases:
  assumes "transact study body f = (r, f')"
  obtains e where "r = Inl e" "f' = f"
  | l x l' where "f = Ledger l" "body l = Inr (x, l')" "r = Inr x" "f' = Ledger l'"
  using assms by (auto simp: transact_def read_ledger_def rbind_def split: sum.splits ledger_file.splits)


section \<open>Both ledgers keep the cap\<close>

lemma reserve_locked_055_inside:
  assumes "reserve_locked_055 cid m op b n l = Inr (x, l')" "0 < b" "0 \<le> n"
    and "lg_cap l = cap" "ledger_inside cap l" "on_grid cap"
  shows "ledger_inside cap l' \<and> lg_cap l' = cap"
proof -
  from assms(1) obtain p irate orate where p: "price_055 m l = Inr p" "input_rate p = Some irate"
      "n = 0 \<and> orate = 0 \<or> output_rate p = Some orate"
      and amt: "committed l + (of_int b * irate / 1000000 + of_int n * orate / 1000000) \<le> lg_cap l"
      and l': "l' = l\<lparr>lg_reserved := round8 (lg_reserved l + (of_int b * irate / 1000000 + of_int n * orate / 1000000)),
        lg_status := ''IN_PROGRESS'', lg_entries := lg_entries l @ [Request (new_request cid m op b n
          (round8 (of_int b * irate / 1000000 + of_int n * orate / 1000000)))]\<rparr>"
    by (auto simp: reserve_locked_055_def res_simps rate_055_def Let_def split: option.splits if_splits)
  have pr: "prices_ok l" using assms(5) by (simp add: ledger_inside_def)
  have "0 \<le> irate" using price_bounds(1) [OF pr disjI1 [OF p(1)] p(2)] .
  moreover have "0 \<le> of_int n * orate"
    using p(3) price_bounds(2) [OF pr disjI1 [OF p(1)], of orate] assms(3) by auto
  ultimately have "ledger_inside cap l'"
    unfolding l' using assms(2-) amt by (intro inside_reserve) auto
  with l' assms(4) show ?thesis by simp
qed

lemma reserve_locked_056_inside:
  assumes "reserve_locked_056 cid m op b n l = Inr (x, l')" "0 < b" "0 \<le> n" and "ledger_inside CAP_USD l"
  shows "ledger_inside CAP_USD l'"
proof -
  from assms(1) obtain p irate orate where p: "price_056 m l = Inr p" "input_rate p = Some irate"
      "output_rate p = None \<and> orate = 0 \<or> output_rate p = Some orate"
      and amt: "committed l + (of_int b * irate + of_int n * orate) / 1000000 \<le> CAP_USD"
      and l': "l' = l\<lparr>lg_reserved := round8 (lg_reserved l + (of_int b * irate + of_int n * orate) / 1000000),
        lg_status := ''IN_PROGRESS'', lg_entries := lg_entries l @ [Request (new_request cid m op b n
          (round8 ((of_int b * irate + of_int n * orate) / 1000000)))]\<rparr>"
    by (auto simp: reserve_locked_056_def res_simps Let_def split: option.splits)
  have pr: "prices_ok l" using assms(4) by (simp add: ledger_inside_def)
  have "0 \<le> irate" using price_bounds(1) [OF pr disjI2 [OF p(1)] p(2)] .
  moreover have "0 \<le> of_int n * orate"
    using p(3) price_bounds(2) [OF pr disjI2 [OF p(1)], of orate] assms(3) by auto
  ultimately show ?thesis
    unfolding l' using assms(2-) amt by (intro inside_reserve) auto
qed

lemma settle_locked_055_inside:
  assumes "settle_locked_055 cid i j c r x t l = Inr (y, l')" and "lg_cap l = cap" "ledger_inside cap l" "on_grid cap"
  shows "ledger_inside cap l' \<and> lg_cap l' = cap"
proof -
  from assms(1) obtain e actual where "charge_055 cid i j c r x t actual e l = Inr (y, l')"
    unfolding settle_locked_055_def Let_def rbind_eq_Inr ensure_eq_Inr by blast
  then have fits: "lg_spent l + y + round8 (lg_reserved l - rq_reserved e) + lg_uncertain l \<le> lg_cap l"
      and l': "l' = l\<lparr>lg_reserved := round8 (lg_reserved l - rq_reserved e), lg_spent := round8 (lg_spent l + y),
        lg_entries := update_request cid (mark_settled i c j r x t y) (lg_entries l)\<rparr>"
    by (auto simp: charge_055_def res_simps Let_def)
  show ?thesis
    unfolding l' using inside_settle [OF assms(3,4) fits [unfolded assms(2)]] assms(2) by simp
qed

lemma settle_locked_056_inside:
  assumes "settle_locked_056 cid i j r x t l = Inr ((y, st), l')" and "ledger_inside CAP_USD l"
    and "st \<noteq> ''CAP_BREACH_RECORDED''"
  shows "ledger_inside CAP_USD l'"
proof -
  from assms(1) obtain e where l': "l' = settled cid i j r x t y e l" and st: "st = lg_status l'"
    unfolding settle_locked_056_def Let_def rbind_eq_Inr ensure_eq_Inr by auto
  have fits: "lg_spent l + y + round8 (lg_reserved l - rq_reserved e) + lg_uncertain l \<le> CAP_USD"
    using assms(3) unfolding st l' settled_def Let_def by (simp add: not_less split: if_splits)
  then show ?thesis
    unfolding l' settled_def Let_def using inside_settle [OF assms(2) on_grid_caps(3) fits] by simp
qed

lemma released_cap [simp]: "lg_cap (released cid u d e l) = lg_cap l"
  by (simp add: released_def)

lemma fail_capped:
  "capped_055 f \<Longrightarrow> fail_055 cid u d f = (Inr x, f') \<Longrightarrow> capped_055 f'"
  "capped_056 f \<Longrightarrow> fail_056 cid u d f = (Inr x, f') \<Longrightarrow> capped_056 f'"
  unfolding fail_055_def fail_056_def
  by (erule transact_cases; auto simp: res_simps get_entry_def capped_055_def capped_056_def
      inside_release split: option.splits if_splits)+


lemma reconcile_capped:
  assumes "capped_056 f" "reconcile_not_sent ev now cs why ev' f = (Inr x, f')"
  shows "capped_056 f'"
proof -
  have "transact ''DUR-056'' (reconcile_locked ev now cs why ev') f = (Inr x, f')"
    using assms(2) by (auto simp: reconcile_not_sent_def split: if_splits)
  then show ?thesis
  proof (cases rule: transact_cases)
    case (2 l y l')
    from 2(2) obtain targets where t: "mapR (target_amount l) cs = Inr targets"
        and l': "l' = l\<lparr>lg_entries := lg_entries l @ map (\<lambda>(c, amount). Reconciliation
              \<lparr> rc_event_id = ev c, rc_call_id = c, rc_amount = round8 amount,
                rc_reason = take 500 why, rc_evidence = take 300 ev', rc_at = now \<rparr>) targets,
            lg_uncertain := round8 (lg_uncertain l - sum_list (map snd targets)), lg_status := lg_status l'\<rparr>"
      unfolding reconcile_locked_def Let_def rbind_eq_Inr ensure_eq_Inr by auto
    have ok: "ledger_inside CAP_USD l" using assms(1) 2(1) by (simp add: capped_056_def)
    have pos: "0 \<le> snd q \<and> on_grid (snd q)" if "q \<in> set targets" for q
    proof -
      from t that obtain c where "target_amount l c = Inr q"
        by (auto simp: mapR_eq_Inr in_set_conv_nth list_all2_conv_all_nth)
      then obtain e where "find_request c (rev (lg_entries l)) = Some e" "snd q = rq_reserved e"
        by (auto simp: target_amount_def res_simps split: option.splits if_splits)
      moreover have "list_all entry_grid (rev (lg_entries l))" using ok by (simp add: ledger_inside_def)
      ultimately show ?thesis using find_request_grid [of "rev (lg_entries l)" c e] by (simp del: list_all_rev)
    qed
    have sum: "0 \<le> sum_list (map snd targets)" "on_grid (sum_list (map snd targets))"
      using pos by (induction targets) (auto simp: on_grid_add)
    then have "on_grid (lg_uncertain l - sum_list (map snd targets))"
      using ok by (auto simp: ledger_inside_def)
    with ok sum(1) have "ledger_inside CAP_USD l'"
      by (subst l') (auto simp: ledger_inside_def committed_def prices_ok_def round8_on_grid entry_grid_def list_all_iff)
    with 2 show ?thesis by (simp add: capped_056_def)
  qed simp
qed

lemma run_055_capped: "capped_055 f \<Longrightarrow> run_055 op f = (Inr u, f') \<Longrightarrow> capped_055 f'"
proof (induction op f rule: run_055.induct)
  case (1 cid m op b n f)
  then obtain x where "reserve_055 cid m op b n f = (Inr x, f')"
    by (cases "reserve_055 cid m op b n f"; cases "fst (reserve_055 cid m op b n f)") auto
  then have b: "0 < b" "0 \<le> n" and t: "transact ''DUR-055'' (reserve_locked_055 cid m op b n) f = (Inr x, f')"
    by (auto simp: reserve_055_def split: if_splits)
  from t show ?case
    by (cases rule: transact_cases)
      (use 1 b reserve_locked_055_inside in \<open>auto simp: capped_055_def\<close>)
next
  case (2 cid i j c r x t f)
  then obtain y where "settle_055 cid i j c r x t f = (Inr y, f')"
    by (cases "settle_055 cid i j c r x t f"; cases "fst (settle_055 cid i j c r x t f)") auto
  then have t: "transact ''DUR-055'' (settle_locked_055 cid i j c r x t) f = (Inr y, f')"
    unfolding settle_055_def by (auto split: if_splits)
  from t show ?case
    by (cases rule: transact_cases)
      (use 2 settle_locked_055_inside in \<open>auto simp: capped_055_def\<close>)
next
  case (3 cid u d f)
  then show ?case using fail_capped(1) by simp
qed

lemma run_056_capped: "capped_056 f \<Longrightarrow> run_056 op f = (Inr u, f') \<Longrightarrow> capped_056 f'"
proof (induction op f rule: run_056.induct)
  case (1 cid m op b n f)
  then obtain x where "reserve_056 cid m op b n f = (Inr x, f')"
    by (cases "reserve_056 cid m op b n f"; cases "fst (reserve_056 cid m op b n f)") auto
  then have b: "0 < b" "0 \<le> n" and t: "transact ''DUR-056'' (reserve_locked_056 cid m op b n) f = (Inr x, f')"
    by (auto simp: reserve_056_def split: if_splits)
  from t show ?case
    by (cases rule: transact_cases)
      (use 1 b reserve_locked_056_inside in \<open>auto simp: capped_056_def\<close>)
next
  case (2 cid i j r x t f)
  then obtain y where "settle_056 cid i j r x t f = (Inr y, f')"
    by (cases "settle_056 cid i j r x t f"; cases "fst (settle_056 cid i j r x t f)") auto
  then obtain st where st: "st \<noteq> ''CAP_BREACH_RECORDED''"
      and t: "transact ''DUR-056'' (settle_locked_056 cid i j r x t) f = (Inr (y, st), f')"
    unfolding settle_056_def by (auto split: if_splits prod.splits sum.splits)
  from t show ?case
    by (cases rule: transact_cases)
      (use 2 st settle_locked_056_inside in \<open>auto simp: capped_056_def\<close>)
next
  case (3 cid u d f)
  then show ?case using fail_capped(2) by simp
next
  case (4 ev now cs why ev' f)
  then obtain y where "reconcile_not_sent ev now cs why ev' f = (Inr y, f')"
    by (cases "reconcile_not_sent ev now cs why ev' f"; cases "fst (reconcile_not_sent ev now cs why ev' f)") auto
  with 4 show ?case using reconcile_capped by simp
qed

lemma transact_raises: "transact study body f = (Inl e, f') \<Longrightarrow> f' = f"
  by (erule transact_cases) auto

lemma run_055_raises: "run_055 op f = (Inl e, f') \<Longrightarrow> f' = f"
  by (induction op f rule: run_055.induct)
    (auto simp: reserve_055_def settle_055_def fail_055_def map_prod_def split: if_splits prod.splits
      dest!: transact_raises elim!: transact_cases)

interpretation dur055: strict_ledger run_055 capped_055
  by unfold_locales (fact run_055_capped, fact run_055_raises)

interpretation dur056: capped_ledger run_056 capped_056
  by unfold_locales (fact run_056_capped)


text \<open>A small ledger with the prices of the second study.\<close>

definition sample_price :: "rat \<Rightarrow> price" where
  "sample_price x = \<lparr> input_rate = Some x, cached_rate = None, output_rate = Some (5 * x) \<rparr>"

definition sample_ledger :: "rat \<Rightarrow> rat \<Rightarrow> ledger" where
  "sample_ledger cap x = \<lparr> lg_schema = ''dur056-spend-ledger.v1'', lg_cap = cap,
     price_sources = Some [(''m'', Some (sample_price x))],
     lg_spent = 0, lg_reserved = 0, lg_uncertain = 0, lg_status = ''IN_PROGRESS'', lg_entries = [] \<rparr>"

lemma sample_inside: "0 \<le> cap \<Longrightarrow> 0 \<le> x \<Longrightarrow> ledger_inside cap (sample_ledger cap x)"
  by (simp add: ledger_inside_def sample_ledger_def committed_def prices_ok_def price_ok_def sample_price_def)

text \<open>
  C7. The first study never exceeds its cap. From any readable ledger within the cap of 100 dollars,
  whatever reservations, settlements and failures are requested, in any order and with any usage
  reported, the recorded spending, open reservations and uncertain amounts together stay within the
  cap; an operation that is refused writes nothing.
\<close>

theorem dur055_cap_kept:
  assumes "capped_055 f"
  shows "capped_055 (run_ops run_055 ops f)
    \<and> (\<forall>op e. fst (run_055 op f) = Inl e \<longrightarrow> snd (run_055 op f) = f)"
  using dur055.always_capped [OF assms, of ops] dur055.raises_unchanged by (metis prod.collapse)

theorem dur055_cap_kept_witness:
  "capped_055 (run_ops run_055 [Reserve055 ''a'' ''m'' ''op'' 1000 10, Settle055 ''a'' 900 5 0 0 None ''1.0'']
     (Ledger (sample_ledger 100 (1 / 10))))"
proof -
  have "capped_055 (Ledger (sample_ledger 100 (1 / 10)))"
    using sample_inside [of 100 "1 / 10"] by (simp add: capped_055_def sample_ledger_def)
  then show ?thesis by (rule dur055_cap_kept [THEN conjunct1])
qed

lemma settle_056_breach:
  assumes "settle_056 cid i j r x t f = (Inl e, f')" "f' \<noteq> f"
  shows "e = SpendError ''provider usage exceeded the DUR-056 cap reservation''
    \<and> (\<exists>l. f' = Ledger l \<and> lg_status l = ''CAP_BREACH_RECORDED'')"
proof -
  obtain y st where t: "transact ''DUR-056'' (settle_locked_056 cid i j r x t) f = (Inr (y, st), f')"
      "st = ''CAP_BREACH_RECORDED''" and e: "e = SpendError ''provider usage exceeded the DUR-056 cap reservation''"
    using assms by (auto simp: settle_056_def split: if_splits prod.splits sum.splits dest: transact_raises)
  from t(1) show ?thesis
  proof (cases rule: transact_cases)
    case (2 l z l')
    then have "settle_locked_056 cid i j r x t l = Inr ((y, st), l')" by simp
    then have "st = lg_status l'"
      unfolding settle_locked_056_def Let_def rbind_eq_Inr ensure_eq_Inr by auto
    with 2 t(2) e show ?thesis by simp
  qed simp
qed

lemma run_056_breach:
  assumes "fst (run_056 op f) = Inl e" "snd (run_056 op f) \<noteq> f"
  shows "(\<exists>cid i j r x t. op = Settle056 cid i j r x t)
    \<and> e = SpendError ''provider usage exceeded the DUR-056 cap reservation''
    \<and> (\<exists>l. snd (run_056 op f) = Ledger l \<and> lg_status l = ''CAP_BREACH_RECORDED'')"
proof (cases op)
  case (Settle056 cid i j r x t)
  obtain o' f' where o: "settle_056 cid i j r x t f = (o', f')" by fastforce
  with assms Settle056 obtain e' where "o' = Inl e'" by (cases o') auto
  with o assms Settle056 show ?thesis using settle_056_breach [of cid i j r x t f e' f'] by auto
next
  case (Reserve056 cid m opn b n)
  obtain o' f' where o: "reserve_056 cid m opn b n f = (o', f')" by fastforce
  with assms Reserve056 obtain e' where "o' = Inl e'" by (cases o') auto
  with o have "f' = f" by (auto simp: reserve_056_def split: if_splits dest: transact_raises)
  with assms Reserve056 o show ?thesis by simp
next
  case (Fail056 cid u d)
  obtain o' f' where o: "fail_056 cid u d f = (o', f')" by fastforce
  with assms Fail056 have "f' = f" by (auto simp: fail_056_def dest: transact_raises)
  with assms Fail056 o show ?thesis by simp
next
  case (Reconcile056 ev now cs why ev')
  obtain o' f' where o: "reconcile_not_sent ev now cs why ev' f = (o', f')" by fastforce
  with assms Reconcile056 obtain e' where "o' = Inl e'" by (cases o') auto
  with o have "f' = f" by (auto simp: reconcile_not_sent_def split: if_splits dest: transact_raises)
  with assms Reconcile056 o show ?thesis by simp
qed

text \<open>
  C8. The second study exceeds its cap only by usage a provider reports beyond a reservation, and not
  silently: along any sequence of operations the ledger stays within 25 dollars, unless at some point, from
  a ledger still within the cap, a settlement raises that the usage exceeded the cap and leaves a ledger above
  it with the status \<open>CAP_BREACH_RECORDED\<close> in the file.
\<close>

theorem dur056_cap_or_recorded_breach:
  assumes "capped_056 f"
  shows "capped_056 (run_ops run_056 ops f) \<or>
    (\<exists>pre cid i j r x t post l. ops = pre @ Settle056 cid i j r x t # post
      \<and> capped_056 (run_ops run_056 pre f)
      \<and> run_056 (Settle056 cid i j r x t) (run_ops run_056 pre f)
          = (Inl (SpendError ''provider usage exceeded the DUR-056 cap reservation''), Ledger l)
      \<and> lg_status l = ''CAP_BREACH_RECORDED'' \<and> \<not> capped_056 (Ledger l))"
proof -
  from dur056.first_breach [OF assms, of ops] show ?thesis
  proof (elim disjE exE conjE)
    fix pre op post e
    let ?f = "run_ops run_056 pre f"
    assume o: "ops = pre @ op # post" and c: "capped_056 ?f"
      and r: "fst (run_056 op ?f) = Inl e" "\<not> capped_056 (snd (run_056 op ?f))"
    from c r(2) have "snd (run_056 op ?f) \<noteq> ?f" by auto
    from run_056_breach [OF r(1) this] obtain cid i j k x t l where op: "op = Settle056 cid i j k x t"
      and e: "e = SpendError ''provider usage exceeded the DUR-056 cap reservation''"
      and l: "snd (run_056 op ?f) = Ledger l" "lg_status l = ''CAP_BREACH_RECORDED''" by blast
    from r(1) e l(1) have run: "run_056 op ?f
        = (Inl (SpendError ''provider usage exceeded the DUR-056 cap reservation''), Ledger l)"
      by (simp add: prod_eq_iff)
    show ?thesis using o c run l r(2) unfolding op by (intro disjI2) (metis)
  qed simp
qed

lemma sample_breach:
  "\<not> capped_056 (run_ops run_056 [Reserve056 ''a'' ''m'' ''op'' 1000 10, Settle056 ''a'' 300000000 0 0 None ''1.0'']
     (Ledger (sample_ledger 25 (1 / 10))))"
  by (simp add: reserve_056_def reserve_locked_056_def settle_056_def settle_locked_056_def transact_def read_ledger_def
      price_056_def sample_ledger_def sample_price_def committed_def CAP_USD_def get_entry_def new_request_def settled_def
      Let_def capped_056_def ledger_inside_def round8_def half_even_def)

theorem dur056_cap_or_recorded_breach_witness:
  "\<exists>l. run_056 (Settle056 ''a'' 300000000 0 0 None ''1.0'')
       (run_ops run_056 [Reserve056 ''a'' ''m'' ''op'' 1000 10] (Ledger (sample_ledger 25 (1 / 10))))
     = (Inl (SpendError ''provider usage exceeded the DUR-056 cap reservation''), Ledger l)
   \<and> lg_status l = ''CAP_BREACH_RECORDED'' \<and> \<not> capped_056 (Ledger l)"
proof -
  have "capped_056 (Ledger (sample_ledger 25 (1 / 10)))"
    using sample_inside [of 25 "1 / 10"] by (simp add: capped_056_def CAP_USD_def)
  from dur056_cap_or_recorded_breach [OF this, of "[Reserve056 ''a'' ''m'' ''op'' 1000 10,
      Settle056 ''a'' 300000000 0 0 None ''1.0'']"] sample_breach
  show ?thesis by (auto simp: Cons_eq_append_conv simp del: run_056.simps)
qed


section \<open>The books balance\<close>

definition open_amount :: "ledger_entry \<Rightarrow> rat" where
  "open_amount e = (case e of Request r \<Rightarrow> if rq_state r = ''RESERVED'' then rq_reserved r else 0 | _ \<Rightarrow> 0)"

definition doubtful_amount :: "ledger_entry \<Rightarrow> rat" where
  "doubtful_amount e = (case e of Request r \<Rightarrow> if rq_state r = ''UNCERTAIN'' then rq_reserved r else 0
     | Reconciliation r \<Rightarrow> - rc_amount r | _ \<Rightarrow> 0)"

definition settled_amount :: "ledger_entry \<Rightarrow> rat" where
  "settled_amount e = (case e of Request r \<Rightarrow>
     (if rq_state r = ''SETTLED'' then (case rq_usage r of Some u \<Rightarrow> us_cost u | None \<Rightarrow> 0) else 0) | _ \<Rightarrow> 0)"

definition price_grid :: "price \<Rightarrow> bool" where
  "price_grid p \<longleftrightarrow> (\<forall>x \<in> set_option (input_rate p) \<union> set_option (output_rate p). on_grid (x / 1000000))"

definition prices_grid :: "ledger \<Rightarrow> bool" where
  "prices_grid l \<longleftrightarrow> (\<forall>ps \<in> set_option (price_sources l). \<forall>(m, op) \<in> set ps. \<forall>p \<in> set_option op. price_grid p)"

definition balanced :: "ledger \<Rightarrow> bool" where
  "balanced l \<longleftrightarrow> prices_grid l
     \<and> on_grid (lg_spent l) \<and> on_grid (lg_reserved l) \<and> on_grid (lg_uncertain l)
     \<and> list_all (\<lambda>e. case e of Request r \<Rightarrow> on_grid (rq_reserved r) | _ \<Rightarrow> True) (lg_entries l)
     \<and> lg_reserved l = sum_list (map open_amount (lg_entries l))
     \<and> lg_uncertain l = sum_list (map doubtful_amount (lg_entries l))
     \<and> lg_spent l = sum_list (map settled_amount (lg_entries l))"

definition balanced_file :: "ledger_file \<Rightarrow> bool" where
  "balanced_file f = (case f of Ledger l \<Rightarrow> balanced l | _ \<Rightarrow> True)"

lemma sum_update_request:
  assumes "find_request cid es = Some r"
  shows "sum_list (map h (update_request cid g es)) = sum_list (map h es) - h (Request r) + (h (Request (g r)) :: rat)"
  using assms by (induction cid g es rule: update_request.induct) (auto split: if_splits)

lemma list_all_update_request:
  assumes "list_all P es" "find_request cid es = Some r" "P (Request r) \<Longrightarrow> P (Request (g r))"
  shows "list_all P (update_request cid g es)"
  using assms by (induction cid g es rule: update_request.induct) (auto split: if_splits)

lemma find_request_in: "find_request cid es = Some r \<Longrightarrow> Request r \<in> set es"
  by (induction cid es rule: find_request.induct) (auto split: if_splits)

lemma price_grid_056: "prices_grid l \<Longrightarrow> price_056 m l = Inr p \<Longrightarrow> price_grid p"
  by (auto simp: price_056_def prices_grid_def split: option.splits bind_splits dest!: map_of_SomeD)

lemma on_grid_times: "on_grid x \<Longrightarrow> on_grid (of_int n * x)"
proof -
  assume "on_grid x"
  then obtain k where "x = of_int k / 10 ^ 8" by (auto simp: on_grid_def)
  then have "of_int n * x = of_int (n * k) / 10 ^ 8" by simp
  then show ?thesis unfolding on_grid_def by blast
qed

text \<open>With prices that are whole cents per million tokens every cost is a whole number of units.\<close>

lemma cost_on_grid:
  assumes "on_grid (x / 1000000)" "on_grid (y / 1000000)"
  shows "on_grid ((of_int m * x + of_int n * y) / 1000000)"
proof -
  have "(of_int m * x + of_int n * y) / 1000000 = of_int m * (x / 1000000) + of_int n * (y / 1000000)"
    by (simp add: add_divide_distrib)
  then show ?thesis by (simp only:) (intro on_grid_add on_grid_times assms)
qed

lemma grid_rates:
  assumes "price_grid p" "input_rate p = Some x"
  shows "on_grid ((of_int m * x + of_int n * (case output_rate p of Some y \<Rightarrow> y | None \<Rightarrow> 0)) / 1000000)"
  using assms by (intro cost_on_grid) (auto simp: price_grid_def split: option.split)

lemma balanced_reserve:
  assumes "balanced l" "reserve_locked_056 cid m op b n l = Inr (x, l')"
  shows "balanced l'"
proof -
  from assms(2) obtain p irate where p: "price_056 m l = Inr p" "input_rate p = Some irate"
      and l0: "l' = l\<lparr>lg_reserved := round8 (lg_reserved l +
          (of_int b * irate + of_int n * (case output_rate p of Some y \<Rightarrow> y | None \<Rightarrow> 0)) / 1000000),
        lg_status := ''IN_PROGRESS'', lg_entries := lg_entries l @ [Request (new_request cid m op b n
          (round8 ((of_int b * irate + of_int n * (case output_rate p of Some y \<Rightarrow> y | None \<Rightarrow> 0)) / 1000000)))]\<rparr>"
    by (auto simp: reserve_locked_056_def res_simps Let_def split: option.splits)
  have "on_grid ((of_int b * irate + of_int n * (case output_rate p of Some y \<Rightarrow> y | None \<Rightarrow> 0)) / 1000000)"
    using grid_rates price_grid_056 p assms(1) by (auto simp: balanced_def)
  with l0 obtain a where a: "on_grid a" and l': "l' = l\<lparr>lg_reserved := round8 (lg_reserved l + a),
        lg_status := ''IN_PROGRESS'', lg_entries := lg_entries l @ [Request (new_request cid m op b n (round8 a))]\<rparr>"
    by blast
  have r: "round8 a = a" "round8 (lg_reserved l + a) = lg_reserved l + a"
    using a assms(1) by (auto simp: balanced_def intro!: round8_on_grid)
  show ?thesis
    using assms(1) a unfolding l' r balanced_def
    by (auto simp: prices_grid_def new_request_def open_amount_def doubtful_amount_def settled_amount_def)
qed

lemma balanced_settle:
  assumes "balanced l" "settle_locked_056 cid i j r x t l = Inr (y, l')"
  shows "balanced l'"
proof -
  from assms(2) obtain e p irate where e: "find_request cid (lg_entries l) = Some e" "rq_state e = ''RESERVED''"
      and p: "price_056 (rq_model e) l = Inr p" "input_rate p = Some irate"
      and l0: "l' = settled cid i j r x t
        ((of_int i * irate + of_int j * (case output_rate p of Some y \<Rightarrow> y | None \<Rightarrow> 0)) / 1000000) e l"
    by (auto simp: settle_locked_056_def get_entry_def res_simps Let_def split: option.splits)
  then obtain c where l': "l' = settled cid i j r x t c e l" and c: "on_grid c"
    using grid_rates price_grid_056 p assms(1) by (auto simp: balanced_def)
  have ge: "on_grid (rq_reserved e)"
    using assms(1) find_request_in [OF e(1)] by (auto simp: balanced_def list_all_iff)
  have r: "round8 c = c" "round8 (lg_spent l + c) = lg_spent l + c"
      "round8 (lg_reserved l - rq_reserved e) = lg_reserved l - rq_reserved e"
    using c ge assms(1) by (auto simp: balanced_def intro!: round8_on_grid)
  have "list_all (\<lambda>e. case e of Request r \<Rightarrow> on_grid (rq_reserved r) | _ \<Rightarrow> True)
      (update_request cid (mark_settled i 0 j r x t c) (lg_entries l))"
    using assms(1) e(1) by (auto simp: balanced_def intro!: list_all_update_request)
  then show ?thesis
    using assms(1) c ge e(2) r unfolding l' balanced_def settled_def Let_def
    by (auto simp: prices_grid_def sum_update_request [OF e(1)] open_amount_def doubtful_amount_def
        settled_amount_def mark_settled_def on_grid_add on_grid_diff)
qed

lemma balanced_release:
  assumes "balanced l" "find_request cid (lg_entries l) = Some e" "rq_state e = ''RESERVED''"
  shows "balanced (released cid u d e l)"
proof -
  have ge: "on_grid (rq_reserved e)"
    using assms(1) find_request_in [OF assms(2)] by (auto simp: balanced_def list_all_iff)
  have r: "round8 (lg_uncertain l + rq_reserved e) = lg_uncertain l + rq_reserved e"
      "round8 (lg_reserved l - rq_reserved e) = lg_reserved l - rq_reserved e"
    using ge assms(1) by (auto simp: balanced_def intro!: round8_on_grid)
  have "list_all (\<lambda>e. case e of Request r \<Rightarrow> on_grid (rq_reserved r) | _ \<Rightarrow> True)
      (update_request cid (\<lambda>r. r\<lparr>rq_state := s, rq_failure := z\<rparr>) (lg_entries l))" for s z
    using assms(1,2) by (auto simp: balanced_def intro!: list_all_update_request)
  then show ?thesis
    using assms(1,3) ge unfolding balanced_def released_def r
    by (auto simp: prices_grid_def sum_update_request [OF assms(2)] open_amount_def doubtful_amount_def
        settled_amount_def)
qed

lemma balanced_reconcile:
  assumes "balanced l" "reconcile_locked ev now cs why ev' l = Inr (x, l')"
  shows "balanced l'"
proof -
  from assms(2) obtain targets where t: "mapR (target_amount l) cs = Inr targets"
      and l': "l' = l\<lparr>lg_entries := lg_entries l @ map (\<lambda>(c, amount). Reconciliation
            \<lparr> rc_event_id = ev c, rc_call_id = c, rc_amount = round8 amount,
              rc_reason = take 500 why, rc_evidence = take 300 ev', rc_at = now \<rparr>) targets,
          lg_uncertain := round8 (lg_uncertain l - sum_list (map snd targets)), lg_status := lg_status l'\<rparr>"
    unfolding reconcile_locked_def Let_def rbind_eq_Inr ensure_eq_Inr by auto
  have g: "on_grid (snd q)" if "q \<in> set targets" for q
  proof -
    from t that obtain c where "target_amount l c = Inr q"
      by (auto simp: mapR_eq_Inr in_set_conv_nth list_all2_conv_all_nth)
    then obtain e where "find_request c (rev (lg_entries l)) = Some e" "snd q = rq_reserved e"
      by (auto simp: target_amount_def res_simps split: option.splits if_splits)
    with assms(1) show ?thesis
      using find_request_in [of c "rev (lg_entries l)" e] by (auto simp: balanced_def list_all_iff)
  qed
  then have gs: "list_all (\<lambda>q. on_grid (snd q)) targets" by (simp add: list_all_iff)
  let ?new = "map (\<lambda>(c, amount). Reconciliation \<lparr> rc_event_id = ev c, rc_call_id = c, rc_amount = round8 amount,
              rc_reason = take 500 why, rc_evidence = take 300 ev', rc_at = now \<rparr>) targets"
  have sums: "on_grid (sum_list (map snd targets))" "sum_list (map doubtful_amount ?new) = - sum_list (map snd targets)"
      "sum_list (map open_amount ?new) = 0" "sum_list (map settled_amount ?new) = 0"
    using gs by (induction targets)
      (auto simp: on_grid_add doubtful_amount_def open_amount_def settled_amount_def round8_on_grid)
  have r: "round8 (lg_uncertain l - sum_list (map snd targets)) = lg_uncertain l - sum_list (map snd targets)"
    using sums(1) assms(1) by (auto simp: balanced_def intro!: round8_on_grid)
  show ?thesis
    using assms(1) sums by (subst l') (auto simp: balanced_def prices_grid_def round8_on_grid on_grid_diff list_all_iff)
qed


lemma run_056_balanced:
  assumes "balanced_file f"
  shows "balanced_file (snd (run_056 op f))"
proof -
  have tr: "balanced_file (snd (transact study body f))"
    if "\<And>l x l'. balanced l \<Longrightarrow> body l = Inr (x, l') \<Longrightarrow> balanced l'" for study and body :: "ledger \<Rightarrow> spend_exn + ('a \<times> ledger)"
  proof -
    obtain r f' where t: "transact study body f = (r, f')" by fastforce
    then show ?thesis
      by (cases rule: transact_cases) (use assms that t in \<open>auto simp: balanced_file_def\<close>)
  qed
  show ?thesis
  proof (cases op)
    case (Reserve056 cid m opn b n)
    then show ?thesis
      using assms tr [of "reserve_locked_056 cid m opn b n" "''DUR-056''"] balanced_reserve
      by (auto simp: reserve_056_def)
  next
    case (Settle056 cid i j r x t)
    have "snd (settle_056 cid i j r x t f)
        = (if Min {i, j, r} < 0 then f else snd (transact ''DUR-056'' (settle_locked_056 cid i j r x t) f))"
      unfolding settle_056_def by (auto split: prod.splits sum.splits)
    with Settle056 show ?thesis
      using assms tr [of "settle_locked_056 cid i j r x t" "''DUR-056''"] balanced_settle by auto
  next
    case (Fail056 cid u d)
    have "balanced_file (snd (fail_056 cid u d f))"
      unfolding fail_056_def
      by (rule tr) (auto simp: res_simps get_entry_def balanced_release split: option.splits if_splits)
    with Fail056 show ?thesis by simp
  next
    case (Reconcile056 ev now cs why ev')
    then show ?thesis
      using assms tr [of "reconcile_locked ev now cs why ev'" "''DUR-056''"] balanced_reconcile
      by (auto simp: reconcile_not_sent_def)
  qed
qed

text \<open>
  C9. The books of the second study balance to the last digit. When every price makes a token cost a
  whole number of \<open>10\<^sup>-\<^sup>8\<close> dollars, as the recorded prices do, every sequence of operations, breaches
  included, keeps the totals equal to the entries: the reserved total to the open reservations, the
  uncertain total to the uncertain requests less the reconciliations, the spent total to the settled
  costs.
\<close>

theorem dur056_books_balance:
  assumes "balanced_file f"
  shows "balanced_file (run_ops run_056 ops f)"
  using assms by (induction ops arbitrary: f) (auto intro: run_056_balanced)

theorem dur056_books_balance_witness:
  "balanced_file (run_ops run_056 [Reserve056 ''a'' ''m'' ''op'' 1000 10, Settle056 ''a'' 900 5 0 None ''1.0'',
     Reserve056 ''b'' ''m'' ''op'' 10 0, Fail056 ''b'' True ''timeout'']
     (Ledger (sample_ledger 25 (1 / 10))))"
proof -
  have "on_grid (1 / 10000000)" "on_grid (1 / 2000000)"
    unfolding on_grid_def by (rule exI [of _ 10], simp) (rule exI [of _ 50], simp)
  then have "balanced_file (Ledger (sample_ledger 25 (1 / 10)))"
    by (simp add: balanced_file_def balanced_def sample_ledger_def prices_grid_def price_grid_def
        sample_price_def)
  then show ?thesis by (rule dur056_books_balance)
qed

text \<open>
  A total is rounded after the addition and its entry before it, and rounding half to even commutes with the addition
  of an integer except when the fraction is one half and the integer odd.
\<close>

definition drift :: "int \<Rightarrow> rat \<Rightarrow> int" where
  "drift m x = (if x - of_int \<lfloor>x\<rfloor> = 1 / 2 \<and> odd m then (if even \<lfloor>x\<rfloor> then 1 else - 1) else 0)"

lemma half_even_shift: "half_even (of_int m + x) = m + half_even x + drift m x"
proof -
  have f: "\<lfloor>of_int m + x\<rfloor> = m + \<lfloor>x\<rfloor>" by simp
  have d: "of_int m + x - of_int (m + \<lfloor>x\<rfloor>) = x - of_int \<lfloor>x\<rfloor>" by simp
  show ?thesis unfolding half_even_def drift_def Let_def f d by auto
qed

lemma round8_back:
  "round8 (round8 (of_int m / 10 ^ 8 + a) - round8 a) = of_int (m + drift m (a * 10 ^ 8)) / 10 ^ 8"
proof -
  have "(of_int m / 10 ^ 8 + a) * 10 ^ 8 = of_int m + a * (10 ^ 8 :: rat)" by (simp add: distrib_right)
  then have "round8 (of_int m / 10 ^ 8 + a) = of_int (m + half_even (a * 10 ^ 8) + drift m (a * 10 ^ 8)) / 10 ^ 8"
    by (simp only: round8_def half_even_shift)
  then have "round8 (of_int m / 10 ^ 8 + a) - round8 a = of_int (m + drift m (a * 10 ^ 8)) / 10 ^ 8"
    by (simp only: round8_def diff_divide_distrib [symmetric] of_int_diff [symmetric]) simp
  moreover have "on_grid (of_int n / 10 ^ 8)" for n unfolding on_grid_def by blast
  ultimately show ?thesis using round8_on_grid by metis
qed

lemma update_request_last:
  "find_request cid es = None \<Longrightarrow> rq_call_id r = cid \<Longrightarrow> update_request cid g (es @ [Request r]) = es @ [Request (g r)]
     \<and> find_request cid (es @ [Request r]) = Some r"
  by (induction cid es rule: find_request.induct) (auto split: if_splits)

text \<open>
  C40. What a rejected reservation leaves behind. On a ledger whose reserved total is \<open>m\<close> units of \<open>10\<^sup>-\<^sup>8\<close> dollars,
  reserving for a new call and rejecting the call opens nothing, and gives back exactly the total of \<open>m\<close> units,
  unless the exact price of the call ends in half a unit and \<open>m\<close> is odd: then the total is off by exactly one unit,
  up when the whole units of the price are even and down when they are odd. Prices that are whole cents
  per million tokens never end in half a unit.
\<close>

theorem dur056_reserved_drift:
  assumes "lg_reserved l = of_int m / 10 ^ 8" and "find_request cid (lg_entries l) = None"
    and "price_056 model l = Inr p" and "input_rate p = Some irate"
    and "reserve_056 cid model op request_bytes max_output_tokens (Ledger l) = (Inr c, f)"
  shows "\<exists>l'. fail_056 cid False detail f = (Inr (), Ledger l')
    \<and> sum_list (map open_amount (lg_entries l')) = sum_list (map open_amount (lg_entries l))
    \<and> (let units = (of_int request_bytes * irate
             + of_int max_output_tokens * (case output_rate p of Some y \<Rightarrow> y | None \<Rightarrow> 0)) * 100
       in lg_reserved l' = of_int (m +
            (if units - of_int \<lfloor>units\<rfloor> = 1 / 2 \<and> odd m then (if even \<lfloor>units\<rfloor> then 1 else - 1) else 0)) / 10 ^ 8)"
proof -
  define a where "a = (of_int request_bytes * irate
      + of_int max_output_tokens * (case output_rate p of Some y \<Rightarrow> y | None \<Rightarrow> 0)) / 1000000"
  let ?r = "new_request cid model op request_bytes max_output_tokens (round8 a)"
  let ?l = "l\<lparr>lg_reserved := round8 (lg_reserved l + a), lg_status := ''IN_PROGRESS'', lg_entries := lg_entries l @ [Request ?r]\<rparr>"
  have "reserve_locked_056 cid model op request_bytes max_output_tokens l = Inr (cid, ?l)" and f: "f = Ledger ?l"
    using assms(3-5)
    by (auto simp: reserve_056_def transact_def read_ledger_def reserve_locked_056_def Let_def a_def ensure_def
        split: if_splits)
  have u: "update_request cid g (lg_entries ?l) = lg_entries l @ [Request (g ?r)]" for g
    using update_request_last [OF assms(2)] by (simp add: new_request_def)
  have r: "find_request cid (lg_entries ?l) = Some ?r"
    using update_request_last [OF assms(2), of ?r] by (simp add: new_request_def)
  let ?l' = "released cid False detail ?r ?l"
  have fail: "fail_056 cid False detail f = (Inr (), Ledger ?l')"
    unfolding f using r by (simp add: fail_056_def transact_def read_ledger_def get_entry_def new_request_def)
  have sum: "sum_list (map open_amount (lg_entries ?l')) = sum_list (map open_amount (lg_entries l))"
    unfolding released_def using u by (simp add: open_amount_def)
  have units: "a * 10 ^ 8 = (of_int request_bytes * irate
      + of_int max_output_tokens * (case output_rate p of Some y \<Rightarrow> y | None \<Rightarrow> 0)) * 100"
    by (simp add: a_def)
  have "lg_reserved ?l' = of_int (m + drift m (a * 10 ^ 8)) / 10 ^ 8"
    unfolding round8_back [symmetric] assms(1) [symmetric] by (simp add: released_def new_request_def)
  with fail sum show ?thesis unfolding units drift_def Let_def by blast
qed

theorem dur056_reserved_drift_witness:
  "\<exists>f l'. reserve_056 ''a'' ''m'' ''op'' 1 0 (Ledger ((sample_ledger 25 (15 / 1000))\<lparr>lg_reserved := 3 / 10 ^ 8\<rparr>)) = (Inr ''a'', f)
    \<and> fail_056 ''a'' False [] f = (Inr (), Ledger l') \<and> sum_list (map open_amount (lg_entries l')) = 0
    \<and> lg_reserved l' = 2 / 10 ^ 8"
proof -
  let ?l = "(sample_ledger 25 (15 / 1000))\<lparr>lg_reserved := 3 / 10 ^ 8\<rparr>"
  have p: "price_056 ''m'' ?l = Inr (sample_price (15 / 1000))" "input_rate (sample_price (15 / 1000)) = Some (15 / 1000)"
    by (simp_all add: price_056_def sample_ledger_def sample_price_def)
  obtain f where f: "reserve_056 ''a'' ''m'' ''op'' 1 0 (Ledger ?l) = (Inr ''a'', f)"
    by (simp add: reserve_056_def transact_def read_ledger_def reserve_locked_056_def price_056_def sample_ledger_def
        sample_price_def committed_def CAP_USD_def Let_def)
  have "lg_reserved ?l = of_int 3 / 10 ^ 8" "find_request ''a'' (lg_entries ?l) = None"
    by (simp_all add: sample_ledger_def)
  from dur056_reserved_drift [OF this p f, of "[]"] obtain l' where
    "fail_056 ''a'' False [] f = (Inr (), Ledger l')"
    "sum_list (map open_amount (lg_entries l')) = sum_list (map open_amount (lg_entries ?l))"
    "lg_reserved l' = 2 / 10 ^ 8"
    unfolding Let_def by (auto simp: sample_price_def floor_numeral_quotient)
  with f show ?thesis by (auto simp: sample_ledger_def)
qed

text \<open>
  A call is settled or released once. An operation on a call that is no longer open changes
  nothing: settling it raises and failing it is silently ignored, in both ledgers.
\<close>

theorem closed_calls_are_final:
  assumes "find_request cid (lg_entries l) = Some e" and "rq_state e \<noteq> ''RESERVED''"
  shows "snd (settle_055 cid i j c r x t (Ledger l)) = Ledger l
    \<and> snd (settle_056 cid i j r x t (Ledger l)) = Ledger l
    \<and> (\<exists>e'. fst (settle_055 cid i j c r x t (Ledger l)) = Inl e')
    \<and> (\<exists>e'. fst (settle_056 cid i j r x t (Ledger l)) = Inl e')
    \<and> fail_055 cid u d (Ledger l) = (Inr (), Ledger l) \<and> fail_056 cid u d (Ledger l) = (Inr (), Ledger l)"
  using assms
  by (auto simp: settle_055_def settle_056_def settle_locked_055_def settle_locked_056_def transact_def
      read_ledger_def get_entry_def fail_055_def fail_056_def)

theorem closed_calls_are_final_witness:
  "snd (settle_056 ''a'' 1 1 0 None ''1.0'' (Ledger ((sample_ledger 25 (1 / 10))
      \<lparr>lg_entries := [Request (mark_settled 1 0 1 0 None ''1.0'' 0 (new_request ''a'' ''m'' ''op'' 2 0 0))]\<rparr>)))
   = Ledger ((sample_ledger 25 (1 / 10))
      \<lparr>lg_entries := [Request (mark_settled 1 0 1 0 None ''1.0'' 0 (new_request ''a'' ''m'' ''op'' 2 0 0))]\<rparr>)"
  by (rule closed_calls_are_final [of _ _ "mark_settled 1 0 1 0 None ''1.0'' 0 (new_request ''a'' ''m'' ''op'' 2 0 0)",
        THEN conjunct2, THEN conjunct1])
    (simp_all add: mark_settled_def new_request_def)

end
