(* ===== verification/Lifecycle.thy ===== *)
theory Lifecycle
  imports Prelude
begin

text \<open>
  Admission and shutdown of a worker process: \<^verbatim>\<open>src/python/workers/lifecycle.py\<close> and the drain
  loop, the watchdog and the health endpoint of \<^verbatim>\<open>src/python/workers/__main__.py\<close>.

  A reading of \<^verbatim>\<open>time.monotonic()\<close> is an argument of the operation that makes it; seconds are
  rationals. Operations of other threads enter as events between the steps of an operation. The
  executor is modelled at the grain of its individual effects: acquiring the semaphore, counting the
  activity in, counting it out, releasing the semaphore and setting the event are separate steps that
  may interleave with those of every other activity.
\<close>

section \<open>The lifecycle\<close>

record lifecycle =
  lc_drain :: bool
  lc_abort :: bool
  lc_deadline :: "rat option"
  lc_drain_seconds :: rat
  lc_legacy :: bool
  lc_in_flight :: int
  lc_rebalances :: int

definition new_lifecycle :: "rat \<Rightarrow> bool \<Rightarrow> lifecycle res" where
  "new_lifecycle drain_seconds legacy =
     (if \<not> (0 < drain_seconds \<and> drain_seconds \<le> 30)
      then Inl (ValueError ''worker drain deadline must be in (0, 30] seconds'')
      else Inr \<lparr>lc_drain = False, lc_abort = False, lc_deadline = None,
                lc_drain_seconds = drain_seconds, lc_legacy = legacy,
                lc_in_flight = 0, lc_rebalances = 0\<rparr>)"

definition begin_drain :: "rat \<Rightarrow> lifecycle \<Rightarrow> lifecycle" where
  "begin_drain now st =
     (let st1 = (if \<not> lc_drain st
                 then st\<lparr>lc_deadline := Some (now + lc_drain_seconds st), lc_drain := True\<rparr>
                 else st)
      in if lc_legacy st1 then st1\<lparr>lc_abort := True\<rparr> else st1)"

definition remaining :: "rat \<Rightarrow> lifecycle \<Rightarrow> rat" where
  "remaining now st = (case lc_deadline st of Some d \<Rightarrow> max 0 (d - now) | None \<Rightarrow> 30)"

definition aborted :: "rat \<Rightarrow> lifecycle \<Rightarrow> bool \<times> lifecycle" where
  "aborted now st =
     (let st1 = (if lc_drain st \<and> remaining now st \<le> 0 then st\<lparr>lc_abort := True\<rparr> else st)
      in (lc_abort st1, st1))"

definition can_start :: "rat \<Rightarrow> lifecycle \<Rightarrow> bool \<times> lifecycle" where
  "can_start now st =
     (if lc_drain st then (False, st) else (case aborted now st of (b, st1) \<Rightarrow> (\<not> b, st1)))"

definition show_flag :: "bool \<Rightarrow> string" where
  "show_flag b = show_int (if b then 1 else 0)"

definition render :: "rat \<Rightarrow> lifecycle \<Rightarrow> string \<times> lifecycle" where
  "render now st =
     (case aborted now st of (b, st1) \<Rightarrow>
       (''durable_worker_in_flight '' @ show_int (lc_in_flight st) @ [newline] @
        ''durable_worker_draining '' @ show_flag (lc_drain st) @ [newline] @
        ''durable_worker_aborted '' @ show_flag b @ [newline] @
        ''durable_worker_rebalances_total '' @ show_int (lc_rebalances st) @ [newline], st1))"

definition worker_identity :: "(string \<Rightarrow> string option) \<Rightarrow> string" where
  "worker_identity env =
     (case env ''POD_NAME'' of Some (c # cs) \<Rightarrow> c # cs
      | _ \<Rightarrow> (case env ''WORKER_ID'' of Some (c # cs) \<Rightarrow> c # cs | _ \<Rightarrow> ''worker''))"

text \<open>
  Everything that touches the lifecycle, from any thread: a signal or the main thread begins the
  drain, any thread may ask \<open>aborted\<close>, an activity is counted in and out, a rebalance is counted.
\<close>

datatype lc_event =
    Begin_drain rat
  | Check_aborted rat
  | Count_in
  | Count_out
  | Rebalance

fun lc_apply :: "lc_event \<Rightarrow> lifecycle \<Rightarrow> lifecycle" where
  "lc_apply (Begin_drain now) st = begin_drain now st"
| "lc_apply (Check_aborted now) st = snd (aborted now st)"
| "lc_apply Count_in st = st\<lparr>lc_in_flight := lc_in_flight st + 1\<rparr>"
| "lc_apply Count_out st = st\<lparr>lc_in_flight := lc_in_flight st - 1\<rparr>"
| "lc_apply Rebalance st = st\<lparr>lc_rebalances := lc_rebalances st + 1\<rparr>"

definition lc_run :: "lc_event list \<Rightarrow> lifecycle \<Rightarrow> lifecycle" where
  "lc_run es st = fold lc_apply es st"

section \<open>The end of the process\<close>

text \<open>
  \<open>finish_drain\<close> polls until the activities and the consumer threads have ended or the deadline has
  passed. One round: what the other threads do before the reading of \<open>in_flight\<close>, before each thread is asked
  whether it is alive and what it answers, and before the abort is checked, and how long the calls take. The
  threads are asked only after nothing was read to be in flight, one after the other, and no further one after one
  is alive. The sleep takes at least what is asked for, as \<^verbatim>\<open>time.sleep\<close> promises. \<open>Exited\<close> is
  \<^verbatim>\<open>os._exit(0)\<close>.
\<close>

datatype drain_end = Drained | Exited

record drain_round =
  round_events :: "lc_event list"
  round_threads :: "(lc_event list \<times> bool) list"
  check_events :: "lc_event list"
  lag_check :: rat
  lag_sleep :: rat
  oversleep :: rat

fun any_alive :: "(lc_event list \<times> bool) list \<Rightarrow> lifecycle \<Rightarrow> bool \<times> lifecycle" where
  "any_alive [] st = (False, st)"
| "any_alive ((es, alive) # ts) st =
     (let st1 = lc_run es st in if alive then (True, st1) else any_alive ts st1)"

definition read_idle :: "drain_round \<Rightarrow> lifecycle \<Rightarrow> bool \<times> lifecycle" where
  "read_idle r st =
     (let st1 = lc_run (round_events r) st; pending = lc_in_flight st1
      in if pending \<noteq> 0 then (False, st1)
         else (case any_alive (round_threads r) st1 of (alive, st2) \<Rightarrow> (\<not> alive, st2)))"

fun finish_drain ::
  "nat \<Rightarrow> (nat \<Rightarrow> drain_round) \<Rightarrow> nat \<Rightarrow> rat \<Rightarrow> lifecycle \<Rightarrow> (drain_end \<times> nat \<times> lifecycle) option"
where
  "finish_drain 0 rounds i now st = None"
| "finish_drain (Suc k) rounds i now st =
     (let r = rounds i;
          check_at = now + lag_check r;
          sleep_at = check_at + lag_sleep r
      in case read_idle r st of (idle, st1) \<Rightarrow>
         if idle then Some (Drained, i, st1)
         else (case aborted check_at (lc_run (check_events r) st1) of (b, st2) \<Rightarrow>
           if b then Some (Exited, i, st2)
           else finish_drain k rounds (Suc i)
                  (sleep_at + min (1 / 20) (remaining sleep_at st2) + oversleep r) st2))"

text \<open>The watchdog: after the drain began it waits for the end of the process for the remaining time.
  \<open>None\<close> while there is no drain, or no watchdog in legacy mode.\<close>

definition watchdog :: "bool \<Rightarrow> lifecycle \<Rightarrow> drain_end option \<times> lifecycle" where
  "watchdog done_in_time st =
     (if lc_legacy st \<or> \<not> lc_drain st then (None, st)
      else if done_in_time then (Some Drained, st)
      else (Some Exited, st\<lparr>lc_abort := True\<rparr>))"

section \<open>The health endpoint\<close>

datatype http_reply = Reply nat string string | Send_error nat

definition worker_version :: string where
  "worker_version = ''0.1.0-dev''"

definition do_GET ::
  "(string \<Rightarrow> string option) \<Rightarrow> json option \<Rightarrow> rat \<Rightarrow> string \<Rightarrow> lifecycle option \<Rightarrow>
   http_reply \<times> lifecycle option" where
  "do_GET env inventory now path lc =
     (if path = ''/witness'' then
        (Reply (if inventory \<noteq> None then 200 else 503) ''application/json''
           (json_dumps_raw '', '' '': ''
              (case inventory of Some v \<Rightarrow> v | None \<Rightarrow> JObj [(''complete'', JBool False)])), lc)
      else if path = ''/metrics'' \<and> lc \<noteq> None then
        (case render now (the lc) of (body, st) \<Rightarrow>
           (Reply 200 ''text/plain; version=0.0.4'' body, Some st))
      else if path \<noteq> ''/healthz'' \<and> path \<noteq> ''/readyz'' then (Send_error 404, lc)
      else
        (Reply (if path = ''/readyz'' \<and> (case lc of Some st \<Rightarrow> lc_drain st | None \<Rightarrow> False)
                then 503 else 200) ''application/json''
           (json_dumps_raw '', '' '': ''
              (JObj [(''status'', JStr ''ok''), (''worker_id'', JStr (worker_identity env)),
                     (''version'', JStr worker_version)])), lc))"

section \<open>The bounded executor\<close>

text \<open>
  The state of one submitted activity: the semaphore is acquired, the activity is counted and its
  thread runs, it is counted out, the semaphore is released, \<open>done\<close> is set.
\<close>

datatype job_phase = Acquired | Running | Uncounted | Released | Done

record executor =
  ex_lifecycle :: lifecycle
  ex_bound :: nat
  ex_free :: nat
  ex_jobs :: "job_phase list"

definition new_executor :: "lifecycle \<Rightarrow> nat \<Rightarrow> executor" where
  "new_executor lc capacity =
     \<lparr>ex_lifecycle = lc, ex_bound = capacity, ex_free = capacity, ex_jobs = []\<rparr>"

text \<open>\<open>submit\<close> up to the semaphore: the handle of the new activity, or the refusal.\<close>

definition submit :: "executor \<Rightarrow> nat res \<times> executor" where
  "submit ex =
     (if ex_free ex = 0 then (Inl (RuntimeError ''activity executor is full''), ex)
      else (Inr (length (ex_jobs ex)),
            ex\<lparr>ex_free := ex_free ex - 1, ex_jobs := ex_jobs ex @ [Acquired]\<rparr>))"

text \<open>
  The next effect of activity \<open>j\<close>. A \<^verbatim>\<open>BoundedSemaphore\<close> released above its bound raises.
\<close>

definition job_step :: "nat \<Rightarrow> executor \<Rightarrow> executor res" where
  "job_step j ex =
     (case ex_jobs ex ! j of
        Acquired \<Rightarrow> Inr (ex\<lparr>ex_lifecycle := lc_apply Count_in (ex_lifecycle ex),
                            ex_jobs := (ex_jobs ex)[j := Running]\<rparr>)
      | Running \<Rightarrow> Inr (ex\<lparr>ex_lifecycle := lc_apply Count_out (ex_lifecycle ex),
                           ex_jobs := (ex_jobs ex)[j := Uncounted]\<rparr>)
      | Uncounted \<Rightarrow>
          if ex_free ex < ex_bound ex
          then Inr (ex\<lparr>ex_free := ex_free ex + 1, ex_jobs := (ex_jobs ex)[j := Released]\<rparr>)
          else Inl (ValueError ''Semaphore released too many times'')
      | Released \<Rightarrow> Inr (ex\<lparr>ex_jobs := (ex_jobs ex)[j := Done]\<rparr>)
      | Done \<Rightarrow> Inr ex)"

text \<open>One step of the process that concerns the executor.\<close>

inductive ex_step :: "executor \<Rightarrow> executor \<Rightarrow> bool" where
  ex_submit: "submit ex = (r, ex') \<Longrightarrow> ex_step ex ex'"
| ex_job: "j < length (ex_jobs ex) \<Longrightarrow> job_step j ex = Inr ex' \<Longrightarrow> ex_step ex ex'"
| ex_lc: "e \<noteq> Count_in \<Longrightarrow> e \<noteq> Count_out \<Longrightarrow>
    ex_step ex (ex\<lparr>ex_lifecycle := lc_apply e (ex_lifecycle ex)\<rparr>)"

section \<open>Invariant of the lifecycle\<close>

definition lc_inv :: "lifecycle \<Rightarrow> bool" where
  "lc_inv st \<longleftrightarrow> (lc_deadline st = None \<longleftrightarrow> \<not> lc_drain st) \<and> (lc_abort st \<longrightarrow> lc_drain st) \<and>
     0 < lc_drain_seconds st \<and> lc_drain_seconds st \<le> 30"

named_theorems lc_defs

lemmas lc_op_defs [lc_defs] = begin_drain_def remaining_def aborted_def can_start_def Let_def

lemma new_lifecycle_inv: "new_lifecycle s l = Inr st \<Longrightarrow> lc_inv st"
  by (auto simp: new_lifecycle_def lc_inv_def split: if_splits)

lemma lc_apply_inv: "lc_inv st \<Longrightarrow> lc_inv (lc_apply e st)"
  by (cases e) (auto simp: lc_inv_def lc_defs)

lemma lc_run_inv: "lc_inv st \<Longrightarrow> lc_inv (lc_run es st)"
  unfolding lc_run_def by (induction es arbitrary: st) (simp_all add: lc_apply_inv)

text \<open>What a draining process can never undo: the drain itself, its deadline, an abort.\<close>

definition lc_committed :: "lifecycle \<Rightarrow> lifecycle \<Rightarrow> bool" where
  "lc_committed st st' \<longleftrightarrow>
     (lc_drain st \<longrightarrow> lc_drain st' \<and> lc_deadline st' = lc_deadline st) \<and>
     (lc_abort st \<longrightarrow> lc_abort st')"

lemma lc_apply_committed: "lc_committed st (lc_apply e st)"
  by (cases e) (auto simp: lc_committed_def lc_defs)

lemma lc_run_committed: "lc_committed st (lc_run es st)"
proof (induction es arbitrary: st)
  case Nil
  show ?case by (simp add: lc_run_def lc_committed_def)
next
  case (Cons e es)
  have "lc_committed (lc_apply e st) (lc_run (e # es) st)"
    using Cons by (simp add: lc_run_def)
  with lc_apply_committed [of st e] show ?case
    by (auto simp: lc_committed_def)
qed

lemma can_start_iff: "lc_inv st \<Longrightarrow> fst (can_start now st) \<longleftrightarrow> \<not> lc_drain st"
  by (auto simp: lc_inv_def lc_defs)

lemma aborted_iff:
  "fst (aborted now st) \<longleftrightarrow>
     lc_abort st \<or> lc_drain st \<and> (\<exists>d. lc_deadline st = Some d \<and> d \<le> now)"
  by (auto simp: lc_defs split: option.splits)

lemma aborted_snd: "lc_committed st (snd (aborted now st))"
  using lc_apply_committed [of st "Check_aborted now"] by simp

text \<open>
  C20. Shutdown is one way. Once a worker has begun to drain, no interleaving of later operations by
  any thread ends the drain or moves its deadline: no delivery is admitted any more, and from the
  deadline on every check reports the abort. Before the drain the process admits work and is not
  aborted.
\<close>

theorem drain_is_final:
  assumes "new_lifecycle s legacy = Inr st0" and "st = lc_run es st0" and "st' = lc_run fs st"
  shows "(lc_drain st \<longrightarrow>
           lc_drain st' \<and> lc_deadline st' = lc_deadline st \<and> \<not> fst (can_start now st') \<and>
           (\<exists>d. lc_deadline st' = Some d \<and> (d \<le> now \<longrightarrow> fst (aborted now st')) \<and>
                remaining now st' = max 0 (d - now))) \<and>
         (\<not> lc_drain st' \<longrightarrow> fst (can_start now st') \<and> \<not> fst (aborted now st'))"
proof -
  have inv: "lc_inv st'"
    unfolding assms(2,3) by (intro lc_run_inv new_lifecycle_inv [OF assms(1)])
  have com: "lc_committed st st'"
    unfolding assms(3) by (rule lc_run_committed)
  have late: "lc_drain st' \<and> lc_deadline st' = lc_deadline st \<and> \<not> fst (can_start now st') \<and>
           (\<exists>d. lc_deadline st' = Some d \<and> (d \<le> now \<longrightarrow> fst (aborted now st')) \<and>
                remaining now st' = max 0 (d - now))" if dr: "lc_drain st"
  proof -
    from dr com have d: "lc_drain st'" "lc_deadline st' = lc_deadline st"
      by (simp_all add: lc_committed_def)
    with inv obtain dl where dl: "lc_deadline st' = Some dl"
      by (auto simp: lc_inv_def)
    have r: "remaining now st' = max 0 (dl - now)"
      by (simp add: remaining_def dl)
    have c: "\<not> fst (can_start now st')"
      using can_start_iff [OF inv] d(1) by simp
    have a: "dl \<le> now \<longrightarrow> fst (aborted now st')"
      using aborted_iff [of now st'] d(1) dl by blast
    from d dl c a r show ?thesis by blast
  qed
  have early: "fst (can_start now st') \<and> \<not> fst (aborted now st')" if "\<not> lc_drain st'"
    using that can_start_iff [OF inv] aborted_iff [of now st'] inv by (simp add: lc_inv_def)
  from late early show ?thesis by blast
qed

section \<open>The drain loop ends\<close>

definition lags_ok :: "(nat \<Rightarrow> drain_round) \<Rightarrow> bool" where
  "lags_ok rounds \<longleftrightarrow>
     (\<forall>i. 0 \<le> lag_check (rounds i) \<and> 0 \<le> lag_sleep (rounds i) \<and> 0 \<le> oversleep (rounds i))"

lemma aborted_late: "lc_drain st \<Longrightarrow> lc_deadline st = Some d \<Longrightarrow> d \<le> now \<Longrightarrow> fst (aborted now st)"
  by (simp add: aborted_iff)

text \<open>A round in which the reader finds the process idle: nothing was in flight when it was read, and no thread was
  alive when it was asked. What the other threads did between the readings has happened since.\<close>

abbreviation between :: "drain_round \<Rightarrow> lc_event list" where
  "between r \<equiv> concat (map fst (round_threads r))"

lemma lc_committed_trans: "lc_committed a b \<Longrightarrow> lc_committed b c \<Longrightarrow> lc_committed a c"
  by (auto simp: lc_committed_def)

lemma lc_run_in_flight:
  "lc_in_flight (lc_run es st) = lc_in_flight st + int (count_list es Count_in) - int (count_list es Count_out)"
proof (induction es arbitrary: st)
  case (Cons e es)
  then show ?case by (cases e) (simp_all add: lc_run_def begin_drain_def aborted_def Let_def)
qed (simp add: lc_run_def)

lemma any_alive_committed: "lc_committed st (snd (any_alive ts st))"
proof (induction ts st rule: any_alive.induct)
  case (2 es alive ts st)
  then show ?case using lc_run_committed [of st es] by (auto simp: Let_def intro: lc_committed_trans)
qed (simp add: lc_committed_def)

lemma none_alive:
  "\<not> fst (any_alive ts st) \<Longrightarrow> True \<notin> set (map snd ts) \<and> snd (any_alive ts st) = lc_run (concat (map fst ts)) st"
  by (induction ts st rule: any_alive.induct) (auto simp: Let_def lc_run_def split: if_splits)

lemma read_idle_committed: "lc_committed st (snd (read_idle r st))"
  using lc_run_committed [of st "round_events r"] any_alive_committed [of "lc_run (round_events r) st" "round_threads r"]
  by (auto simp: read_idle_def Let_def case_prod_unfold intro: lc_committed_trans)

lemma read_idle_found:
  assumes "fst (read_idle r st)"
  shows "lc_in_flight (lc_run (round_events r) st) = 0 \<and> True \<notin> set (map snd (round_threads r)) \<and>
    snd (read_idle r st) = lc_run (between r) (lc_run (round_events r) st)"
  using assms none_alive [of "round_threads r" "lc_run (round_events r) st"]
  by (auto simp: read_idle_def Let_def case_prod_unfold split: if_splits)

abbreviation drain_at :: "drain_round \<Rightarrow> lifecycle \<Rightarrow> lifecycle" where
  "drain_at r st \<equiv> lc_run (check_events r) (snd (read_idle r st))"

lemma drain_at_committed: "lc_committed st (drain_at r st)"
  using read_idle_committed lc_run_committed by (rule lc_committed_trans)

text \<open>Every round that does not end the loop brings the clock a twentieth of a second, or all the
  time that is left, closer to the deadline.\<close>

lemma finish_drain_progress:
  assumes "lags_ok rounds" "lc_drain st" "lc_deadline st = Some d" "d - now \<le> of_nat k / 20"
  shows "\<exists>r. finish_drain (Suc k) rounds i now st = Some r"
  using assms(2-)
proof (induction k arbitrary: i now st)
  case 0
  let ?st = "drain_at (rounds i) st" and ?c = "now + lag_check (rounds i)"
  from 0 have s: "lc_drain ?st" "lc_deadline ?st = Some d"
    using drain_at_committed [of st "rounds i"] by (auto simp: lc_committed_def)
  moreover have "d \<le> ?c" using 0 assms(1) by (simp add: lags_ok_def add_increasing2)
  ultimately have "fst (aborted ?c ?st)" by (rule aborted_late)
  then show ?case by (auto simp: Let_def case_prod_unfold)
next
  case (Suc k)
  let ?st = "drain_at (rounds i) st" and ?c = "now + lag_check (rounds i)"
  let ?st2 = "snd (aborted ?c ?st)" and ?s = "?c + lag_sleep (rounds i)"
  let ?n = "?s + min (1 / 20) (remaining ?s ?st2) + oversleep (rounds i)"
  from Suc.prems have s: "lc_drain ?st2" "lc_deadline ?st2 = Some d"
    using drain_at_committed [of st "rounds i"] aborted_snd [of ?st ?c]
    by (auto simp: lc_committed_def)
  have lag: "0 \<le> lag_check (rounds i)" "0 \<le> lag_sleep (rounds i)" "0 \<le> oversleep (rounds i)"
    using assms(1) by (auto simp: lags_ok_def)
  have "d - ?n \<le> of_nat k / 20"
  proof (cases "1 / 20 \<le> remaining ?s ?st2")
    case True
    with lag Suc.prems(3) show ?thesis by (simp add: min_def field_simps)
  next
    case False
    then have "min (1 / 20) (remaining ?s ?st2) = remaining ?s ?st2" by simp
    moreover have "d - ?s \<le> remaining ?s ?st2" using s by (simp add: remaining_def)
    ultimately have "d - ?n \<le> 0" using lag by linarith
    then show ?thesis by (rule order_trans) simp
  qed
  then obtain r where "finish_drain (Suc k) rounds (Suc i) ?n ?st2 = Some r"
    using Suc.IH [OF s] by blast
  then show ?case
    by (subst finish_drain.simps(2))
      (cases r, auto simp: Let_def case_prod_unfold simp del: finish_drain.simps)
qed

text \<open>How the loop may end in round \<open>j\<close>.\<close>

definition drain_result :: "(nat \<Rightarrow> drain_round) \<Rightarrow> drain_end \<Rightarrow> nat \<Rightarrow> lifecycle \<Rightarrow> bool" where
  "drain_result rounds e j st' =
     (case e of
        Drained \<Rightarrow> True \<notin> set (map snd (round_threads (rounds j))) \<and>
          lc_in_flight st' = int (count_list (between (rounds j)) Count_in) - int (count_list (between (rounds j)) Count_out)
      | Exited \<Rightarrow> lc_abort st')"

lemma finish_drain_result:
  assumes "finish_drain k rounds i now st = Some (e, j, st')"
  shows "i \<le> j \<and> j < i + k \<and> drain_result rounds e j st'"
  using assms
proof (induction k arbitrary: i now st)
  case 0
  then show ?case by simp
next
  case (Suc k)
  let ?st = "drain_at (rounds i) st" and ?c = "now + lag_check (rounds i)"
  consider (empty) "fst (read_idle (rounds i) st)"
    | (exit) "\<not> fst (read_idle (rounds i) st)" "fst (aborted ?c ?st)"
    | (again) "\<not> fst (read_idle (rounds i) st)" "\<not> fst (aborted ?c ?st)"
    by blast
  then show ?case
  proof cases
    case empty
    with Suc.prems read_idle_found [OF empty] show ?thesis by (auto simp: Let_def case_prod_unfold drain_result_def lc_run_in_flight)
  next
    case exit
    moreover from exit have "lc_abort (snd (aborted ?c ?st))"
      by (simp add: aborted_def Let_def)
    ultimately show ?thesis using Suc.prems by (auto simp: Let_def case_prod_unfold drain_result_def)
  next
    case again
    with Suc.prems obtain n where "finish_drain k rounds (Suc i) n (snd (aborted ?c ?st)) = Some (e, j, st')"
      by (auto simp: Let_def case_prod_unfold)
    from Suc.IH [OF this] show ?thesis by auto
  qed
qed

text \<open>
  C21. The drain ends. Whatever the other threads do between any two readings and however long the calls take, the
  polling loop of a process whose deadline is at most 30 seconds away ends within 601 rounds. It exits the process
  only with the abort flag set. It returns only in a round in which nothing was in flight when \<open>in_flight\<close> was read
  and every consumer thread was dead when asked afterwards; what is in flight when it returns is exactly what was
  counted in, less what was counted out, between that reading and the answers of the threads.
\<close>

theorem finish_drain_ends:
  assumes "lc_drain st" and "lc_deadline st = Some d" and "d \<le> now + 30"
    and "\<forall>i. 0 \<le> lag_check (rounds i) \<and> 0 \<le> lag_sleep (rounds i) \<and> 0 \<le> oversleep (rounds i)"
  shows "\<exists>e j st'. finish_drain 601 rounds 0 now st = Some (e, j, st') \<and> j \<le> 600 \<and>
    (e = Drained \<longrightarrow> True \<notin> set (map snd (round_threads (rounds j))) \<and>
       (let es = concat (map fst (round_threads (rounds j)))
        in lc_in_flight st' = int (count_list es Count_in) - int (count_list es Count_out))) \<and>
    (e = Exited \<longrightarrow> lc_abort st')"
proof -
  have "d - now \<le> of_nat 600 / 20" using assms(3) by simp
  then have "\<exists>r. finish_drain (Suc 600) rounds 0 now st = Some r"
    using assms(1,2,4) by (intro finish_drain_progress) (auto simp: lags_ok_def)
  moreover have "Suc 600 = 601" by simp
  ultimately have "\<exists>r. finish_drain 601 rounds 0 now st = Some r"
    by (simp del: finish_drain.simps)
  then obtain e j st' where r: "finish_drain 601 rounds 0 now st = Some (e, j, st')"
    by (metis prod_cases3)
  from finish_drain_result [OF r] have "j \<le> 600" by linarith
  with r finish_drain_result [OF r] show ?thesis by (cases e) (auto simp: drain_result_def Let_def)
qed

text \<open>The readings are not one step: a consumer that submits an activity after \<open>in_flight\<close> was read and ends before it
  is asked makes the loop return with the activity in flight.\<close>

lemma submission_in_between:
  assumes "lc_in_flight st = 0"
  shows "\<exists>st'. finish_drain (Suc k) (\<lambda>_. \<lparr>round_events = [], round_threads = [([Count_in], False)], check_events = [],
      lag_check = 0, lag_sleep = 0, oversleep = 0\<rparr>) 0 now st = Some (Drained, 0, st') \<and> lc_in_flight st' = 1"
  using assms by (simp add: read_idle_def lc_run_def)

section \<open>The executor\<close>

definition in_phase :: "job_phase set \<Rightarrow> executor \<Rightarrow> nat" where
  "in_phase S ex = length (filter (\<lambda>p. p \<in> S) (ex_jobs ex))"

text \<open>The slots in use are the activities between the acquire and the release, and the metric counts
  those whose thread runs.\<close>

definition ex_inv :: "executor \<Rightarrow> bool" where
  "ex_inv ex \<longleftrightarrow> ex_free ex + in_phase {Acquired, Running, Uncounted} ex = ex_bound ex \<and>
     lc_in_flight (ex_lifecycle ex) = int (in_phase {Running} ex)"

lemma filter_update_length:
  assumes "j < length xs"
  shows "length (filter P (xs[j := y])) + (if P (xs ! j) then 1 else 0) =
         length (filter P xs) + (if P y then 1 else 0)"
  using assms
proof (induction xs arbitrary: j)
  case (Cons x xs)
  then show ?case by (cases j) (auto simp: less_Suc_eq_0_disj)
qed simp

lemma in_phase_update:
  assumes "j < length (ex_jobs ex)"
  shows "in_phase S (ex\<lparr>ex_jobs := (ex_jobs ex)[j := p]\<rparr>) + (if ex_jobs ex ! j \<in> S then 1 else 0) =
         in_phase S ex + (if p \<in> S then 1 else 0)"
  using filter_update_length [OF assms, of "\<lambda>p. p \<in> S" p] by (simp add: in_phase_def)

lemma in_phase_other [simp]:
  "in_phase S (ex\<lparr>ex_lifecycle := l\<rparr>) = in_phase S ex"
  "in_phase S (ex\<lparr>ex_free := n\<rparr>) = in_phase S ex"
  "in_phase S (ex\<lparr>ex_lifecycle := l, ex_jobs := js\<rparr>) = in_phase S (ex\<lparr>ex_jobs := js\<rparr>)"
  "in_phase S (ex\<lparr>ex_free := n, ex_jobs := js\<rparr>) = in_phase S (ex\<lparr>ex_jobs := js\<rparr>)"
  by (simp_all add: in_phase_def)

lemma in_phase_pos:
  "j < length (ex_jobs ex) \<Longrightarrow> ex_jobs ex ! j \<in> S \<Longrightarrow> 0 < in_phase S ex"
  unfolding in_phase_def by (auto simp: filter_empty_conv)

lemma lc_in_flight_apply:
  "e \<noteq> Count_in \<Longrightarrow> e \<noteq> Count_out \<Longrightarrow> lc_in_flight (lc_apply e st) = lc_in_flight st"
  by (cases e) (auto simp: lc_defs)

lemma submit_inv: "ex_inv ex \<Longrightarrow> submit ex = (r, ex') \<Longrightarrow> ex_inv ex'"
  by (auto simp: submit_def ex_inv_def in_phase_def split: if_splits)

lemma release_in_bounds:
  "ex_inv ex \<Longrightarrow> j < length (ex_jobs ex) \<Longrightarrow> ex_jobs ex ! j = Uncounted \<Longrightarrow> ex_free ex < ex_bound ex"
  using in_phase_pos [of j ex "{Acquired, Running, Uncounted}"] by (simp add: ex_inv_def)

lemma job_step_ok: "ex_inv ex \<Longrightarrow> j < length (ex_jobs ex) \<Longrightarrow> \<exists>ex'. job_step j ex = Inr ex'"
  using release_in_bounds [of ex j] by (auto simp: job_step_def split: job_phase.split)

lemma job_step_inv:
  assumes "ex_inv ex" "j < length (ex_jobs ex)" "job_step j ex = Inr ex'"
  shows "ex_inv ex'"
proof (cases "ex_jobs ex ! j")
  case Acquired
  with assms in_phase_update [OF assms(2), of "{Acquired, Running, Uncounted}" Running]
    in_phase_update [OF assms(2), of "{Running}" Running]
  show ?thesis by (auto simp: job_step_def ex_inv_def)
next
  case Running
  with assms in_phase_update [OF assms(2), of "{Acquired, Running, Uncounted}" Uncounted]
    in_phase_update [OF assms(2), of "{Running}" Uncounted]
  show ?thesis by (auto simp: job_step_def ex_inv_def)
next
  case Uncounted
  with assms release_in_bounds [OF assms(1,2)]
    in_phase_update [OF assms(2), of "{Acquired, Running, Uncounted}" Released]
    in_phase_update [OF assms(2), of "{Running}" Released]
  show ?thesis by (auto simp: job_step_def ex_inv_def)
next
  case Released
  with assms in_phase_update [OF assms(2), of "{Acquired, Running, Uncounted}" Done]
    in_phase_update [OF assms(2), of "{Running}" Done]
  show ?thesis by (auto simp: job_step_def ex_inv_def)
next
  case Done
  with assms show ?thesis by (simp add: job_step_def)
qed

lemma ex_step_inv: "ex_step ex ex' \<Longrightarrow> ex_inv ex \<Longrightarrow> ex_inv ex'"
proof (induction rule: ex_step.induct)
  case (ex_submit ex r ex')
  then show ?case by (simp add: submit_inv)
next
  case (ex_job j ex ex')
  then show ?case by (simp add: job_step_inv)
next
  case (ex_lc e ex)
  then show ?case by (simp add: ex_inv_def lc_in_flight_apply)
qed

lemma ex_step_bound: "ex_step ex ex' \<Longrightarrow> ex_bound ex' = ex_bound ex"
  by (induction rule: ex_step.induct)
    (auto simp: submit_def job_step_def split: if_splits job_phase.splits)

lemma ex_run_inv: "ex_step\<^sup>*\<^sup>* ex ex' \<Longrightarrow> ex_inv ex \<Longrightarrow> ex_inv ex' \<and> ex_bound ex' = ex_bound ex"
  by (induction rule: rtranclp_induct) (auto simp: ex_step_inv ex_step_bound)

lemma new_executor_inv: "lc_in_flight lc = 0 \<Longrightarrow> ex_inv (new_executor lc n)"
  by (simp add: new_executor_def ex_inv_def in_phase_def)

text \<open>
  The executor is bounded under every interleaving of its micro-steps. At most \<open>capacity\<close>
  activities hold a slot; the metric counts exactly the running ones; the semaphore is never released
  above its bound, so no step of an activity raises; and a submission is refused exactly when all
  slots are held.
\<close>

theorem executor_bounded:
  assumes "lc_in_flight lc = 0" and "ex_step\<^sup>*\<^sup>* (new_executor lc capacity) ex"
  shows "in_phase {Acquired, Running, Uncounted} ex \<le> capacity \<and>
    lc_in_flight (ex_lifecycle ex) = int (in_phase {Running} ex) \<and>
    (\<forall>j < length (ex_jobs ex). \<exists>ex'. job_step j ex = Inr ex') \<and>
    (fst (submit ex) = Inl (RuntimeError ''activity executor is full'') \<longleftrightarrow>
       in_phase {Acquired, Running, Uncounted} ex = capacity)"
proof -
  have inv: "ex_inv ex" and "ex_bound ex = capacity"
    using ex_run_inv [OF assms(2) new_executor_inv [OF assms(1)]] by (simp_all add: new_executor_def)
  moreover have "\<forall>j < length (ex_jobs ex). \<exists>ex'. job_step j ex = Inr ex'"
    using job_step_ok [OF inv] by blast
  ultimately show ?thesis by (auto simp: ex_inv_def submit_def)
qed

section \<open>Concrete runs\<close>

definition demo_lifecycle :: lifecycle where
  "demo_lifecycle =
     \<lparr>lc_drain = False, lc_abort = False, lc_deadline = None, lc_drain_seconds = 2,
      lc_legacy = False, lc_in_flight = 0, lc_rebalances = 0\<rparr>"

definition demo_round :: drain_round where
  "demo_round =
     \<lparr>round_events = [], round_threads = [([], True)], check_events = [], lag_check = 1, lag_sleep = 0, oversleep = 0\<rparr>"

theorem drain_is_final_witness:
  "new_lifecycle 2 False = Inr demo_lifecycle \<and>
   (let st = lc_run [Begin_drain 10] demo_lifecycle; st' = lc_run [Begin_drain 11, Rebalance] st in
    lc_drain st \<and> lc_deadline st' = Some 12 \<and> \<not> fst (can_start 11 st') \<and> fst (aborted 12 st'))"
proof -
  have n: "new_lifecycle 2 False = Inr demo_lifecycle"
    by (simp add: new_lifecycle_def demo_lifecycle_def)
  show ?thesis
    using drain_is_final [OF n refl refl, where es = "[Begin_drain 10]" and fs = "[Begin_drain 11, Rebalance]"
        and now = 11] n
    by (simp add: lc_run_def lc_defs demo_lifecycle_def)
qed

theorem finish_drain_ends_witness:
  "\<exists>e j st'. finish_drain 601 (\<lambda>_. demo_round) 0 10 (begin_drain 10 demo_lifecycle) = Some (e, j, st') \<and>
     j \<le> 600"
  using finish_drain_ends [of "begin_drain 10 demo_lifecycle" 12 10 "\<lambda>_. demo_round"]
  by (auto simp: begin_drain_def demo_lifecycle_def demo_round_def)

theorem executor_bounded_witness:
  "fst (submit (snd (submit (new_executor demo_lifecycle 1)))) =
     Inl (RuntimeError ''activity executor is full'')"
proof -
  let ?e = "new_executor demo_lifecycle 1"
  have "ex_step ?e (snd (submit ?e))" by (rule ex_submit [OF prod.collapse [symmetric]])
  then have "ex_step\<^sup>*\<^sup>* ?e (snd (submit ?e))" by simp
  then have "fst (submit (snd (submit ?e))) = Inl (RuntimeError ''activity executor is full'') \<longleftrightarrow>
       in_phase {Acquired, Running, Uncounted} (snd (submit ?e)) = 1"
    using executor_bounded [of demo_lifecycle 1] by (simp add: demo_lifecycle_def)
  then show ?thesis
    by (simp add: submit_def new_executor_def in_phase_def)
qed

end
