(* ===== verification/Witness.thy ===== *)
theory Witness
  imports Prelude Sha256
begin

text \<open>
  The external execution ledger of \<^verbatim>\<open>src/python/workers/witness.py\<close>: one append-only file per
  process session, counters and a running digest, exported by \<open>inventory\<close>.

  What the operating system does with a write is an input of each append. The file of a session is
  named by a fresh \<open>uuid4\<close>, so it starts empty. The running digest is carried as the bytes fed to it;
  \<^verbatim>\<open>hexdigest()\<close> is \<^const>\<open>sha256\<close> of them.
\<close>

section \<open>The ledger\<close>

text \<open>The clock readings of one append: \<^verbatim>\<open>datetime.now(UTC).isoformat()\<close> and \<^verbatim>\<open>time.monotonic_ns()\<close>.\<close>

type_synonym stamp = "string \<times> int"

text \<open>The outcome of \<^verbatim>\<open>open\<close>, \<^verbatim>\<open>write\<close> and \<^verbatim>\<open>fsync\<close>: the open fails, the write raises before any byte, or
  the write takes a number of bytes and the sync succeeds or raises.\<close>

datatype io_outcome = Open_fails | Write_fails | Write_takes nat bool

record witness =
  w_session :: string
  w_pod_name :: string
  w_pod_uid :: string
  w_file :: "byte list"
  w_attempted :: nat
  w_written :: nat
  w_errors :: nat
  w_digest :: "byte list"

definition event_line :: "string \<Rightarrow> string \<Rightarrow> string \<Rightarrow> nat \<Rightarrow> stamp \<Rightarrow> dict \<Rightarrow> byte list" where
  "event_line session pod_name pod_uid sequence stamp event =
     str_encode (json_dumps '','' '':'' (JObj
       (dict_set ''monotonic_ns'' (JInt (snd stamp))
       (dict_set ''timestamp'' (JStr (fst stamp))
       (dict_set ''sequence'' (JInt (int sequence))
       (dict_set ''pod_uid'' (JStr pod_uid)
       (dict_set ''pod_name'' (JStr pod_name)
       (dict_set ''session'' (JStr session) event))))))) @ [char_of (10 :: nat)])"

text \<open>\<open>_append\<close>: the attempt is counted first; only a complete and synced write counts as written and
  enters the digest, every exception counts as an error and is swallowed.\<close>

definition append_event :: "stamp \<Rightarrow> io_outcome \<Rightarrow> dict \<Rightarrow> witness \<Rightarrow> witness" where
  "append_event stamp io event w0 =
     (let w = w0\<lparr>w_attempted := w_attempted w0 + 1\<rparr>;
          encoded = event_line (w_session w) (w_pod_name w) (w_pod_uid w) (w_attempted w) stamp event
      in case io of
           Open_fails \<Rightarrow> w\<lparr>w_errors := w_errors w + 1\<rparr>
         | Write_fails \<Rightarrow> w\<lparr>w_errors := w_errors w + 1\<rparr>
         | Write_takes n synced \<Rightarrow>
             let w1 = w\<lparr>w_file := w_file w @ take n encoded\<rparr>
             in if n \<noteq> length encoded then w1\<lparr>w_errors := w_errors w1 + 1\<rparr>
                else if \<not> synced then w1\<lparr>w_errors := w_errors w1 + 1\<rparr>
                else w1\<lparr>w_digest := w_digest w1 @ encoded, w_written := w_written w1 + 1\<rparr>)"

definition new_witness :: "string \<Rightarrow> string \<Rightarrow> string \<Rightarrow> stamp \<Rightarrow> io_outcome \<Rightarrow> witness" where
  "new_witness session pod_name pod_uid stamp io =
     append_event stamp io [(''event'', JStr ''session'')]
       \<lparr>w_session = session, w_pod_name = pod_name, w_pod_uid = pod_uid, w_file = [],
        w_attempted = 0, w_written = 0, w_errors = 0, w_digest = []\<rparr>"

definition begin_invocation ::
  "string \<Rightarrow> stamp \<Rightarrow> io_outcome \<Rightarrow> dict \<Rightarrow> witness \<Rightarrow> dict \<times> witness" where
  "begin_invocation uuid stamp io flds w =
     (let invocation = dict_set ''invocation_id'' (JStr uuid) flds
      in (invocation, append_event stamp io (dict_set ''event'' (JStr ''start'') invocation) w))"

definition end_invocation ::
  "stamp \<Rightarrow> io_outcome \<Rightarrow> dict \<Rightarrow> string \<Rightarrow> witness \<Rightarrow> witness" where
  "end_invocation stamp io invocation outcome w =
     append_event stamp io
       (dict_set ''outcome'' (JStr outcome) (dict_set ''event'' (JStr ''end'') invocation)) w"

definition inventory_complete :: "witness \<Rightarrow> bool" where
  "inventory_complete w \<longleftrightarrow> w_errors w = 0 \<and> w_attempted w = w_written w"

definition inventory_sha256 :: "witness \<Rightarrow> string" where
  "inventory_sha256 w = hex (sha256 (w_digest w))"

definition inventory :: "witness \<Rightarrow> json" where
  "inventory w = JObj
     [(''session'', JStr (w_session w)), (''pod_name'', JStr (w_pod_name w)),
      (''pod_uid'', JStr (w_pod_uid w)), (''file'', JStr (w_session w @ ''.jsonl'')),
      (''attempted'', JInt (int (w_attempted w))), (''written'', JInt (int (w_written w))),
      (''errors'', JInt (int (w_errors w))), (''sha256'', JStr (inventory_sha256 w)),
      (''complete'', JBool (inventory_complete w))]"

text \<open>The process-wide ledger: created by the first call when the directory is configured, and the
  same object afterwards.\<close>

definition configured_witness ::
  "(string \<Rightarrow> string option) \<Rightarrow> string \<Rightarrow> stamp \<Rightarrow> io_outcome \<Rightarrow> witness option \<Rightarrow>
   bool \<times> witness option" where
  "configured_witness env uuid stamp io global =
     (let var = (\<lambda>k d. case env k of Some v \<Rightarrow> v | None \<Rightarrow> d)
      in if var ''DUR053_WITNESS_DIR'' '''' = '''' then (False, global)
         else (True, Some (case global of
                 Some w \<Rightarrow> w
               | None \<Rightarrow> new_witness uuid (var ''POD_NAME'' (var ''WORKER_ID'' ''unknown''))
                           (var ''POD_UID'' (var ''HOSTNAME'' ''unknown'')) stamp io)))"

section \<open>Runs of the ledger\<close>

text \<open>The calls of a process, in the order the lock serialises them.\<close>

datatype witness_op =
    Begin_op string dict stamp io_outcome
  | End_op dict string stamp io_outcome

fun witness_do :: "witness_op \<Rightarrow> witness \<Rightarrow> witness" where
  "witness_do (Begin_op uuid flds stamp io) w = snd (begin_invocation uuid stamp io flds w)"
| "witness_do (End_op invocation outcome stamp io) w = end_invocation stamp io invocation outcome w"

definition witness_run :: "witness_op list \<Rightarrow> witness \<Rightarrow> witness" where
  "witness_run ops w = fold witness_do ops w"

text \<open>What each call appends.\<close>

fun op_append :: "witness_op \<Rightarrow> stamp \<times> io_outcome \<times> dict" where
  "op_append (Begin_op uuid flds stamp io) =
     (stamp, io, dict_set ''event'' (JStr ''start'') (dict_set ''invocation_id'' (JStr uuid) flds))"
| "op_append (End_op invocation outcome stamp io) =
     (stamp, io, dict_set ''outcome'' (JStr outcome) (dict_set ''event'' (JStr ''end'') invocation))"

definition appends :: "(stamp \<times> io_outcome \<times> dict) list \<Rightarrow> witness \<Rightarrow> witness" where
  "appends = fold (\<lambda>(stamp, io, event). append_event stamp io event)"

text \<open>The lines of a list of appends, numbered from \<open>n\<close>, and whether each of them was written and
  synced in full.\<close>

fun lines_from ::
  "string \<Rightarrow> string \<Rightarrow> string \<Rightarrow> nat \<Rightarrow> (stamp \<times> io_outcome \<times> dict) list \<Rightarrow> byte list list" where
  "lines_from s p u n [] = []"
| "lines_from s p u n ((stamp, io, event) # xs) =
     event_line s p u n stamp event # lines_from s p u (Suc n) xs"

definition written_ok :: "byte list \<Rightarrow> io_outcome \<Rightarrow> bool" where
  "written_ok line io \<longleftrightarrow> io = Write_takes (length line) True"

definition all_written :: "byte list list \<Rightarrow> (stamp \<times> io_outcome \<times> dict) list \<Rightarrow> bool" where
  "all_written ls xs \<longleftrightarrow> list_all2 (\<lambda>line (stamp, io, event). written_ok line io) ls xs"

section \<open>Correctness\<close>

lemma witness_do_append: "witness_do op = (case op_append op of (stamp, io, event) \<Rightarrow> append_event stamp io event)"
  by (cases op) (auto simp: fun_eq_iff begin_invocation_def end_invocation_def Let_def)

lemma witness_run_appends: "witness_run ops w = appends (map op_append ops) w"
  unfolding witness_run_def appends_def
  by (induction ops arbitrary: w) (simp_all add: witness_do_append)

lemma lines_from_length [simp]: "length (lines_from s p u n xs) = length xs"
  by (induction s p u n xs rule: lines_from.induct) auto

lemma append_event_fields [simp]:
  "w_session (append_event st io ev w) = w_session w"
  "w_pod_name (append_event st io ev w) = w_pod_name w"
  "w_pod_uid (append_event st io ev w) = w_pod_uid w"
  "w_attempted (append_event st io ev w) = Suc (w_attempted w)"
  by (auto simp: append_event_def Let_def split: io_outcome.split)

lemma append_event_ok:
  assumes "written_ok (event_line (w_session w) (w_pod_name w) (w_pod_uid w) (Suc (w_attempted w)) st ev) io"
  shows "append_event st io ev w =
    (let line = event_line (w_session w) (w_pod_name w) (w_pod_uid w) (Suc (w_attempted w)) st ev
     in w\<lparr>w_attempted := Suc (w_attempted w), w_file := w_file w @ line,
           w_digest := w_digest w @ line, w_written := Suc (w_written w)\<rparr>)"
  using assms by (simp add: append_event_def written_ok_def Let_def)

lemma append_event_error:
  assumes "\<not> written_ok (event_line (w_session w) (w_pod_name w) (w_pod_uid w) (Suc (w_attempted w)) st ev) io"
  shows "w_errors (append_event st io ev w) = Suc (w_errors w)"
    and "w_written (append_event st io ev w) = w_written w"
    and "w_digest (append_event st io ev w) = w_digest w"
  using assms by (auto simp: append_event_def written_ok_def Let_def split: io_outcome.splits)

lemma append_event_counts:
  "w_attempted w = w_written w + w_errors w \<Longrightarrow>
   w_attempted (append_event st io ev w) =
     w_written (append_event st io ev w) + w_errors (append_event st io ev w)"
  by (auto simp: append_event_def Let_def split: io_outcome.splits)

lemma appends_Cons:
  "appends ((st, io, ev) # xs) w = appends xs (append_event st io ev w)"
  by (simp add: appends_def)

lemma appends_counts:
  "w_attempted w = w_written w + w_errors w \<Longrightarrow>
   w_attempted (appends xs w) = w_written (appends xs w) + w_errors (appends xs w)"
proof (induction xs arbitrary: w)
  case (Cons x xs)
  then show ?case by (cases x) (simp only: appends_Cons append_event_counts)
qed (simp add: appends_def)

lemma appends_attempted: "w_attempted (appends xs w) = w_attempted w + length xs"
proof (induction xs arbitrary: w)
  case (Cons x xs)
  then show ?case by (cases x) (simp add: appends_Cons)
qed (simp add: appends_def)

lemma appends_errors_mono: "w_errors w \<le> w_errors (appends xs w)"
proof (induction xs arbitrary: w)
  case (Cons x xs)
  obtain st io ev where x: "x = (st, io, ev)" by (cases x)
  have "w_errors w \<le> w_errors (append_event st io ev w)"
    by (auto simp: append_event_def Let_def split: io_outcome.splits)
  with Cons [of "append_event st io ev w"] x show ?case by (simp add: appends_Cons)
qed (simp add: appends_def)

text \<open>No error happens exactly when every line was written in full; then file and digest grow by the
  same lines.\<close>

lemma appends_lines:
  fixes w :: witness
  defines "ls \<equiv> \<lambda>w xs. lines_from (w_session w) (w_pod_name w) (w_pod_uid w) (Suc (w_attempted w)) xs"
  shows "w_errors (appends xs w) = w_errors w \<longleftrightarrow> all_written (ls w xs) xs"
    and "all_written (ls w xs) xs \<Longrightarrow>
      w_file (appends xs w) = w_file w @ concat (ls w xs) \<and>
      w_digest (appends xs w) = w_digest w @ concat (ls w xs)"
proof -
  have "(w_errors (appends xs w) = w_errors w \<longleftrightarrow> all_written (ls w xs) xs) \<and>
    (all_written (ls w xs) xs \<longrightarrow>
      w_file (appends xs w) = w_file w @ concat (ls w xs) \<and>
      w_digest (appends xs w) = w_digest w @ concat (ls w xs))"
  proof (induction xs arbitrary: w)
    case Nil
    then show ?case by (simp add: appends_def all_written_def ls_def)
  next
    case (Cons x xs)
    obtain st io ev where x: "x = (st, io, ev)" by (cases x)
    let ?l = "event_line (w_session w) (w_pod_name w) (w_pod_uid w) (Suc (w_attempted w)) st ev"
    let ?w = "append_event st io ev w"
    have l: "ls w (x # xs) = ?l # ls ?w xs" by (simp add: ls_def x)
    show ?case
    proof (cases "written_ok ?l io")
      case True
      then have "w_errors ?w = w_errors w" "w_file ?w = w_file w @ ?l" "w_digest ?w = w_digest w @ ?l"
        by (simp_all add: append_event_ok Let_def)
      with Cons [of ?w] True show ?thesis
        unfolding l unfolding x appends_Cons by (simp add: all_written_def)
    next
      case False
      then have "w_errors ?w = Suc (w_errors w)" by (rule append_event_error)
      with appends_errors_mono [of ?w xs] False show ?thesis
        unfolding l unfolding x appends_Cons by (simp add: all_written_def)
    qed
  qed
  then show "w_errors (appends xs w) = w_errors w \<longleftrightarrow> all_written (ls w xs) xs"
    and "all_written (ls w xs) xs \<Longrightarrow>
      w_file (appends xs w) = w_file w @ concat (ls w xs) \<and>
      w_digest (appends xs w) = w_digest w @ concat (ls w xs)"
    by blast+
qed

definition session_appends :: "stamp \<Rightarrow> io_outcome \<Rightarrow> witness_op list \<Rightarrow> (stamp \<times> io_outcome \<times> dict) list" where
  "session_appends stamp io ops = (stamp, io, [(''event'', JStr ''session'')]) # map op_append ops"

lemma witness_run_session:
  "witness_run ops (new_witness s p u stamp io) =
     appends (session_appends stamp io ops)
       \<lparr>w_session = s, w_pod_name = p, w_pod_uid = u, w_file = [],
        w_attempted = 0, w_written = 0, w_errors = 0, w_digest = []\<rparr>"
  by (simp add: witness_run_appends session_appends_def appends_Cons new_witness_def)

text \<open>
  C22. The ledger cannot silently lose evidence. Every call is counted, as written or as an error. The
  inventory reports \<open>complete\<close> exactly when every single line, the session header included, was
  written in full and synced; then the file consists of precisely those lines, in order and numbered
  from one without gaps, and the exported digest is the digest of the file.
\<close>

theorem inventory_complete_iff:
  fixes ops :: "witness_op list" and s p u :: string and stamp :: stamp and io :: io_outcome
  defines "w \<equiv> witness_run ops (new_witness s p u stamp io)"
  defines "xs \<equiv> session_appends stamp io ops"
  shows "w_attempted w = Suc (length ops) \<and> w_attempted w = w_written w + w_errors w \<and>
    (inventory_complete w \<longleftrightarrow> all_written (lines_from s p u 1 xs) xs) \<and>
    (inventory_complete w \<longrightarrow>
       w_file w = concat (lines_from s p u 1 xs) \<and> inventory_sha256 w = hex (sha256 (w_file w)))"
proof -
  let ?w0 = "\<lparr>w_session = s, w_pod_name = p, w_pod_uid = u, w_file = [],
        w_attempted = 0, w_written = 0, w_errors = 0, w_digest = []\<rparr>"
  have w: "w = appends xs ?w0" unfolding w_def xs_def by (rule witness_run_session)
  have a: "w_attempted w = Suc (length ops)"
    unfolding w appends_attempted by (simp add: xs_def session_appends_def)
  have c: "w_attempted w = w_written w + w_errors w"
    unfolding w by (rule appends_counts) simp
  have i: "inventory_complete w \<longleftrightarrow> all_written (lines_from s p u 1 xs) xs"
    using appends_lines(1) [of xs ?w0] c by (auto simp: inventory_complete_def w)
  have "w_file w = concat (lines_from s p u 1 xs) \<and> w_digest w = concat (lines_from s p u 1 xs)"
    if "inventory_complete w"
    using appends_lines(2) [of ?w0 xs] that i by (simp add: w)
  with a c i show ?thesis by (simp add: inventory_sha256_def)
qed

text \<open>A second call of \<open>configured_witness\<close> in the same environment finds the first ledger.\<close>

lemma configured_witness_once:
  "snd (configured_witness env uuid' stamp' io' (snd (configured_witness env uuid stamp io g))) =
   snd (configured_witness env uuid stamp io g)"
  by (simp add: configured_witness_def Let_def)

theorem inventory_complete_iff_witness:
  "(let line = event_line ''s'' ''p'' ''u'' 1 (''t'', 1) [(''event'', JStr ''session'')];
        w = witness_run [] (new_witness ''s'' ''p'' ''u'' (''t'', 1) (Write_takes (length line) True))
    in inventory_complete w \<and> w_file w = line \<and> inventory_sha256 w = hex (sha256 line)) \<and>
   \<not> inventory_complete (witness_run [Begin_op ''i'' [] (''t'', 2) (Write_takes 3 True)]
       (new_witness ''s'' ''p'' ''u'' (''t'', 1) Open_fails))"
proof -
  define line where "line = event_line ''s'' ''p'' ''u'' 1 (''t'', 1) [(''event'', JStr ''session'')]"
  have ok: "lines_from ''s'' ''p'' ''u'' 1 (session_appends (''t'', 1) (Write_takes (length line) True) [])
      = [line]"
    by (simp add: session_appends_def line_def)
  have "all_written [line] (session_appends (''t'', 1) (Write_takes (length line) True) [])"
    by (simp add: all_written_def session_appends_def written_ok_def)
  then have "inventory_complete w \<and> w_file w = line \<and> inventory_sha256 w = hex (sha256 line)"
    if "w = witness_run [] (new_witness ''s'' ''p'' ''u'' (''t'', 1) (Write_takes (length line) True))" for w
    using inventory_complete_iff [of "[]" "''s''" "''p''" "''u''" "(''t'', 1)" "Write_takes (length line) True"]
    unfolding that ok by simp
  moreover have "\<not> inventory_complete (witness_run [Begin_op ''i'' [] (''t'', 2) (Write_takes 3 True)]
       (new_witness ''s'' ''p'' ''u'' (''t'', 1) Open_fails))"
    using inventory_complete_iff [of "[Begin_op ''i'' [] (''t'', 2) (Write_takes 3 True)]"
        "''s''" "''p''" "''u''" "(''t'', 1)" Open_fails]
    by (simp add: all_written_def session_appends_def written_ok_def)
  ultimately show ?thesis by (simp add: line_def Let_def)
qed

end
