(* ===== verification/Control.thy ===== *)
theory Control
  imports Prelude
begin

text \<open>
  The HTTP control client of \<^verbatim>\<open>src/python/workers/control.py\<close>: request construction, the projected
  token, the classification of outcomes, and the claim, heartbeat and result calls.

  The control API and the network are the parameter \<open>http\<close>: the outcome of a request may depend on
  everything sent before. So is the token file, which the cluster rewrites while the process runs. The
  state of the client's connection is the list of requests sent.
\<close>

section \<open>Errors\<close>

record control_error =
  ce_status :: int
  ce_code :: string
  ce_message :: string
  ce_operation :: string
  ce_retry_count :: int

datatype ctl_exn = Control control_error | Builtin exn

definition ControlError :: "int \<Rightarrow> string \<Rightarrow> string \<Rightarrow> control_error" where
  "ControlError status code message =
     \<lparr>ce_status = status, ce_code = code, ce_message = message, ce_operation = '''', ce_retry_count = 0\<rparr>"

definition control_raises :: "int \<Rightarrow> string \<Rightarrow> string \<Rightarrow> ctl_exn" where
  "control_raises status code message = Control (ControlError status code message)"

definition builtin :: "exn + 'a \<Rightarrow> ctl_exn + 'a" where
  "builtin r = (case r of Inl e \<Rightarrow> Inl (Builtin e) | Inr x \<Rightarrow> Inr x)"

lemma builtin_simps [simp]: "builtin (Inl e) = Inl (Builtin e)" "builtin (Inr x) = Inr x"
  by (simp_all add: builtin_def)

lemma builtin_Inr [res_simps]: "builtin r = Inr x \<longleftrightarrow> r = Inr x"
  by (cases r) auto

section \<open>Requests and outcomes\<close>

record request =
  rq_url :: string
  rq_data :: string
  rq_headers :: "(string \<times> string) list"
  rq_timeout :: rat

text \<open>
  What \<^verbatim>\<open>urlopen\<close> and \<^verbatim>\<open>json.loads\<close> of its body yield: a response, an \<open>HTTPError\<close> with status, body
  and reason, a \<open>URLError\<close> or \<open>TimeoutError\<close>, or another exception of the transport. A body that
  does not decode is \<open>None\<close>.
\<close>

datatype http_outcome =
    Http_response "json option"
  | Http_error int "json option" string
  | Url_error string
  | Transport_raises exn

datatype token_source = No_token_file | Token_unreadable | Token_text string

type_synonym token_env = "request list \<Rightarrow> token_source"
type_synonym http_env = "request list \<Rightarrow> request \<Rightarrow> http_outcome"
type_synonym 'a ctl = "(request list, ctl_exn, 'a) sm"

record claim =
  attempt_number :: int
  claim_token :: string
  effect_class :: string
  heartbeat_deadline :: string

record client =
  base_url :: string
  client_timeout :: rat
  traceparent :: string

definition new_client :: "string \<Rightarrow> client" where
  "new_client url = \<lparr>base_url = rstrip_char (CHR ''/'') url, client_timeout = 10, traceparent = ''''\<rparr>"

section \<open>One request\<close>

text \<open>The token of the projected file; an unreadable file, undecodable text and an empty token are all
  the same refusal.\<close>

definition auth_header :: "token_source \<Rightarrow> ctl_exn + (string \<times> string) list" where
  "auth_header src =
     (let unavailable = control_raises 401 ''TOKEN_UNAVAILABLE'' ''projected token unavailable''
      in case src of
           No_token_file \<Rightarrow> Inr []
         | Token_unreadable \<Rightarrow> Inl unavailable
         | Token_text text \<Rightarrow>
             (let token = strip text
              in if token = '''' then Inl unavailable
                 else Inr [(''Authorization'', ''Bearer '' @ token)]))"

definition build_request ::
  "client \<Rightarrow> token_source \<Rightarrow> rat \<Rightarrow> string \<Rightarrow> dict \<Rightarrow> ctl_exn + request" where
  "build_request c src tmo path body =
     (let headers = [(''Content-Type'', ''application/json'')] @
            (if traceparent c = '''' then [] else [(''traceparent'', traceparent c)])
      in rbind (auth_header src) (\<lambda>auth. Inr
           \<lparr>rq_url = base_url c @ path,
            rq_data = json_dumps_raw '','' '':'' (JObj body),
            rq_headers = headers @ auth,
            rq_timeout = tmo\<rparr>))"

text \<open>\<^verbatim>\<open>x.get(k, default)\<close> on a decoded value, which only a dict has.\<close>

definition get_attr :: "json \<Rightarrow> string \<Rightarrow> json \<Rightarrow> json res" where
  "get_attr v k d =
     (case v of JObj m \<Rightarrow> Inr (case map_of m k of Some x \<Rightarrow> x | None \<Rightarrow> d)
      | _ \<Rightarrow> Inl (AttributeError ''get''))"

definition read_outcome :: "http_outcome \<Rightarrow> ctl_exn + dict" where
  "read_outcome out =
     (case out of
        Http_response None \<Rightarrow> Inl (Builtin (ValueError ''JSONDecodeError''))
      | Http_response (Some v) \<Rightarrow>
          (case v of JObj d \<Rightarrow> Inr d
           | _ \<Rightarrow> Inl (control_raises 502 ''INVALID_CONTROL_RESPONSE''
                        ''control response was not an object''))
      | Http_error code body reason \<Rightarrow>
          (let decoded = (case body of Some v \<Rightarrow> v | None \<Rightarrow> JObj [])
           in rbind (builtin (get_attr decoded ''error'' (JObj []))) (\<lambda>detail.
              rbind (builtin (get_attr detail ''code'' (JStr ''HTTP_ERROR''))) (\<lambda>c.
              rbind (builtin (get_attr detail ''message'' (JStr reason))) (\<lambda>m.
              Inl (control_raises code (py_str c) (py_str m))))))
      | Url_error message \<Rightarrow> Inl (control_raises 503 ''CONTROL_UNAVAILABLE'' message)
      | Transport_raises e \<Rightarrow> Inl (Builtin e))"

definition post ::
  "token_env \<Rightarrow> http_env \<Rightarrow> client \<Rightarrow> rat \<Rightarrow> string \<Rightarrow> dict \<Rightarrow> dict ctl" where
  "post tok http c tmo path body sent =
     (case build_request c (tok sent) tmo path body of
        Inl e \<Rightarrow> (Inl e, sent)
      | Inr rq \<Rightarrow> (read_outcome (http sent rq), sent @ [rq]))"

section \<open>The protocol calls\<close>

definition control_path :: "string \<Rightarrow> string \<Rightarrow> int \<Rightarrow> string \<Rightarrow> string res" where
  "control_path workflow_id node_id iteration action =
     (if workflow_id = '''' \<or> node_id = '''' \<or> CHR ''/'' \<in> set workflow_id \<or> CHR ''/'' \<in> set node_id
      then Inl (ValueError ''workflow_id and node_id must be non-empty path-safe IDs'')
      else if iteration < 0 then Inl (ValueError ''iteration must be non-negative'')
      else Inr (''/v1/workflows/'' @ workflow_id @ ''/nodes/'' @ node_id @ ''/iterations/'' @
                show_int iteration @ ''/'' @ action))"

text \<open>
  The three calls are methods of the base class that go through \<^verbatim>\<open>self._post\<close>, which
  \<open>RetryingControl\<close> overrides: the post is their parameter, over whatever state it has.
\<close>

definition claim_body :: "string \<Rightarrow> string \<Rightarrow> int \<Rightarrow> int \<Rightarrow> dict" where
  "claim_body worker_id request_id attempt_lease_ms expected_attempt =
     [(''worker_id'', JStr worker_id), (''request_id'', JStr request_id),
      (''attempt_lease_ms'', JInt attempt_lease_ms), (''expected_attempt'', JInt expected_attempt)]"

definition read_claim :: "dict \<Rightarrow> claim res" where
  "read_claim d =
     rbind (dict_item ''attempt_number'' d) (\<lambda>n.
     rbind (py_int_json n) (\<lambda>number.
     rbind (dict_item ''claim_token'' d) (\<lambda>token.
     rbind (dict_item ''effect_class'' d) (\<lambda>effect.
     rbind (dict_item ''heartbeat_deadline'' d) (\<lambda>deadline.
     Inr \<lparr>attempt_number = number, claim_token = py_str token, effect_class = py_str effect,
          heartbeat_deadline = py_str deadline\<rparr>)))))"

definition claim_call ::
  "(string \<Rightarrow> dict \<Rightarrow> ('s, ctl_exn, dict) sm) \<Rightarrow> string \<Rightarrow> string \<Rightarrow> int \<Rightarrow> string \<Rightarrow> string \<Rightarrow> int \<Rightarrow> int \<Rightarrow>
   ('s, ctl_exn, claim) sm" where
  "claim_call pst workflow_id node_id iteration worker_id request_id attempt_lease_ms expected_attempt =
     sbind (slift (builtin (control_path workflow_id node_id iteration ''claim''))) (\<lambda>path.
     sbind (pst path (claim_body worker_id request_id attempt_lease_ms expected_attempt)) (\<lambda>response.
     slift (builtin (read_claim response))))"

definition heartbeat_call ::
  "(string \<Rightarrow> dict \<Rightarrow> ('s, ctl_exn, dict) sm) \<Rightarrow> string \<Rightarrow> string \<Rightarrow> int \<Rightarrow> int \<Rightarrow> string \<Rightarrow> int \<Rightarrow>
   ('s, ctl_exn, string) sm" where
  "heartbeat_call pst workflow_id node_id iteration number token extension_ms =
     sbind (slift (builtin (control_path workflow_id node_id iteration ''heartbeat''))) (\<lambda>path.
     sbind (pst path [(''attempt_number'', JInt number), (''claim_token'', JStr token),
                      (''extension_ms'', JInt extension_ms)]) (\<lambda>response.
     slift (builtin (rbind (dict_item ''heartbeat_deadline'' response) (\<lambda>v. Inr (py_str v))))))"

definition result_body :: "int \<Rightarrow> string \<Rightarrow> string \<Rightarrow> json \<Rightarrow> string \<Rightarrow> string \<Rightarrow> dict" where
  "result_body number token attempt_state payload event_type reconciliation_ref =
     [(''attempt_number'', JInt number), (''claim_token'', JStr token),
      (''attempt_state'', JStr attempt_state), (''payload'', payload)] @
     (if event_type = '''' then [] else [(''event_type'', JStr event_type)]) @
     (if reconciliation_ref = '''' then [] else [(''reconciliation_ref'', JStr reconciliation_ref)])"

definition result_call ::
  "(string \<Rightarrow> dict \<Rightarrow> ('s, ctl_exn, dict) sm) \<Rightarrow> string \<Rightarrow> string \<Rightarrow> int \<Rightarrow> int \<Rightarrow> string \<Rightarrow> string \<Rightarrow>
   json \<Rightarrow> string \<Rightarrow> string \<Rightarrow> ('s, ctl_exn, dict) sm" where
  "result_call pst workflow_id node_id iteration number token attempt_state payload event_type
     reconciliation_ref =
     sbind (slift (builtin (control_path workflow_id node_id iteration ''result''))) (\<lambda>path.
     pst path (result_body number token attempt_state payload event_type reconciliation_ref))"

section \<open>Paths\<close>

lemma show_int_no_slash: "0 \<le> i \<Longrightarrow> CHR ''/'' \<notin> set (show_int i)"
  using show_nat_digits slash_not_digit by (fastforce simp: show_int_def)

lemma split_on_const:
  "split_on (CHR ''/'') (''/v1/workflows/'' @ s) = [] # ''v1'' # ''workflows'' # split_on (CHR ''/'') s"
  "split_on (CHR ''/'') (''/nodes/'' @ s) = [] # ''nodes'' # split_on (CHR ''/'') s"
  "split_on (CHR ''/'') (''/iterations/'' @ s) = [] # ''iterations'' # split_on (CHR ''/'') s"
  by simp_all

text \<open>
  Paths are unambiguous. A path is built exactly for non-empty identifiers without a slash and a
  non-negative iteration; splitting it at the slashes, as the server does, gives back the workflow, the
  node, the iteration and the action, so requests about different nodes, iterations or actions never
  share a path.
\<close>

theorem control_path_roundtrip:
  assumes "CHR ''/'' \<notin> set action"
  shows "case control_path w n i action of
      Inl e \<Rightarrow> w = '''' \<or> n = '''' \<or> CHR ''/'' \<in> set w \<or> CHR ''/'' \<in> set n \<or> i < 0
    | Inr p \<Rightarrow> w \<noteq> '''' \<and> n \<noteq> '''' \<and> 0 \<le> i \<and>
        split_on (CHR ''/'') p =
          ['''', ''v1'', ''workflows'', w, ''nodes'', n, ''iterations'', show_int i, action] \<and>
        py_int (show_int i) = Some i"
proof -
  have "split_on (CHR ''/'') (''/v1/workflows/'' @ w @ ''/nodes/'' @ n @ ''/iterations/'' @
          show_int i @ ''/'' @ action) =
        ['''', ''v1'', ''workflows'', w, ''nodes'', n, ''iterations'', show_int i, action]"
    if "CHR ''/'' \<notin> set w" "CHR ''/'' \<notin> set n" "0 \<le> i"
    using that assms show_int_no_slash [of i] by (simp add: split_on_first split_on_none)
  then show ?thesis by (auto simp: control_path_def py_int_show_int)
qed

section \<open>Requests\<close>

text \<open>
  What a post puts on the wire. When a token file is configured and yields no token, nothing is
  sent and the call fails with 401. Otherwise exactly one request is sent, to the base URL and path,
  with the body as compact JSON, with the stripped token as its bearer when a file is configured and no
  authorization otherwise, and the outcome of that request decides the result.
\<close>

theorem post_wire:
  assumes "post tok http c tmo path body sent = (r, sent')"
  shows "(\<exists>rq. sent' = sent @ [rq] \<and> r = read_outcome (http sent rq) \<and>
            rq_url rq = base_url c @ path \<and> rq_data rq = json_dumps_raw '','' '':'' (JObj body) \<and>
            (case tok sent of
               No_token_file \<Rightarrow> map_of (rq_headers rq) ''Authorization'' = None
             | Token_unreadable \<Rightarrow> False
             | Token_text t \<Rightarrow> strip t \<noteq> '''' \<and>
                 map_of (rq_headers rq) ''Authorization'' = Some (''Bearer '' @ strip t))) \<or>
         (sent' = sent \<and> r = Inl (control_raises 401 ''TOKEN_UNAVAILABLE'' ''projected token unavailable'') \<and>
            (tok sent = Token_unreadable \<or> (\<exists>t. tok sent = Token_text t \<and> strip t = '''')))"
  using assms
  by (cases "tok sent")
    (auto simp: post_def build_request_def auth_header_def Let_def split: if_splits)

section \<open>Classification of outcomes\<close>

text \<open>An error body the client understands: an object whose \<open>error\<close>, if it has one, is an object.\<close>

definition error_object :: "json \<Rightarrow> bool" where
  "error_object v \<longleftrightarrow>
     (case v of
        JObj m \<Rightarrow> (case map_of m ''error'' of None \<Rightarrow> True | Some (JObj _) \<Rightarrow> True | _ \<Rightarrow> False)
      | _ \<Rightarrow> False)"

lemma get_attr_JObj [simp]: "get_attr (JObj m) k d = Inr (case map_of m k of Some x \<Rightarrow> x | None \<Rightarrow> d)"
  by (simp add: get_attr_def)

lemma get_attr_other: "as_dict v = None \<Longrightarrow> get_attr v k d = Inl (AttributeError ''get'')"
  by (cases v) (auto simp: get_attr_def)

lemma error_object_read:
  assumes "error_object v"
  shows "\<exists>c m. read_outcome (Http_error code (Some v) reason) = Inl (control_raises code c m)"
proof -
  from assms obtain m where v: "v = JObj m" by (cases v) (auto simp: error_object_def)
  have "\<exists>d. (case map_of m ''error'' of Some x \<Rightarrow> x | None \<Rightarrow> JObj []) = JObj d"
    using assms v by (auto simp: error_object_def split: option.splits json.splits)
  then obtain d where "(case map_of m ''error'' of Some x \<Rightarrow> x | None \<Rightarrow> JObj []) = JObj d" ..
  with v show ?thesis by (simp add: read_outcome_def) blast
qed

lemma error_object_escape:
  assumes "\<not> error_object v"
  shows "read_outcome (Http_error code (Some v) reason) = Inl (Builtin (AttributeError ''get''))"
proof (cases "as_dict v")
  case None
  then show ?thesis by (simp add: read_outcome_def get_attr_other)
next
  case (Some m)
  then have v: "v = JObj m" by (cases v) auto
  with assms obtain d where d: "map_of m ''error'' = Some d" "as_dict d = None"
    by (auto simp: error_object_def split: option.splits json.splits)
  have "get_attr d k x = Inl (AttributeError ''get'')" for k x
    by (rule get_attr_other) fact
  with v d(1) show ?thesis by (simp add: read_outcome_def)
qed

text \<open>
  C37. Which failures are \<open>ControlError\<close>s, the only ones the callers retry or tell apart. A response is
  returned exactly when it is an object. An HTTP error is reported with its own status when its body
  is undecodable or an error object. Every other failure escapes as a built-in exception: a response
  that is not JSON, and an HTTP error of any status, 5xx included, whose JSON body is not an object or
  has an \<open>error\<close> that is not an object.
\<close>

theorem outcome_classes:
  "((\<exists>d. read_outcome out = Inr d) \<longleftrightarrow> (\<exists>d. out = Http_response (Some (JObj d)))) \<and>
   (\<forall>e. read_outcome out = Inl (Control e) \<longrightarrow>
      ce_status e = (case out of Http_error code _ _ \<Rightarrow> code | Url_error _ \<Rightarrow> 503 | _ \<Rightarrow> 502)) \<and>
   ((\<exists>e. read_outcome out = Inl (Builtin e)) \<longleftrightarrow>
      out = Http_response None \<or> (\<exists>e. out = Transport_raises e) \<or>
      (\<exists>code v reason. out = Http_error code (Some v) reason \<and> \<not> error_object v))"
proof (cases out)
  case (Http_response v)
  then show ?thesis
    by (auto simp: read_outcome_def control_raises_def ControlError_def split: option.splits json.splits)
next
  case (Http_error code body reason)
  show ?thesis
  proof (cases body)
    case None
    with Http_error show ?thesis by (simp add: read_outcome_def control_raises_def ControlError_def)
  next
    case (Some v)
    show ?thesis
    proof (cases "error_object v")
      case True
      from error_object_read [OF True, of code reason] obtain c m
        where "read_outcome out = Inl (control_raises code c m)"
        using Http_error Some by auto
      with Http_error Some True show ?thesis by (auto simp: control_raises_def ControlError_def)
    next
      case False
      with Http_error Some show ?thesis by (simp add: error_object_escape)
    qed
  qed
next
  case (Url_error m)
  then show ?thesis by (simp add: read_outcome_def control_raises_def ControlError_def)
next
  case (Transport_raises e)
  then show ?thesis by (simp add: read_outcome_def)
qed

section \<open>Concrete requests\<close>

theorem control_path_roundtrip_witness:
  "CHR ''/'' \<notin> set ''claim'' \<and>
   control_path ''w1'' ''a'' 12 ''claim'' = Inr ''/v1/workflows/w1/nodes/a/iterations/12/claim'' \<and>
   split_on (CHR ''/'') ''/v1/workflows/w1/nodes/a/iterations/12/claim'' =
     ['''', ''v1'', ''workflows'', ''w1'', ''nodes'', ''a'', ''iterations'', ''12'', ''claim'']"
proof -
  have i: "show_int 12 = ''12''"
    by code_simp
  have p: "control_path ''w1'' ''a'' 12 ''claim'' = Inr ''/v1/workflows/w1/nodes/a/iterations/12/claim''"
    by (simp add: control_path_def i)
  show ?thesis
    using control_path_roundtrip [of "''claim''" "''w1''" "''a''" 12] p i by simp
qed

definition demo_client :: client where
  "demo_client = new_client ''http://api/''"

theorem post_wire_witness:
  "\<exists>rq. snd (post (\<lambda>_. Token_text '' t '') (\<lambda>_ _. Url_error ''refused'') demo_client 10 ''/v1/x'' [] []) = [rq] \<and>
     map_of (rq_headers rq) ''Authorization'' = Some ''Bearer t''"
proof -
  let ?p = "post (\<lambda>_. Token_text '' t '') (\<lambda>_ _. Url_error ''refused'') demo_client 10 ''/v1/x'' [] []"
  have "strip '' t '' = ''t''" by (simp add: strip_def is_space_def)
  then show ?thesis
    using post_wire [of "\<lambda>_. Token_text '' t ''" "\<lambda>_ _. Url_error ''refused''" demo_client 10 "''/v1/x''" "[]" "[]"
        "fst ?p" "snd ?p"] by auto
qed

theorem outcome_classes_witness:
  "\<exists>e. read_outcome (Http_error 503 (Some (JObj [(''error'', JStr ''bad gateway'')])) ''r'') = Inl (Builtin e)"
proof -
  have "\<not> error_object (JObj [(''error'', JStr ''bad gateway'')])"
    by (simp add: error_object_def)
  then show ?thesis
    using outcome_classes [of "Http_error 503 (Some (JObj [(''error'', JStr ''bad gateway'')])) ''r''"]
    by blast
qed

end
