(* ===== verification/Runner.thy ===== *)
theory Runner
  imports Registry Witness Control
begin

text \<open>
  The activity runner of \<^verbatim>\<open>src/python/workers/runner.py\<close>: resolve, claim, execute under heartbeats,
  report. The control client is the \<open>WorkerControl\<close> protocol of the source, a record of operations over
  a state; it is instantiated with \<open>ControlClient\<close> here and with \<open>RetryingControl\<close> in
  \<^verbatim>\<open>Kafka_Worker\<close>.

  The heartbeat thread runs beside the activity. Its iterations touch only the control state, which the
  activity does not see, so they are executed as one block before the activity's result is looked at;
  their number is an input. One iteration may still be under way when the join times out: it completes
  before or after the result is submitted, or after the call has returned.
\<close>

section \<open>Control and tasks\<close>

record 's worker_control =
  ctl_claim :: "string \<Rightarrow> string \<Rightarrow> int \<Rightarrow> string \<Rightarrow> string \<Rightarrow> int \<Rightarrow> ('s, ctl_exn, claim) sm"
  ctl_heartbeat :: "string \<Rightarrow> string \<Rightarrow> int \<Rightarrow> int \<Rightarrow> string \<Rightarrow> int \<Rightarrow> ('s, ctl_exn, string) sm"
  ctl_result :: "string \<Rightarrow> string \<Rightarrow> int \<Rightarrow> int \<Rightarrow> string \<Rightarrow> string \<Rightarrow> json \<Rightarrow> ('s, ctl_exn, dict) sm"
  ctl_aborted :: "'s \<Rightarrow> bool \<times> 's"

record activity_task =
  at_workflow_id :: string
  at_node_id :: string
  at_iteration :: int
  at_worker_id :: string
  at_request_id :: string
  at_activity_name :: string
  at_activity_version :: string
  at_input :: json
  at_attempt_lease_ms :: int

record activity_runner =
  rn_registry :: activity_registry
  rn_max_workers :: int
  rn_interval :: rat

definition new_runner :: "activity_registry \<Rightarrow> int \<Rightarrow> rat \<Rightarrow> activity_runner res" where
  "new_runner registry max_workers interval =
     (if max_workers \<le> 0 \<or> interval \<le> 0
      then Inl (ValueError ''max_workers and heartbeat_interval must be positive'')
      else Inr \<lparr>rn_registry = registry, rn_max_workers = max_workers, rn_interval = interval\<rparr>)"

text \<open>The base client: no \<open>aborted\<close> method, so it never reports one.\<close>

definition plain_control ::
  "token_env \<Rightarrow> http_env \<Rightarrow> client \<Rightarrow> request list worker_control" where
  "plain_control tok http c =
     (let pst = post tok http c (client_timeout c) in
      \<lparr>ctl_claim = (\<lambda>w n i wk rq lease. claim_call pst w n i wk rq lease 0),
       ctl_heartbeat = heartbeat_call pst,
       ctl_result = (\<lambda>w n i num token st payload. result_call pst w n i num token st payload '''' ''''),
       ctl_aborted = (\<lambda>s. (False, s))\<rparr>)"

section \<open>Heartbeats\<close>

record heartbeat =
  hb_delay :: rat
  hb_alive :: bool
  hb_errors :: "control_error list"

definition hb_new :: "rat \<Rightarrow> heartbeat" where
  "hb_new interval = \<lparr>hb_delay = interval, hb_alive = True, hb_errors = []\<rparr>"

definition backoff :: "rat \<Rightarrow> rat \<Rightarrow> rat" where
  "backoff interval delay = min (max interval (delay * 2)) 60"

definition definitive :: "string \<Rightarrow> bool" where
  "definitive code \<longleftrightarrow> code = ''STALE_CLAIM'' \<or> code = ''STALE_ATTEMPT''"

text \<open>One iteration of \<open>heartbeat_loop\<close>, after a wait that was not cut short by \<open>stop\<close>.\<close>

definition hb_tick ::
  "'s worker_control \<Rightarrow> rat \<Rightarrow> activity_task \<Rightarrow> claim \<Rightarrow> 's \<times> heartbeat \<Rightarrow> 's \<times> heartbeat" where
  "hb_tick ctl interval task cl sh =
     (case sh of (s, hb) \<Rightarrow>
       if \<not> hb_alive hb then (s, hb)
       else (case ctl_aborted ctl s of (b, s1) \<Rightarrow>
         if b then (s1, hb\<lparr>hb_alive := False\<rparr>)
         else (case ctl_heartbeat ctl (at_workflow_id task) (at_node_id task) (at_iteration task)
                      (attempt_number cl) (claim_token cl) (at_attempt_lease_ms task) s1 of
             (Inr _, s2) \<Rightarrow> (s2, hb\<lparr>hb_delay := interval\<rparr>)
           | (Inl (Builtin _), s2) \<Rightarrow> (s2, hb\<lparr>hb_delay := backoff interval (hb_delay hb)\<rparr>)
           | (Inl (Control e), s2) \<Rightarrow>
               if definitive (ce_code e)
               then (s2, hb\<lparr>hb_errors := hb_errors hb @ [e\<lparr>ce_operation := ''heartbeat''\<rparr>],
                            hb_alive := False\<rparr>)
               else (s2, hb\<lparr>hb_delay := backoff interval (hb_delay hb)\<rparr>))))"

definition hb_ticks ::
  "nat \<Rightarrow> 's worker_control \<Rightarrow> rat \<Rightarrow> activity_task \<Rightarrow> claim \<Rightarrow> 's \<times> heartbeat \<Rightarrow> 's \<times> heartbeat" where
  "hb_ticks n ctl interval task cl = hb_tick ctl interval task cl ^^ n"

section \<open>One task\<close>

text \<open>\<^verbatim>\<open>str(error)\<close> and \<^verbatim>\<open>type(error).__name__\<close> of an exception an activity raises.\<close>

fun exn_text :: "exn \<Rightarrow> string" where
  "exn_text (ValueError m) = m"
| "exn_text (RuntimeError m) = m"
| "exn_text (LookupError m) = m"
| "exn_text (KeyError m) = repr_string m"
| "exn_text (TypeError m) = m"
| "exn_text (AttributeError m) = m"
| "exn_text (OSError m) = m"
| "exn_text (UnicodeEncodeError m) = m"
| "exn_text (OverflowError m) = m"
| "exn_text (JSONDecodeError m) = m"

fun exn_name :: "exn \<Rightarrow> string" where
  "exn_name (ValueError m) = ''ValueError''"
| "exn_name (RuntimeError m) = ''RuntimeError''"
| "exn_name (LookupError m) = ''LookupError''"
| "exn_name (KeyError m) = ''KeyError''"
| "exn_name (TypeError m) = ''TypeError''"
| "exn_name (AttributeError m) = ''AttributeError''"
| "exn_name (OSError m) = ''OSError''"
| "exn_name (UnicodeEncodeError m) = ''UnicodeEncodeError''"
| "exn_name (OverflowError m) = ''OverflowError''"
| "exn_name (JSONDecodeError m) = ''JSONDecodeError''"

definition attempt_of :: "activity \<Rightarrow> json \<Rightarrow> string \<times> json" where
  "attempt_of activity v =
     (case activity v of
        Inr payload \<Rightarrow> (''SUCCEEDED'', payload)
      | Inl e \<Rightarrow> (''FAILED_RETRYABLE'',
                  JObj [(''error'', JStr (exn_text e)), (''type'', JStr (exn_name e))]))"

datatype late_tick = No_late | Late_before_result | Late_after_result

text \<open>What a run takes from its surroundings: the number of completed heartbeat iterations, the late
  one, whether an exception outside \<open>Exception\<close> interrupts the activity, and the inputs of the ledger.\<close>

record run_env =
  re_ticks :: nat
  re_late :: late_tick
  re_interrupt :: bool
  re_environ :: environ
  re_session :: string
  re_invocation :: string
  re_created :: "stamp \<times> io_outcome"
  re_begun :: "stamp \<times> io_outcome"
  re_ended :: "stamp \<times> io_outcome"

datatype run_outcome = Returned dict | Raised ctl_exn | Interrupted

definition invocation_fields :: "activity_task \<Rightarrow> claim \<Rightarrow> dict" where
  "invocation_fields task cl =
     [(''workflow_id'', JStr (at_workflow_id task)), (''node_id'', JStr (at_node_id task)),
      (''iteration'', JInt (at_iteration task)), (''attempt_number'', JInt (attempt_number cl)),
      (''claim_token'', JStr (claim_token cl)), (''worker_id'', JStr (at_worker_id task)),
      (''activity_name'', JStr (at_activity_name task)),
      (''activity_version'', JStr (at_activity_version task))]"

definition witness_begin ::
  "run_env \<Rightarrow> activity_task \<Rightarrow> claim \<Rightarrow> witness option \<Rightarrow> dict option \<times> witness option" where
  "witness_begin env task cl g =
     (case configured_witness (re_environ env) (re_session env) (fst (re_created env))
             (snd (re_created env)) g of
        (True, Some w) \<Rightarrow>
          (case begin_invocation (re_invocation env) (fst (re_begun env)) (snd (re_begun env))
                  (invocation_fields task cl) w of (invo, w1) \<Rightarrow> (Some invo, Some w1))
      | (_, g1) \<Rightarrow> (None, g1))"

definition witness_end ::
  "run_env \<Rightarrow> dict option \<Rightarrow> string \<Rightarrow> witness option \<Rightarrow> witness option" where
  "witness_end env invo outcome g =
     (case (invo, g) of
        (Some i, Some w) \<Rightarrow>
          Some (end_invocation (fst (re_ended env)) (snd (re_ended env)) i outcome w)
      | _ \<Rightarrow> g)"

definition at_operation :: "string \<Rightarrow> ctl_exn \<Rightarrow> ctl_exn" where
  "at_operation op e =
     (case e of Control c \<Rightarrow> Control (c\<lparr>ce_operation := op\<rparr>) | Builtin x \<Rightarrow> Builtin x)"

text \<open>The part of \<open>run_task\<close> after the activity and the join: report, then surface a definitive
  heartbeat error.\<close>

definition report ::
  "'s worker_control \<Rightarrow> rat \<Rightarrow> activity_task \<Rightarrow> claim \<Rightarrow> late_tick \<Rightarrow> string \<Rightarrow> json \<Rightarrow>
   's \<times> heartbeat \<Rightarrow> run_outcome \<times> 's" where
  "report ctl interval task cl late attempt_state payload sh =
     (case sh of (s, hb) \<Rightarrow>
       (case ctl_aborted ctl s of (b, s1) \<Rightarrow>
         if b then
           (Raised (control_raises 503 ''SHUTTING_DOWN'' ''aborted activity reports no result''), s1)
         else (case ctl_result ctl (at_workflow_id task) (at_node_id task) (at_iteration task)
                      (attempt_number cl) (claim_token cl) attempt_state payload s1 of
             (Inl e, s2) \<Rightarrow> (Raised (at_operation ''result'' e), s2)
           | (Inr receipt, s2) \<Rightarrow>
               (case (if late = Late_after_result then hb_tick ctl interval task cl (s2, hb)
                      else (s2, hb)) of (s3, hb1) \<Rightarrow>
                  (case hb_errors hb1 of
                     e # _ \<Rightarrow> (Raised (Control e), s3)
                   | [] \<Rightarrow> (Returned receipt, s3))))))"

definition run_task ::
  "'s worker_control \<Rightarrow> activity_runner \<Rightarrow> activity_task \<Rightarrow> run_env \<Rightarrow> 's \<times> witness option \<Rightarrow>
   run_outcome \<times> 's \<times> witness option" where
  "run_task ctl rn task env sw =
     (case sw of (s, g) \<Rightarrow>
       (case resolve (at_activity_name task) (at_activity_version task) (rn_registry rn) of
          Inl e \<Rightarrow> (Raised (Builtin e), s, g)
        | Inr activity \<Rightarrow>
            (case ctl_claim ctl (at_workflow_id task) (at_node_id task) (at_iteration task)
                    (at_worker_id task) (at_request_id task) (at_attempt_lease_ms task) s of
               (Inl e, s1) \<Rightarrow> (Raised (at_operation ''claim'' e), s1, g)
             | (Inr cl, s1) \<Rightarrow>
                 (let (invo, g1) = witness_begin env task cl g;
                      (attempt_state, payload) = attempt_of activity (at_input task);
                      ended = (if re_interrupt env then ''ABORTED'' else attempt_state);
                      g2 = witness_end env invo ended g1;
                      sh = hb_ticks (re_ticks env) ctl (rn_interval rn) task cl (s1, hb_new (rn_interval rn));
                      sh1 = (if re_late env = Late_before_result
                             then hb_tick ctl (rn_interval rn) task cl sh else sh)
                  in if re_interrupt env then (Interrupted, fst sh1, g2)
                     else (case report ctl (rn_interval rn) task cl (re_late env) attempt_state payload sh1 of
                             (r, s2) \<Rightarrow> (r, s2, g2))))))"

text \<open>\<open>run_many\<close> collects the futures in submission order: the first that raised decides.\<close>

fun collect_futures :: "run_outcome list \<Rightarrow> run_outcome + dict list" where
  "collect_futures [] = Inr []"
| "collect_futures (Returned d # rs) = rbind (collect_futures rs) (\<lambda>ds. Inr (d # ds))"
| "collect_futures (r # rs) = Inl r"

section \<open>The contract of a control client\<close>

text \<open>
  What the runner relies on: every call puts only requests for its own workflow, node, iteration and
  action on the wire, a call that succeeds has sent at least one, every result request carries the
  result it was called with, and asking for the abort sends nothing. The flag \<open>many\<close> says whether a
  client may repeat a request.
\<close>

definition addressed :: "string \<Rightarrow> string \<Rightarrow> string \<Rightarrow> int \<Rightarrow> string \<Rightarrow> request \<Rightarrow> bool" where
  "addressed base w n i action rq \<longleftrightarrow> (\<exists>p. control_path w n i action = Inr p \<and> rq_url rq = base @ p)"

definition for_task :: "string \<Rightarrow> activity_task \<Rightarrow> string \<Rightarrow> request \<Rightarrow> bool" where
  "for_task base task = addressed base (at_workflow_id task) (at_node_id task) (at_iteration task)"

definition carries_result :: "int \<Rightarrow> string \<Rightarrow> string \<Rightarrow> json \<Rightarrow> request \<Rightarrow> bool" where
  "carries_result num token st payload rq \<longleftrightarrow>
     rq_data rq = json_dumps_raw '','' '':'' (JObj (result_body num token st payload '''' ''''))"

definition grows ::
  "('s \<Rightarrow> request list) \<Rightarrow> bool \<Rightarrow> (request \<Rightarrow> bool) \<Rightarrow> bool \<Rightarrow> 's \<Rightarrow> 's \<Rightarrow> bool" where
  "grows wire many P ok s t \<longleftrightarrow>
     (\<exists>cs. wire t = wire s @ cs \<and> (\<forall>c \<in> set cs. P c) \<and> (ok \<longrightarrow> cs \<noteq> []) \<and>
           (many \<or> length cs \<le> 1))"

definition is_ok :: "'e + 'a \<Rightarrow> bool" where
  "is_ok r \<longleftrightarrow> (case r of Inl _ \<Rightarrow> False | Inr _ \<Rightarrow> True)"

lemma is_ok_simps [simp]: "is_ok (Inr x)" "\<not> is_ok (Inl e)"
  by (simp_all add: is_ok_def)

text \<open>The requests of one task, in order: claim, heartbeats, result, at most a late heartbeat. Without a
  claim request there is no other; a result is what the registered activity made of the task's input;
  a run that returns has reported one; a client that does not repeat requests sends one claim and one
  result at most.\<close>

definition task_trace ::
  "bool \<Rightarrow> string \<Rightarrow> activity_runner \<Rightarrow> activity_task \<Rightarrow> bool \<Rightarrow>
   request list \<Rightarrow> request list \<Rightarrow> request list \<Rightarrow> request list \<Rightarrow> bool" where
  "task_trace many base rn task ok cs hs rs ls \<longleftrightarrow>
     (many \<or> length cs \<le> 1 \<and> length rs \<le> 1) \<and>
     (\<forall>q \<in> set cs. for_task base task ''claim'' q) \<and>
     (\<forall>q \<in> set hs \<union> set ls. for_task base task ''heartbeat'' q) \<and>
     (cs = [] \<longrightarrow> hs = [] \<and> rs = [] \<and> ls = []) \<and>
     (rs \<noteq> [] \<longrightarrow> (\<exists>activity (cl :: claim).
        resolve (at_activity_name task) (at_activity_version task) (rn_registry rn) = Inr activity \<and>
        (\<forall>q \<in> set rs. for_task base task ''result'' q \<and>
           carries_result (attempt_number cl) (claim_token cl)
             (fst (attempt_of activity (at_input task))) (snd (attempt_of activity (at_input task))) q))) \<and>
     (ok \<longrightarrow> rs \<noteq> [])"

locale recorded_control =
  fixes ctl :: "'s worker_control" and wire :: "'s \<Rightarrow> request list" and base :: string
    and many :: bool
  assumes claim_log: "ctl_claim ctl w n i wk rid lease s = (r, t) \<Longrightarrow>
      grows wire many (addressed base w n i ''claim'') (is_ok r) s t"
    and heartbeat_log: "ctl_heartbeat ctl w n i num token ext s = (r', t) \<Longrightarrow>
      grows wire many (addressed base w n i ''heartbeat'') (is_ok r') s t"
    and result_log: "ctl_result ctl w n i num token st payload s = (r'', t) \<Longrightarrow>
      grows wire many (\<lambda>rq. addressed base w n i ''result'' rq \<and> carries_result num token st payload rq)
        (is_ok r'') s t"
    and aborted_log: "wire (snd (ctl_aborted ctl s)) = wire s"
begin

lemma hb_tick_log:
  "grows wire True (for_task base task ''heartbeat'') False (fst sh) (fst (hb_tick ctl interval task cl sh))"
proof (cases sh)
  case (Pair s hb)
  obtain b s1 where a: "ctl_aborted ctl s = (b, s1)" by (cases "ctl_aborted ctl s")
  obtain r s2 where h: "ctl_heartbeat ctl (at_workflow_id task) (at_node_id task) (at_iteration task)
      (attempt_number cl) (claim_token cl) (at_attempt_lease_ms task) s1 = (r, s2)" by fastforce
  have l1: "wire s1 = wire s" using aborted_log [of s] a by simp
  have g: "grows wire True (for_task base task ''heartbeat'') False s s2"
    using heartbeat_log [OF h] l1 unfolding grows_def for_task_def by auto
  have id: "grows wire True (for_task base task ''heartbeat'') False s s"
      "grows wire True (for_task base task ''heartbeat'') False s s1"
    using l1 by (simp_all add: grows_def)
  show ?thesis using g id
    by (auto simp: Pair hb_tick_def a h split: sum.splits ctl_exn.splits)
qed

lemma hb_ticks_log:
  "grows wire True (for_task base task ''heartbeat'') False (fst sh) (fst (hb_ticks k ctl interval task cl sh))"
proof (induction k)
  case 0
  show ?case by (simp add: hb_ticks_def grows_def)
next
  case (Suc k)
  let ?sh = "hb_ticks k ctl interval task cl sh"
  have "hb_ticks (Suc k) ctl interval task cl sh = hb_tick ctl interval task cl ?sh"
    by (simp add: hb_ticks_def)
  with Suc hb_tick_log [of task ?sh interval cl] show ?case
    by (auto simp: grows_def)
qed

lemma report_log:
  assumes "report ctl interval task cl late st payload sh = (r, t)"
  shows "\<exists>rs hs. wire t = wire (fst sh) @ rs @ hs \<and> (\<forall>q \<in> set hs. for_task base task ''heartbeat'' q) \<and>
    (\<forall>q \<in> set rs. for_task base task ''result'' q \<and>
       carries_result (attempt_number cl) (claim_token cl) st payload q) \<and>
    ((\<exists>d. r = Returned d) \<longrightarrow> rs \<noteq> []) \<and> (many \<or> length rs \<le> 1)"
proof (cases sh)
  case (Pair s hb)
  obtain b s1 where a: "ctl_aborted ctl s = (b, s1)" by (cases "ctl_aborted ctl s")
  obtain x s2 where h: "ctl_result ctl (at_workflow_id task) (at_node_id task) (at_iteration task)
      (attempt_number cl) (claim_token cl) st payload s1 = (x, s2)" by fastforce
  have l1: "wire s1 = wire s" using aborted_log [of s] a by simp
  from result_log [OF h] l1 obtain rs where rs: "wire s2 = wire s @ rs"
      "\<forall>q \<in> set rs. for_task base task ''result'' q \<and>
         carries_result (attempt_number cl) (claim_token cl) st payload q" "is_ok x \<longrightarrow> rs \<noteq> []" "many \<or> length rs \<le> 1"
    unfolding grows_def for_task_def by auto
  let ?sh2 = "if late = Late_after_result then hb_tick ctl interval task cl (s2, hb) else (s2, hb)"
  have "grows wire True (for_task base task ''heartbeat'') False s2 (fst ?sh2)"
    using hb_tick_log [of task "(s2, hb)" interval cl] by (simp add: grows_def)
  then obtain hs where hs: "wire (fst ?sh2) = wire s @ rs @ hs" "\<forall>q \<in> set hs. for_task base task ''heartbeat'' q"
    using rs(1) unfolding grows_def by auto
  show ?thesis
  proof (cases "b \<or> \<not> is_ok x")
    case True
    then have t: "t = s1 \<or> t = s2" and nr: "\<nexists>d. r = Returned d"
      using assms a h by (auto simp: report_def Pair is_ok_def split: if_splits sum.splits)
    from t show ?thesis
    proof
      assume "t = s1"
      then show ?thesis using l1 nr by (intro exI [of _ "[]"]) (simp add: Pair)
    next
      assume "t = s2"
      then show ?thesis using rs nr by (intro exI [of _ rs] exI [of _ "[]"]) (simp add: Pair)
    qed
  next
    case False
    then have "t = fst ?sh2"
      using assms a h
      by (auto simp: report_def Pair is_ok_def split: if_splits sum.splits prod.splits list.splits)
    with rs hs False show ?thesis by (intro exI [of _ rs] exI [of _ hs]) (simp add: Pair)
  qed
qed

lemma run_task_wire:
  assumes "run_task ctl rn task env (s, g) = (r, t, g')"
  shows "\<exists>cs hs rs ls. wire t = wire s @ cs @ hs @ rs @ ls \<and>
    task_trace many base rn task (\<exists>d. r = Returned d) cs hs rs ls"
proof (cases "resolve (at_activity_name task) (at_activity_version task) (rn_registry rn)")
  case (Inl e)
  then have "t = s" "\<nexists>d. r = Returned d" using assms by (auto simp: run_task_def)
  then show ?thesis by (intro exI [of _ "[]"]) (simp add: task_trace_def)
next
  case (Inr activity)
  obtain x s1 where c: "ctl_claim ctl (at_workflow_id task) (at_node_id task) (at_iteration task)
      (at_worker_id task) (at_request_id task) (at_attempt_lease_ms task) s = (x, s1)" by fastforce
  from claim_log [OF c] obtain cs where cs: "wire s1 = wire s @ cs"
      "\<forall>q \<in> set cs. for_task base task ''claim'' q" "is_ok x \<longrightarrow> cs \<noteq> []" "many \<or> length cs \<le> 1"
    unfolding grows_def for_task_def by auto
  show ?thesis
  proof (cases x)
    case (Inl e)
    then have "t = s1" "\<nexists>d. r = Returned d" using Inr assms c by (auto simp: run_task_def)
    with cs have "wire t = wire s @ cs @ [] @ [] @ [] \<and> task_trace many base rn task (\<exists>d. r = Returned d) cs [] [] []"
      by (simp add: task_trace_def)
    then show ?thesis by blast
  next
    case (Inr cl)
    let ?iv = "rn_interval rn" and ?a = "attempt_of activity (at_input task)"
    let ?sh = "hb_ticks (re_ticks env) ctl ?iv task cl (s1, hb_new ?iv)"
    let ?sh1 = "if re_late env = Late_before_result then hb_tick ctl ?iv task cl ?sh else ?sh"
    have "grows wire True (for_task base task ''heartbeat'') False s1 (fst ?sh1)"
      using hb_ticks_log [of task "(s1, hb_new ?iv)" "re_ticks env" ?iv cl]
        hb_tick_log [of task ?sh ?iv cl] by (auto simp: grows_def)
    then obtain hs where hs: "wire (fst ?sh1) = wire s @ cs @ hs" "\<forall>q \<in> set hs. for_task base task ''heartbeat'' q"
      using cs(1) unfolding grows_def by auto
    obtain r2 s2 where rp: "report ctl ?iv task cl (re_late env) (fst ?a) (snd ?a) ?sh1 = (r2, s2)"
      by fastforce
    from report_log [OF rp] obtain rs ls where rl: "wire s2 = wire s @ cs @ hs @ rs @ ls"
        "\<forall>q \<in> set ls. for_task base task ''heartbeat'' q"
        "\<forall>q \<in> set rs. for_task base task ''result'' q \<and>
          carries_result (attempt_number cl) (claim_token cl) (fst ?a) (snd ?a) q"
        "(\<exists>d. r2 = Returned d) \<longrightarrow> rs \<noteq> []" "many \<or> length rs \<le> 1"
      unfolding hs by auto
    have ne: "cs \<noteq> []" using cs(3) Inr by simp
    show ?thesis
    proof (cases "re_interrupt env")
      case True
      then have "t = fst ?sh1" "r = Interrupted"
        using assms \<open>resolve _ _ _ = Inr activity\<close> c Inr
        by (auto simp: run_task_def Let_def case_prod_unfold)
      with hs cs(2,4) ne
      have "wire t = wire s @ cs @ hs @ [] @ [] \<and> task_trace many base rn task (\<exists>d. r = Returned d) cs hs [] []"
        by (simp add: task_trace_def)
      then show ?thesis by blast
    next
      case False
      then have "t = s2" "r = r2"
        using assms \<open>resolve _ _ _ = Inr activity\<close> c Inr rp
        by (auto simp: run_task_def Let_def case_prod_unfold)
      have "task_trace many base rn task (\<exists>d. r2 = Returned d) cs hs rs ls"
        unfolding task_trace_def using rl(2-) hs(2) cs(2,4) ne \<open>resolve _ _ _ = Inr activity\<close> by blast
      with rl(1) show ?thesis unfolding \<open>t = s2\<close> \<open>r = r2\<close> by blast
    qed
  qed
qed

end

section \<open>Clients over a post\<close>

text \<open>
  The contract of a \<open>_post\<close>: everything it sends goes to the base URL and the path and carries the
  body, and a response means that something was sent. The three protocol calls inherit it.
\<close>

definition same_request :: "string \<Rightarrow> string \<Rightarrow> dict \<Rightarrow> request \<Rightarrow> bool" where
  "same_request base path body rq \<longleftrightarrow>
     rq_url rq = base @ path \<and> rq_data rq = json_dumps_raw '','' '':'' (JObj body)"

lemma grows_mono:
  "grows wire m P ok s t \<Longrightarrow> (\<And>q. P q \<Longrightarrow> Q q) \<Longrightarrow> grows wire m Q ok s t"
  by (auto simp: grows_def)

locale wire_post =
  fixes pst :: "string \<Rightarrow> dict \<Rightarrow> ('s, ctl_exn, dict) sm" and wire :: "'s \<Rightarrow> request list"
    and base :: string and many :: bool
  assumes post_law: "pst path body s = (r, t) \<Longrightarrow> grows wire many (same_request base path body) (is_ok r) s t"
begin

lemma call_grows:
  assumes "sbind (slift (builtin (control_path w n i action))) (\<lambda>path. sbind (pst path body) (\<lambda>x. slift (f x))) s
      = (r, t)"
  shows "grows wire many (\<lambda>rq. addressed base w n i action rq \<and>
           rq_data rq = json_dumps_raw '','' '':'' (JObj body)) (is_ok r) s t"
proof (cases "control_path w n i action")
  case (Inl e)
  with assms show ?thesis by (auto simp: sraise_def grows_def)
next
  case (Inr p)
  obtain x u where x: "pst p body s = (x, u)" by fastforce
  with assms Inr have "u = t \<and> (is_ok r \<longrightarrow> is_ok x)"
    by (cases x) (auto simp: slift_def)
  with post_law [OF x] Inr show ?thesis
    by (auto simp: grows_def addressed_def same_request_def)
qed

lemma claim_grows:
  "claim_call pst w n i wk rid lease ex s = (r, t) \<Longrightarrow> grows wire many (addressed base w n i ''claim'') (is_ok r) s t"
  unfolding claim_call_def by (drule call_grows) (auto elim: grows_mono)

lemma heartbeat_grows:
  "heartbeat_call pst w n i num token ext s = (r, t) \<Longrightarrow>
   grows wire many (addressed base w n i ''heartbeat'') (is_ok r) s t"
  unfolding heartbeat_call_def by (drule call_grows) (auto elim: grows_mono)

lemma result_grows:
  assumes "result_call pst w n i num token st payload '''' '''' s = (r, t)"
  shows "grows wire many (\<lambda>rq. addressed base w n i ''result'' rq \<and> carries_result num token st payload rq)
    (is_ok r) s t"
proof -
  have "sbind m (\<lambda>x. slift (Inr x)) = m" for m :: "('s, ctl_exn, dict) sm"
    by (rule ext) (auto simp: sbind_def slift_def split: prod.splits sum.splits)
  then have "sbind (slift (builtin (control_path w n i ''result'')))
      (\<lambda>path. sbind (pst path (result_body num token st payload '''' '''')) (\<lambda>x. slift (Inr x))) s = (r, t)"
    using assms by (simp add: result_call_def)
  then show ?thesis unfolding carries_result_def by (rule call_grows)
qed

end

section \<open>The base client keeps the contract\<close>

lemma post_grows:
  assumes "post tok http c tmo path body s = (r, t)"
  shows "grows (\<lambda>s. s) False (same_request (base_url c) path body) (is_ok r) s t"
  using assms
  by (auto simp: post_def build_request_def grows_def same_request_def Let_def rbind_def split: sum.splits)

interpretation plain_post: wire_post "post tok http c tmo" "\<lambda>s. s" "base_url c" False
  for tok http c tmo
  by unfold_locales (rule post_grows)

interpretation plain: recorded_control "plain_control tok http c" "\<lambda>s. s" "base_url c" False
  for tok http c
  by unfold_locales
    (auto simp: plain_control_def Let_def plain_post.claim_grows plain_post.heartbeat_grows
      plain_post.result_grows)

text \<open>
  What one task puts on the wire, whatever the API answers. The requests are at most one claim,
  then heartbeats, then at most one result, then at most heartbeats again, all for the task's own
  workflow, node and iteration. No claim request means no request at all; a result request carries
  exactly the state and payload the registered activity gives for the task's input; and a run that
  returns has reported.
\<close>

theorem run_task_requests:
  assumes "run_task (plain_control tok http c) rn task env (sent, g) = (r, sent', g')"
  shows "\<exists>cs hs rs ls. sent' = sent @ cs @ hs @ rs @ ls \<and>
    task_trace False (base_url c) rn task (\<exists>d. r = Returned d) cs hs rs ls"
  using plain.run_task_wire [OF assms] .

section \<open>Heartbeats and outcomes\<close>

definition delay_ok :: "rat \<Rightarrow> rat \<Rightarrow> bool" where
  "delay_ok interval d \<longleftrightarrow> min interval 60 \<le> d \<and> d \<le> max interval 60"

definition hb_inv :: "rat \<Rightarrow> heartbeat \<Rightarrow> bool" where
  "hb_inv interval hb \<longleftrightarrow> delay_ok interval (hb_delay hb) \<and>
     (\<forall>e \<in> set (hb_errors hb). ce_operation e = ''heartbeat'' \<and> definitive (ce_code e)) \<and>
     length (hb_errors hb) \<le> 1 \<and> (hb_alive hb \<longrightarrow> hb_errors hb = [])"

lemma delay_ok_interval: "delay_ok interval interval"
  by (simp add: delay_ok_def)

lemma hb_new_inv: "hb_inv interval (hb_new interval)"
  by (simp add: hb_inv_def hb_new_def delay_ok_interval)

lemma backoff_ok: "0 < interval \<Longrightarrow> delay_ok interval delay \<Longrightarrow> delay_ok interval (backoff interval delay)"
  by (auto simp: backoff_def delay_ok_def min_def max_def)

lemma hb_tick_inv:
  assumes "0 < interval" "hb_inv interval (snd sh)"
  shows "hb_inv interval (snd (hb_tick ctl interval task cl sh))"
proof (cases sh)
  case (Pair s hb)
  then have "delay_ok interval (hb_delay hb)" "hb_inv interval hb" using assms(2) by (simp_all add: hb_inv_def)
  then show ?thesis
    using backoff_ok [OF assms(1), of "hb_delay hb"] delay_ok_interval [of interval]
    by (auto simp: Pair hb_tick_def hb_inv_def split: prod.split sum.split ctl_exn.split)
qed

lemma hb_ticks_inv:
  "0 < interval \<Longrightarrow> hb_inv interval (snd sh) \<Longrightarrow> hb_inv interval (snd (hb_ticks k ctl interval task cl sh))"
  unfolding hb_ticks_def by (induction k) (simp_all add: hb_tick_inv)

text \<open>
  Heartbeat back-off is bounded. After any number of iterations, whatever the API answers, the
  delay before the next heartbeat is at least the smaller and at most the larger of the interval and
  sixty seconds; at most one definitive error is kept, it is a stale claim or attempt, and the loop has
  stopped when there is one.
\<close>

theorem heartbeat_bounds:
  assumes "new_runner registry max_workers interval = Inr rn"
    and "hb_ticks k ctl (rn_interval rn) task cl (s, hb_new (rn_interval rn)) = (s', hb)"
  shows "min interval 60 \<le> hb_delay hb \<and> hb_delay hb \<le> max interval 60 \<and>
    (hb_errors hb = [] \<or> (\<exists>e. hb_errors hb = [e] \<and> \<not> hb_alive hb \<and>
       (ce_code e = ''STALE_CLAIM'' \<or> ce_code e = ''STALE_ATTEMPT'')))"
proof -
  have iv: "0 < interval" "rn_interval rn = interval"
    using assms(1) by (auto simp: new_runner_def split: if_splits)
  have "hb_inv interval hb"
    using hb_ticks_inv [OF iv(1), of "(s, hb_new interval)" k ctl task cl] assms(2) hb_new_inv iv(2)
    by simp
  then show ?thesis
    by (cases "hb_errors hb") (auto simp: hb_inv_def delay_ok_def definitive_def)
qed

definition accepted :: "'s worker_control \<Rightarrow> activity_runner \<Rightarrow> activity_task \<Rightarrow> dict \<Rightarrow> bool" where
  "accepted ctl rn task receipt \<longleftrightarrow> (\<exists>activity (cl :: claim) s s'.
     resolve (at_activity_name task) (at_activity_version task) (rn_registry rn) = Inr activity \<and>
     ctl_result ctl (at_workflow_id task) (at_node_id task) (at_iteration task)
       (attempt_number cl) (claim_token cl) (fst (attempt_of activity (at_input task)))
       (snd (attempt_of activity (at_input task))) s = (Inr receipt, s'))"

lemma report_outcome:
  assumes "report ctl interval task cl late st payload sh = (r, t)"
    and "0 < interval" and "hb_inv interval (snd sh)"
  shows "r = Raised (control_raises 503 ''SHUTTING_DOWN'' ''aborted activity reports no result'') \<or>
    (\<exists>e. r = Raised (at_operation ''result'' e)) \<or>
    (\<exists>s1 s2 d. ctl_result ctl (at_workflow_id task) (at_node_id task) (at_iteration task)
        (attempt_number cl) (claim_token cl) st payload s1 = (Inr d, s2) \<and>
      (r = Returned d \<or>
       (\<exists>e. r = Raised (Control e) \<and> ce_operation e = ''heartbeat'' \<and> definitive (ce_code e))))"
proof (cases sh)
  case (Pair s hb)
  obtain b s1 where a: "ctl_aborted ctl s = (b, s1)" by (cases "ctl_aborted ctl s")
  obtain x s2 where h: "ctl_result ctl (at_workflow_id task) (at_node_id task) (at_iteration task)
      (attempt_number cl) (claim_token cl) st payload s1 = (x, s2)" by fastforce
  obtain s3 hb1 where k: "(if late = Late_after_result then hb_tick ctl interval task cl (s2, hb)
      else (s2, hb)) = (s3, hb1)" by fastforce
  have "hb_inv interval hb1"
    using hb_tick_inv [OF assms(2), of "(s2, hb)" ctl task cl] assms(3) k Pair
    by (auto split: if_splits)
  then have errs: "\<forall>e \<in> set (hb_errors hb1). ce_operation e = ''heartbeat'' \<and> definitive (ce_code e)"
    by (simp add: hb_inv_def)
  show ?thesis
  proof (cases x)
    case (Inl e)
    with assms(1) a h show ?thesis by (auto simp: report_def Pair split: if_splits)
  next
    case (Inr d)
    with h have h': "\<exists>s1 s2. ctl_result ctl (at_workflow_id task) (at_node_id task) (at_iteration task)
      (attempt_number cl) (claim_token cl) st payload s1 = (Inr d, s2)" by blast
    have "r = Raised (control_raises 503 ''SHUTTING_DOWN'' ''aborted activity reports no result'') \<or>
      r = Returned d \<or> (\<exists>e es. hb_errors hb1 = e # es \<and> r = Raised (Control e))"
      using assms(1) a h k Inr by (auto simp: report_def Pair split: if_splits list.splits)
    with errs h' show ?thesis by auto
  qed
qed

text \<open>
  Where an outcome comes from. A task returns only the receipt of an accepted result, submitted
  for the state and payload the activity produced. A stale heartbeat surfaces only after such a result
  was accepted, so evidence of finished work is never hidden by it. Every other control error names the
  call that raised it, or is the refusal to report during an abort.
\<close>

theorem run_task_outcome:
  assumes "new_runner registry max_workers interval = Inr rn"
    and "run_task ctl rn task env (s, g) = (r, s', g')"
  shows "case r of
      Returned d \<Rightarrow> accepted ctl rn task d
    | Raised (Control e) \<Rightarrow>
        ce_operation e \<in> {''claim'', ''result''} \<or> ce_code e = ''SHUTTING_DOWN'' \<or>
        ce_operation e = ''heartbeat'' \<and> definitive (ce_code e) \<and> (\<exists>d. accepted ctl rn task d)
    | _ \<Rightarrow> True"
proof -
  have iv: "0 < rn_interval rn"
    using assms(1) by (auto simp: new_runner_def split: if_splits)
  show ?thesis
  proof (cases "resolve (at_activity_name task) (at_activity_version task) (rn_registry rn)")
    case (Inl e)
    with assms(2) show ?thesis by (auto simp: run_task_def)
  next
    case act: (Inr activity)
    obtain x s1 where c: "ctl_claim ctl (at_workflow_id task) (at_node_id task) (at_iteration task)
        (at_worker_id task) (at_request_id task) (at_attempt_lease_ms task) s = (x, s1)" by fastforce
    show ?thesis
    proof (cases x)
      case (Inl e)
      with assms(2) act c show ?thesis
        by (cases e) (auto simp: run_task_def at_operation_def)
    next
      case (Inr cl)
      let ?iv = "rn_interval rn" and ?a = "attempt_of activity (at_input task)"
      let ?sh = "hb_ticks (re_ticks env) ctl ?iv task cl (s1, hb_new ?iv)"
      let ?sh1 = "if re_late env = Late_before_result then hb_tick ctl ?iv task cl ?sh else ?sh"
      have i1: "hb_inv ?iv (snd ?sh)" by (rule hb_ticks_inv [OF iv]) (simp add: hb_new_inv)
      then have inv: "hb_inv ?iv (snd ?sh1)" using hb_tick_inv [OF iv i1] by simp
      obtain r2 s2 where rp: "report ctl ?iv task cl (re_late env) (fst ?a) (snd ?a) ?sh1 = (r2, s2)"
        by fastforce
      have "r = Interrupted \<or> r = r2"
        using assms(2) act c Inr rp by (auto simp: run_task_def Let_def case_prod_unfold split: if_splits)
      moreover have acc: "accepted ctl rn task d"
        if "ctl_result ctl (at_workflow_id task) (at_node_id task) (at_iteration task)
          (attempt_number cl) (claim_token cl) (fst ?a) (snd ?a) u = (Inr d, v)" for d u v
        unfolding accepted_def using act that by blast
      moreover note report_outcome [OF rp iv inv]
      ultimately consider "r = Interrupted"
        | "r = Raised (control_raises 503 ''SHUTTING_DOWN'' ''aborted activity reports no result'')"
        | e where "r = Raised (at_operation ''result'' e)"
        | d where "r = Returned d" "accepted ctl rn task d"
        | d e where "r = Raised (Control e)" "ce_operation e = ''heartbeat''" "definitive (ce_code e)"
            "accepted ctl rn task d"
        by blast
      then show ?thesis
        by cases (auto simp: at_operation_def control_raises_def ControlError_def split: ctl_exn.splits)
    qed
  qed
qed

section \<open>A concrete run\<close>

definition demo_registry :: activity_registry where
  "demo_registry = \<lparr>activities = [(''echo@v1'', pure_echo)]\<rparr>"

definition demo_runner :: activity_runner where
  "demo_runner = \<lparr>rn_registry = demo_registry, rn_max_workers = 4, rn_interval = 5\<rparr>"

definition demo_task :: activity_task where
  "demo_task =
     \<lparr>at_workflow_id = ''w'', at_node_id = ''n'', at_iteration = 0, at_worker_id = ''k'',
      at_request_id = ''r'', at_activity_name = ''echo'', at_activity_version = ''v1'',
      at_input = JInt 7, at_attempt_lease_ms = 60000\<rparr>"

definition demo_env :: run_env where
  "demo_env =
     \<lparr>re_ticks = 1, re_late = No_late, re_interrupt = False, re_environ = (\<lambda>_. None), re_session = ''s'',
      re_invocation = ''i'', re_created = ((''t'', 0), Open_fails), re_begun = ((''t'', 0), Open_fails),
      re_ended = ((''t'', 0), Open_fails)\<rparr>"

definition demo_http :: http_env where
  "demo_http sent rq =
     Http_response (Some (JObj
       [(''attempt_number'', JInt 1), (''claim_token'', JStr ''tok''), (''effect_class'', JStr ''PURE''),
        (''heartbeat_deadline'', JStr ''d'')]))"

definition demo_control :: "request list worker_control" where
  "demo_control = plain_control (\<lambda>_. No_token_file) demo_http (new_client ''http://api'')"

definition demo_run :: "run_outcome \<times> request list \<times> witness option" where
  "demo_run = run_task demo_control demo_runner demo_task demo_env ([], None)"

lemma demo_post:
  "post (\<lambda>_. No_token_file) demo_http c tmo path body sent =
     (read_outcome (demo_http sent undefined),
      sent @ [case build_request c No_token_file tmo path body of Inr rq \<Rightarrow> rq])"
  by (simp add: post_def demo_http_def build_request_def auth_header_def Let_def)

lemma demo_run_returns: "\<exists>d. fst demo_run = Returned d"
  by (simp add: demo_run_def run_task_def demo_runner_def demo_registry_def demo_task_def demo_env_def
      demo_control_def plain_control_def resolve_def registry_key_def claim_call_def control_path_def
      demo_post read_outcome_def demo_http_def read_claim_def dict_item_def py_int_json_def slift_def
      witness_begin_def configured_witness_def witness_end_def attempt_of_def pure_echo_def hb_ticks_def
      hb_tick_def hb_new_def heartbeat_call_def report_def result_call_def Let_def sbind_def)

lemma demo_runner_new: "new_runner demo_registry 4 5 = Inr demo_runner"
  by (simp add: new_runner_def demo_runner_def)

theorem run_task_requests_witness:
  "\<exists>d cs hs rs ls. fst demo_run = Returned d \<and> fst (snd demo_run) = cs @ hs @ rs @ ls \<and> length rs = 1 \<and>
     task_trace False (base_url (new_client ''http://api'')) demo_runner demo_task True cs hs rs ls"
proof -
  obtain r t g where d: "demo_run = (r, t, g)" by (cases demo_run)
  obtain x where x: "r = Returned x" using demo_run_returns unfolding d by auto
  have "\<exists>cs hs rs ls. t = [] @ cs @ hs @ rs @ ls \<and>
      task_trace False (base_url (new_client ''http://api'')) demo_runner demo_task (\<exists>d. r = Returned d) cs hs rs ls"
    by (rule run_task_requests) (rule d [unfolded demo_run_def demo_control_def])
  then obtain cs hs rs ls where tr: "t = cs @ hs @ rs @ ls"
      "task_trace False (base_url (new_client ''http://api'')) demo_runner demo_task True cs hs rs ls"
    using x by auto
  then have "length rs = 1" by (cases rs) (auto simp: task_trace_def)
  with tr x show ?thesis unfolding d by auto
qed

theorem heartbeat_bounds_witness:
  "min 5 60 \<le> hb_delay (snd (hb_ticks 3 demo_control (rn_interval demo_runner) demo_task
      \<lparr>attempt_number = 1, claim_token = ''tok'', effect_class = '''', heartbeat_deadline = ''''\<rparr>
      ([], hb_new (rn_interval demo_runner))))"
  using heartbeat_bounds [OF demo_runner_new prod.collapse [symmetric], where k = 3 and ctl = demo_control
      and task = demo_task and s = "[]"
      and cl = "\<lparr>attempt_number = 1, claim_token = ''tok'', effect_class = '''', heartbeat_deadline = ''''\<rparr>"]
  by (rule conjunct1)

theorem run_task_outcome_witness:
  "\<exists>d. fst demo_run = Returned d \<and> accepted demo_control demo_runner demo_task d"
proof -
  obtain r t g where d: "demo_run = (r, t, g)" by (cases demo_run)
  obtain x where x: "r = Returned x" using demo_run_returns unfolding d by auto
  show ?thesis
    using run_task_outcome [OF demo_runner_new d [unfolded demo_run_def]] x unfolding d by simp
qed

end
