(* ===== verification/Retrying_Control.thy ===== *)
theory Retrying_Control
  imports Lifecycle Runner
begin

text \<open>
  \<open>RetryingControl\<close> of \<^verbatim>\<open>src/python/workers/kafka_worker.py\<close>: the control client of a consumer slot,
  which repeats a request while its outcome is uncertain and the worker is neither aborted nor past the
  deadline of the call.

  The two ways the program builds it are \<^verbatim>\<open>RetryingControl(url, lifecycle.abort, lifecycle)\<close>, where the
  stop event is the abort flag of the lifecycle, and \<^verbatim>\<open>RetryingControl(url, stop)\<close> in legacy mode,
  where it is an input of each round. Each pass of the retry loop is one round of the environment: what
  other threads do to the lifecycle before it and during its wait, and how long its steps take.
\<close>

section \<open>State and environment\<close>

record retry_state =
  rs_sent :: "request list"
  rs_lc :: "lifecycle option"
  rs_now :: rat
  rs_round :: nat
  rs_last_result_retries :: int
  rs_expected_attempt :: int
  rs_worker_id :: string
  rs_traceparent :: string

record retry_round =
  rr_events :: "lc_event list"
  rr_stop :: bool
  rr_check :: rat
  rr_start :: rat
  rr_send :: rat
  rr_request :: rat
  rr_wait_events :: "lc_event list"
  rr_over :: rat
  rr_end :: rat

section \<open>Operations\<close>

definition ctl_stopped :: "rat \<Rightarrow> bool \<Rightarrow> lifecycle option \<Rightarrow> bool \<times> lifecycle option" where
  "ctl_stopped now stop lc =
     (case lc of
        None \<Rightarrow> (stop, None)
      | Some st \<Rightarrow> (case aborted now st of (b, st1) \<Rightarrow> (b, Some st1)))"

definition request_timeout :: "client \<Rightarrow> rat option \<Rightarrow> rat \<Rightarrow> lifecycle option \<Rightarrow> rat" where
  "request_timeout c deadline now lc =
     (case (lc, deadline) of
        (Some st, Some d) \<Rightarrow>
          min (client_timeout c) (max (1 / 1000) (min (remaining now st) (d - now)))
      | _ \<Rightarrow> client_timeout c)"

definition operation_of :: "string \<Rightarrow> string" where
  "operation_of path = (case rsplit1 (CHR ''/'') path of Some (_, b) \<Rightarrow> b | None \<Rightarrow> path)"

text \<open>New work: a delivery or a claim is not sent once the worker drains.\<close>

definition gated :: "string \<Rightarrow> bool" where
  "gated operation \<longleftrightarrow> operation = ''worker-deliveries'' \<or> operation = ''claim''"

definition may_send :: "string \<Rightarrow> rat \<Rightarrow> lifecycle option \<Rightarrow> bool \<times> lifecycle option" where
  "may_send operation now lc =
     (case lc of
        Some st \<Rightarrow> if gated operation then (case can_start now st of (b, st1) \<Rightarrow> (b, Some st1))
                   else (True, lc)
      | None \<Rightarrow> (True, lc))"

definition past :: "rat option \<Rightarrow> rat \<Rightarrow> bool" where
  "past deadline now \<longleftrightarrow> (case deadline of None \<Rightarrow> False | Some d \<Rightarrow> d \<le> now)"

text \<open>After the loop.\<close>

definition give_up ::
  "retry_round \<Rightarrow> rat option \<Rightarrow> retry_state \<Rightarrow> (ctl_exn + dict) \<times> retry_state" where
  "give_up r deadline s =
     (let now = rs_now s + rr_end r;
          expired = rs_lc s \<noteq> None \<and> past deadline now;
          (b, lc) = (if expired then ctl_stopped now (rr_stop r) (rs_lc s) else (True, rs_lc s));
          s1 = s\<lparr>rs_now := now, rs_lc := lc\<rparr>
      in if expired \<and> \<not> b
         then (Inl (control_raises 503 ''CONTROL_UNAVAILABLE'' ''control retry deadline exceeded''), s1)
         else (Inl (control_raises 503 ''SHUTTING_DOWN'' ''worker is stopping''), s1))"

definition retry_wait :: "rat option \<Rightarrow> rat \<Rightarrow> rat \<Rightarrow> lifecycle option \<Rightarrow> rat" where
  "retry_wait deadline delay now lc =
     (case (lc, deadline) of
        (Some st, Some d) \<Rightarrow> min delay (min (remaining now st) (max 0 (d - now)))
      | _ \<Rightarrow> delay)"

text \<open>The wait ends early only when the stop event is set.\<close>

definition waited :: "retry_round \<Rightarrow> rat option \<Rightarrow> rat \<Rightarrow> retry_state \<Rightarrow> retry_state" where
  "waited r deadline delay s =
     (let w = retry_wait deadline delay (rs_now s) (rs_lc s);
          lc = map_option (lc_run (rr_wait_events r)) (rs_lc s);
          woken = (case lc of Some st \<Rightarrow> lc_abort st | None \<Rightarrow> False)
      in s\<lparr>rs_lc := lc, rs_now := rs_now s + (if woken then 0 else w) + rr_over r\<rparr>)"

text \<open>The request of one round: the base class's \<open>_post\<close> under the timeout of the moment.\<close>

definition send_round ::
  "token_env \<Rightarrow> http_env \<Rightarrow> client \<Rightarrow> retry_round \<Rightarrow> string \<Rightarrow> dict \<Rightarrow> rat option \<Rightarrow> retry_state \<Rightarrow>
   (ctl_exn + dict) \<times> retry_state" where
  "send_round tok http c r path body deadline s =
     (let t = rs_now s + rr_send r;
          c1 = c\<lparr>traceparent := rs_traceparent s\<rparr>
      in case post tok http c1 (request_timeout c1 deadline t (rs_lc s)) path body (rs_sent s) of
           (out, sent) \<Rightarrow> (out, s\<lparr>rs_sent := sent, rs_now := t + rr_request r\<rparr>))"

text \<open>The tests at the head of the loop: whether this round may send, and the state after them.\<close>

definition head_round ::
  "retry_round \<Rightarrow> string \<Rightarrow> rat option \<Rightarrow> retry_state \<Rightarrow> bool \<times> retry_state" where
  "head_round r operation deadline s =
     (let t1 = rs_now s + rr_check r;
          (stopped, lc1) = ctl_stopped t1 (rr_stop r) (map_option (lc_run (rr_events r)) (rs_lc s));
          s1 = s\<lparr>rs_lc := lc1, rs_now := t1, rs_round := Suc (rs_round s)\<rparr>
      in if stopped \<or> past deadline t1 then (False, s1)
         else (case may_send operation (t1 + rr_start r) lc1 of (ok, lc2) \<Rightarrow>
                 (ok, s1\<lparr>rs_lc := lc2, rs_now := t1 + rr_start r\<rparr>)))"

fun retry_loop ::
  "nat \<Rightarrow> token_env \<Rightarrow> http_env \<Rightarrow> client \<Rightarrow> (nat \<Rightarrow> retry_round) \<Rightarrow> string \<Rightarrow> dict \<Rightarrow> rat option \<Rightarrow>
   rat \<Rightarrow> int \<Rightarrow> retry_state \<Rightarrow> ((ctl_exn + dict) \<times> retry_state) option"
where
  "retry_loop 0 tok http c rounds path body deadline delay retries s = None"
| "retry_loop (Suc k) tok http c rounds path body deadline delay retries s =
     (let r = rounds (rs_round s); operation = operation_of path
      in case head_round r operation deadline s of (ok, s1) \<Rightarrow>
         if \<not> ok then Some (give_up r deadline s1)
         else (case send_round tok http c r path body deadline s1 of
             (Inr response, s2) \<Rightarrow>
               Some (Inr response,
                     if operation = ''result'' then s2\<lparr>rs_last_result_retries := retries\<rparr> else s2)
           | (Inl (Builtin e), s2) \<Rightarrow> Some (Inl (Builtin e), s2)
           | (Inl (Control e), s2) \<Rightarrow>
               if ce_status e < 500
               then Some (Inl (Control (e\<lparr>ce_operation := operation, ce_retry_count := retries\<rparr>)), s2)
               else retry_loop k tok http c rounds path body deadline (min 5 (delay * 2)) (retries + 1)
                      (waited r deadline delay s2)))"

text \<open>\<open>_post\<close>. With a lifecycle the deadline is thirty seconds away; the fuel bounds the rounds.\<close>

definition retry_post ::
  "nat \<Rightarrow> token_env \<Rightarrow> http_env \<Rightarrow> client \<Rightarrow> (nat \<Rightarrow> retry_round) \<Rightarrow> string \<Rightarrow> dict \<Rightarrow> retry_state \<Rightarrow>
   ((ctl_exn + dict) \<times> retry_state) option" where
  "retry_post fuel tok http c rounds path body s =
     (let deadline = (if rs_lc s \<noteq> None then Some (rs_now s + 30) else None);
          s1 = (if operation_of path = ''result'' then s\<lparr>rs_last_result_retries := 0\<rparr> else s)
      in retry_loop fuel tok http c rounds path body deadline (1 / 10) 0 s1)"

text \<open>The client as the runner uses it. A call that is still retrying when the fuel is spent has no
  result; with a lifecycle twelve rounds are enough (below).\<close>

definition posting ::
  "nat \<Rightarrow> token_env \<Rightarrow> http_env \<Rightarrow> client \<Rightarrow> (nat \<Rightarrow> retry_round) \<Rightarrow> string \<Rightarrow> dict \<Rightarrow>
   (retry_state, ctl_exn, dict) sm" where
  "posting fuel tok http c rounds path body s =
     (case retry_post fuel tok http c rounds path body s of
        Some x \<Rightarrow> x
      | None \<Rightarrow> (Inl (Builtin (RuntimeError ''still retrying'')), s))"

definition retrying_control ::
  "nat \<Rightarrow> token_env \<Rightarrow> http_env \<Rightarrow> client \<Rightarrow> (nat \<Rightarrow> retry_round) \<Rightarrow> retry_state worker_control" where
  "retrying_control fuel tok http c rounds =
     \<lparr>ctl_claim = (\<lambda>w n i wk rid lease s.
        claim_call (posting fuel tok http c rounds) w n i wk rid lease (rs_expected_attempt s) s),
      ctl_heartbeat = heartbeat_call (posting fuel tok http c rounds),
      ctl_result = (\<lambda>w n i num token st payload.
        result_call (posting fuel tok http c rounds) w n i num token st payload '''' ''''),
      ctl_aborted = (\<lambda>s. case ctl_stopped (rs_now s) (rr_stop (rounds (rs_round s))) (rs_lc s) of
        (b, lc) \<Rightarrow> (b, s\<lparr>rs_lc := lc\<rparr>))\<rparr>"

section \<open>The retry loop ends\<close>

definition rounds_ok :: "(nat \<Rightarrow> retry_round) \<Rightarrow> bool" where
  "rounds_ok rounds \<longleftrightarrow> (\<forall>i. 0 \<le> rr_check (rounds i) \<and> 0 \<le> rr_start (rounds i) \<and> 0 \<le> rr_send (rounds i) \<and>
     0 \<le> rr_request (rounds i) \<and> 0 \<le> rr_over (rounds i))"

definition rs_inv :: "retry_state \<Rightarrow> bool" where
  "rs_inv s \<longleftrightarrow> (\<exists>st. rs_lc s = Some st \<and> lc_inv st)"

text \<open>A state from which the next round does not send: the deadline of the call has passed, or the
  worker is aborted or its drain has expired.\<close>

definition ending :: "rat \<Rightarrow> retry_state \<Rightarrow> bool" where
  "ending d s \<longleftrightarrow> d \<le> rs_now s \<or> (\<exists>st. rs_lc s = Some st \<and>
     (lc_abort st \<or> lc_drain st \<and> (\<exists>ld. lc_deadline st = Some ld \<and> ld \<le> rs_now s)))"

lemma aborted_inv: "lc_inv st \<Longrightarrow> lc_inv (snd (aborted now st))"
  using lc_apply_inv [of st "Check_aborted now"] by simp

lemma can_start_inv: "lc_inv st \<Longrightarrow> lc_inv (snd (can_start now st))"
  using aborted_inv [of st now] by (simp add: can_start_def case_prod_unfold)

lemma ctl_stopped_Some: "ctl_stopped now b (Some st) = (fst (aborted now st), Some (snd (aborted now st)))"
  by (simp add: ctl_stopped_def split: prod.splits)

lemma may_send_Some:
  "may_send op now (Some st) =
     (if gated op then (fst (can_start now st), Some (snd (can_start now st))) else (True, Some st))"
  by (simp add: may_send_def split: prod.splits)

lemma head_round_inv: "rs_inv s \<Longrightarrow> rs_inv (snd (head_round r op d s))"
  by (auto simp: rs_inv_def head_round_def Let_def ctl_stopped_Some may_send_Some lc_run_inv
      aborted_inv can_start_inv)

lemma head_round_now:
  "0 \<le> rr_check r \<Longrightarrow> 0 \<le> rr_start r \<Longrightarrow> rs_now s \<le> rs_now (snd (head_round r op d s))"
  by (auto simp: head_round_def Let_def split: prod.splits)

lemma head_round_sent [simp]: "rs_sent (snd (head_round r op d s)) = rs_sent s"
  by (auto simp: head_round_def Let_def split: prod.splits)

lemma head_round_ending:
  assumes "rs_inv s" "ending d s" "0 \<le> rr_check r"
  shows "\<not> fst (head_round r op (Some d) s)"
proof -
  from assms(1) obtain st where st: "rs_lc s = Some st" by (auto simp: rs_inv_def)
  let ?st = "lc_run (rr_events r) st" and ?t = "rs_now s + rr_check r"
  have com: "lc_committed st ?st" by (rule lc_run_committed)
  have "d \<le> ?t \<or> fst (aborted ?t ?st)"
    using assms(2,3) com st by (auto simp: ending_def aborted_iff lc_committed_def intro: add_increasing2)
  then show ?thesis
    by (auto simp: head_round_def Let_def st ctl_stopped_Some past_def)
qed

lemma send_round_frame:
  assumes "send_round tok http c r path body d s = (out, s')"
  shows "rs_lc s' = rs_lc s" and "rs_now s' = rs_now s + rr_send r + rr_request r"
  using assms by (auto simp: send_round_def Let_def split: prod.splits)

lemma waited_inv: "rs_inv s \<Longrightarrow> rs_inv (waited r d delay s)"
  by (auto simp: rs_inv_def waited_def Let_def lc_run_inv)

lemma waited_progress:
  assumes "rs_inv s" "delay \<le> 5" "0 \<le> rr_over r"
  shows "ending d (waited r (Some d) delay s) \<or> rs_now s + delay \<le> rs_now (waited r (Some d) delay s)"
proof -
  from assms(1) obtain st where st: "rs_lc s = Some st" "lc_inv st" by (auto simp: rs_inv_def)
  let ?st = "lc_run (rr_wait_events r) st" and ?now = "rs_now s" and ?w = "waited r (Some d) delay s"
  let ?m = "min delay (min (remaining ?now st) (max 0 (d - ?now)))"
  have com: "lc_committed st ?st" by (rule lc_run_committed)
  have lc: "rs_lc ?w = Some ?st" by (simp add: waited_def Let_def st)
  show ?thesis
  proof (cases "lc_abort ?st")
    case True
    with lc show ?thesis by (auto simp: ending_def)
  next
    case False
    then have now: "rs_now ?w = ?now + ?m + rr_over r"
      by (simp add: waited_def Let_def st retry_wait_def)
    consider "?m = delay" | "?m = remaining ?now st" "?m \<noteq> delay" | "?m = max 0 (d - ?now)" by linarith
    then show ?thesis
    proof cases
      case 1
      then have "rs_now ?w = ?now + delay + rr_over r" using now by simp
      then show ?thesis using assms(3) by simp
    next
      case 2
      then have "remaining ?now st < delay" by linarith
      with assms(2) obtain ld where ld: "lc_deadline st = Some ld"
        by (cases "lc_deadline st") (auto simp: remaining_def)
      then have dr: "lc_drain st" using st(2) by (auto simp: lc_inv_def)
      have "ld \<le> ?now + remaining ?now st" by (simp add: remaining_def ld)
      then have "ld \<le> rs_now ?w" using now 2(1) assms(3) by linarith
      then show ?thesis using com ld dr lc by (auto simp: ending_def lc_committed_def)
    next
      case 3
      then have "d \<le> rs_now ?w" using now assms(3) by linarith
      then show ?thesis by (simp add: ending_def)
    qed
  qed
qed

text \<open>How much waiting the next \<open>k\<close> rounds do at least.\<close>

fun budget :: "nat \<Rightarrow> rat \<Rightarrow> rat" where
  "budget 0 delay = 0"
| "budget (Suc k) delay = delay + budget k (min 5 (delay * 2))"

lemma budget_nonneg: "0 \<le> delay \<Longrightarrow> 0 \<le> budget k delay"
  by (induction k arbitrary: delay) auto

lemma retry_loop_ends:
  assumes "rounds_ok rounds" "0 \<le> delay" "delay \<le> 5" "rs_inv s"
    and "ending d s \<or> d - rs_now s \<le> budget k delay"
  shows "\<exists>x. retry_loop (Suc k) tok http c rounds path body (Some d) delay retries s = Some x"
  using assms(2-)
proof (induction k arbitrary: delay retries s)
  case 0
  then have "ending d s" by (auto simp: ending_def)
  then have "\<not> fst (head_round (rounds (rs_round s)) (operation_of path) (Some d) s)"
    using 0 assms(1) head_round_ending by (simp add: rounds_ok_def)
  then show ?case by (auto simp: Let_def split: prod.split)
next
  case (Suc k)
  let ?r = "rounds (rs_round s)" and ?op = "operation_of path"
  have lags: "0 \<le> rr_check ?r" "0 \<le> rr_start ?r" "0 \<le> rr_send ?r" "0 \<le> rr_request ?r" "0 \<le> rr_over ?r"
    using assms(1) by (auto simp: rounds_ok_def)
  obtain ok s1 where h: "head_round ?r ?op (Some d) s = (ok, s1)" by fastforce
  obtain out s2 where p: "send_round tok http c ?r path body (Some d) s1 = (out, s2)" by fastforce
  let ?s3 = "waited ?r (Some d) delay s2"
  have "\<exists>x. retry_loop (Suc k) tok http c rounds path body (Some d) (min 5 (delay * 2)) (retries + 1) ?s3 = Some x"
    if ok
  proof (rule Suc.IH)
    have i1: "rs_inv s1" using head_round_inv [OF Suc.prems(3)] h by (metis snd_conv)
    then have i2: "rs_inv s2" using send_round_frame [OF p] by (simp add: rs_inv_def)
    then show "rs_inv ?s3" by (rule waited_inv)
    have "\<not> ending d s" using head_round_ending [OF Suc.prems(3) _ lags(1), of d ?op] h that by auto
    then have bud: "d - rs_now s \<le> delay + budget k (min 5 (delay * 2))" using Suc.prems(4) by simp
    have "rs_now s \<le> rs_now s1" using head_round_now [OF lags(1,2), of s ?op "Some d"] h by simp
    then have "rs_now s \<le> rs_now s2" using send_round_frame [OF p] lags by linarith
    then show "ending d ?s3 \<or> d - rs_now ?s3 \<le> budget k (min 5 (delay * 2))"
      using waited_progress [OF i2 Suc.prems(2) lags(5), of d] bud by linarith
  qed (use Suc.prems in auto)
  then show ?case
    by (subst retry_loop.simps(2))
      (auto simp: Let_def h p simp del: retry_loop.simps split: sum.split ctl_exn.split)
qed

lemma budget_enough: "30 \<le> budget 11 (1 / 10)"
  by (simp add: numeral_eq_Suc)

lemma retry_post_total:
  assumes "rs_inv s" and "rounds_ok rounds"
  shows "\<exists>r s'. retry_post 12 tok http c rounds path body s = Some (r, s')"
proof -
  let ?s = "if operation_of path = ''result'' then s\<lparr>rs_last_result_retries := 0\<rparr> else s"
  from assms(1) obtain st where st: "rs_lc s = Some st" by (auto simp: rs_inv_def)
  have "\<exists>x. retry_loop (Suc 11) tok http c rounds path body (Some (rs_now s + 30)) (1 / 10) 0 ?s = Some x"
    using assms budget_enough by (intro retry_loop_ends) (auto simp: rs_inv_def)
  moreover have "Suc 11 = 12" by simp
  ultimately obtain x where
    "retry_loop 12 tok http c rounds path body (Some (rs_now s + 30)) (1 / 10) 0 ?s = Some x"
    by metis
  then show ?thesis
    by (cases x) (simp add: retry_post_def Let_def st del: retry_loop.simps)
qed

text \<open>
  A control call of a draining-aware worker always ends. Whatever the API answers, whatever other
  threads do and however long each step takes, the retry loop ends within twelve rounds; the back-off
  doubles from a tenth of a second to five.
\<close>

theorem retry_post_ends:
  assumes "rs_lc s = Some st" and "lc_inv st"
    and "\<forall>i. 0 \<le> rr_check (rounds i) \<and> 0 \<le> rr_start (rounds i) \<and> 0 \<le> rr_send (rounds i) \<and>
           0 \<le> rr_request (rounds i) \<and> 0 \<le> rr_over (rounds i)"
  shows "\<exists>r s'. retry_post 12 tok http c rounds path body s = Some (r, s')"
  by (rule retry_post_total) (use assms in \<open>auto simp: rs_inv_def rounds_ok_def\<close>)

section \<open>What is sent\<close>

definition draining :: "retry_state \<Rightarrow> bool" where
  "draining s \<longleftrightarrow> (\<exists>st. rs_lc s = Some st \<and> lc_drain st)"

lemma send_round_sent:
  assumes "send_round tok http c r path body d s = (out, s')"
  shows "\<exists>cs. rs_sent s' = rs_sent s @ cs \<and> (\<forall>q \<in> set cs. same_request (base_url c) path body q) \<and>
    length cs \<le> 1 \<and> (is_ok out \<longrightarrow> cs \<noteq> [])"
proof -
  let ?c = "c\<lparr>traceparent := rs_traceparent s\<rparr>"
  obtain sent where "post tok http ?c (request_timeout ?c d (rs_now s + rr_send r) (rs_lc s)) path body
      (rs_sent s) = (out, sent)" and s': "rs_sent s' = sent"
    using assms by (auto simp: send_round_def Let_def split: prod.splits)
  from post_grows [OF this(1)] s' show ?thesis
    by (auto simp: grows_def same_request_def)
qed

lemma waited_sent [simp]: "rs_sent (waited r d delay s) = rs_sent s"
  by (simp add: waited_def Let_def)

lemma give_up_sent [simp]: "rs_sent (snd (give_up r d s)) = rs_sent s"
  by (auto simp: give_up_def Let_def split: prod.splits)

lemma give_up_fails: "\<not> is_ok (fst (give_up r d s))"
  by (auto simp: give_up_def Let_def split: prod.splits)

lemma head_round_draining:
  assumes "draining s" "gated op"
  shows "\<not> fst (head_round r op d s)"
proof -
  from assms(1) obtain st where st: "rs_lc s = Some st" "lc_drain st" by (auto simp: draining_def)
  let ?st = "lc_run (rr_events r) st" and ?t = "rs_now s + rr_check r"
  have "lc_committed st ?st" "lc_committed ?st (snd (aborted ?t ?st))"
    by (rule lc_run_committed, rule aborted_snd)
  then have "lc_drain (snd (aborted ?t ?st))" using st(2) by (simp add: lc_committed_def)
  then show ?thesis
    using assms(2) by (simp add: head_round_def Let_def st ctl_stopped_Some may_send_Some can_start_def)
qed

lemma retry_loop_sent:
  assumes "retry_loop k tok http c rounds path body d delay retries s = Some (r, s')"
  shows "\<exists>cs. rs_sent s' = rs_sent s @ cs \<and> (\<forall>q \<in> set cs. same_request (base_url c) path body q) \<and>
    length cs \<le> k \<and> (is_ok r \<longrightarrow> cs \<noteq> []) \<and> (draining s \<and> gated (operation_of path) \<longrightarrow> cs = [])"
  using assms
proof (induction k arbitrary: delay retries s)
  case 0
  then show ?case by simp
next
  case (Suc k)
  let ?r = "rounds (rs_round s)" and ?op = "operation_of path"
  obtain ok s1 where h: "head_round ?r ?op d s = (ok, s1)" by fastforce
  then have s1: "rs_sent s1 = rs_sent s" using head_round_sent [of ?r ?op d s] by simp
  show ?case
  proof (cases ok)
    case False
    with Suc.prems h have "(r, s') = give_up ?r d s1" by simp
    then have "rs_sent s' = rs_sent s @ []" "\<not> is_ok r"
      using give_up_sent [of ?r d s1] give_up_fails [of ?r d s1] s1
      by (metis append_Nil2 snd_conv, metis fst_conv)
    then show ?thesis by (intro exI [of _ "[]"]) simp
  next
    case True
    then have nd: "\<not> (draining s \<and> gated ?op)" using head_round_draining [of s ?op ?r d] h by auto
    obtain out s2 where p: "send_round tok http c ?r path body d s1 = (out, s2)" by fastforce
    from send_round_sent [OF p] s1 obtain cs where cs: "rs_sent s2 = rs_sent s @ cs"
        "\<forall>q \<in> set cs. same_request (base_url c) path body q" "length cs \<le> 1" "is_ok out \<longrightarrow> cs \<noteq> []"
      by auto
    consider (last) "rs_sent s' = rs_sent s2" "is_ok r \<longrightarrow> is_ok out"
      | (again) "retry_loop k tok http c rounds path body d (min 5 (delay * 2)) (retries + 1)
          (waited ?r d delay s2) = Some (r, s')"
      using Suc.prems h p True
      by (auto simp: Let_def split: sum.splits ctl_exn.splits if_splits)
    then show ?thesis
    proof cases
      case last
      with cs nd show ?thesis by (intro exI [of _ cs]) auto
    next
      case again
      from Suc.IH [OF again] obtain ds where "rs_sent s' = rs_sent s2 @ ds"
        "\<forall>q \<in> set ds. same_request (base_url c) path body q" "length ds \<le> k" "is_ok r \<longrightarrow> ds \<noteq> []"
        by auto
      with cs nd show ?thesis by (intro exI [of _ "cs @ ds"]) auto
    qed
  qed
qed

text \<open>
  Retries repeat one request. Everything one call puts on the wire has the same URL and the same
  body; a call that returns a response has sent at least one request; and a delivery or a claim is not
  sent at all by a worker that was draining when the call began.
\<close>

theorem retry_post_sent:
  assumes "retry_post fuel tok http c rounds path body s = Some (r, s')"
  shows "\<exists>cs. rs_sent s' = rs_sent s @ cs \<and> length cs \<le> fuel \<and>
    (\<forall>q \<in> set cs. rq_url q = base_url c @ path \<and> rq_data q = json_dumps_raw '','' '':'' (JObj body)) \<and>
    (is_ok r \<longrightarrow> cs \<noteq> []) \<and>
    ((\<exists>st. rs_lc s = Some st \<and> lc_drain st) \<and> operation_of path \<in> {''worker-deliveries'', ''claim''} \<longrightarrow> cs = [])"
proof -
  let ?s = "if operation_of path = ''result'' then s\<lparr>rs_last_result_retries := 0\<rparr> else s"
  have s: "rs_sent ?s = rs_sent s" "draining ?s \<longleftrightarrow> draining s" by (simp_all add: draining_def)
  obtain d where l: "retry_loop fuel tok http c rounds path body d (1 / 10) 0 ?s = Some (r, s')"
    using assms by (simp add: retry_post_def Let_def)
  from retry_loop_sent [OF l, unfolded s] show ?thesis
    unfolding same_request_def draining_def gated_def by blast
qed

section \<open>The runner's contract\<close>

lemma posting_grows:
  assumes "posting fuel tok http c rounds path body s = (r, t)"
  shows "grows rs_sent True (same_request (base_url c) path body) (is_ok r) s t"
proof (cases "retry_post fuel tok http c rounds path body s")
  case None
  with assms show ?thesis by (auto simp: posting_def grows_def)
next
  case (Some x)
  with assms have "retry_post fuel tok http c rounds path body s = Some (r, t)"
    by (simp add: posting_def)
  from this [unfolded retry_post_def Let_def] show ?thesis
    by (auto simp: grows_def draining_def dest!: retry_loop_sent split: if_splits)
qed

interpretation retry_wire: wire_post "posting fuel tok http c rounds" rs_sent "base_url c" True
  for fuel tok http c rounds
  by unfold_locales (rule posting_grows)

interpretation retrying: recorded_control "retrying_control fuel tok http c rounds" rs_sent "base_url c" True
  for fuel tok http c rounds
  by unfold_locales
    (auto simp: retrying_control_def retry_wire.claim_grows retry_wire.heartbeat_grows
      retry_wire.result_grows split: prod.splits)

section \<open>Concrete calls\<close>

definition demo_state :: retry_state where
  "demo_state =
     \<lparr>rs_sent = [], rs_lc = Some demo_lifecycle, rs_now = 0, rs_round = 0, rs_last_result_retries = 0,
      rs_expected_attempt = 0, rs_worker_id = '''', rs_traceparent = ''''\<rparr>"

definition demo_rounds :: "nat \<Rightarrow> retry_round" where
  "demo_rounds i =
     \<lparr>rr_events = [], rr_stop = False, rr_check = 0, rr_start = 0, rr_send = 0, rr_request = 1,
      rr_wait_events = [], rr_over = 0, rr_end = 0\<rparr>"

lemma demo_lifecycle_inv: "lc_inv demo_lifecycle"
  by (simp add: lc_inv_def demo_lifecycle_def)

lemma demo_rounds_ok: "rounds_ok demo_rounds"
  by (simp add: rounds_ok_def demo_rounds_def)

theorem retry_post_ends_witness:
  "\<exists>r s'. retry_post 12 (\<lambda>_. No_token_file) (\<lambda>_ _. Url_error ''refused'') demo_client demo_rounds
     ''/v1/worker-deliveries'' [] demo_state = Some (r, s')"
  using retry_post_ends [OF _ demo_lifecycle_inv, of demo_state demo_rounds]
  by (simp add: demo_state_def demo_rounds_def)

theorem retry_post_sent_witness:
  "\<exists>r s'. retry_post 12 (\<lambda>_. No_token_file) (\<lambda>_ _. Url_error ''refused'') demo_client demo_rounds
     ''/v1/worker-deliveries'' [] (demo_state\<lparr>rs_lc := Some (begin_drain 0 demo_lifecycle)\<rparr>) = Some (r, s') \<and>
     rs_sent s' = []"
proof -
  let ?s = "demo_state\<lparr>rs_lc := Some (begin_drain 0 demo_lifecycle)\<rparr>"
  have "rs_inv ?s"
    using lc_apply_inv [OF demo_lifecycle_inv, of "Begin_drain 0"] by (simp add: rs_inv_def)
  then obtain r s' where r: "retry_post 12 (\<lambda>_. No_token_file) (\<lambda>_ _. Url_error ''refused'') demo_client
      demo_rounds ''/v1/worker-deliveries'' [] ?s = Some (r, s')"
    by (metis retry_post_total demo_rounds_ok)
  have "operation_of ''/v1/worker-deliveries'' = ''worker-deliveries''" by code_simp
  with retry_post_sent [OF r] have "rs_sent s' = []"
    by (auto simp: demo_state_def begin_drain_def demo_lifecycle_def)
  with r show ?thesis by blast
qed

end
