(* ===== verification/Kafka_Worker.thy ===== *)
theory Kafka_Worker
  imports Retrying_Control
begin

text \<open>
  The consumer slots of \<^verbatim>\<open>src/python/workers/kafka_worker.py\<close>: the body of a delivery, the handling of
  one message, the assignment listener, the polling loop of a slot and the pool of slots over the bounded
  executor.

  The Kafka consumer is a parameter: what it assigns, polls and whether it commits are inputs. Header
  and key bytes are carried by the text they decode to. The delivery response is read as the API types
  it: identifiers are strings and the iteration is an integer.
\<close>

section \<open>Messages\<close>

type_synonym topic_partition = "string \<times> int"

record message =
  msg_topic :: string
  msg_partition :: int
  msg_offset :: int
  msg_key :: "string option"
  msg_headers :: "(string \<times> string option) list"
  msg_value :: "byte list option"

definition msg_tp :: "message \<Rightarrow> topic_partition" where
  "msg_tp m = (msg_topic m, msg_partition m)"

text \<open>\<^verbatim>\<open>dict(headers)\<close> keeps the last value of a repeated key.\<close>

definition raw_header :: "message \<Rightarrow> string \<Rightarrow> string option option" where
  "raw_header m name = map_of (rev (msg_headers m)) name"

definition header :: "message \<Rightarrow> string \<Rightarrow> string" where
  "header m name = (case raw_header m name of Some (Some v) \<Rightarrow> v | _ \<Rightarrow> '''')"

definition b64_char :: "nat \<Rightarrow> char" where
  "b64_char n =
     (if n < 26 then char_of (65 + n) else if n < 52 then char_of (71 + n)
      else if n < 62 then char_of (n - 4) else if n = 62 then CHR ''+'' else CHR ''/'')"

fun b64encode :: "byte list \<Rightarrow> string" where
  "b64encode [] = []"
| "b64encode [a] =
     [b64_char (unat a div 4), b64_char (unat a mod 4 * 16), CHR ''='', CHR ''='']"
| "b64encode [a, b] =
     [b64_char (unat a div 4), b64_char (unat a mod 4 * 16 + unat b div 16),
      b64_char (unat b mod 16 * 4), CHR ''='']"
| "b64encode (a # b # c # xs) =
     [b64_char (unat a div 4), b64_char (unat a mod 4 * 16 + unat b div 16),
      b64_char (unat b mod 16 * 4 + unat c div 64), b64_char (unat c mod 64)] @ b64encode xs"

definition schema_version :: "message \<Rightarrow> int" where
  "schema_version m =
     (case py_int (header m ''schema-version'') of
        Some v \<Rightarrow> if v \<le> 0 then - 1 else v
      | None \<Rightarrow> - 1)"

definition delivery_body :: "message \<Rightarrow> dict" where
  "delivery_body m =
     [(''event_id'', JStr (if header m ''event-id'' \<noteq> '''' then header m ''event-id''
                           else case msg_key m of Some k \<Rightarrow> k | None \<Rightarrow> '''')),
      (''event_type'', JStr (header m ''event-type'')),
      (''schema_version'', JInt (schema_version m)),
      (''topic'', JStr (msg_topic m)),
      (''partition'', JInt (msg_partition m)),
      (''offset'', JInt (msg_offset m)),
      (''payload'', JStr (b64encode (case msg_value m of Some v \<Rightarrow> v | None \<Rightarrow> [])))]"

section \<open>Assignment\<close>

record assignment =
  as_generation :: int
  as_partitions :: "topic_partition set"

definition new_assignment :: assignment where
  "new_assignment = \<lparr>as_generation = 0, as_partitions = {}\<rparr>"

datatype as_event = Revoked "topic_partition list" | Assigned "topic_partition list"

fun on_partitions :: "as_event \<Rightarrow> assignment \<Rightarrow> assignment" where
  "on_partitions (Revoked ps) a =
     a\<lparr>as_generation := as_generation a + 1, as_partitions := as_partitions a - set ps\<rparr>"
| "on_partitions (Assigned ps) a =
     a\<lparr>as_generation := as_generation a + 1, as_partitions := set ps\<rparr>"

definition current :: "message \<Rightarrow> int \<Rightarrow> assignment \<Rightarrow> bool" where
  "current m generation a \<longleftrightarrow> as_generation a = generation \<and> msg_tp m \<in> as_partitions a"

section \<open>Handling a delivery\<close>

record delivery_state =
  ds_ctl :: retry_state
  ds_commits :: "(topic_partition \<times> int) list"
  ds_ex :: "executor option"
  ds_as :: "assignment option"
  ds_witness :: "witness option"

text \<open>The environment of one delivery: rebalances while the API is asked, a commit that fails, the time
  between the two admission tests, the fresh identifier, and, for a slot without an executor, the
  surroundings of the inline run.\<close>

record delivery_env =
  de_rebalances :: "as_event list"
  de_commit_error :: "exn option"
  de_lag :: rat
  de_uuid :: string
  de_run :: run_env

record transport =
  tr_fuel :: nat
  tr_token :: token_env
  tr_http :: http_env
  tr_client :: client
  tr_rounds :: "nat \<Rightarrow> retry_round"
  tr_fsum :: "json list \<Rightarrow> json"

datatype delivery_end = Ended "nat option" | Failed ctl_exn | Cut

text \<open>A listener callback; a revocation is counted by the lifecycle.\<close>

definition rebalance :: "as_event \<Rightarrow> delivery_state \<Rightarrow> delivery_state" where
  "rebalance e s =
     (let c = ds_ctl s;
          c1 = (case e of Revoked _ \<Rightarrow> c\<lparr>rs_lc := map_option (lc_apply Rebalance) (rs_lc c)\<rparr>
                | Assigned _ \<Rightarrow> c)
      in s\<lparr>ds_ctl := c1, ds_as := map_option (on_partitions e) (ds_as s)\<rparr>)"

text \<open>\<^verbatim>\<open>lifecycle is None or lifecycle.can_start()\<close>.\<close>

definition admitted :: "rat \<Rightarrow> delivery_state \<Rightarrow> bool \<times> delivery_state" where
  "admitted lag s =
     (let c = ds_ctl s; now = rs_now c + lag in
      case rs_lc c of
        None \<Rightarrow> (True, s)
      | Some st \<Rightarrow> (case can_start now st of (b, st1) \<Rightarrow>
          (b, s\<lparr>ds_ctl := c\<lparr>rs_lc := Some st1, rs_now := now\<rparr>\<rparr>)))"

definition trace_header :: "message \<Rightarrow> string res" where
  "trace_header m =
     (case raw_header m ''traceparent'' of
        None \<Rightarrow> Inr ''''
      | Some (Some v) \<Rightarrow> Inr v
      | Some None \<Rightarrow> Inl (AttributeError ''decode''))"

definition commit_delivery ::
  "exn option \<Rightarrow> message \<Rightarrow> dict \<Rightarrow> delivery_state \<Rightarrow> delivery_state res" where
  "commit_delivery err m response s =
     rbind (dict_item ''commit_offset'' response) (\<lambda>flag.
     if truthy flag then
       rbind (dict_item ''next_offset'' response) (\<lambda>v.
       rbind (py_int_json v) (\<lambda>offset.
       case err of
         Some e \<Rightarrow> Inl e
       | None \<Rightarrow> Inr (s\<lparr>ds_commits := ds_commits s @ [(msg_tp m, offset)]\<rparr>)))
     else Inr s)"

definition task_item :: "string \<Rightarrow> json \<Rightarrow> json res" where
  "task_item k task =
     (case task of JObj d \<Rightarrow> dict_item k d | _ \<Rightarrow> Inl (TypeError ''task is not subscriptable by name''))"

definition task_str :: "string \<Rightarrow> json \<Rightarrow> string res" where
  "task_str k task = rbind (task_item k task) (\<lambda>v.
     case as_str v of Some t \<Rightarrow> Inr t | None \<Rightarrow> Inl (TypeError k))"

definition task_int :: "string \<Rightarrow> json \<Rightarrow> int res" where
  "task_int k task = rbind (task_item k task) (\<lambda>v.
     case as_int v of Some i \<Rightarrow> Inr i | None \<Rightarrow> Inl (TypeError k))"

definition read_work :: "string \<Rightarrow> string \<Rightarrow> json \<Rightarrow> activity_task res" where
  "read_work worker_id uuid task =
     rbind (task_str ''workflow_id'' task) (\<lambda>w.
     rbind (task_str ''node_id'' task) (\<lambda>n.
     rbind (task_int ''iteration'' task) (\<lambda>i.
     rbind (task_str ''activity_name'' task) (\<lambda>name.
     rbind (task_str ''activity_version'' task) (\<lambda>version.
     rbind (task_item ''input'' task) (\<lambda>v.
     Inr \<lparr>at_workflow_id = w, at_node_id = n, at_iteration = i, at_worker_id = worker_id,
          at_request_id = worker_id @ '':'' @ uuid, at_activity_name = name,
          at_activity_version = version, at_input = v, at_attempt_lease_ms = 60000\<rparr>))))))"

text \<open>\<open>execute\<close>: a stale claim or attempt is logged and forgotten, everything else is raised.\<close>

definition execute ::
  "transport \<Rightarrow> run_env \<Rightarrow> activity_task \<Rightarrow> retry_state \<times> witness option \<Rightarrow>
   delivery_end \<times> retry_state \<times> witness option" where
  "execute tr env work sg =
     (case default_registry (tr_fsum tr) (re_environ env) of
        Inl e \<Rightarrow> (Failed (Builtin e), sg)
      | Inr registry \<Rightarrow>
          (case run_task (retrying_control (tr_fuel tr) (tr_token tr) (tr_http tr) (tr_client tr) (tr_rounds tr))
                  \<lparr>rn_registry = registry, rn_max_workers = 4, rn_interval = 5\<rparr> work env sg of
             (Returned _, sg1) \<Rightarrow> (Ended None, sg1)
           | (Interrupted, sg1) \<Rightarrow> (Cut, sg1)
           | (Raised (Builtin e), sg1) \<Rightarrow> (Failed (Builtin e), sg1)
           | (Raised (Control e), sg1) \<Rightarrow>
               (if definitive (ce_code e) then Ended None else Failed (Control e), sg1)))"

definition dispatch ::
  "transport \<Rightarrow> delivery_env \<Rightarrow> string \<Rightarrow> json \<Rightarrow> delivery_state \<Rightarrow> delivery_end \<times> delivery_state" where
  "dispatch tr env worker_id task s0 =
     (let s = s0\<lparr>ds_ctl := (ds_ctl s0)\<lparr>rs_worker_id := worker_id\<rparr>\<rparr> in
      case rbind (task_item ''attempt_number'' task) py_int_json of
        Inl e \<Rightarrow> (Failed (Builtin e), s)
      | Inr attempt \<Rightarrow>
          (let c = (ds_ctl s)\<lparr>rs_expected_attempt := attempt\<rparr>; s1 = s\<lparr>ds_ctl := c\<rparr> in
           case read_work worker_id (de_uuid env) task of
             Inl e \<Rightarrow> (Failed (Builtin e), s1)
           | Inr work \<Rightarrow>
               (case ds_ex s1 of
                  Some ex \<Rightarrow>
                    (case submit ex of
                       (Inl e, ex1) \<Rightarrow> (Failed (Builtin e), s1\<lparr>ds_ex := Some ex1\<rparr>)
                     | (Inr j, ex1) \<Rightarrow> (Ended (Some j), s1\<lparr>ds_ex := Some ex1\<rparr>))
                | None \<Rightarrow>
                    (case execute tr (de_run env) work (c, ds_witness s1) of (r, c1, g1) \<Rightarrow>
                       (r, s1\<lparr>ds_ctl := c1, ds_witness := g1\<rparr>)))))"

text \<open>What follows the API's response.\<close>

definition after_response ::
  "transport \<Rightarrow> delivery_env \<Rightarrow> string \<Rightarrow> message \<Rightarrow> int \<Rightarrow> dict \<Rightarrow> delivery_state \<Rightarrow>
   delivery_end \<times> delivery_state" where
  "after_response tr env worker_id m generation response s =
     (if (case ds_as s of Some a \<Rightarrow> \<not> current m generation a | None \<Rightarrow> False) then (Ended None, s)
      else case commit_delivery (de_commit_error env) m response s of
             Inl e \<Rightarrow> (Failed (Builtin e), s)
           | Inr s1 \<Rightarrow>
               (case admitted (de_lag env) s1 of (ok, s2) \<Rightarrow>
                  if \<not> ok then (Ended None, s2)
                  else (case map_of response ''task'' of
                          None \<Rightarrow> (Ended None, s2)
                        | Some JNull \<Rightarrow> (Ended None, s2)
                        | Some task \<Rightarrow> dispatch tr env worker_id task s2)))"

definition ask_api ::
  "transport \<Rightarrow> message \<Rightarrow> delivery_state \<Rightarrow> (ctl_exn + dict) \<times> delivery_state" where
  "ask_api tr m s =
     (case posting (tr_fuel tr) (tr_token tr) (tr_http tr) (tr_client tr) (tr_rounds tr)
             ''/v1/worker-deliveries'' (delivery_body m) (ds_ctl s) of
        (r, c) \<Rightarrow> (r, s\<lparr>ds_ctl := c\<rparr>))"

definition handle_delivery ::
  "transport \<Rightarrow> delivery_env \<Rightarrow> string \<Rightarrow> message \<Rightarrow> delivery_state \<Rightarrow> delivery_end \<times> delivery_state" where
  "handle_delivery tr env worker_id m s =
     (case admitted 0 s of (ok, s1) \<Rightarrow>
       if \<not> ok then (Ended None, s1)
       else
         (let generation = (case ds_as s1 of Some a \<Rightarrow> as_generation a | None \<Rightarrow> 0) in
          case trace_header m of
            Inl e \<Rightarrow> (Failed (Builtin e), s1)
          | Inr tp \<Rightarrow>
              (case ask_api tr m (s1\<lparr>ds_ctl := (ds_ctl s1)\<lparr>rs_traceparent := tp\<rparr>\<rparr>) of
                 (Inl e, s2) \<Rightarrow> (Failed e, s2)
               | (Inr response, s2) \<Rightarrow>
                   after_response tr env worker_id m generation response
                     (fold rebalance (de_rebalances env) s2))))"

section \<open>A slot\<close>

datatype consumer_call =
    Pause "topic_partition list"
  | Resume "topic_partition list"
  | Seek topic_partition int

record slot =
  sl_ds :: delivery_state
  sl_active :: "nat option"
  sl_calls :: "consumer_call list"

text \<open>One poll: the partitions assigned before and after it, the rebalances it runs, the records it
  returns, each with the environment of its delivery.\<close>

record poll_env =
  pe_assigned :: "topic_partition list"
  pe_events :: "as_event list"
  pe_assigned_after :: "topic_partition list"
  pe_records :: "(topic_partition \<times> (message \<times> delivery_env) list) list"

definition slot_busy :: "executor \<Rightarrow> nat option \<Rightarrow> bool" where
  "slot_busy ex active = (case active of None \<Rightarrow> False | Some j \<Rightarrow> ex_jobs ex ! j \<noteq> Done)"

definition seek_back ::
  "topic_partition list \<Rightarrow> (topic_partition \<times> (message \<times> delivery_env) list) list \<Rightarrow> consumer_call list" where
  "seek_back assigned records =
     concat (map (\<lambda>(p, rs). case rs of
                    [] \<Rightarrow> []
                  | (m, _) # _ \<Rightarrow> if p \<in> set assigned then [Seek p (msg_offset m)] else []) records)"

fun handle_all ::
  "transport \<Rightarrow> string \<Rightarrow> (message \<times> delivery_env) list \<Rightarrow> slot \<Rightarrow> delivery_end \<times> slot" where
  "handle_all tr worker_id [] sl = (Ended None, sl)"
| "handle_all tr worker_id ((m, env) # rest) sl =
     (case handle_delivery tr env worker_id m (sl_ds sl) of
        (Ended a, ds) \<Rightarrow> handle_all tr worker_id rest (sl\<lparr>sl_ds := ds, sl_active := a\<rparr>)
      | (r, ds) \<Rightarrow> (r, sl\<lparr>sl_ds := ds\<rparr>))"

text \<open>The slots share one lifecycle object: a slot enters a pass with the executor's and leaves its own
  there.\<close>

definition enter_slot :: "executor \<Rightarrow> delivery_state \<Rightarrow> delivery_state" where
  "enter_slot ex s =
     s\<lparr>ds_ex := Some ex, ds_ctl := (ds_ctl s)\<lparr>rs_lc := Some (ex_lifecycle ex)\<rparr>\<rparr>"

definition leave_slot :: "executor \<Rightarrow> delivery_state \<Rightarrow> executor" where
  "leave_slot ex0 s =
     (let ex = (case ds_ex s of Some ex \<Rightarrow> ex | None \<Rightarrow> ex0)
      in case rs_lc (ds_ctl s) of Some st \<Rightarrow> ex\<lparr>ex_lifecycle := st\<rparr> | None \<Rightarrow> ex)"

text \<open>One pass of the polling loop; \<open>None\<close> when the loop ends because the worker drains.\<close>

definition consume_round ::
  "transport \<Rightarrow> string \<Rightarrow> executor \<Rightarrow> poll_env \<Rightarrow> slot \<Rightarrow> delivery_end option \<times> slot" where
  "consume_round tr worker_id ex env sl0 =
     (case admitted 0 (enter_slot ex (sl_ds sl0)) of (ok, ds0) \<Rightarrow>
       if \<not> ok then (None, sl0\<lparr>sl_ds := ds0\<rparr>)
       else
         (let busy = slot_busy ex (sl_active sl0);
              calls = (if pe_assigned env = [] then []
                       else [if busy then Pause (pe_assigned env) else Resume (pe_assigned env)]);
              sl = sl0\<lparr>sl_ds := fold rebalance (pe_events env) ds0, sl_calls := sl_calls sl0 @ calls\<rparr>
          in if busy
             then (Some (Ended None),
                   sl\<lparr>sl_calls := sl_calls sl @ seek_back (pe_assigned_after env) (pe_records env)\<rparr>)
             else (case handle_all tr worker_id (concat (map snd (pe_records env))) sl of
                     (r, sl1) \<Rightarrow> (Some r, sl1))))"

text \<open>After an exception the slot starts again with a fresh consumer, listener and control client; the
  handle of the running activity survives.\<close>

definition restart_slot :: "slot \<Rightarrow> slot" where
  "restart_slot sl =
     (let ds = sl_ds sl; c = ds_ctl ds in
      sl\<lparr>sl_ds := ds\<lparr>ds_as := Some new_assignment,
           ds_ctl := c\<lparr>rs_last_result_retries := 0, rs_expected_attempt := 0, rs_worker_id := '''',
                       rs_traceparent := ''''\<rparr>\<rparr>\<rparr>)"

section \<open>The pool\<close>

definition start_pool :: "string \<Rightarrow> int \<Rightarrow> lifecycle option \<Rightarrow> (bool \<times> string list) res" where
  "start_pool worker_id slots lc =
     (if slots < 1 \<or> slots > 16 then Inl (ValueError ''WORKER_SLOTS must be between 1 and 16'')
      else Inr (case lc of Some st \<Rightarrow> \<not> lc_legacy st | None \<Rightarrow> False,
                map (\<lambda>i. worker_id @ ''-'' @ show_nat i) [0..<nat slots]))"

text \<open>The state of the pool: the executor the slots share and each slot's own state.\<close>

record pool =
  pl_ex :: executor
  pl_slots :: "slot list"

definition new_slot :: "retry_state \<Rightarrow> slot" where
  "new_slot c =
     \<lparr>sl_ds = \<lparr>ds_ctl = c, ds_commits = [], ds_ex = None, ds_as = Some new_assignment, ds_witness = None\<rparr>,
      sl_active = None, sl_calls = []\<rparr>"

definition new_pool :: "lifecycle \<Rightarrow> retry_state list \<Rightarrow> pool" where
  "new_pool lc cs = \<lparr>pl_ex = new_executor lc (length cs), pl_slots = map new_slot cs\<rparr>"

definition pool_round :: "transport \<Rightarrow> string \<Rightarrow> nat \<Rightarrow> poll_env \<Rightarrow> pool \<Rightarrow> delivery_end option \<times> pool" where
  "pool_round tr worker_id i env p =
     (case consume_round tr worker_id (pl_ex p) env (pl_slots p ! i) of (r, sl) \<Rightarrow>
        (r, p\<lparr>pl_ex := leave_slot (pl_ex p) (sl_ds sl),
              pl_slots := (pl_slots p)[i := sl]\<rparr>))"

text \<open>
  The steps of the pool: a pass of one slot's loop, over a poll that respects \<open>max_records=1\<close>, the
  restart of a slot, an effect of an activity's thread, and an operation on the lifecycle.
\<close>

inductive pool_step :: "transport \<Rightarrow> string \<Rightarrow> pool \<Rightarrow> pool \<Rightarrow> bool" for tr worker_id where
  pool_poll: "i < length (pl_slots p) \<Longrightarrow> length (concat (map snd (pe_records env))) \<le> 1 \<Longrightarrow>
     pool_round tr worker_id i env p = (r, p') \<Longrightarrow> pool_step tr worker_id p p'"
| pool_restart: "i < length (pl_slots p) \<Longrightarrow>
     pool_step tr worker_id p (p\<lparr>pl_slots := (pl_slots p)[i := restart_slot (pl_slots p ! i)]\<rparr>)"
| pool_job: "j < length (ex_jobs (pl_ex p)) \<Longrightarrow> job_step j (pl_ex p) = Inr ex' \<Longrightarrow>
     pool_step tr worker_id p (p\<lparr>pl_ex := ex'\<rparr>)"
| pool_lc: "pool_step tr worker_id p (p\<lparr>pl_ex := (pl_ex p)\<lparr>ex_lifecycle := lc\<rparr>\<rparr>)"

section \<open>Frames\<close>

lemma admitted_frame [simp]:
  "ds_commits (snd (admitted lag s)) = ds_commits s" "ds_as (snd (admitted lag s)) = ds_as s"
  "ds_ex (snd (admitted lag s)) = ds_ex s" "rs_sent (ds_ctl (snd (admitted lag s))) = rs_sent (ds_ctl s)"
  by (simp_all add: admitted_def Let_def split: option.split prod.split)

lemma rebalances_frame [simp]:
  "ds_commits (fold rebalance es s) = ds_commits s" "ds_ex (fold rebalance es s) = ds_ex s"
  "rs_sent (ds_ctl (fold rebalance es s)) = rs_sent (ds_ctl s)"
  "ds_as (fold rebalance es s) = map_option (fold on_partitions es) (ds_as s)"
  by (induction es arbitrary: s)
    (auto simp: rebalance_def Let_def option.map_comp comp_def option.map_id split: as_event.split)





section \<open>Offsets are committed only after the API answered\<close>

definition commit_allowed :: "message \<Rightarrow> dict \<Rightarrow> int \<Rightarrow> bool" where
  "commit_allowed m response offset \<longleftrightarrow>
     (\<exists>flag v. map_of response ''commit_offset'' = Some flag \<and> truthy flag \<and>
        map_of response ''next_offset'' = Some v \<and> py_int_json v = Inr offset)"

lemma commit_delivery_cases:
  assumes "commit_delivery err m response s = Inr s'"
  shows "s' = s \<or> (\<exists>offset. commit_allowed m response offset \<and>
    s' = s\<lparr>ds_commits := ds_commits s @ [(msg_tp m, offset)]\<rparr>)"
  using assms unfolding commit_delivery_def commit_allowed_def
  by (auto simp: res_simps split: if_splits option.splits)



text \<open>
  C35. A delivery the API never hears of. A message whose \<open>traceparent\<close> header is present without a
  value raises before the delivery is posted: nothing is sent, so the API can neither record nor
  quarantine it, and nothing is committed, so the restarted slot reads the same message again. (The other
  headers are read as empty in that case.)
\<close>

theorem null_traceparent_never_posted:
  assumes "raw_header m ''traceparent'' = Some None" and "fst (admitted 0 s)"
  shows "\<exists>s'. handle_delivery tr env worker_id m s = (Failed (Builtin (AttributeError ''decode'')), s') \<and>
    rs_sent (ds_ctl s') = rs_sent (ds_ctl s) \<and> ds_commits s' = ds_commits s \<and> header m ''traceparent'' = ''''"
  using assms by (simp add: handle_delivery_def trace_header_def header_def case_prod_unfold)

section \<open>The executor is never full\<close>

definition held :: "job_phase set" where
  "held = {Acquired, Running, Uncounted}"

definition sem_inv :: "executor \<Rightarrow> bool" where
  "sem_inv ex \<longleftrightarrow> ex_free ex + in_phase held ex = ex_bound ex"

text \<open>Slots as owners: every activity that is not done is the active one of some slot.\<close>

definition pool_inv :: "pool \<Rightarrow> bool" where
  "pool_inv p \<longleftrightarrow> sem_inv (pl_ex p) \<and> ex_bound (pl_ex p) = length (pl_slots p) \<and>
     (\<forall>j < length (ex_jobs (pl_ex p)). ex_jobs (pl_ex p) ! j \<noteq> Done \<longrightarrow>
        (\<exists>i < length (pl_slots p). sl_active (pl_slots p ! i) = Some j))"

lemma in_phase_card: "in_phase S ex = card {j. j < length (ex_jobs ex) \<and> ex_jobs ex ! j \<in> S}"
  by (simp add: in_phase_def length_filter_conv_card)

lemma in_phase_lc [simp]: "in_phase S (ex\<lparr>ex_lifecycle := l\<rparr>) = in_phase S ex"
  by (simp add: in_phase_def)

lemma free_slot:
  assumes "pool_inv p" "i < length (pl_slots p)" "\<not> slot_busy (pl_ex p) (sl_active (pl_slots p ! i))"
  shows "0 < ex_free (pl_ex p)"
proof -
  let ?ex = "pl_ex p" and ?n = "length (pl_slots p)"
  let ?J = "{j. j < length (ex_jobs ?ex) \<and> ex_jobs ?ex ! j \<in> held}"
  have "?J \<subseteq> (\<lambda>k. the (sl_active (pl_slots p ! k))) ` ({..<?n} - {i})"
  proof
    fix j assume j: "j \<in> ?J"
    then have "ex_jobs ?ex ! j \<noteq> Done" by (auto simp: held_def)
    with assms(1) j obtain k where k: "k < ?n" "sl_active (pl_slots p ! k) = Some j"
      by (auto simp: pool_inv_def)
    moreover have "k \<noteq> i" using assms(3) k \<open>ex_jobs ?ex ! j \<noteq> Done\<close> by (auto simp: slot_busy_def)
    ultimately show "j \<in> (\<lambda>k. the (sl_active (pl_slots p ! k))) ` ({..<?n} - {i})" by force
  qed
  then have "card ?J \<le> card ({..<?n} - {i})"
    by (rule surj_card_le [rotated]) simp
  also have "\<dots> < ?n" using assms(2) by simp
  finally show ?thesis using assms(1) by (simp add: pool_inv_def sem_inv_def in_phase_card)
qed

lemma submit_sem:
  assumes "submit ex = (Inr j, ex')" "sem_inv ex"
  shows "sem_inv ex'" "ex_bound ex' = ex_bound ex" "j = length (ex_jobs ex)" "ex_jobs ex' = ex_jobs ex @ [Acquired]"
  using assms by (auto simp: submit_def sem_inv_def in_phase_def held_def split: if_splits)

lemma job_step_sem:
  assumes "sem_inv ex" "j < length (ex_jobs ex)" "job_step j ex = Inr ex'"
  shows "sem_inv ex'" and "ex_bound ex' = ex_bound ex" and "length (ex_jobs ex') = length (ex_jobs ex)"
    and "ex_jobs ex' ! k \<noteq> Done \<Longrightarrow> ex_jobs ex ! k \<noteq> Done"
proof -
  have "sem_inv ex' \<and> ex_bound ex' = ex_bound ex \<and> length (ex_jobs ex') = length (ex_jobs ex) \<and>
      (\<forall>k. ex_jobs ex' ! k \<noteq> Done \<longrightarrow> ex_jobs ex ! k \<noteq> Done)"
    using assms in_phase_update [OF assms(2), of held Running] in_phase_update [OF assms(2), of held Uncounted]
      in_phase_update [OF assms(2), of held Released] in_phase_update [OF assms(2), of held Done]
    by (cases "ex_jobs ex ! j")
      (auto simp: job_step_def sem_inv_def held_def nth_list_update split: if_splits)
  then show "sem_inv ex'" "ex_bound ex' = ex_bound ex" "length (ex_jobs ex') = length (ex_jobs ex)"
    "ex_jobs ex' ! k \<noteq> Done \<Longrightarrow> ex_jobs ex ! k \<noteq> Done" by blast+
qed

lemma dispatch_ex:
  assumes "dispatch tr env worker_id task s = (r, s')" "ds_ex s = Some ex"
  shows "(ds_ex s' = Some ex \<and> (\<forall>j. r \<noteq> Ended (Some j))) \<or>
    (\<exists>j ex'. submit ex = (Inr j, ex') \<and> ds_ex s' = Some ex' \<and> r = Ended (Some j))"
  using assms
  by (auto simp: dispatch_def Let_def submit_def split: sum.splits if_splits)

lemma after_response_ex:
  assumes "after_response tr env worker_id m generation response s = (r, s')" "ds_ex s = Some ex"
  shows "(ds_ex s' = Some ex \<and> (\<forall>j. r \<noteq> Ended (Some j))) \<or>
    (\<exists>j ex'. submit ex = (Inr j, ex') \<and> ds_ex s' = Some ex' \<and> r = Ended (Some j))"
proof (cases "(case ds_as s of Some a \<Rightarrow> \<not> current m generation a | None \<Rightarrow> False) \<or>
    (\<exists>e. commit_delivery (de_commit_error env) m response s = Inl e)")
  case True
  then have "s' = s" "\<forall>j. r \<noteq> Ended (Some j)"
    using assms(1) by (auto simp: after_response_def split: if_splits)
  with assms(2) show ?thesis by simp
next
  case False
  then obtain s1 where c: "commit_delivery (de_commit_error env) m response s = Inr s1"
    by (cases "commit_delivery (de_commit_error env) m response s") auto
  obtain ok s2 where a: "admitted (de_lag env) s1 = (ok, s2)" by fastforce
  have ex: "ds_ex s2 = Some ex"
    using commit_delivery_cases [OF c] admitted_frame(3) [of "de_lag env" s1] a assms(2) by auto
  have "(s' = s2 \<and> (\<forall>j. r \<noteq> Ended (Some j))) \<or> (\<exists>task. dispatch tr env worker_id task s2 = (r, s'))"
    using assms(1) c a False by (auto simp: after_response_def split: option.splits json.splits if_splits)
  then show ?thesis using dispatch_ex ex by blast
qed

lemma handle_delivery_ex:
  assumes "handle_delivery tr env worker_id m s = (r, s')" "ds_ex s = Some ex"
  shows "(ds_ex s' = Some ex \<and> (\<forall>j. r \<noteq> Ended (Some j))) \<or>
    (\<exists>j ex'. submit ex = (Inr j, ex') \<and> ds_ex s' = Some ex' \<and> r = Ended (Some j))"
proof -
  let ?s1 = "\<lambda>tp. (snd (admitted 0 s))\<lparr>ds_ctl := (ds_ctl (snd (admitted 0 s)))\<lparr>rs_traceparent := tp\<rparr>\<rparr>"
  have api: "ds_ex (snd (ask_api tr m t)) = ds_ex t" for t
    by (simp add: ask_api_def split: prod.split)
  have "(ds_ex s' = ds_ex s \<and> (\<forall>j. r \<noteq> Ended (Some j))) \<or>
      (\<exists>tp response g. after_response tr env worker_id m g response
         (fold rebalance (de_rebalances env) (snd (ask_api tr m (?s1 tp)))) = (r, s'))"
    using assms(1) api
    by (auto simp: handle_delivery_def case_prod_unfold Let_def split: if_splits sum.splits)
  then show ?thesis
  proof
    assume "\<exists>tp response g. after_response tr env worker_id m g response
         (fold rebalance (de_rebalances env) (snd (ask_api tr m (?s1 tp)))) = (r, s')"
    then obtain tp response g where ar: "after_response tr env worker_id m g response
         (fold rebalance (de_rebalances env) (snd (ask_api tr m (?s1 tp)))) = (r, s')" by blast
    show ?thesis by (rule after_response_ex [OF ar]) (simp add: api assms(2))
  qed (simp add: assms(2))
qed

text \<open>What one pass of a slot does to the executor: nothing, or one submission by a slot whose last
  activity is done.\<close>

lemma pool_round_cases:
  assumes "pool_round tr worker_id i env p = (r, p')" "length (concat (map snd (pe_records env))) \<le> 1"
    "i < length (pl_slots p)"
  obtains ex sl where "p' = p\<lparr>pl_ex := ex, pl_slots := (pl_slots p)[i := sl]\<rparr>"
    "ex_bound ex = ex_bound (pl_ex p)" "ex_free ex = ex_free (pl_ex p)" "ex_jobs ex = ex_jobs (pl_ex p)"
    "sl_active sl = sl_active (pl_slots p ! i) \<or>
       \<not> slot_busy (pl_ex p) (sl_active (pl_slots p ! i))"
  | ex j ex' sl where "p' = p\<lparr>pl_ex := ex, pl_slots := (pl_slots p)[i := sl]\<rparr>"
    "submit (pl_ex p) = (Inr j, ex')"
    "ex_bound ex = ex_bound ex'" "ex_free ex = ex_free ex'" "ex_jobs ex = ex_jobs ex'"
    "sl_active sl = Some j" "\<not> slot_busy (pl_ex p) (sl_active (pl_slots p ! i))"
proof -
  let ?ex = "pl_ex p" and ?sl0 = "pl_slots p ! i"
  obtain x sl where c: "consume_round tr worker_id ?ex env ?sl0 = (x, sl)" by fastforce
  have p': "p' = p\<lparr>pl_ex := leave_slot ?ex (sl_ds sl), pl_slots := (pl_slots p)[i := sl]\<rparr>"
    using assms(1) c by (simp add: pool_round_def)
  have leave: "ex_bound (leave_slot e0 ds) = ex_bound e" "ex_free (leave_slot e0 ds) = ex_free e"
      "ex_jobs (leave_slot e0 ds) = ex_jobs e" if "ds_ex ds = Some e" for e0 ds e
    using that by (auto simp: leave_slot_def Let_def split: option.splits)
  let ?ds0 = "snd (admitted 0 (enter_slot ?ex (sl_ds ?sl0)))"
  have ds0: "ds_ex ?ds0 = Some ?ex" by (simp add: enter_slot_def)
  let ?busy = "slot_busy ?ex (sl_active ?sl0)"
  define sl1 where "sl1 = ?sl0\<lparr>sl_ds := fold rebalance (pe_events env) ?ds0, sl_calls := sl_calls ?sl0 @
    (if pe_assigned env = [] then [] else [if ?busy then Pause (pe_assigned env) else Resume (pe_assigned env)])\<rparr>"
  have sl1: "ds_ex (sl_ds sl1) = Some ?ex" "sl_active sl1 = sl_active ?sl0"
    using ds0 by (simp_all add: sl1_def)
  consider (quiet) "ds_ex (sl_ds sl) = Some ?ex" "sl_active sl = sl_active ?sl0"
    | (handled) "\<not> ?busy" "handle_all tr worker_id (concat (map snd (pe_records env))) sl1 = (the x, sl)"
    using c ds0 unfolding consume_round_def sl1_def
    by (auto simp: Let_def case_prod_unfold split: if_splits)
  then show ?thesis
  proof cases
    case quiet
    show ?thesis by (rule that(1) [OF p']) (use quiet leave in auto)
  next
    case handled
    show ?thesis
    proof (cases "concat (map snd (pe_records env))")
      case Nil
      with handled sl1 have "ds_ex (sl_ds sl) = Some ?ex" "sl_active sl = sl_active ?sl0" by auto
      then show ?thesis by (intro that(1) [OF p']) (use leave in auto)
    next
      case (Cons me rest)
      then have rest: "rest = []" using assms(2) by simp
      obtain m e where me: "me = (m, e)" by fastforce
      obtain y ds where h: "handle_delivery tr e worker_id m (sl_ds sl1) = (y, ds)" by fastforce
      have sl: "sl_ds sl = ds \<and> (\<forall>a. y = Ended a \<longrightarrow> sl_active sl = a) \<and>
          ((\<forall>a. y \<noteq> Ended a) \<longrightarrow> sl_active sl = sl_active ?sl0)"
        using handled(2) h sl1(2) unfolding Cons rest me by (cases y) auto
      from handle_delivery_ex [OF h sl1(1)] show ?thesis
      proof
        assume "ds_ex ds = Some ?ex \<and> (\<forall>j. y \<noteq> Ended (Some j))"
        then show ?thesis by (intro that(1) [OF p']) (use sl leave handled(1) in auto)
      next
        assume "\<exists>j ex'. submit ?ex = (Inr j, ex') \<and> ds_ex ds = Some ex' \<and> y = Ended (Some j)"
        then obtain j ex' where *: "submit ?ex = (Inr j, ex')" "ds_ex ds = Some ex'" "y = Ended (Some j)" by blast
        show ?thesis by (rule that(2) [OF p' *(1)]) (use sl leave handled(1) * in auto)
      qed
    qed
  qed
qed

lemma pool_round_inv:
  assumes "pool_inv p" "pool_round tr worker_id i env p = (r, p')"
    "length (concat (map snd (pe_records env))) \<le> 1" "i < length (pl_slots p)"
  shows "pool_inv p'"
  using assms(2-)
proof (cases rule: pool_round_cases)
  case (1 ex sl)
  have "\<exists>k < length (pl_slots p). sl_active ((pl_slots p)[i := sl] ! k) = Some j"
    if j: "j < length (ex_jobs ex)" "ex_jobs ex ! j \<noteq> Done" for j
  proof -
    from assms(1) j 1(4) obtain k where k: "k < length (pl_slots p)" "sl_active (pl_slots p ! k) = Some j"
      by (auto simp: pool_inv_def)
    have "k = i \<Longrightarrow> sl_active sl = Some j" using 1(5) k(2) j(2) 1(4) by (auto simp: slot_busy_def)
    then have "sl_active ((pl_slots p)[i := sl] ! k) = Some j" using k by (cases "k = i") auto
    with k(1) show ?thesis by blast
  qed
  with assms(1) 1(1-4) show ?thesis
    by (auto simp: pool_inv_def sem_inv_def in_phase_def)
next
  case (2 ex j ex' sl)
  have sem: "sem_inv (pl_ex p)" using assms(1) by (simp add: pool_inv_def)
  note sub = submit_sem [OF 2(2) sem]
  have "\<exists>k < length (pl_slots p). sl_active ((pl_slots p)[i := sl] ! k) = Some j'"
    if j: "j' < length (ex_jobs ex')" "ex_jobs ex' ! j' \<noteq> Done" for j'
  proof (cases "j' = j")
    case True
    then show ?thesis using assms(4) 2(6) by (intro exI [of _ i]) simp
  next
    case False
    with j sub have "j' < length (ex_jobs (pl_ex p))" "ex_jobs (pl_ex p) ! j' \<noteq> Done"
      by (auto simp: nth_append less_Suc_eq)
    with assms(1) obtain k where k: "k < length (pl_slots p)" "sl_active (pl_slots p ! k) = Some j'"
      by (auto simp: pool_inv_def)
    then have "k \<noteq> i" using 2(7) \<open>ex_jobs (pl_ex p) ! j' \<noteq> Done\<close> by (auto simp: slot_busy_def)
    with k show ?thesis by auto
  qed
  moreover have "sem_inv ex" using sub(1) 2(3-5) by (simp add: sem_inv_def in_phase_def)
  ultimately show ?thesis
    using assms(1) 2(1,3-5) sub(2) by (auto simp: pool_inv_def)
qed

lemma pool_step_inv: "pool_step tr worker_id p p' \<Longrightarrow> pool_inv p \<Longrightarrow> pool_inv p'"
proof (induction rule: pool_step.induct)
  case (pool_poll i p env r p')
  then show ?case using pool_round_inv by blast
next
  case (pool_restart i p)
  then show ?case
    by (auto simp: pool_inv_def restart_slot_def Let_def nth_list_update)
next
  case (pool_job j p ex')
  note st = job_step_sem [OF _ pool_job(1,2)]
  from pool_job(3) have "sem_inv (pl_ex p)" by (simp add: pool_inv_def)
  with st pool_job(3) show ?case by (auto simp: pool_inv_def)
next
  case (pool_lc p lc)
  then show ?case by (simp add: pool_inv_def sem_inv_def)
qed

lemma new_pool_inv: "pool_inv (new_pool lc cs)"
  by (simp add: pool_inv_def new_pool_def new_executor_def sem_inv_def in_phase_def)

lemma pool_run_inv: "(pool_step tr worker_id)\<^sup>*\<^sup>* p p' \<Longrightarrow> pool_inv p \<Longrightarrow> pool_inv p'"
  by (induction rule: rtranclp_induct) (auto simp: pool_step_inv)

lemma pool_run_slots: "(pool_step tr worker_id)\<^sup>*\<^sup>* p p' \<Longrightarrow> length (pl_slots p') = length (pl_slots p)"
proof (induction rule: rtranclp_induct)
  case (step y z)
  from step(2) have "length (pl_slots z) = length (pl_slots y)"
    by cases (auto simp: pool_round_def split: prod.splits)
  with step show ?case by simp
qed simp

text \<open>
  The slots never overrun the executor. In a pool whose executor has one place per slot, under every
  interleaving of polls, restarts, activity threads and lifecycle operations, a slot that is free to
  handle a delivery finds a free place, so the submission is never refused; every unfinished activity is
  the active one of a slot, and there are never more of them than slots.
\<close>

theorem executor_never_full:
  assumes "(pool_step tr worker_id)\<^sup>*\<^sup>* (new_pool lc cs) p" and "i < length cs"
    and "\<not> slot_busy (pl_ex p) (sl_active (pl_slots p ! i))"
  shows "(\<exists>j ex'. submit (pl_ex p) = (Inr j, ex')) \<and>
    in_phase {Acquired, Running, Uncounted} (pl_ex p) < length cs \<and>
    (\<forall>j < length (ex_jobs (pl_ex p)). ex_jobs (pl_ex p) ! j \<noteq> Done \<longrightarrow>
       (\<exists>k < length cs. sl_active (pl_slots p ! k) = Some j))"
proof -
  have inv: "pool_inv p" using pool_run_inv [OF assms(1) new_pool_inv] .
  have len: "length (pl_slots p) = length cs"
    using pool_run_slots [OF assms(1)] by (simp add: new_pool_def)
  have free: "0 < ex_free (pl_ex p)"
    using free_slot [OF inv] assms(2,3) len by simp
  then have "\<exists>j ex'. submit (pl_ex p) = (Inr j, ex')" by (simp add: submit_def)
  with inv len free show ?thesis by (auto simp: pool_inv_def sem_inv_def held_def)
qed

section \<open>Concrete deliveries\<close>

definition demo_message :: "(string \<times> string option) list \<Rightarrow> message" where
  "demo_message hs =
     \<lparr>msg_topic = ''t'', msg_partition = 0, msg_offset = 7, msg_key = None, msg_headers = hs,
      msg_value = Some [1, 2]\<rparr>"

definition demo_delivery_http :: http_env where
  "demo_delivery_http sent rq =
     Http_response (Some (JObj [(''commit_offset'', JBool True), (''next_offset'', JInt 8), (''task'', JNull)]))"

definition demo_transport :: transport where
  "demo_transport =
     \<lparr>tr_fuel = Suc 0, tr_token = (\<lambda>_. No_token_file), tr_http = demo_delivery_http, tr_client = demo_client,
      tr_rounds = demo_rounds, tr_fsum = (\<lambda>_. JNull)\<rparr>"

definition demo_delivery :: delivery_state where
  "demo_delivery =
     \<lparr>ds_ctl = demo_state, ds_commits = [], ds_ex = Some (new_executor demo_lifecycle 1),
      ds_as = Some \<lparr>as_generation = 1, as_partitions = {(''t'', 0)}\<rparr>, ds_witness = None\<rparr>"

definition demo_delivery_env :: delivery_env where
  "demo_delivery_env =
     \<lparr>de_rebalances = [], de_commit_error = None, de_lag = 0, de_uuid = ''u'', de_run = demo_env\<rparr>"

lemma demo_start: "can_start now demo_lifecycle = (True, demo_lifecycle)"
  by (simp add: can_start_def aborted_def Let_def demo_lifecycle_def)





theorem null_traceparent_never_posted_witness:
  "\<exists>s'. handle_delivery demo_transport demo_delivery_env ''w'' (demo_message [(''traceparent'', None)]) demo_delivery
      = (Failed (Builtin (AttributeError ''decode'')), s') \<and> rs_sent (ds_ctl s') = []"
  using null_traceparent_never_posted [of "demo_message [(''traceparent'', None)]" demo_delivery
      demo_transport demo_delivery_env "''w''"]
  by (auto simp: raw_header_def demo_message_def admitted_def demo_delivery_def demo_state_def demo_start)

theorem executor_never_full_witness:
  "\<exists>j ex'. submit (pl_ex (new_pool demo_lifecycle [demo_state])) = (Inr j, ex')"
  using executor_never_full [of demo_transport "''w''" demo_lifecycle "[demo_state]" "new_pool demo_lifecycle [demo_state]" 0]
  by (simp add: new_pool_def new_slot_def slot_busy_def)

end
