(* ===== verification/Fault_Control.thy ===== *)
theory Fault_Control
  imports Prelude
begin

text \<open>
  The fault controller and its failpoint client: \<^verbatim>\<open>src/python/faults/control.py\<close> and
  \<^verbatim>\<open>src/python/faults/client.py\<close>.

  The controller is one state; every method is a computation on it that may raise. Its reader, watcher
  and output threads are events that may happen between the steps of a method. A line of the protocol is
  carried by the value it decodes to, or by the decoder's complaint; a message the controller or the
  client sends is the JSON value it encodes. The target process, its exit and the outcome of each
  \<^verbatim>\<open>wait\<close> are inputs, and so is what the host offers (signals, process groups, Windows process control).
  Writing the trace file is assumed to succeed once the file was created.
\<close>

section \<open>State\<close>

definition TRACE_SCHEMA_VERSION :: string where
  "TRACE_SCHEMA_VERSION = ''fault-trace.v1''"

datatype controller_event =
    BoundaryReached string int dict
  | ProtocolEvent string dict
  | ProcessExited int

record fault_outcome =
  fo_boundary_reached :: bool
  fo_requested_action :: "string option"
  fo_observed_action :: "string option"
  fo_return_code :: "int option"
  fo_cleaned_up :: bool

record trace_record =
  tc_sequence :: nat
  tc_event :: string
  tc_fields :: dict

record target_process =
  tp_pid :: int
  tp_code :: "int option"

record controller =
  fc_seed :: int
  fc_boundary :: string
  fc_token :: string
  fc_run_id :: string
  fc_file :: "string list option"
  fc_events :: "controller_event list"
  fc_trace :: "trace_record list"
  fc_exit_recorded :: bool
  fc_process :: "target_process option"
  fc_server_open :: bool
  fc_connected :: bool
  fc_channel_closed :: bool
  fc_sent :: "json list"
  fc_boundary_reached :: bool
  fc_requested :: "string option"
  fc_observed :: "string option"
  fc_return_code :: "int option"
  fc_cleaned_up :: bool
  fc_cleanup_attempted :: bool
  fc_cleanup_bounded :: bool

type_synonym 'a fc = "(controller, exn, 'a) sm"

text \<open>What the host offers.\<close>

record host =
  os_nt :: bool
  has_sigstop :: bool
  has_sigcont :: bool
  has_killpg :: bool
  nt_control :: "string \<Rightarrow> bool"

definition new_controller :: "int \<Rightarrow> string \<Rightarrow> bool \<Rightarrow> string \<Rightarrow> string \<Rightarrow> controller" where
  "new_controller seed boundary has_path token run_id =
     \<lparr>fc_seed = seed, fc_boundary = boundary, fc_token = token, fc_run_id = run_id,
      fc_file = (if has_path then Some [] else None), fc_events = [], fc_trace = [],
      fc_exit_recorded = False, fc_process = None, fc_server_open = False, fc_connected = False,
      fc_channel_closed = False, fc_sent = [], fc_boundary_reached = False, fc_requested = None, fc_observed = None,
      fc_return_code = None, fc_cleaned_up = False, fc_cleanup_attempted = False,
      fc_cleanup_bounded = False\<rparr>"

section \<open>The trace\<close>

definition record_json :: "controller \<Rightarrow> trace_record \<Rightarrow> json" where
  "record_json s r = JObj (fold (\<lambda>(k, v). dict_set k v) (tc_fields r)
     [(''schema_version'', JStr TRACE_SCHEMA_VERSION), (''run_id'', JStr (fc_run_id s)),
      (''sequence'', JInt (int (tc_sequence r))), (''event'', JStr (tc_event r)),
      (''seed'', JInt (fc_seed s))])"

definition trace_line :: "controller \<Rightarrow> trace_record \<Rightarrow> string" where
  "trace_line s r = json_dumps '', '' '': '' (record_json s r) @ [char_of (10 :: nat)]"

definition next_record :: "string \<Rightarrow> dict \<Rightarrow> controller \<Rightarrow> trace_record" where
  "next_record event flds s =
     \<lparr>tc_sequence = length (fc_trace s) + 1, tc_event = event, tc_fields = flds\<rparr>"

definition record_event :: "string \<Rightarrow> dict \<Rightarrow> unit fc" where
  "record_event event flds = smodify (\<lambda>s.
     let r = next_record event flds s in
     s\<lparr>fc_trace := fc_trace s @ [r], fc_file := map_option (\<lambda>ls. ls @ [trace_line s r]) (fc_file s)\<rparr>)"

definition set_requested :: "string \<Rightarrow> unit fc" where
  "set_requested a = smodify (\<lambda>s. s\<lparr>fc_requested := Some a\<rparr>)"

definition set_observed :: "string \<Rightarrow> unit fc" where
  "set_observed a = smodify (\<lambda>s. s\<lparr>fc_observed := Some a\<rparr>)"

definition put_event :: "controller_event \<Rightarrow> unit fc" where
  "put_event e = smodify (\<lambda>s. s\<lparr>fc_events := fc_events s @ [e]\<rparr>)"

definition require_process :: "target_process fc" where
  "require_process s =
     (case fc_process s of
        Some p \<Rightarrow> (Inr p, s)
      | None \<Rightarrow> (Inl (RuntimeError ''controller has not been started''), s))"

section \<open>Starting the target\<close>

text \<open>The child's environment and command line.\<close>

definition target_environ ::
  "string \<Rightarrow> int \<Rightarrow> controller \<Rightarrow> (string \<Rightarrow> string option) \<Rightarrow> string \<Rightarrow> string option" where
  "target_environ python_root port s env =
     env(''DURABLE_FAULT_ENDPOINT'' \<mapsto> ''127.0.0.1:'' @ show_int port,
         ''DURABLE_FAULT_TOKEN'' \<mapsto> fc_token s,
         ''DURABLE_FAULT_SEED'' \<mapsto> show_int (fc_seed s),
         ''PYTHONPATH'' \<mapsto> join '':'' (filter (\<lambda>p. p \<noteq> '''')
           [python_root, case env ''PYTHONPATH'' of Some p \<Rightarrow> p | None \<Rightarrow> '''']))"

definition child_command :: "string \<Rightarrow> string list option \<Rightarrow> bool \<Rightarrow> controller \<Rightarrow> string list" where
  "child_command python command skip_boundary s =
     (case command of
        Some c \<Rightarrow> c
      | None \<Rightarrow> [python, ''-m'', ''faults.target'', ''--seed'', show_int (fc_seed s), ''--boundary'',
                  fc_boundary s] @ (if skip_boundary then [''--skip-boundary''] else []))"

text \<open>\<open>_prepare_trace\<close>: the file is created exclusively.\<close>

definition prepare_trace :: "bool \<Rightarrow> unit fc" where
  "prepare_trace file_exists s =
     (case fc_file s of
        None \<Rightarrow> (Inr (), s)
      | Some _ \<Rightarrow> if file_exists then (Inl (OSError ''FileExistsError''), s) else (Inr (), s))"

definition start_target :: "string \<Rightarrow> string list option \<Rightarrow> bool \<Rightarrow> bool \<Rightarrow> int \<Rightarrow> unit fc" where
  "start_target python command skip_boundary file_exists pid =
     sbind (sget fc_process) (\<lambda>p.
     sbind (sensure (p = None) (RuntimeError ''controller already started'')) (\<lambda>_.
     sbind (prepare_trace file_exists) (\<lambda>_.
     sbind (sget (child_command python command skip_boundary)) (\<lambda>cmd.
     sbind (smodify (\<lambda>s. s\<lparr>fc_server_open := True,
                           fc_process := Some \<lparr>tp_pid = pid, tp_code = None\<rparr>\<rparr>)) (\<lambda>_.
     sbind (sget fc_boundary) (\<lambda>b.
     record_event ''process_started''
       [(''boundary'', JStr b), (''command'', JArr (map JStr cmd))]))))))"

section \<open>The protocol\<close>

text \<open>\<open>_read_protocol\<close>: bytes arrive in chunks; complete lines are taken off the front of the buffer.\<close>

function take_lines :: "string \<Rightarrow> string list \<times> string" where
  "take_lines buffer =
     (if newline \<in> set buffer then
        (case take_lines (tl (dropWhile (\<lambda>c. c \<noteq> newline) buffer)) of (ls, rest) \<Rightarrow>
           (takeWhile (\<lambda>c. c \<noteq> newline) buffer # ls, rest))
      else ([], buffer))"
  by pat_completeness auto
termination
proof (relation "measure length")
  fix buffer :: string
  assume nl: "newline \<in> set buffer"
  then have "dropWhile (\<lambda>c. c \<noteq> newline) buffer \<noteq> []"
    by (auto simp: dropWhile_eq_Nil_conv)
  moreover have "length (dropWhile (\<lambda>c. c \<noteq> newline) buffer) \<le> length buffer"
    by (rule length_dropWhile_le)
  ultimately show "(tl (dropWhile (\<lambda>c. c \<noteq> newline) buffer), buffer) \<in> measure length"
    using nl by (cases "dropWhile (\<lambda>c. c \<noteq> newline) buffer") auto
qed simp

declare take_lines.simps [simp del]

definition feed :: "string \<Rightarrow> string list \<times> string \<Rightarrow> string list \<times> string" where
  "feed chunk st = (case take_lines (snd st @ chunk) of (ls, rest) \<Rightarrow> (fst st @ ls, rest))"

definition read_chunks :: "string list \<Rightarrow> string list \<times> string" where
  "read_chunks chunks = fold feed chunks ([], '''')"

definition protocol_error :: "string \<Rightarrow> unit fc" where
  "protocol_error detail = record_event ''protocol_error'' [(''detail'', JStr detail)]"

text \<open>A decoded line: the decoder's complaint or the value.\<close>

definition event_fields :: "dict \<Rightarrow> (string \<times> string \<times> int) option" where
  "event_fields payload =
     Option.bind (Option.bind (map_of payload ''event'') as_str) (\<lambda>event.
     Option.bind (Option.bind (map_of payload ''boundary'') as_str) (\<lambda>boundary.
     Option.bind (Option.bind (map_of payload ''seed'') as_int) (\<lambda>seed.
     Some (event, boundary, seed))))"

definition report_fields :: "dict \<Rightarrow> dict" where
  "report_fields payload = (case map_of payload ''fields'' of Some (JObj d) \<Rightarrow> d | _ \<Rightarrow> [])"

definition handle_object :: "dict \<Rightarrow> unit fc" where
  "handle_object payload =
     sbind (sget (\<lambda>s. s)) (\<lambda>s.
       if map_of payload ''token'' \<noteq> Some (JStr (fc_token s))
       then protocol_error ''protocol token mismatch''
       else
         (let flds = report_fields payload in
          case event_fields payload of
            None \<Rightarrow> protocol_error ''protocol event has invalid fields''
          | Some (event, boundary, seed) \<Rightarrow>
              (if event = ''boundary_reached'' then
                 sbind (record_event ''boundary_reached''
                          [(''boundary'', JStr boundary), (''fields'', JObj flds)]) (\<lambda>_.
                 sbind (smodify (\<lambda>s. if boundary = fc_boundary s \<and> seed = fc_seed s
                                     then s\<lparr>fc_boundary_reached := True\<rparr> else s)) (\<lambda>_.
                 put_event (BoundaryReached boundary seed flds)))
               else
                 sbind (record_event event [(''boundary'', JStr boundary), (''fields'', JObj flds)]) (\<lambda>_.
                 put_event (ProtocolEvent event payload)))))"

definition handle_protocol_line :: "string + json \<Rightarrow> unit fc" where
  "handle_protocol_line line =
     (case line of
        Inl detail \<Rightarrow> protocol_error detail
      | Inr v \<Rightarrow>
          (case as_dict v of
             None \<Rightarrow> protocol_error ''protocol message was not an object''
           | Some payload \<Rightarrow> handle_object payload))"

definition record_process_exit :: "int \<Rightarrow> unit fc" where
  "record_process_exit return_code =
     sbind (sget fc_exit_recorded) (\<lambda>seen.
       if seen then sret ()
       else
         sbind (smodify (\<lambda>s. s\<lparr>fc_exit_recorded := True, fc_return_code := Some return_code\<rparr>)) (\<lambda>_.
         sbind (record_event ''process_exited'' [(''return_code'', JInt return_code)]) (\<lambda>_.
         sbind (put_event (ProcessExited return_code)) (\<lambda>_.
         smodify (\<lambda>s. s\<lparr>fc_server_open := False\<rparr>)))))"

text \<open>What the other threads do: the target connects, a line arrives, the channel fails, the process
  exits and the watcher notices, a line of output is drained.\<close>

datatype thread_event =
    Connects
  | Line "string + json"
  | Channel_fails string
  | Target_exits int
  | Watcher
  | Output string string

definition rstrip_newline :: "string \<Rightarrow> string" where
  "rstrip_newline s = rev (dropWhile (\<lambda>c. c = newline \<or> c = char_of (13 :: nat)) (rev s))"

fun thread_step :: "thread_event \<Rightarrow> unit fc" where
  "thread_step Connects = smodify (\<lambda>s. if fc_server_open s then s\<lparr>fc_connected := True\<rparr> else s)"
| "thread_step (Line line) =
     sbind (sget (\<lambda>s. fc_connected s \<and> \<not> fc_channel_closed s)) (\<lambda>c.
       if c then handle_protocol_line line else sret ())"
| "thread_step (Channel_fails detail) = protocol_error (''protocol channel: '' @ detail)"
| "thread_step (Target_exits code) =
     smodify (\<lambda>s. s\<lparr>fc_process := map_option (\<lambda>p. if tp_code p = None then p\<lparr>tp_code := Some code\<rparr> else p)
                     (fc_process s)\<rparr>)"
| "thread_step Watcher =
     sbind (sget fc_process) (\<lambda>p.
       case Option.bind p tp_code of Some code \<Rightarrow> record_process_exit code | None \<Rightarrow> sret ())"
| "thread_step (Output event line) = record_event event [(''line'', JStr (rstrip_newline line))]"

definition threads :: "thread_event list \<Rightarrow> unit fc" where
  "threads es = fold (\<lambda>e m. sbind m (\<lambda>_. thread_step e)) es (sret ())"

section \<open>Waiting\<close>

text \<open>\<^verbatim>\<open>queue.get\<close>: the oldest event, or \<open>Empty\<close>.\<close>

definition get_event :: "controller_event option fc" where
  "get_event s = (case fc_events s of [] \<Rightarrow> (Inr None, s) | e # es \<Rightarrow> (Inr (Some e), s\<lparr>fc_events := es\<rparr>))"

definition boundary_timeout :: "string \<Rightarrow> dict option fc" where
  "boundary_timeout seconds =
     sbind (sget fc_boundary) (\<lambda>b.
     sbind (record_event ''boundary_timeout'' [(''boundary'', JStr b), (''timeout_seconds'', JFloat seconds)]) (\<lambda>_.
     sbind (set_observed ''boundary_not_reached'') (\<lambda>_. sret None)))"

text \<open>What \<open>wait_for_boundary\<close> does with the event it got; \<open>rest\<close> waits on.\<close>

definition boundary_next :: "string \<Rightarrow> dict option fc \<Rightarrow> controller_event option \<Rightarrow> dict option fc" where
  "boundary_next seconds rest got =
     (case got of
        None \<Rightarrow> boundary_timeout seconds
      | Some (ProcessExited code) \<Rightarrow>
          sbind (sget fc_boundary) (\<lambda>b.
          sbind (record_event ''process_exited_before_boundary''
                   [(''boundary'', JStr b), (''return_code'', JInt code)]) (\<lambda>_. sret None))
      | Some (BoundaryReached name seed flds) \<Rightarrow>
          sbind (sget (\<lambda>s. name = fc_boundary s \<and> seed = fc_seed s)) (\<lambda>ok.
            if \<not> ok then
              sbind (record_event ''protocol_error''
                       [(''detail'', JStr ''target reported an unexpected boundary or seed''),
                        (''boundary'', JStr name), (''reported_seed'', JInt seed)]) (\<lambda>_.
              sraise (RuntimeError ''target reported an unexpected boundary''))
            else
              sbind (smodify (\<lambda>s. s\<lparr>fc_boundary_reached := True\<rparr>)) (\<lambda>_. sret (Some flds)))
      | Some (ProtocolEvent _ _) \<Rightarrow> rest)"

text \<open>
  One round per \<open>get\<close> before the deadline: what the other threads do up to its return. When the rounds
  are used up the deadline has passed; an empty queue is a \<open>get\<close> that timed out.
\<close>

fun wait_for_boundary :: "string \<Rightarrow> thread_event list list \<Rightarrow> dict option fc" where
  "wait_for_boundary seconds [] = boundary_timeout seconds"
| "wait_for_boundary seconds (es # rounds) =
     sbind (threads es) (\<lambda>_.
     sbind get_event (boundary_next seconds (wait_for_boundary seconds rounds)))"

fun wait_for_event :: "string \<Rightarrow> thread_event list list \<Rightarrow> bool fc" where
  "wait_for_event name [] = sret False"
| "wait_for_event name (es # rounds) =
     sbind (threads es) (\<lambda>_.
     sbind get_event (\<lambda>got.
       case got of
         None \<Rightarrow> sret False
       | Some (ProtocolEvent n _) \<Rightarrow> if n = name then sret True else wait_for_event name rounds
       | Some _ \<Rightarrow> wait_for_event name rounds))"

section \<open>Commands\<close>

text \<open>\<^verbatim>\<open>sendall\<close> on the channel: it raises on a closed socket, or when the peer is gone.\<close>

definition send_channel :: "bool \<Rightarrow> json \<Rightarrow> unit fc" where
  "send_channel broken v =
     sbind (sget fc_channel_closed) (\<lambda>closed.
     sbind (sensure (\<not> closed \<and> \<not> broken) (OSError ''sendall'')) (\<lambda>_.
     smodify (\<lambda>s. s\<lparr>fc_sent := fc_sent s @ [v]\<rparr>)))"

definition require_channel :: "unit fc" where
  "require_channel =
     sbind require_process (\<lambda>_.
     sbind (sget fc_connected) (\<lambda>c.
     sensure c (RuntimeError ''target has not opened the fault channel'')))"

definition pause :: "unit fc" where
  "pause =
     sbind require_process (\<lambda>_.
     sbind (set_requested ''pause'') (\<lambda>_.
     sbind (sget fc_boundary) (\<lambda>b.
     record_event ''command'' [(''command'', JStr ''pause''), (''boundary'', JStr b)])))"

definition observe :: "string \<Rightarrow> dict \<Rightarrow> unit fc" where
  "observe action extra =
     sbind (set_observed action) (\<lambda>_. record_event ''fault_observed'' ((''action'', JStr action) # extra))"

definition pause_process :: "host \<Rightarrow> bool fc" where
  "pause_process h =
     sbind require_process (\<lambda>p.
     sbind (set_requested ''pause_process'') (\<lambda>_.
     sbind (sget fc_boundary) (\<lambda>b.
     sbind (record_event ''command'' [(''command'', JStr ''pause_process''), (''boundary'', JStr b)]) (\<lambda>_.
       let paused = sbind (observe ''process_paused'' [(''pid'', JInt (tp_pid p))]) (\<lambda>_. sret True);
           unsupported = sbind (observe ''pause_at_boundary'' [(''supported'', JBool False)]) (\<lambda>_. sret False)
       in if os_nt h then
            (if tp_code p = None \<and> nt_control h ''NtSuspendProcess'' then paused else unsupported)
          else if \<not> has_sigstop h then unsupported
          else if tp_code p \<noteq> None then
            sbind (observe ''process_already_exited'' []) (\<lambda>_. sret False)
          else paused))))"

text \<open>Unlike the pause, the resume does not ask whether the target has exited: the signal to a process that is
  gone raises.\<close>

definition resume_process :: "host \<Rightarrow> bool fc" where
  "resume_process h =
     sbind require_process (\<lambda>p.
       if \<not> os_nt h \<and> has_sigcont h \<and> tp_code p \<noteq> None then sraise (OSError ''ProcessLookupError'')
       else if (if os_nt h then tp_code p = None \<and> nt_control h ''NtResumeProcess'' else has_sigcont h) then
         sbind (record_event ''fault_observed''
                  [(''action'', JStr ''process_resumed''), (''pid'', JInt (tp_pid p))]) (\<lambda>_.
         sbind (set_observed ''process_resumed'') (\<lambda>_. sret True))
       else
         sbind (record_event ''fault_observed''
                  [(''action'', JStr ''resume_unsupported''), (''supported'', JBool False)]) (\<lambda>_.
         sret False))"

definition release_message :: "controller \<Rightarrow> dict" where
  "release_message s =
     [(''command'', JStr ''release''), (''boundary'', JStr (fc_boundary s)),
      (''token'', JStr (fc_token s)), (''seed'', JInt (fc_seed s))]"

definition release :: "bool \<Rightarrow> unit fc" where
  "release broken =
     sbind require_channel (\<lambda>_.
     sbind (set_requested ''release'') (\<lambda>_.
     sbind (sget (\<lambda>s. JObj (release_message s))) (\<lambda>v.
     sbind (send_channel broken v) (\<lambda>_.
     sbind (sget fc_boundary) (\<lambda>b.
     record_event ''command'' [(''command'', JStr ''release''), (''boundary'', JStr b)])))))"

definition set_default :: "string \<Rightarrow> json \<Rightarrow> dict \<Rightarrow> dict" where
  "set_default k v d = (if map_of d k = None then dict_set k v d else d)"

definition inject_message :: "bool \<Rightarrow> dict \<Rightarrow> unit fc" where
  "inject_message broken payload =
     sbind require_channel (\<lambda>_.
     sbind (sget (\<lambda>s. set_default ''seed'' (JInt (fc_seed s)) (set_default ''token'' (JStr (fc_token s))
               (set_default ''boundary'' (JStr (fc_boundary s)) payload)))) (\<lambda>msg.
     sbind (send_channel broken (JObj msg)) (\<lambda>_.
     sbind (set_requested ''message_injection'') (\<lambda>_.
     record_event ''command'' [(''command'', JStr ''message_injection''), (''payload'', JObj msg)]))))"

definition close_channel :: "unit fc" where
  "close_channel = smodify (\<lambda>s. if fc_connected s then s\<lparr>fc_channel_closed := True\<rparr> else s)"

definition cut_network :: "unit fc" where
  "cut_network =
     sbind require_process (\<lambda>_.
     sbind (set_requested ''network_cut'') (\<lambda>_.
     sbind close_channel (\<lambda>_.
     sbind (set_observed ''network_cut'') (\<lambda>_.
     sbind (sget fc_boundary) (\<lambda>b.
     sbind (record_event ''command'' [(''command'', JStr ''network_cut''), (''boundary'', JStr b)]) (\<lambda>_.
     record_event ''fault_observed''
       [(''action'', JStr ''network_cut''), (''channel_closed'', JBool True)]))))))"

text \<open>\<^verbatim>\<open>process.wait(timeout)\<close>: the exit code, or a timeout. The input says whether the target exits in
  time, unless it already has.\<close>

definition wait_target :: "int option \<Rightarrow> int option fc" where
  "wait_target exits =
     sbind require_process (\<lambda>p.
       case tp_code p of
         Some c \<Rightarrow> sret (Some c)
       | None \<Rightarrow>
           (case exits of
              None \<Rightarrow> sret None
            | Some c \<Rightarrow>
                sbind (smodify (\<lambda>s. s\<lparr>fc_process := Some (p\<lparr>tp_code := Some c\<rparr>)\<rparr>)) (\<lambda>_. sret (Some c))))"

definition kill :: "host \<Rightarrow> int option \<Rightarrow> bool fc" where
  "kill h exits =
     sbind require_process (\<lambda>p.
     sbind (set_requested ''kill'') (\<lambda>_.
     sbind (sget fc_boundary) (\<lambda>b.
     sbind (record_event ''command'' [(''command'', JStr ''kill''), (''boundary'', JStr b)]) (\<lambda>_.
       if tp_code p \<noteq> None then
         sbind (observe ''process_already_exited'' [(''pid'', JInt (tp_pid p))]) (\<lambda>_. sret False)
       else
         sbind (wait_target exits) (\<lambda>r.
           case r of
             None \<Rightarrow> sbind (observe ''process_kill_unconfirmed'' [(''pid'', JInt (tp_pid p))]) (\<lambda>_. sret False)
           | Some _ \<Rightarrow>
               sbind (observe ''process_killed''
                        [(''pid'', JInt (tp_pid p)),
                         (''mechanism'', JStr (if os_nt h then ''windows-process-tree''
                                               else ''posix-process-group''))]) (\<lambda>_. sret True))))))"

text \<open>\<open>finish\<close>; the other threads, and the target, go on between the timeout and the kill.\<close>

definition finish :: "host \<Rightarrow> int option \<Rightarrow> thread_event list \<Rightarrow> int option \<Rightarrow> int fc" where
  "finish h exits es killed =
     sbind (wait_target exits) (\<lambda>r.
     sbind (case r of
              Some c \<Rightarrow> sret c
            | None \<Rightarrow>
                sbind (threads es) (\<lambda>_.
                sbind (kill h killed) (\<lambda>ok.
                sbind (sensure ok (RuntimeError ''target process did not exit after kill'')) (\<lambda>_.
                sbind (wait_target None) (\<lambda>r2.
                  case r2 of Some c \<Rightarrow> sret c | None \<Rightarrow> sraise (RuntimeError ''TimeoutExpired''))))))
       (\<lambda>code. sbind (record_process_exit code) (\<lambda>_. sret code)))"

definition cleanup :: "string \<Rightarrow> int option \<Rightarrow> int option fc" where
  "cleanup seconds exits =
     sbind (sget fc_cleanup_attempted) (\<lambda>attempted.
     if attempted then sget fc_return_code
     else
       sbind (smodify (\<lambda>s. s\<lparr>fc_cleanup_attempted := True\<rparr>)) (\<lambda>_.
       sbind (sget fc_process) (\<lambda>process.
       case process of
         None \<Rightarrow>
           sbind (smodify (\<lambda>s. s\<lparr>fc_cleaned_up := True, fc_cleanup_bounded := True\<rparr>)) (\<lambda>_.
           sbind (record_event ''cleanup_completed''
                    [(''bounded'', JBool True), (''process_present'', JBool False)]) (\<lambda>_. sret None))
       | Some p \<Rightarrow>
           sbind (wait_target exits) (\<lambda>r.
           sbind (case r of
                    None \<Rightarrow>
                      sbind (record_event ''cleanup_timeout'' [(''timeout_seconds'', JFloat seconds)]) (\<lambda>_.
                      sbind (record_event ''cleanup_unbounded''
                               [(''pid'', JInt (tp_pid p)), (''process_alive'', JBool True)]) (\<lambda>_.
                      smodify (\<lambda>s. s\<lparr>fc_cleanup_bounded := False, fc_cleaned_up := False\<rparr>)))
                  | Some c \<Rightarrow>
                      sbind (record_process_exit c) (\<lambda>_.
                      smodify (\<lambda>s. s\<lparr>fc_cleanup_bounded := True, fc_cleaned_up := True\<rparr>))) (\<lambda>_.
           sbind close_channel (\<lambda>_.
           sbind (smodify (\<lambda>s. s\<lparr>fc_server_open := False\<rparr>)) (\<lambda>_.
           sbind (sget fc_cleanup_bounded) (\<lambda>bounded.
           sbind (if bounded then record_event ''cleanup_completed'' [(''bounded'', JBool True)]
                  else sret ()) (\<lambda>_. sret r)))))))))"

definition outcome :: "controller \<Rightarrow> fault_outcome" where
  "outcome s =
     \<lparr>fo_boundary_reached = fc_boundary_reached s, fo_requested_action = fc_requested s,
      fo_observed_action = fc_observed s, fo_return_code = fc_return_code s,
      fo_cleaned_up = fc_cleaned_up s\<rparr>"

section \<open>The command line\<close>

text \<open>The inputs of one run of \<open>_run_command\<close>, in the order of its calls.\<close>

record run_inputs =
  ri_action :: string
  ri_python :: string
  ri_command :: "string list option"
  ri_skip_boundary :: bool
  ri_file_exists :: bool
  ri_pid :: int
  ri_timeout :: string
  ri_boundary_rounds :: "thread_event list list"
  ri_release_rounds :: "thread_event list list"
  ri_broken :: bool
  ri_kill :: "int option"
  ri_finish :: "int option"
  ri_between :: "thread_event list"
  ri_finish_kill :: "int option"
  ri_cleanup :: "int option"

definition stop_run :: "host \<Rightarrow> run_inputs \<Rightarrow> unit fc" where
  "stop_run h ri =
     sbind (finish h (ri_finish ri) (ri_between ri) (ri_finish_kill ri)) (\<lambda>_.
     sbind (cleanup ''5.0'' (ri_cleanup ri)) (\<lambda>_. sret ()))"

definition act :: "host \<Rightarrow> run_inputs \<Rightarrow> bool fc" where
  "act h ri =
     (let a = ri_action ri in
      if a = ''release'' then
        sbind (release (ri_broken ri)) (\<lambda>_. wait_for_event ''released'' (ri_release_rounds ri))
      else if a = ''kill'' then sbind (kill h (ri_kill ri)) (\<lambda>_. sret True)
      else if a = ''pause'' then
        sbind (pause_process h) (\<lambda>_. sbind (resume_process h) (\<lambda>_.
        sbind (release (ri_broken ri)) (\<lambda>_.
        sbind (wait_for_event ''released'' (ri_release_rounds ri)) (\<lambda>_. sret True))))
      else if a = ''cut-network'' then sbind cut_network (\<lambda>_. sret True)
      else if a = ''message'' then
        sbind (sget fc_boundary) (\<lambda>b.
        sbind (inject_message (ri_broken ri)
                 [(''command'', JStr ''release''), (''boundary'', JStr b),
                  (''fields'', JObj [(''injected'', JBool True)])]) (\<lambda>_. sret True))
      else sret True)"

definition run_command :: "host \<Rightarrow> run_inputs \<Rightarrow> (int \<times> string) fc" where
  "run_command h ri =
     sbind (start_target (ri_python ri) (ri_command ri) (ri_skip_boundary ri) (ri_file_exists ri) (ri_pid ri)) (\<lambda>_.
     sbind (wait_for_boundary (ri_timeout ri) (ri_boundary_rounds ri)) (\<lambda>reached.
       case reached of
         None \<Rightarrow>
           sbind (kill h (ri_kill ri)) (\<lambda>_.
           sbind (stop_run h ri) (\<lambda>_. sret (2, ''boundary_not_reached'')))
       | Some _ \<Rightarrow>
           sbind (act h ri) (\<lambda>ok.
             if \<not> ok then
               sbind (kill h (ri_kill ri)) (\<lambda>_.
               sbind (stop_run h ri) (\<lambda>_. sret (3, ''release_ack_missing'')))
             else sbind (stop_run h ri) (\<lambda>_. sret (0, ''completed'')))))"

section \<open>The failpoint client\<close>

record failpoint_client =
  fp_token :: string
  fp_seed :: int

text \<open>\<open>from_environment\<close>: nothing without an endpoint; the address to connect to otherwise.\<close>

definition from_environment ::
  "(string \<Rightarrow> string option) \<Rightarrow> ((string \<times> int) \<times> failpoint_client) option res" where
  "from_environment env =
     (case env ''DURABLE_FAULT_ENDPOINT'' of
        None \<Rightarrow> Inr None
      | Some endpoint \<Rightarrow>
          if endpoint = '''' then Inr None
          else
            (case env ''DURABLE_FAULT_TOKEN'' of
               Some (c # cs) \<Rightarrow>
                 (case env ''DURABLE_FAULT_SEED'' of
                    None \<Rightarrow> Inl (RuntimeError ''DURABLE_FAULT_SEED is required with DURABLE_FAULT_ENDPOINT'')
                  | Some seed_text \<Rightarrow>
                      (case rsplit1 (CHR '':'') endpoint of
                         None \<Rightarrow> Inl (ValueError ''not enough values to unpack'')
                       | Some (hst, port_text) \<Rightarrow>
                           (case (py_int port_text, py_int seed_text) of
                              (Some port, Some seed) \<Rightarrow>
                                Inr (Some ((hst, port), \<lparr>fp_token = c # cs, fp_seed = seed\<rparr>))
                            | _ \<Rightarrow> Inl (ValueError ''invalid literal for int()''))))
             | _ \<Rightarrow> Inl (RuntimeError ''DURABLE_FAULT_TOKEN is required with DURABLE_FAULT_ENDPOINT'')))"

definition client_message :: "failpoint_client \<Rightarrow> string \<Rightarrow> string \<Rightarrow> dict \<Rightarrow> dict" where
  "client_message c event boundary flds =
     dict_set ''seed'' (JInt (fp_seed c)) (dict_set ''token'' (JStr (fp_token c))
       [(''event'', JStr event), (''boundary'', JStr boundary), (''fields'', JObj flds)])"

text \<open>\<open>_read_line\<close>: chunks until the buffer ends in a newline; \<open>None\<close> when the controller disconnects.\<close>

fun read_line :: "string \<Rightarrow> string list \<Rightarrow> string option" where
  "read_line buffer chunks =
     (if buffer \<noteq> '''' \<and> last buffer = newline then Some buffer
      else (case chunks of [] \<Rightarrow> None | c # cs \<Rightarrow> if c = '''' then None else read_line (buffer @ c) cs))"

text \<open>\<open>hit\<close> after the report: the answer of the controller, decoded, decides.\<close>

definition hit_response :: "failpoint_client \<Rightarrow> (string + json) option \<Rightarrow> unit res" where
  "hit_response c response =
     (case response of
        None \<Rightarrow> Inl (RuntimeError ''fault controller disconnected before release'')
      | Some (Inl detail) \<Rightarrow> Inl (ValueError detail)
      | Some (Inr v) \<Rightarrow>
          (case as_dict v of
             None \<Rightarrow> Inl (RuntimeError ''invalid fault-controller command'')
           | Some d \<Rightarrow>
               if map_of d ''token'' \<noteq> Some (JStr (fp_token c))
               then Inl (RuntimeError ''invalid fault-controller command'')
               else if map_of d ''command'' \<noteq> Some (JStr ''release'')
               then Inl (RuntimeError (''fault controller returned '' @
                      py_repr (case map_of d ''command'' of Some x \<Rightarrow> x | None \<Rightarrow> JNull)))
               else Inr ()))"

section \<open>Invariants of the controller\<close>

text \<open>
  An invariant is kept by every method once it is kept by the elementary changes: those that concern
  neither the trace, the queue, the flags nor the exit of the target, a new record, an observation, and
  the five places where the code does more (the start, a protocol message, the queue, the boundary, the
  kill).
\<close>

definition exited :: "controller \<Rightarrow> bool" where
  "exited s \<longleftrightarrow> (\<exists>p. fc_process s = Some p \<and> tp_code p \<noteq> None)"

definition quiet :: "controller \<Rightarrow> controller \<Rightarrow> bool" where
  "quiet s t \<longleftrightarrow> fc_seed t = fc_seed s \<and> fc_run_id t = fc_run_id s \<and> fc_boundary t = fc_boundary s \<and>
     fc_token t = fc_token s \<and> fc_trace t = fc_trace s \<and> fc_file t = fc_file s \<and>
     fc_events t = fc_events s \<and> fc_boundary_reached t = fc_boundary_reached s \<and>
     fc_observed t = fc_observed s \<and> (exited s \<longrightarrow> exited t)"

locale controller_invariant =
  fixes I :: "controller \<Rightarrow> bool"
  assumes k_quiet: "(\<And>t. quiet t (f t)) \<Longrightarrow> preserves I (smodify f :: unit fc)"
    and k_record: "preserves I (record_event event flds)"
    and k_observed: "a \<noteq> ''process_killed'' \<Longrightarrow> preserves I (set_observed a)"
    and k_start: "preserves I (start_target python cmd skip ex pid)"
    and k_object: "preserves I (handle_object payload)"
    and k_exit_event: "preserves I (put_event (ProcessExited c))"
    and k_get: "preserves I get_event"
    and k_boundary: "preserves I rest \<Longrightarrow> preserves I (sbind get_event (boundary_next sec rest))"
    and k_kill: "preserves I (kill h x)"
begin

lemmas parts = keeps k_record k_start k_object k_exit_event k_get k_kill

lemma i_require: "preserves I require_process"
  by (auto simp: preserves_def require_process_def split: option.split)

lemma i_quiet_fields: "preserves I (set_requested a)" "preserves I close_channel"
  unfolding set_requested_def close_channel_def
  by (rule k_quiet, simp add: quiet_def exited_def)+

lemma i_error: "preserves I (protocol_error d)"
  unfolding protocol_error_def by (rule k_record)

lemma i_line: "preserves I (handle_protocol_line line)"
  unfolding handle_protocol_line_def by (intro parts i_error)

lemma i_exit: "preserves I (record_process_exit c)"
  unfolding record_process_exit_def
  by (intro parts k_quiet) (simp_all add: quiet_def exited_def)

lemma i_thread: "preserves I (thread_step e)"
proof (cases e)
  case (Target_exits c)
  show ?thesis unfolding Target_exits thread_step.simps
    by (rule k_quiet) (force simp: quiet_def exited_def)
qed (simp_all, (intro parts i_line i_error i_exit k_quiet; simp add: quiet_def exited_def)+)

lemma i_threads: "preserves I (threads es)"
proof -
  have "preserves I (fold (\<lambda>e m. sbind m (\<lambda>_. thread_step e)) es m)" if "preserves I m" for m
    using that
  proof (induction es arbitrary: m)
    case (Cons e es)
    have "preserves I (sbind m (\<lambda>_. thread_step e))" by (intro keeps i_thread Cons.prems)
    with Cons.IH show ?case by simp
  qed simp
  then show ?thesis unfolding threads_def by (simp add: keeps)
qed

lemma i_timeout: "preserves I (boundary_timeout sec)"
  unfolding boundary_timeout_def by (intro parts k_observed) simp

lemma i_wait_boundary: "preserves I (wait_for_boundary sec rounds)"
  by (induction rounds) (simp_all add: i_timeout, intro keeps i_threads k_boundary)

lemma i_wait_event: "preserves I (wait_for_event n rounds)"
proof (induction rounds)
  case (Cons es rounds)
  have "preserves I (case e of ProtocolEvent m d \<Rightarrow> if m = n then sret True else wait_for_event n rounds
      | _ \<Rightarrow> wait_for_event n rounds)" for e
    using Cons by (cases e) (auto intro: keeps)
  then show ?case by (simp, intro parts i_threads)
qed (simp add: keeps)

lemma i_observe: "a \<noteq> ''process_killed'' \<Longrightarrow> preserves I (observe a x)"
  unfolding observe_def by (intro parts k_observed)

lemma i_channel: "preserves I require_channel" "preserves I (send_channel b v)"
  unfolding require_channel_def send_channel_def
  by (intro parts i_require, intro parts k_quiet) (simp add: quiet_def exited_def)

lemma i_target: "preserves I (wait_target x)"
  unfolding wait_target_def
  by (intro parts i_require k_quiet) (simp add: quiet_def exited_def)

lemma i_pauses: "preserves I pause" "preserves I (pause_process h)" "preserves I (resume_process h)"
  unfolding pause_def pause_process_def resume_process_def Let_def
  by (intro parts i_require i_quiet_fields i_observe k_observed; simp)+

lemma i_messages:
  "preserves I (release b)" "preserves I (inject_message b d)" "preserves I cut_network"
  unfolding release_def inject_message_def cut_network_def
  by (intro parts i_require i_quiet_fields i_channel k_observed; simp)+

lemma i_finish: "preserves I (finish h x es k)"
  unfolding finish_def by (intro parts i_target i_threads i_exit)

lemma i_cleanup: "preserves I (cleanup sec x)"
  unfolding cleanup_def
  by (intro parts i_target i_exit i_quiet_fields k_quiet; simp add: quiet_def exited_def)

lemmas methods = i_threads i_wait_boundary i_wait_event i_pauses i_messages i_finish i_cleanup k_start k_kill

end

text \<open>A step of the controller: a call of one of its methods, whatever it raises, or the other threads.\<close>

inductive fc_step :: "controller \<Rightarrow> controller \<Rightarrow> bool" where
  "fc_step s (snd (start_target python cmd skip ex pid s))"
| "fc_step s (snd (threads es s))"
| "fc_step s (snd (wait_for_boundary sec rounds s))"
| "fc_step s (snd (wait_for_event n rounds s))"
| "fc_step s (snd (pause s))"
| "fc_step s (snd (pause_process h s))"
| "fc_step s (snd (resume_process h s))"
| "fc_step s (snd (release b s))"
| "fc_step s (snd (inject_message b d s))"
| "fc_step s (snd (cut_network s))"
| "fc_step s (snd (kill h x s))"
| "fc_step s (snd (finish h x es k s))"
| "fc_step s (snd (cleanup sec x s))"

context controller_invariant
begin

lemma step_inv: "fc_step s t \<Longrightarrow> I s \<Longrightarrow> I t"
  by (induction rule: fc_step.induct)
    (use methods in \<open>simp_all add: preserves_def\<close>)

lemma run_inv: "fc_step\<^sup>*\<^sup>* s t \<Longrightarrow> I s \<Longrightarrow> I t"
  by (induction rule: rtranclp_induct) (auto intro: step_inv)

lemma run_command_inv: "preserves I (run_command h ri)"
proof -
  have "preserves I (act h ri)"
    unfolding act_def Let_def by (intro keeps methods)
  moreover have "preserves I (stop_run h ri)"
    unfolding stop_run_def by (intro keeps methods)
  ultimately show ?thesis
    unfolding run_command_def by (intro keeps methods)
qed

end

section \<open>The trace is an append-only log\<close>

text \<open>One elementary change: the identity of the run stays, and the trace and its file are unchanged or
  grow by one record.\<close>

definition fc_micro :: "controller \<Rightarrow> controller \<Rightarrow> bool" where
  "fc_micro s t \<longleftrightarrow> fc_seed t = fc_seed s \<and> fc_run_id t = fc_run_id s \<and> fc_boundary t = fc_boundary s \<and>
     fc_token t = fc_token s \<and>
     ((fc_trace t = fc_trace s \<and> fc_file t = fc_file s) \<or>
      (\<exists>r. tc_sequence r = Suc (length (fc_trace s)) \<and> fc_trace t = fc_trace s @ [r] \<and>
           fc_file t = map_option (\<lambda>ls. ls @ [trace_line s r]) (fc_file s)))"

interpretation fault_log: append_log fc_micro fc_trace tc_sequence
  by unfold_locales (auto simp: fc_micro_def)

definition from_here :: "controller \<Rightarrow> controller \<Rightarrow> bool" where
  "from_here s t \<longleftrightarrow> fc_micro\<^sup>*\<^sup>* s t"

lemma micro_modify: "(\<And>t. fc_micro t (f t)) \<Longrightarrow> preserves (from_here s) (smodify f)"
  by (rule preserves_smodify) (auto simp: from_here_def intro: rtranclp.rtrancl_into_rtrancl)

lemma micro_record: "preserves (from_here s) (record_event event flds)"
  unfolding record_event_def by (rule micro_modify) (auto simp: fc_micro_def next_record_def Let_def)

lemma micro_get: "preserves (from_here s) get_event"
proof -
  have "fc_micro t (t\<lparr>fc_events := es\<rparr>)" for t es by (simp add: fc_micro_def)
  then show ?thesis
    by (auto simp: preserves_def get_event_def from_here_def split: list.split
        intro: rtranclp.rtrancl_into_rtrancl)
qed

lemma micro_require: "preserves (from_here s) require_process"
  by (auto simp: preserves_def require_process_def split: option.split)

lemma micro_fields:
  "preserves (from_here s) (set_observed a)" "preserves (from_here s) (set_requested a)"
  "preserves (from_here s) (put_event e)"
  unfolding set_observed_def set_requested_def put_event_def
  by (rule micro_modify, simp add: fc_micro_def)+

lemma micro_prepare: "preserves (from_here s) (prepare_trace b)"
  by (auto simp: preserves_def prepare_trace_def split: option.split)

lemmas micro_parts = keeps micro_record micro_get micro_require micro_fields micro_prepare

interpretation trace_kept: controller_invariant "from_here s" for s
proof
  show "preserves (from_here s) (smodify f :: unit fc)" if "\<And>t. quiet t (f t)" for f
    by (rule micro_modify) (use that in \<open>auto simp: quiet_def fc_micro_def\<close>)
  show "preserves (from_here s) (record_event event flds)" for event flds by (rule micro_record)
  show "preserves (from_here s) (set_observed a)" for a by (rule micro_fields)
  show "preserves (from_here s) (start_target python cmd skip ex pid)" for python cmd skip ex pid
    unfolding start_target_def by (intro micro_parts micro_modify) (simp add: fc_micro_def)
  show "preserves (from_here s) (handle_object payload)" for payload
    unfolding handle_object_def protocol_error_def Let_def
    by (intro micro_parts micro_modify) (auto simp: fc_micro_def)
  show "preserves (from_here s) (put_event (ProcessExited c))" for c by (rule micro_fields)
  show "preserves (from_here s) get_event" by (rule micro_get)
  show "preserves (from_here s) (sbind get_event (boundary_next sec rest))"
    if "preserves (from_here s) rest" for sec rest
  proof -
    have "preserves (from_here s) (boundary_next sec rest got)" for got
      unfolding boundary_next_def boundary_timeout_def using that
      by (auto split: option.split controller_event.split intro!: micro_parts micro_modify simp: fc_micro_def)
    then show ?thesis by (intro micro_parts)
  qed
  show "preserves (from_here s) (kill h x)" for h x
    unfolding kill_def wait_target_def observe_def
    by (intro micro_parts micro_modify) (simp add: fc_micro_def)
qed

lemma trace_line_same:
  "fc_seed t = fc_seed s \<Longrightarrow> fc_run_id t = fc_run_id s \<Longrightarrow> trace_line t = trace_line s"
  by (rule ext) (simp add: trace_line_def record_json_def)

definition mirrored :: "controller \<Rightarrow> bool" where
  "mirrored s \<longleftrightarrow> (\<forall>ls. fc_file s = Some ls \<longrightarrow> ls = map (trace_line s) (fc_trace s))"

lemma micro_identity:
  "fc_micro\<^sup>*\<^sup>* s t \<Longrightarrow> fc_seed t = fc_seed s \<and> fc_run_id t = fc_run_id s \<and> fc_boundary t = fc_boundary s \<and>
     fc_token t = fc_token s"
  by (induction rule: rtranclp_induct) (auto simp: fc_micro_def)

lemma micro_mirrored: "fc_micro\<^sup>*\<^sup>* s t \<Longrightarrow> mirrored s \<Longrightarrow> mirrored t"
proof (induction rule: rtranclp_induct)
  case (step t u)
  then have m: "mirrored t" "fc_micro t u" by simp_all
  then have "trace_line u = trace_line t" by (intro trace_line_same) (simp_all add: fc_micro_def)
  with m show ?case by (auto simp: fc_micro_def mirrored_def)
qed

text \<open>
  The trace of a run is an append-only log. After any sequence of method calls, of which each may
  raise, interleaved with the reader, watcher and output threads, the records are numbered from one
  without gaps, everything recorded before is still there, the run's identity has not changed, and the
  trace file consists of exactly the lines of the records, in order.
\<close>

theorem fault_trace_log:
  assumes "fc_step\<^sup>*\<^sup>* (new_controller seed boundary has_path token run_id) s" and "fc_step\<^sup>*\<^sup>* s t"
  shows "(\<exists>rs. fc_trace t = fc_trace s @ rs) \<and> map tc_sequence (fc_trace t) = [1..<Suc (length (fc_trace t))] \<and>
    fc_seed t = seed \<and> fc_run_id t = run_id \<and> fc_boundary t = boundary \<and> fc_token t = token \<and>
    (\<forall>ls. fc_file t = Some ls \<longrightarrow> ls = map (trace_line t) (fc_trace t))"
proof -
  let ?s0 = "new_controller seed boundary has_path token run_id"
  have a: "fc_micro\<^sup>*\<^sup>* s t"
    using trace_kept.run_inv [OF assms(2), of s] by (simp add: from_here_def)
  have b: "fc_micro\<^sup>*\<^sup>* ?s0 t"
    using trace_kept.run_inv [OF rtranclp_trans [OF assms], of ?s0] by (simp add: from_here_def)
  have "mirrored t"
    by (rule micro_mirrored [OF b]) (auto simp: mirrored_def new_controller_def)
  moreover have "numbered tc_sequence (fc_trace t)"
    by (rule fault_log.run_numbered [OF b]) (simp add: new_controller_def)
  ultimately show ?thesis
    using fault_log.run_prefix [OF a] micro_identity [OF b]
    by (simp add: mirrored_def numbered_def new_controller_def)
qed

section \<open>Observations are backed by the trace\<close>

definition evidence :: "string \<Rightarrow> controller \<Rightarrow> bool" where
  "evidence b s \<longleftrightarrow> (\<exists>r \<in> set (fc_trace s). tc_event r = ''boundary_reached'' \<and>
     map_of (tc_fields r) ''boundary'' = Some (JStr b))"

definition kill_evidence :: "controller \<Rightarrow> bool" where
  "kill_evidence s \<longleftrightarrow> exited s \<and> (\<exists>r \<in> set (fc_trace s). tc_event r = ''fault_observed'' \<and>
     map_of (tc_fields r) ''action'' = Some (JStr ''process_killed''))"

definition fault_inv :: "controller \<Rightarrow> bool" where
  "fault_inv s \<longleftrightarrow> (fc_boundary_reached s \<longrightarrow> evidence (fc_boundary s) s) \<and>
     (\<forall>n sd f. BoundaryReached n sd f \<in> set (fc_events s) \<longrightarrow> evidence n s) \<and>
     (fc_observed s = Some ''process_killed'' \<longrightarrow> kill_evidence s)"

text \<open>Evidence survives everything that keeps the trace and the exit.\<close>

lemma fault_inv_mono:
  assumes "fault_inv s" "set (fc_trace s) \<subseteq> set (fc_trace t)" "fc_boundary t = fc_boundary s"
    "exited s \<Longrightarrow> exited t"
    "fc_boundary_reached t \<Longrightarrow> fc_boundary_reached s \<or> evidence (fc_boundary s) t"
    "\<And>n sd f. BoundaryReached n sd f \<in> set (fc_events t) \<Longrightarrow>
       BoundaryReached n sd f \<in> set (fc_events s) \<or> evidence n t"
    "fc_observed t = Some ''process_killed'' \<Longrightarrow> fc_observed s = Some ''process_killed'' \<or> kill_evidence t"
  shows "fault_inv t"
proof -
  have e: "evidence b s \<Longrightarrow> evidence b t" for b using assms(2) by (auto simp: evidence_def)
  have k: "kill_evidence s \<Longrightarrow> kill_evidence t" using assms(2,4) by (auto simp: kill_evidence_def)
  show ?thesis
    unfolding fault_inv_def using assms(1,3,5-7) e k unfolding fault_inv_def by metis
qed

lemma run_record: "record_event event flds s = (Inr (), snd (record_event event flds s))"
  by (simp add: record_event_def smodify_def)

lemma record_frame [simp]:
  "fc_trace (snd (record_event event flds s)) = fc_trace s @ [next_record event flds s]"
  "fc_boundary (snd (record_event event flds s)) = fc_boundary s"
  "fc_seed (snd (record_event event flds s)) = fc_seed s"
  "fc_events (snd (record_event event flds s)) = fc_events s"
  "fc_boundary_reached (snd (record_event event flds s)) = fc_boundary_reached s"
  "fc_observed (snd (record_event event flds s)) = fc_observed s"
  "fc_process (snd (record_event event flds s)) = fc_process s"
  by (simp_all add: record_event_def smodify_def Let_def)

lemma evidence_frame [simp]:
  "evidence b (s\<lparr>fc_boundary_reached := x\<rparr>) = evidence b s"
  "evidence b (s\<lparr>fc_events := y\<rparr>) = evidence b s"
  by (simp_all add: evidence_def)

lemma evidence_record [simp]:
  "evidence b (snd (record_event ''boundary_reached'' [(''boundary'', JStr b), f] s))"
  by (simp add: evidence_def next_record_def)

lemma exited_record [simp]: "exited (snd (record_event event flds s)) = exited s"
  by (simp add: exited_def)

lemma inv_record: "preserves fault_inv (record_event event flds)"
  unfolding preserves_def by (auto elim!: fault_inv_mono)

lemma inv_start: "preserves fault_inv (start_target python cmd skip ex pid)"
  unfolding preserves_def
proof (intro allI impI)
  fix s assume inv: "fault_inv s"
  show "fault_inv (snd (start_target python cmd skip ex pid s))"
  proof (cases "fc_process s = None \<and> fst (prepare_trace ex s) = Inr ()")
    case True
    then have p: "prepare_trace ex s = (Inr (), s)"
      by (auto simp: prepare_trace_def split: option.splits if_splits)
    have "\<not> exited s" using True by (simp add: exited_def)
    with True p inv show ?thesis
      by (subst start_target_def) (auto simp: elim!: fault_inv_mono)
  next
    case False
    have "snd (prepare_trace ex s) = s"
      by (simp add: prepare_trace_def split: option.split)
    with False have "snd (start_target python cmd skip ex pid s) = s"
      by (cases "prepare_trace ex s", cases "fst (prepare_trace ex s)")
        (auto simp: start_target_def sensure_def sraise_def)
    with inv show ?thesis by simp
  qed
qed

lemma inv_object: "preserves fault_inv (handle_object payload)"
  unfolding preserves_def
proof (intro allI impI)
  fix s assume inv: "fault_inv s"
  have rec: "fault_inv (snd (record_event e f s))" for e f
    using inv_record inv by (auto simp: preserves_def)
  let ?f = "report_fields payload"
  consider (error) d where "handle_object payload s = protocol_error d s"
    | (hit) b sd where "handle_object payload s =
        sbind (record_event ''boundary_reached'' [(''boundary'', JStr b), (''fields'', JObj ?f)]) (\<lambda>_.
        sbind (smodify (\<lambda>s. if b = fc_boundary s \<and> sd = fc_seed s then s\<lparr>fc_boundary_reached := True\<rparr> else s)) (\<lambda>_.
        put_event (BoundaryReached b sd ?f))) s"
    | (other) e b where "handle_object payload s =
        sbind (record_event e [(''boundary'', JStr b), (''fields'', JObj ?f)]) (\<lambda>_.
        put_event (ProtocolEvent e payload)) s"
  proof (cases "map_of payload ''token'' = Some (JStr (fc_token s))")
    case False
    then show ?thesis by (intro that(1)) (simp add: handle_object_def)
  next
    case tok: True
    show ?thesis
    proof (cases "event_fields payload")
      case None
      with tok show ?thesis by (intro that(1)) (simp add: handle_object_def)
    next
      case (Some x)
      obtain e b sd where x: "x = (e, b, sd)" by (cases x)
      show ?thesis
      proof (cases "e = ''boundary_reached''")
        case True
        with tok Some x show ?thesis by (intro that(2) [of b sd]) (simp add: handle_object_def Let_def)
      next
        case False
        with tok Some x show ?thesis by (intro that(3) [of e b]) (simp add: handle_object_def Let_def)
      qed
    qed
  qed
  then show "fault_inv (snd (handle_object payload s))"
  proof cases
    case error
    with rec show ?thesis by (simp add: protocol_error_def)
  next
    case (hit b sd)
    let ?s = "snd (record_event ''boundary_reached'' [(''boundary'', JStr b), (''fields'', JObj ?f)] s)"
    have "fault_inv (snd (put_event (BoundaryReached b sd ?f)
        (if b = fc_boundary ?s \<and> sd = fc_seed ?s then ?s\<lparr>fc_boundary_reached := True\<rparr> else ?s)))"
      by (rule fault_inv_mono [OF rec [of "''boundary_reached''" "[(''boundary'', JStr b), (''fields'', JObj ?f)]"]])
        (auto simp: put_event_def smodify_def exited_def split: if_splits)
    with hit show ?thesis
      by (simp add: sbind_run(2) [OF run_record])
  next
    case (other e b)
    let ?s = "snd (record_event e [(''boundary'', JStr b), (''fields'', JObj ?f)] s)"
    have "fault_inv (snd (put_event (ProtocolEvent e payload) ?s))"
      by (rule fault_inv_mono [OF rec [of e "[(''boundary'', JStr b), (''fields'', JObj ?f)]"]])
        (auto simp: put_event_def smodify_def exited_def)
    with other show ?thesis by (simp add: sbind_run(2) [OF run_record])
  qed
qed

lemma get_event_evidence:
  "triple fault_inv get_event
     (\<lambda>got s. fault_inv s \<and> (\<forall>n sd f. got = Some (BoundaryReached n sd f) \<longrightarrow> evidence n s)) (\<lambda>_. False)"
proof (rule tripleI)
  fix s got t
  assume inv: "fault_inv s" and g: "get_event s = (Inr got, t)"
  have "fault_inv t"
    using inv g by (auto simp: get_event_def exited_def split: list.splits elim!: fault_inv_mono)
  moreover have "evidence n t" if "got = Some (BoundaryReached n sd f)" for n sd f
  proof -
    have "BoundaryReached n sd f \<in> set (fc_events s)" and t: "fc_trace t = fc_trace s"
      using g that by (auto simp: get_event_def split: list.splits)
    then have "evidence n s" using inv unfolding fault_inv_def by blast
    with t show ?thesis by (simp add: evidence_def)
  qed
  ultimately show "fault_inv t \<and> (\<forall>n sd f. got = Some (BoundaryReached n sd f) \<longrightarrow> evidence n t)" by blast
qed (auto simp: get_event_def split: list.splits)

lemma inv_observed: "a \<noteq> ''process_killed'' \<Longrightarrow> preserves fault_inv (set_observed a)"
  unfolding set_observed_def
  by (rule preserves_smodify) (auto simp: exited_def elim!: fault_inv_mono)

lemma inv_boundary:
  assumes "preserves fault_inv rest"
  shows "preserves fault_inv (sbind get_event (boundary_next sec rest))"
  unfolding preserves_triple
proof (rule triple_sbind)
  show "triple fault_inv get_event
      (\<lambda>got s. fault_inv s \<and> (\<forall>n sd f. got = Some (BoundaryReached n sd f) \<longrightarrow> evidence n s)) fault_inv"
    by (rule triple_weaken [OF get_event_evidence]) auto
next
  fix got
  let ?P = "\<lambda>s. fault_inv s \<and> (\<forall>n sd f. got = Some (BoundaryReached n sd f) \<longrightarrow> evidence n s)"
  show "triple ?P (boundary_next sec rest got) (\<lambda>_. fault_inv) fault_inv"
  proof (cases "\<exists>n sd f. got = Some (BoundaryReached n sd f)")
    case False
    have "preserves fault_inv (boundary_next sec rest got)"
      unfolding boundary_next_def boundary_timeout_def
      using assms False
      by (auto split: option.split controller_event.split intro!: keeps inv_record inv_observed)
    then show ?thesis by (auto simp: preserves_triple intro: triple_weaken)
  next
    case True
    then obtain n sd f where got: "got = Some (BoundaryReached n sd f)" by blast
    have ok: "fault_inv (s\<lparr>fc_boundary_reached := True\<rparr>)" if "fault_inv s" "evidence (fc_boundary s) s" for s
      by (rule fault_inv_mono [OF that(1)]) (use that(2) in \<open>auto simp: exited_def evidence_def\<close>)
    have r: "fault_inv (snd (record_event e g s))" if "fault_inv s" for s e g
      using inv_record that by (auto simp: preserves_def)
    show ?thesis
      unfolding got boundary_next_def triple_def
      by (auto simp: sret_def sraise_def sbind_run(2) [OF run_record] r ok)
  qed
qed

lemma require_triple: "triple fault_inv require_process (\<lambda>p s. fault_inv s \<and> fc_process s = Some p) fault_inv"
  by (rule tripleI) (auto simp: require_process_def split: option.splits)

lemma wait_target_triple: "triple fault_inv (wait_target x) (\<lambda>r s. fault_inv s \<and> (r \<noteq> None \<longrightarrow> exited s)) fault_inv"
proof -
  have m: "fault_inv (s\<lparr>fc_process := Some (p\<lparr>tp_code := Some c\<rparr>)\<rparr>)" if "fault_inv s" for s p c
    by (rule fault_inv_mono [OF that]) (auto simp: exited_def)
  show ?thesis
    unfolding wait_target_def
  proof (rule triple_sbind [OF require_triple])
    fix p
    show "triple (\<lambda>s. fault_inv s \<and> fc_process s = Some p)
      (case tp_code p of Some c \<Rightarrow> sret (Some c)
       | None \<Rightarrow> (case x of None \<Rightarrow> sret None
          | Some c \<Rightarrow> sbind (smodify (\<lambda>s. s\<lparr>fc_process := Some (p\<lparr>tp_code := Some c\<rparr>)\<rparr>)) (\<lambda>_. sret (Some c))))
      (\<lambda>r s. fault_inv s \<and> (r \<noteq> None \<longrightarrow> exited s)) fault_inv"
      by (auto simp: triple_def sret_def exited_def m split: option.split)
  qed
qed

lemma observe_killed:
  assumes "fault_inv s" "exited s"
  shows "fault_inv (snd (observe ''process_killed'' extra s))"
  by (rule fault_inv_mono [OF assms(1)])
    (use assms(2) in \<open>auto simp: observe_def set_observed_def kill_evidence_def next_record_def exited_def\<close>)

lemma inv_observe: "a \<noteq> ''process_killed'' \<Longrightarrow> preserves fault_inv (observe a extra)"
  unfolding observe_def by (intro keeps inv_record inv_observed)

lemma inv_requested: "preserves fault_inv (set_requested a)"
  unfolding set_requested_def
  by (rule preserves_smodify) (auto simp: exited_def elim!: fault_inv_mono)

lemma inv_kill: "preserves fault_inv (kill h x)"
proof -
  have end_ok: "triple (\<lambda>s. fault_inv s \<and> (r \<noteq> None \<longrightarrow> exited s))
      (case r of None \<Rightarrow> sbind (observe ''process_kill_unconfirmed'' u) (\<lambda>_. sret False)
       | Some c \<Rightarrow> sbind (observe ''process_killed'' v) (\<lambda>_. sret True)) (\<lambda>_. fault_inv) fault_inv" for r u v
  proof (cases r)
    case None
    have "preserves fault_inv (sbind (observe ''process_kill_unconfirmed'' u) (\<lambda>_. sret False))"
      by (intro keeps inv_observe) simp
    with None show ?thesis by (auto simp: preserves_triple intro: triple_weaken)
  next
    case (Some c)
    have o: "observe ''process_killed'' v s = (Inr (), snd (observe ''process_killed'' v s))" for s
      by (simp add: observe_def set_observed_def run_record [symmetric])
    have "sbind (observe ''process_killed'' v) (\<lambda>_. sret True) s =
        (Inr True, snd (observe ''process_killed'' v s))" for s
      by (simp add: sbind_run(2) [OF o] sret_def)
    then show ?thesis
      unfolding Some triple_def by (auto simp: observe_killed)
  qed
  have w: "preserves fault_inv (sbind (wait_target x) (\<lambda>r.
      case r of None \<Rightarrow> sbind (observe ''process_kill_unconfirmed'' u) (\<lambda>_. sret False)
      | Some c \<Rightarrow> sbind (observe ''process_killed'' v) (\<lambda>_. sret True)))" for u v
    unfolding preserves_triple by (rule triple_sbind [OF wait_target_triple end_ok])
  moreover have "preserves fault_inv require_process"
    using triple_weaken [OF require_triple] by (auto simp: preserves_triple)
  moreover have "preserves fault_inv (sbind (observe ''process_already_exited'' u) (\<lambda>_. sret False))" for u
    by (intro keeps inv_observe) simp
  ultimately show ?thesis
    unfolding kill_def
    by (intro preserves_sbind preserves_sget inv_requested inv_record) (simp_all add: w)
qed

interpretation evidence_kept: controller_invariant fault_inv
proof
  show "preserves fault_inv (smodify f :: unit fc)" if "\<And>t. quiet t (f t)" for f
    by (rule preserves_smodify, erule fault_inv_mono)
      (use that in \<open>simp_all add: quiet_def\<close>)
  show "preserves fault_inv (put_event (ProcessExited c))" for c
    unfolding put_event_def
    by (rule preserves_smodify) (auto simp: exited_def elim!: fault_inv_mono)
  show "preserves fault_inv get_event"
    using triple_weaken [OF get_event_evidence] by (auto simp: preserves_triple)
qed (auto intro: inv_record inv_observed inv_start inv_object inv_boundary inv_kill)

text \<open>
  What the outcome of a run claims is backed by its trace. After any sequence of calls and thread
  events, the boundary counts as reached only if the trace has a report of exactly that boundary by the
  target, and a kill counts as observed only if the target has exited and the trace has the observation.
\<close>

theorem outcome_has_evidence:
  assumes "fc_step\<^sup>*\<^sup>* (new_controller seed boundary has_path token run_id) s"
  shows "(fo_boundary_reached (outcome s) \<longrightarrow> (\<exists>r \<in> set (fc_trace s). tc_event r = ''boundary_reached'' \<and>
            map_of (tc_fields r) ''boundary'' = Some (JStr boundary))) \<and>
    (fo_observed_action (outcome s) = Some ''process_killed'' \<longrightarrow>
       (\<exists>p code. fc_process s = Some p \<and> tp_code p = Some code) \<and>
       (\<exists>r \<in> set (fc_trace s). tc_event r = ''fault_observed'' \<and>
          map_of (tc_fields r) ''action'' = Some (JStr ''process_killed'')))"
proof -
  let ?s0 = "new_controller seed boundary has_path token run_id"
  have "fault_inv s"
    by (rule evidence_kept.run_inv [OF assms]) (simp add: fault_inv_def new_controller_def)
  moreover have "fc_boundary s = boundary"
    using trace_kept.run_inv [OF assms, of ?s0] micro_identity [of ?s0 s]
    by (simp add: from_here_def new_controller_def)
  ultimately show ?thesis
    by (auto simp: fault_inv_def evidence_def kill_evidence_def exited_def outcome_def)
qed

section \<open>Framing\<close>

lemma split_on_append:
  "split_on c (x @ y) = butlast (split_on c x) @ split_on c (last (split_on c x) @ y)"
proof (induction x)
  case (Cons a x)
  obtain z zs where z: "split_on c x = z # zs" by (cases "split_on c x") auto
  show ?case
  proof (cases "a = c")
    case True
    with Cons z show ?thesis by simp
  next
    case False
    show ?thesis
    proof (cases zs)
      case Nil
      with False Cons z show ?thesis by (simp split: list.split)
    next
      case (Cons w ws)
      with False \<open>split_on c (x @ y) = _\<close> z show ?thesis by (simp split: list.split)
    qed
  qed
qed simp

lemma take_lines_split: "take_lines b = (butlast (split_on newline b), last (split_on newline b))"
proof (induction b rule: take_lines.induct)
  case (1 b)
  show ?case
  proof (cases "newline \<in> set b")
    case False
    then show ?thesis by (simp add: take_lines.simps [of b] split_on_none)
  next
    case True
    let ?l = "takeWhile (\<lambda>c. c \<noteq> newline) b" and ?d = "dropWhile (\<lambda>c. c \<noteq> newline) b"
    have ne: "?d \<noteq> []" using True by (auto simp: dropWhile_eq_Nil_conv)
    then have "hd ?d = newline" using hd_dropWhile by blast
    then have b: "b = ?l @ newline # tl ?d" using ne by (metis hd_Cons_tl takeWhile_dropWhile_id)
    have "newline \<notin> set ?l" using set_takeWhileD by fastforce
    then have "split_on newline b = ?l # split_on newline (tl ?d)"
      by (subst b) (rule split_on_first)
    with 1 True show ?thesis by (subst take_lines.simps) simp
  qed
qed

lemma read_chunks_from:
  "fold feed chunks (butlast (split_on newline x), last (split_on newline x)) =
     (butlast (split_on newline (x @ concat chunks)), last (split_on newline (x @ concat chunks)))"
proof (induction chunks arbitrary: x)
  case (Cons c cs)
  have "feed c (butlast (split_on newline x), last (split_on newline x)) =
      (butlast (split_on newline (x @ c)), last (split_on newline (x @ c)))"
    unfolding feed_def take_lines_split by (subst (3 4) split_on_append) (simp add: butlast_append)
  with Cons [of "x @ c"] show ?case by simp
qed simp

text \<open>
  Framing does not depend on how the network cuts the stream. Whatever chunks the controller
  receives, the lines it handles are the newline-terminated lines of the whole stream, in order, and what
  stays in the buffer is the unterminated rest.
\<close>

theorem framing_independent:
  "read_chunks chunks =
     (butlast (split_on newline (concat chunks)), last (split_on newline (concat chunks)))"
  using read_chunks_from [of chunks "''''"] by (simp add: read_chunks_def)

section \<open>Controller and client\<close>

text \<open>
  C29. The two ends of the channel agree. A target started in the environment the controller prepares
  finds the controller's address, token and seed; its report of the boundary makes the controller count
  the boundary as reached and queue the event; and the release the controller then sends is exactly what
  lets the target go on, while a command with another token is refused.
\<close>

theorem failpoint_handshake:
  assumes "fc_token s \<noteq> ''''" and "fc_process s = Some p" and "fc_connected s" and "\<not> fc_channel_closed s"
  defines "c \<equiv> \<lparr>fp_token = fc_token s, fp_seed = fc_seed s\<rparr>"
  shows "from_environment (target_environ pyroot port s env) =
      Inr (Some ((''127.0.0.1'', port), c)) \<and>
    (let s1 = snd (thread_step (Line (Inr (JObj (client_message c ''boundary_reached'' (fc_boundary s) flds)))) s)
     in fc_boundary_reached s1 \<and>
        fc_events s1 = fc_events s @ [BoundaryReached (fc_boundary s) (fc_seed s) flds] \<and>
        (let s2 = snd (release False s1)
         in fc_sent s2 = fc_sent s @ [JObj (release_message s)])) \<and>
    hit_response c (Some (Inr (JObj (release_message s)))) = Inr () \<and>
    (t \<noteq> fc_token s \<longrightarrow>
       (\<exists>e. hit_response c (Some (Inr (JObj (release_message (s\<lparr>fc_token := t\<rparr>))))) = Inl e))"
proof -
  obtain x xs where tok: "fc_token s = x # xs" using assms(1) by (cases "fc_token s") auto
  have colon: "CHR '':'' \<notin> set (show_int port)"
  proof
    assume "CHR '':'' \<in> set (show_int port)"
    then have "is_digit (CHR '':'')"
      using show_nat_digits by (auto simp: show_int_def split: if_splits)
    then show False by (simp add: is_digit_def)
  qed
  have "rsplit1 (CHR '':'') (''127.0.0.1'' @ CHR '':'' # show_int port) = Some (''127.0.0.1'', show_int port)"
    by (rule rsplit1_last [OF colon])
  then have env: "from_environment (target_environ pyroot port s env) =
      Inr (Some ((''127.0.0.1'', port), c))"
    by (simp add: from_environment_def target_environ_def tok py_int_show_int c_def)
  have cm: "map_of (client_message c ''boundary_reached'' b flds) ''token'' = Some (JStr (fc_token s))"
    "event_fields (client_message c ''boundary_reached'' b flds) = Some (''boundary_reached'', b, fc_seed s)"
    "report_fields (client_message c ''boundary_reached'' b flds) = flds" for b
    by (simp_all add: client_message_def event_fields_def report_fields_def c_def)
  let ?m = "client_message c ''boundary_reached'' (fc_boundary s) flds"
  let ?r = "snd (record_event ''boundary_reached'' [(''boundary'', JStr (fc_boundary s)), (''fields'', JObj flds)] s)"
  have line: "thread_step (Line (Inr (JObj ?m))) s =
      (Inr (), ?r\<lparr>fc_boundary_reached := True, fc_events := fc_events s @ [BoundaryReached (fc_boundary s) (fc_seed s) flds]\<rparr>)"
    using assms(3,4) cm
    by (simp add: handle_protocol_line_def handle_object_def Let_def sbind_run(2) [OF run_record]
        put_event_def smodify_def)
  have fr: "fc_process ?r = Some p" "fc_connected ?r" "\<not> fc_channel_closed ?r" "fc_sent ?r = fc_sent s"
    "fc_token ?r = fc_token s" "fc_boundary ?r = fc_boundary s" "fc_seed ?r = fc_seed s"
    using assms(2-4) by (simp_all add: record_event_def smodify_def Let_def)
  have rel: "fc_sent (snd (release False t)) = fc_sent t @ [JObj (release_message t)]"
    if "fc_process t = Some q" "fc_connected t" "\<not> fc_channel_closed t" for t q
    using that
    by (simp add: release_def require_channel_def sbind_assoc send_channel_def set_requested_def
        sbind_run(2) [of require_process t q t] require_process_def release_message_def record_event_def
        smodify_def Let_def)
  show ?thesis
    using env line fr rel [of "snd (thread_step (Line (Inr (JObj ?m))) s)" p]
    by (auto simp: hit_response_def release_message_def c_def)
qed

section \<open>The end of a run\<close>

lemma require_run: "fc_process s = Some p \<Longrightarrow> sbind require_process f s = f p s"
  by (simp add: sbind_def require_process_def)

lemma observe_run: "observe a extra s = (Inr (), snd (observe a extra s))"
  by (simp add: observe_def set_observed_def run_record [symmetric])

lemma observe_process [simp]: "fc_process (snd (observe a extra s)) = fc_process s"
  by (simp add: observe_def set_observed_def)

lemma kill_already_exited:
  assumes "fc_process s = Some p" "tp_code p = Some c"
  shows "fst (kill h x s) = Inr False \<and> fc_process (snd (kill h x s)) = Some p"
proof -
  have r: "sbind (observe a u) (\<lambda>_. sret False) t = (Inr False, snd (observe a u t))" for a u t
    by (simp add: sbind_run(2) [OF observe_run] sret_def)
  show ?thesis
    using assms
    by (simp add: kill_def require_run set_requested_def
        sbind_run(2) [OF run_record] r)
qed

text \<open>
  C34. \<open>finish\<close> may report a failure that did not happen. When the target exits by itself between the
  timeout of the first wait and the kill, the kill answers that there was nothing to kill, and \<open>finish\<close>
  raises that the process did not exit, although it has; its exit is then not recorded by \<open>finish\<close>.
\<close>

theorem finish_race:
  assumes "fc_process s = Some p" and "tp_code p = None"
  shows "fst (finish h None [Target_exits c] k s) =
      Inl (RuntimeError ''target process did not exit after kill'') \<and>
    (\<exists>q. fc_process (snd (finish h None [Target_exits c] k s)) = Some q \<and> tp_code q = Some c)"
proof -
  let ?t = "s\<lparr>fc_process := Some (p\<lparr>tp_code := Some c\<rparr>)\<rparr>"
  have w: "wait_target None s = (Inr None, s)"
    using assms by (simp add: wait_target_def require_run sret_def)
  have th: "threads [Target_exits c] s = (Inr (), ?t)"
    using assms by (simp add: threads_def smodify_def)
  have "fst (kill h k ?t) = Inr False \<and> fc_process (snd (kill h k ?t)) = Some (p\<lparr>tp_code := Some c\<rparr>)"
    by (rule kill_already_exited) simp_all
  then obtain u where u: "kill h k ?t = (Inr False, u)" "fc_process u = Some (p\<lparr>tp_code := Some c\<rparr>)"
    by (cases "kill h k ?t") auto
  have "finish h None [Target_exits c] k s =
      (Inl (RuntimeError ''target process did not exit after kill''), u)"
    by (simp add: finish_def sbind_assoc sbind_run(2) [where m = "wait_target None", OF w]
        sbind_run(2) [where m = "threads [Target_exits c]", OF th] sbind_run(2) [where m = "kill h k", OF u(1)]
        sraise_def)
  with u(2) show ?thesis by simp
qed

lemma wait_target_run:
  assumes "fc_process s = Some p"
  shows "\<exists>r t. wait_target x s = (Inr r, t) \<and> fc_cleanup_attempted t = fc_cleanup_attempted s \<and>
    fc_exit_recorded t = fc_exit_recorded s \<and> (r \<noteq> None \<longrightarrow> exited t)"
  using assms
  by (cases "tp_code p"; cases x)
    (simp_all add: wait_target_def require_run sret_def exited_def)

lemma record_exit_run:
  "\<exists>t. record_process_exit c s = (Inr (), t) \<and> fc_exit_recorded t \<and>
     fc_cleanup_attempted t = fc_cleanup_attempted s \<and> (exited s \<longrightarrow> exited t)"
proof (cases "fc_exit_recorded s")
  case True
  then show ?thesis by (simp add: record_process_exit_def sret_def)
next
  case False
  then show ?thesis
    by (simp add: record_process_exit_def sbind_run(2) [OF run_record] put_event_def smodify_def
        record_event_def Let_def exited_def)
qed

text \<open>
  Cleanup is bounded and happens once. The first call never raises; it leaves the run marked as
  cleaned up only if there was no process or its exit is known and recorded; and every later call changes
  nothing and returns the recorded exit code.
\<close>

theorem cleanup_once:
  assumes "\<not> fc_cleanup_attempted s" and "\<not> fc_cleaned_up s"
  shows "\<exists>r t. cleanup sec x s = (Inr r, t) \<and>
    (fc_cleaned_up t \<longrightarrow> fc_process s = None \<or> fc_exit_recorded t \<and> exited t) \<and>
    cleanup sec' x' t = (Inr (fc_return_code t), t)"
proof -
  let ?s = "s\<lparr>fc_cleanup_attempted := True\<rparr>"
  have again: "cleanup sec' x' t = (Inr (fc_return_code t), t)" if "fc_cleanup_attempted t" for t
    using that by (simp add: cleanup_def sget_def)
  show ?thesis
  proof (cases "fc_process s")
    case None
    let ?t = "snd (record_event ''cleanup_completed'' [(''bounded'', JBool True), (''process_present'', JBool False)]
        (?s\<lparr>fc_cleaned_up := True, fc_cleanup_bounded := True\<rparr>))"
    have "cleanup sec x s = (Inr None, ?t)"
      using assms(1) None by (simp add: cleanup_def sbind_run(2) [OF run_record] sret_def)
    moreover have "fc_cleanup_attempted ?t" by (simp add: record_event_def smodify_def Let_def)
    ultimately show ?thesis using again None by blast
  next
    case (Some p)
    then have "fc_process ?s = Some p" by simp
    from wait_target_run [OF this, of x] obtain r t where
      w: "wait_target x ?s = (Inr r, t)" "fc_cleanup_attempted t" "r \<noteq> None \<longrightarrow> exited t"
      by auto
    define mid where "mid = (case r of
        None \<Rightarrow> sbind (record_event ''cleanup_timeout'' [(''timeout_seconds'', JFloat sec)]) (\<lambda>_.
          sbind (record_event ''cleanup_unbounded'' [(''pid'', JInt (tp_pid p)), (''process_alive'', JBool True)]) (\<lambda>_.
          smodify (\<lambda>s. s\<lparr>fc_cleanup_bounded := False, fc_cleaned_up := False\<rparr>)))
      | Some c \<Rightarrow> sbind (record_process_exit c) (\<lambda>_.
          smodify (\<lambda>s. s\<lparr>fc_cleanup_bounded := True, fc_cleaned_up := True\<rparr>)))"
    have "\<exists>u. mid t = (Inr (), u) \<and> fc_cleanup_attempted u \<and> (fc_cleaned_up u \<longrightarrow> fc_exit_recorded u \<and> exited u)"
    proof (cases r)
      case None
      then show ?thesis using w(2)
        by (simp add: mid_def sbind_run(2) [OF run_record] record_event_def smodify_def Let_def)
    next
      case (Some c)
      obtain v where "record_process_exit c t = (Inr (), v)" "fc_exit_recorded v"
          "fc_cleanup_attempted v = fc_cleanup_attempted t" "exited t \<longrightarrow> exited v"
        using record_exit_run [of c t] by blast
      with Some w(2,3) show ?thesis
        by (simp add: mid_def sbind_run(2) smodify_def exited_def)
    qed
    then obtain u where u: "mid t = (Inr (), u)" "fc_cleanup_attempted u"
      "fc_cleaned_up u \<longrightarrow> fc_exit_recorded u \<and> exited u" by blast
    define tail where "tail = sbind close_channel (\<lambda>_. sbind (smodify (\<lambda>s. s\<lparr>fc_server_open := False\<rparr>)) (\<lambda>_.
        sbind (sget fc_cleanup_bounded) (\<lambda>bounded.
        sbind (if bounded then record_event ''cleanup_completed'' [(''bounded'', JBool True)] else sret ())
          (\<lambda>_. sret r))))"
    have "\<exists>v. tail u = (Inr r, v) \<and> fc_cleanup_attempted v = fc_cleanup_attempted u \<and>
        fc_cleaned_up v = fc_cleaned_up u \<and> fc_exit_recorded v = fc_exit_recorded u \<and> fc_process v = fc_process u"
      by (simp add: tail_def close_channel_def sbind_run(2) [OF run_record] record_event_def smodify_def
          Let_def sret_def)
    then obtain v where v: "tail u = (Inr r, v)" "fc_cleanup_attempted v" "fc_cleaned_up v = fc_cleaned_up u"
      "fc_exit_recorded v = fc_exit_recorded u" "fc_process v = fc_process u" using u(2) by auto
    have "cleanup sec x s = sbind mid (\<lambda>_. tail) t"
      using assms(1) Some by (simp add: cleanup_def sbind_run(2) [where m = "wait_target x", OF w(1)] mid_def tail_def)
    then have "cleanup sec x s = (Inr r, v)" by (simp add: sbind_run(2) [where m = mid, OF u(1)] v(1))
    moreover have "fc_cleaned_up v \<longrightarrow> fc_exit_recorded v \<and> exited v"
      using u(3) v by (simp add: exited_def)
    ultimately show ?thesis using again [OF v(2)] by blast
  qed
qed

section \<open>Concrete runs\<close>

definition demo_controller :: controller where
  "demo_controller =
     (new_controller 1 ''b'' True ''tok'' ''run'')\<lparr>fc_process := Some \<lparr>tp_pid = 7, tp_code = None\<rparr>,
        fc_connected := True\<rparr>"

definition demo_host :: host where
  "demo_host =
     \<lparr>os_nt = False, has_sigstop = True, has_sigcont = True, has_killpg = True, nt_control = (\<lambda>_. False)\<rparr>"

theorem fault_trace_log_witness:
  "map tc_sequence (fc_trace (snd (start_target ''py'' None False False 7 (new_controller 1 ''b'' True ''tok'' ''run''))))
     = [1]"
proof -
  let ?s = "new_controller 1 ''b'' True ''tok'' ''run''"
  have "fc_step ?s (snd (start_target ''py'' None False False 7 ?s))" by (rule fc_step.intros)
  then have "fc_step\<^sup>*\<^sup>* ?s (snd (start_target ''py'' None False False 7 ?s))" by simp
  moreover have "length (fc_trace (snd (start_target ''py'' None False False 7 ?s))) = 1"
    by (simp add: start_target_def new_controller_def sbind_def sget_def sret_def prepare_trace_def smodify_def)
  ultimately show ?thesis using fault_trace_log [of 1 "''b''" True "''tok''" "''run''" ?s] by auto
qed

theorem outcome_has_evidence_witness:
  "\<not> fo_boundary_reached (outcome (new_controller 1 ''b'' True ''tok'' ''run''))"
  using outcome_has_evidence [of 1 "''b''" True "''tok''" "''run''" "new_controller 1 ''b'' True ''tok'' ''run''"]
  by (auto simp: new_controller_def outcome_def)

theorem failpoint_handshake_witness:
  "hit_response \<lparr>fp_token = ''tok'', fp_seed = 1\<rparr> (Some (Inr (JObj (release_message demo_controller)))) = Inr ()"
  using failpoint_handshake [of demo_controller "\<lparr>tp_pid = 7, tp_code = None\<rparr>" "''''" 80 "\<lambda>_. None" "[]" "''x''"]
  by (simp add: demo_controller_def new_controller_def)

theorem finish_race_witness:
  "fst (finish demo_host None [Target_exits 0] (Some 9) demo_controller) =
     Inl (RuntimeError ''target process did not exit after kill'')"
  using finish_race [of demo_controller "\<lparr>tp_pid = 7, tp_code = None\<rparr>" demo_host 0 "Some 9"]
  by (simp add: demo_controller_def)

theorem cleanup_once_witness:
  "\<exists>r t. cleanup ''5.0'' (Some 0) demo_controller = (Inr r, t) \<and> cleanup ''5.0'' None t = (Inr (fc_return_code t), t)"
  using cleanup_once [of demo_controller "''5.0''" "Some 0" "''5.0''" None]
  by (auto simp: demo_controller_def new_controller_def)

end
