(* ===== verification/Fault_Proxy.thy ===== *)
theory Fault_Proxy
  imports Fault_Control Sha256
begin

text \<open>
  The network fixture and the sample target of the fault harness:
  \<^verbatim>\<open>src/python/faults/proxy.py\<close>, \<^verbatim>\<open>src/python/faults/fixtures.py\<close> and
  \<^verbatim>\<open>src/python/faults/target.py\<close>.

  The proxy is one state with the bytes that reached each end. The accepting thread and the two pump
  threads test the stop flag and then block in \<^verbatim>\<open>accept\<close> and \<^verbatim>\<open>recv\<close>: what they then do is
  one step, which may happen at any time, also after the flag was set. What was received, and how many of
  the bytes a send passes on before it fails, are inputs. A cut is two steps, the request with the stop
  flag and the closing of the sockets. The pseudo-random generator of the fixture is the parameter
  \<open>draw\<close>.
\<close>

section \<open>The proxy\<close>

record proxy_event =
  pv_name :: string
  pv_direction :: string
  pv_size :: nat

record proxy =
  px_started :: bool
  px_connected :: bool
  px_closed :: bool
  px_stop :: bool
  px_ready :: bool
  px_events :: "proxy_event list"
  px_to_target :: "byte list"
  px_to_client :: "byte list"

definition new_proxy :: proxy where
  "new_proxy =
     \<lparr>px_started = False, px_connected = False, px_closed = False, px_stop = False, px_ready = False,
      px_events = [], px_to_target = [], px_to_client = []\<rparr>"

definition note_event :: "string \<Rightarrow> string \<Rightarrow> nat \<Rightarrow> proxy \<Rightarrow> proxy" where
  "note_event name direction n p =
     p\<lparr>px_events := px_events p @ [\<lparr>pv_name = name, pv_direction = direction, pv_size = n\<rparr>]\<rparr>"

definition start_proxy :: "proxy \<Rightarrow> proxy res" where
  "start_proxy p =
     (if px_started p then Inl (RuntimeError ''proxy already started'') else Inr (p\<lparr>px_started := True\<rparr>))"

text \<open>\<open>_accept\<close> after its test of the stop flag: whether the thread tests again, and the proxy. A client
  is connected to the target or turned away.\<close>

datatype accept_outcome = Accept_timeout | Accept_error | Accepted bool

fun accept_step :: "accept_outcome \<Rightarrow> proxy \<Rightarrow> bool \<times> proxy" where
  "accept_step Accept_timeout p = (True, p)"
| "accept_step Accept_error p = (False, p)"
| "accept_step (Accepted False) p = (False, note_event ''upstream_connect_failed'' '''' 0 p)"
| "accept_step (Accepted True) p =
     (False, (note_event ''connected'' '''' 0 (p\<lparr>px_connected := True\<rparr>))\<lparr>px_ready := True\<rparr>)"

definition deliver :: "string \<Rightarrow> byte list \<Rightarrow> proxy \<Rightarrow> proxy" where
  "deliver direction data p =
     (if direction = ''client_to_target'' then p\<lparr>px_to_target := px_to_target p @ data\<rparr>
      else p\<lparr>px_to_client := px_to_client p @ data\<rparr>)"

text \<open>What \<^verbatim>\<open>recv\<close> gave: data, with the number of bytes the following send passes on, the end of the stream,
  or an error.\<close>

datatype received = Data "byte list" nat | Receive_error

text \<open>\<open>_pump\<close> after its test of the stop flag: whether the thread tests again, and the proxy. On a closed
  socket every call raises.\<close>

definition pump_failed :: "string \<Rightarrow> proxy \<Rightarrow> bool \<times> proxy" where
  "pump_failed direction p = (False, if px_stop p then p else note_event ''channel_error'' direction 0 p)"

definition pump_step :: "string \<Rightarrow> received \<Rightarrow> proxy \<Rightarrow> bool \<times> proxy" where
  "pump_step direction r p =
     (if px_closed p then pump_failed direction p
      else case r of
             Receive_error \<Rightarrow> pump_failed direction p
           | Data data k \<Rightarrow>
               if data = [] then (False, p)
               else if length data \<le> k
               then (True, note_event ''forwarded'' direction (length data) (deliver direction data p))
               else pump_failed direction (deliver direction (take k data) p))"

definition inject :: "string \<Rightarrow> byte list \<Rightarrow> nat \<Rightarrow> (proxy, exn, unit) sm" where
  "inject direction payload k p =
     (if direction \<noteq> ''client_to_target'' \<and> direction \<noteq> ''target_to_client''
      then (Inl (ValueError ''direction must be client_to_target or target_to_client''), p)
      else if \<not> px_connected p then (Inl (RuntimeError ''proxy is not connected''), p)
      else if px_closed p then (Inl (OSError ''sendall''), p)
      else if k < length payload then (Inl (OSError ''sendall''), deliver direction (take k payload) p)
      else (Inr (), note_event ''injected'' direction (length payload) (deliver direction payload p)))"

definition cut_request :: "proxy \<Rightarrow> proxy" where
  "cut_request p = (note_event ''cut_requested'' '''' 0 p)\<lparr>px_stop := True\<rparr>"

definition cut_close :: "proxy \<Rightarrow> proxy" where
  "cut_close p =
     note_event ''cut_observed'' '''' 0 (p\<lparr>px_closed := px_closed p \<or> px_connected p\<rparr>)"

text \<open>The steps of the proxy. A cut closes what is connected at that moment; one connection is accepted.\<close>

inductive proxy_step :: "proxy \<Rightarrow> proxy \<Rightarrow> bool" where
  px_start: "start_proxy p = Inr p' \<Longrightarrow> proxy_step p p'"
| px_accept: "px_started p \<Longrightarrow> \<not> px_connected p \<Longrightarrow> proxy_step p (snd (accept_step a p))"
| px_pump: "px_connected p \<Longrightarrow> d = ''client_to_target'' \<or> d = ''target_to_client'' \<Longrightarrow>
    proxy_step p (snd (pump_step d r p))"
| px_inject: "proxy_step p (snd (inject d data k p))"
| px_request: "proxy_step p (cut_request p)"
| px_close: "px_stop p \<Longrightarrow> proxy_step p (cut_close p)"

section \<open>The sample target\<close>

record workflow_fixture =
  wx_seed :: int
  wx_workflow_id :: string
  wx_input :: "int list"
  wx_expected_sum :: int

text \<open>\<^verbatim>\<open>f"{seed:08x}"\<close>: lower-case hexadecimal, filled with zeros after the sign to eight characters.\<close>

fun hex_nat :: "nat \<Rightarrow> string" where
  "hex_nat n = (if n < 16 then [lower_hex n] else hex_nat (n div 16) @ [lower_hex (n mod 16)])"

declare hex_nat.simps [simp del]

definition zero_fill :: "nat \<Rightarrow> string \<Rightarrow> string" where
  "zero_fill width s = replicate (width - length s) (CHR ''0'') @ s"

definition hex8 :: "int \<Rightarrow> string" where
  "hex8 i =
     (if i < 0 then CHR ''-'' # zero_fill 7 (hex_nat (nat (- i))) else zero_fill 8 (hex_nat (nat i)))"

definition fixture_for :: "(int \<Rightarrow> nat \<Rightarrow> int) \<Rightarrow> int \<Rightarrow> workflow_fixture" where
  "fixture_for draw seed =
     (let activity_input = map (draw seed) [0..<4]
      in \<lparr>wx_seed = seed, wx_workflow_id = ''fixture-'' @ hex8 seed, wx_input = activity_input,
          wx_expected_sum = sum_list activity_input\<rparr>)"

definition failpoint_fields :: "workflow_fixture \<Rightarrow> dict" where
  "failpoint_fields fx =
     [(''workflow_id'', JStr (wx_workflow_id fx)),
      (''activity_input'', JArr (map JInt (wx_input fx))),
      (''expected_sum'', JInt (wx_expected_sum fx)),
      (''input_hash'', JStr (take 16 (hex (sha256 (str_encode (join '','' (map show_int (wx_input fx))))))))]"

text \<open>\<open>fake_activity\<close>: the messages it sends, and the result or the error. The connection and the chunks of
  the controller's answer, whose decoding is \<open>decode\<close>, are inputs.\<close>

definition fake_activity ::
  "(string \<Rightarrow> string + json) \<Rightarrow> (string \<Rightarrow> string option) \<Rightarrow> string list \<Rightarrow> workflow_fixture \<Rightarrow> string \<Rightarrow>
     dict list \<times> int res" where
  "fake_activity decode env chunks fx failpoint =
     (case from_environment env of
        Inl e \<Rightarrow> ([], Inl e)
      | Inr None \<Rightarrow> ([], Inr (wx_expected_sum fx))
      | Inr (Some (_, c)) \<Rightarrow>
          (let reached = client_message c ''boundary_reached'' failpoint (failpoint_fields fx)
           in case hit_response c (map_option decode (read_line '''' chunks)) of
                Inl e \<Rightarrow> ([reached], Inl e)
              | Inr () \<Rightarrow>
                  ([reached, client_message c ''released'' failpoint (failpoint_fields fx)],
                   Inr (wx_expected_sum fx))))"

record target_args =
  ta_seed :: int
  ta_boundary :: string
  ta_skip_boundary :: bool
  ta_exit_before_boundary :: bool
  ta_noise :: bool
  ta_malformed_output :: bool
  ta_stderr_lines :: int

record target_run =
  tr_stdout :: "string list"
  tr_stderr :: "string list"
  tr_sent :: "dict list"
  tr_result :: "int res"

text \<open>\<open>run\<close> of the target, after the parsing of its arguments.\<close>

definition run_target ::
  "(int \<Rightarrow> nat \<Rightarrow> int) \<Rightarrow> (string \<Rightarrow> string + json) \<Rightarrow> (string \<Rightarrow> string option) \<Rightarrow> string list \<Rightarrow>
     target_args \<Rightarrow> target_run" where
  "run_target draw decode env chunks args =
     (let out = (if ta_noise args then [''starting up: ordinary target output''] else []) @
            (if ta_malformed_output args then [''{not-json output from target''] else []);
          err = map (\<lambda>i. ''diagnostic line '' @ show_nat i) [0..<nat (ta_stderr_lines args)];
          fx = fixture_for draw (ta_seed args);
          line = (\<lambda>r. ''fixture '' @ wx_workflow_id fx @ '' result='' @ show_int r)
      in if ta_exit_before_boundary args
         then \<lparr>tr_stdout = out, tr_stderr = err, tr_sent = [], tr_result = Inr 17\<rparr>
         else if ta_skip_boundary args
         then \<lparr>tr_stdout = out, tr_stderr = err, tr_sent = [], tr_result = Inr 0\<rparr>
         else if env ''DURABLE_FAULT_ENDPOINT'' = None \<or> env ''DURABLE_FAULT_ENDPOINT'' = Some ''''
         then \<lparr>tr_stdout = out @ [line (wx_expected_sum fx)], tr_stderr = err, tr_sent = [], tr_result = Inr 0\<rparr>
         else (case fake_activity decode env chunks fx (ta_boundary args) of
                 (sent, Inl e) \<Rightarrow> \<lparr>tr_stdout = out, tr_stderr = err, tr_sent = sent, tr_result = Inl e\<rparr>
               | (sent, Inr r) \<Rightarrow>
                   \<lparr>tr_stdout = out @ [line r], tr_stderr = err, tr_sent = sent, tr_result = Inr 0\<rparr>))"

section \<open>What the proxy reports\<close>

definition passed_event :: "string \<Rightarrow> proxy_event \<Rightarrow> bool" where
  "passed_event d v \<longleftrightarrow> pv_direction v = d \<and> (pv_name v = ''forwarded'' \<or> pv_name v = ''injected'')"

definition reported :: "string \<Rightarrow> proxy \<Rightarrow> nat" where
  "reported d p = sum_list (map pv_size (filter (passed_event d) (px_events p)))"

definition delivered :: "string \<Rightarrow> proxy \<Rightarrow> byte list" where
  "delivered d p = (if d = ''client_to_target'' then px_to_target p else px_to_client p)"

definition proxy_directions :: "string list" where
  "proxy_directions = [''client_to_target'', ''target_to_client'']"

definition proxy_inv :: "proxy \<Rightarrow> bool" where
  "proxy_inv p \<longleftrightarrow>
     list_all (\<lambda>d. reported d p \<le> length (delivered d p)) proxy_directions \<and>
     (px_closed p \<longrightarrow> px_connected p \<and> px_stop p)"

lemma note_event_simps [simp]:
  "px_connected (note_event n d k p) = px_connected p" "px_closed (note_event n d k p) = px_closed p"
  "px_stop (note_event n d k p) = px_stop p" "delivered d' (note_event n d k p) = delivered d' p"
  "reported d' (note_event n d k p) =
     reported d' p + (if d = d' \<and> (n = ''forwarded'' \<or> n = ''injected'') then k else 0)"
  by (auto simp: note_event_def delivered_def reported_def passed_event_def)

lemma deliver_simps [simp]:
  "px_connected (deliver d x p) = px_connected p" "px_closed (deliver d x p) = px_closed p"
  "px_stop (deliver d x p) = px_stop p" "reported d' (deliver d x p) = reported d' p"
  by (simp_all add: deliver_def reported_def)

lemma delivered_deliver [simp]:
  "d \<in> set proxy_directions \<Longrightarrow> d' \<in> set proxy_directions \<Longrightarrow>
     delivered d' (deliver d x p) = delivered d' p @ (if d = d' then x else [])"
  by (auto simp: proxy_directions_def deliver_def delivered_def)

lemma proxy_update_simps [simp]:
  "reported d (p\<lparr>px_connected := a\<rparr>) = reported d p" "reported d (p\<lparr>px_ready := a\<rparr>) = reported d p"
  "reported d (p\<lparr>px_stop := a\<rparr>) = reported d p" "reported d (p\<lparr>px_closed := a\<rparr>) = reported d p"
  "reported d (p\<lparr>px_started := a\<rparr>) = reported d p"
  "delivered d (p\<lparr>px_connected := a\<rparr>) = delivered d p" "delivered d (p\<lparr>px_ready := a\<rparr>) = delivered d p"
  "delivered d (p\<lparr>px_stop := a\<rparr>) = delivered d p" "delivered d (p\<lparr>px_closed := a\<rparr>) = delivered d p"
  "delivered d (p\<lparr>px_started := a\<rparr>) = delivered d p"
  by (simp_all add: reported_def delivered_def)

lemma deliver_prefix: "d' \<in> set proxy_directions \<Longrightarrow> length (delivered d' p) \<le> length (delivered d' (deliver d x p))"
  by (auto simp: deliver_def delivered_def)

lemma proxy_inv_new: "proxy_inv new_proxy"
  by (simp add: proxy_inv_def proxy_directions_def reported_def delivered_def new_proxy_def)

lemma proxy_inv_step: "proxy_step p q \<Longrightarrow> proxy_inv p \<Longrightarrow> proxy_inv q"
proof (induction rule: proxy_step.induct)
  case (px_start p p')
  then show ?case by (auto simp: start_proxy_def proxy_inv_def list_all_iff split: if_splits)
next
  case (px_accept p a)
  then show ?case
    by (cases "(a, p)" rule: accept_step.cases) (auto simp: proxy_inv_def list_all_iff)
next
  case (px_pump p d r)
  then have d: "d \<in> set proxy_directions" by (auto simp: proxy_directions_def)
  with px_pump show ?case
    by (auto simp: proxy_inv_def list_all_iff pump_step_def pump_failed_def trans_le_add1
        split: received.splits)
next
  case (px_inject p d data k)
  then show ?case
    by (auto simp: proxy_inv_def list_all_iff inject_def proxy_directions_def deliver_def delivered_def
        reported_def note_event_def passed_event_def)
qed (auto simp: proxy_inv_def list_all_iff cut_request_def cut_close_def)

lemma proxy_step_closed:
  "proxy_step p q \<Longrightarrow> proxy_inv p \<Longrightarrow> px_closed p \<Longrightarrow> px_closed q \<and> (\<forall>d. delivered d q = delivered d p)"
  by (induction rule: proxy_step.induct)
    (auto simp: start_proxy_def pump_step_def pump_failed_def inject_def cut_request_def cut_close_def proxy_inv_def
      split: if_splits)

lemma proxy_run_closed:
  "proxy_step\<^sup>*\<^sup>* p q \<Longrightarrow> proxy_inv p \<Longrightarrow> px_closed p \<Longrightarrow>
     proxy_inv q \<and> px_closed q \<and> (\<forall>d. delivered d q = delivered d p)"
  by (induction rule: rtranclp_induct) (auto dest: proxy_step_closed intro: proxy_inv_step)

lemma proxy_reach_inv: "proxy_step\<^sup>*\<^sup>* new_proxy p \<Longrightarrow> proxy_inv p"
  by (induction rule: rtranclp_induct) (auto intro: proxy_inv_new proxy_inv_step)

text \<open>
  What the proxy reports happened. In every reachable state the sizes of the forwarded and injected
  events of a direction add up to at most the bytes that reached that end, and once a cut has closed the
  connection no later step delivers a byte in either direction.
\<close>

theorem proxy_accounting:
  assumes "proxy_step\<^sup>*\<^sup>* new_proxy p" and "d \<in> set proxy_directions"
  shows "reported d p \<le> length (delivered d p) \<and>
    (px_connected p \<longrightarrow> proxy_step\<^sup>*\<^sup>* (cut_close (cut_request p)) q \<longrightarrow> delivered d q = delivered d p)"
proof -
  have inv: "proxy_inv p" by (rule proxy_reach_inv [OF assms(1)])
  have "delivered d q = delivered d p"
    if c: "px_connected p" and r: "proxy_step\<^sup>*\<^sup>* (cut_close (cut_request p)) q"
  proof -
    have s: "proxy_step p (cut_request p)" "proxy_step (cut_request p) (cut_close (cut_request p))"
      by (rule px_request) (rule px_close, simp add: cut_request_def)
    then have "proxy_inv (cut_close (cut_request p))" using inv proxy_inv_step by blast
    moreover have "px_closed (cut_close (cut_request p))" using c by (simp add: cut_close_def cut_request_def)
    ultimately have "delivered d q = delivered d (cut_close (cut_request p))"
      using proxy_run_closed [OF r] by blast
    then show ?thesis by (simp add: cut_close_def cut_request_def)
  qed
  with inv assms(2) show ?thesis by (simp add: proxy_inv_def list_all_iff)
qed

definition demo_proxy :: proxy where
  "demo_proxy = new_proxy\<lparr>px_started := True, px_connected := True, px_ready := True,
     px_events := [\<lparr>pv_name = ''connected'', pv_direction = '''', pv_size = 0\<rparr>,
       \<lparr>pv_name = ''injected'', pv_direction = ''client_to_target'', pv_size = 2\<rparr>],
     px_to_target := [1, 2]\<rparr>"

lemma delivered_demo: "delivered ''client_to_target'' demo_proxy = [1, 2]" "px_connected demo_proxy"
  by (simp_all add: delivered_def demo_proxy_def)

theorem proxy_accounting_witness:
  "reported ''client_to_target'' demo_proxy \<le> 2 \<and>
   delivered ''client_to_target'' (snd (inject ''client_to_target'' [3] 9 (cut_close (cut_request demo_proxy)))) = [1, 2]"
proof -
  let ?p = "new_proxy\<lparr>px_started := True\<rparr>"
  have "proxy_step new_proxy ?p" by (rule px_start) (simp add: start_proxy_def new_proxy_def)
  moreover have "proxy_step ?p (snd (accept_step (Accepted True) ?p))"
    by (rule px_accept) (simp_all add: new_proxy_def)
  moreover have "proxy_step (snd (accept_step (Accepted True) ?p))
      (snd (inject ''client_to_target'' [1, 2] 2 (snd (accept_step (Accepted True) ?p))))"
    by (rule px_inject)
  moreover have "snd (inject ''client_to_target'' [1, 2] 2 (snd (accept_step (Accepted True) ?p))) = demo_proxy"
    by (simp add: inject_def demo_proxy_def new_proxy_def note_event_def deliver_def)
  ultimately have "proxy_step\<^sup>*\<^sup>* new_proxy demo_proxy" by (metis rtranclp.simps)
  then show ?thesis
    using proxy_accounting [of demo_proxy "''client_to_target''"
        "snd (inject ''client_to_target'' [3] 9 (cut_close (cut_request demo_proxy)))"]
      px_inject [of "cut_close (cut_request demo_proxy)" "''client_to_target''" "[3]" 9]
    by (simp add: proxy_directions_def r_into_rtranclp delivered_demo)
qed

end
