(* ===== verification/Artifacts.thy ===== *)
theory Artifacts
  imports Mcp Sha256
begin

text \<open>
  The study artifacts of \<^verbatim>\<open>src/python/incident_agent/dur056_artifacts.py\<close>: write-once files, one-shot
  markers, atomic marker updates and configuration fingerprints.

  The file system is a map from path names to contents. Every operation takes the outcome of the disk as
  an input: the file cannot be opened, the write or the sync fails after some bytes, or the process dies
  there, in which case no cleanup runs. The decoder of JSON documents is the argument \<open>parse\<close>.
\<close>

section \<open>JSON documents on disk\<close>

text \<open>\<^verbatim>\<open>ensure_ascii=False\<close>: only quotes, backslashes and control characters are escaped.\<close>

definition json_char_utf8 :: "char \<Rightarrow> string" where
  "json_char_utf8 c = (if 126 < (of_char c :: nat) then [c] else json_char c)"

definition json_string_utf8 :: "string \<Rightarrow> string" where
  "json_string_utf8 s = [dquote] @ concat (map json_char_utf8 s) @ [dquote]"

text \<open>\<^verbatim>\<open>canonical_json\<close> of \<^verbatim>\<open>dur056_retrieval.py\<close>.\<close>

fun canonical_json :: "json \<Rightarrow> string" where
  "canonical_json JNull = ''null''"
| "canonical_json (JBool b) = (if b then ''true'' else ''false'')"
| "canonical_json (JInt i) = show_int i"
| "canonical_json (JFloat t) = json_float t"
| "canonical_json (JStr s) = json_string_utf8 s"
| "canonical_json (JArr xs) = ''['' @ join '','' (map canonical_json xs) @ '']''"
| "canonical_json (JObj d) =
     ''{'' @ join '','' (map (\<lambda>(k, v). json_string_utf8 k @ '':'' @ v)
                 (sort_key fst (map (\<lambda>(k, v). (k, canonical_json v)) d))) @ ''}''"

text \<open>\<^verbatim>\<open>json.dumps(value, indent=2, sort_keys=True, ensure_ascii=False)\<close> at a nesting depth.\<close>

definition line_break :: "nat \<Rightarrow> string" where
  "line_break depth = newline # replicate (2 * depth) (CHR '' '')"

fun json_pretty :: "nat \<Rightarrow> json \<Rightarrow> string" where
  "json_pretty depth JNull = ''null''"
| "json_pretty depth (JBool b) = (if b then ''true'' else ''false'')"
| "json_pretty depth (JInt i) = show_int i"
| "json_pretty depth (JFloat t) = json_float t"
| "json_pretty depth (JStr s) = json_string_utf8 s"
| "json_pretty depth (JArr xs) =
     (if xs = [] then ''[]''
      else ''['' @ line_break (Suc depth) @
        join ('','' @ line_break (Suc depth)) (map (json_pretty (Suc depth)) xs) @ line_break depth @ '']'')"
| "json_pretty depth (JObj d) =
     (if d = [] then ''{}''
      else ''{'' @ line_break (Suc depth) @
        join ('','' @ line_break (Suc depth)) (map (\<lambda>(k, v). json_string_utf8 k @ '': '' @ v)
          (sort_key fst (map (\<lambda>(k, v). (k, json_pretty (Suc depth) v)) d))) @ line_break depth @ ''}'')"

definition payload :: "json \<Rightarrow> byte list" where
  "payload value = str_encode (json_pretty 0 value @ [newline])"

section \<open>The file system\<close>

datatype artifact_exn =
    Dur056ArtifactError string
  | Python exn
  | Died

type_synonym files = "string \<Rightarrow> byte list option"

type_synonym 'a af = "(files, artifact_exn, 'a) sm"

datatype disk =
    Disk_ok
  | Open_fails
  | Write_fails nat
  | Dies nat

definition path_join :: "string \<Rightarrow> string \<Rightarrow> string" where
  "path_join directory name = directory @ ''/'' @ name"

text \<open>\<^verbatim>\<open>os.open(path, O_WRONLY | O_CREAT | O_EXCL)\<close>, with the error the caller turns
  \<^verbatim>\<open>FileExistsError\<close> into, and the write of the payload. What a failed write leaves is decided by the
  caller.\<close>

definition open_exclusive :: "disk \<Rightarrow> string \<Rightarrow> string \<Rightarrow> unit af" where
  "open_exclusive dk path refusal fs =
     (if fs path \<noteq> None then (Inl (Dur056ArtifactError refusal), fs)
      else if dk = Open_fails then (Inl (Python (OSError ''open'')), fs)
      else (Inr (), fs(path \<mapsto> [])))"

definition write_payload :: "disk \<Rightarrow> string \<Rightarrow> byte list \<Rightarrow> unit af" where
  "write_payload dk path bytes fs =
     (case dk of
        Write_fails k \<Rightarrow> (Inl (Python (OSError ''write'')), fs(path \<mapsto> take k bytes))
      | Dies k \<Rightarrow> (Inl Died, fs(path \<mapsto> take k bytes))
      | _ \<Rightarrow> (Inr (), fs(path \<mapsto> bytes)))"

text \<open>\<^verbatim>\<open>except Exception: path.unlink(missing_ok=True); raise\<close>: a process that died runs no handler.\<close>

definition unlink_on_error :: "string \<Rightarrow> 'a af \<Rightarrow> 'a af" where
  "unlink_on_error path m fs =
     (case m fs of
        (Inl Died, t) \<Rightarrow> (Inl Died, t)
      | (Inl e, t) \<Rightarrow> (Inl e, t(path := None))
      | (Inr x, t) \<Rightarrow> (Inr x, t))"

text \<open>The body that both write-once operations share.\<close>

definition publish :: "disk \<Rightarrow> string \<Rightarrow> string \<Rightarrow> byte list \<Rightarrow> string af" where
  "publish dk path refusal bytes =
     sbind (open_exclusive dk path refusal) (\<lambda>_.
     sbind (unlink_on_error path (write_payload dk path bytes)) (\<lambda>_. sret path))"

section \<open>Operations\<close>

definition write_once_json :: "disk \<Rightarrow> string \<Rightarrow> string \<Rightarrow> string \<Rightarrow> json \<Rightarrow> string af" where
  "write_once_json dk stamp directory stem value =
     (let name = stem @ ''-'' @ stamp @ ''.json''; path = path_join directory name
      in publish dk path (''refusing to overwrite versioned artifact: '' @ name) (payload value))"

definition safe_filename :: string where
  "safe_filename = ''abcdefghijklmnopqrstuvwxyzABCDEFGHIJKLMNOPQRSTUVWXYZ0123456789._-''"

definition unit_path :: "string \<Rightarrow> string \<Rightarrow> string" where
  "unit_path directory unit_id = path_join directory (unit_id @ ''.json'')"

definition write_unit_once :: "disk \<Rightarrow> string \<Rightarrow> string \<Rightarrow> json \<Rightarrow> string af" where
  "write_unit_once dk directory unit_id value =
     (if unit_id = '''' \<or> list_ex (\<lambda>c. c \<notin> set safe_filename) unit_id
      then sraise (Dur056ArtifactError ''DUR-056 unit ID contains unsafe filename characters'')
      else publish dk (unit_path directory unit_id) (''DUR-056 unit is write-once: '' @ unit_id) (payload value))"

datatype parsed = Parsed json | Not_json string | Not_utf8

definition read_json :: "(byte list \<Rightarrow> parsed) \<Rightarrow> string \<Rightarrow> string \<Rightarrow> dict af" where
  "read_json parse directory name fs =
     (let unreadable = (\<lambda>e. Dur056ArtifactError (''cannot read study artifact '' @ name @ '': '' @ e))
      in case fs (path_join directory name) of
           None \<Rightarrow> (Inl (unreadable ''No such file or directory''), fs)
         | Some bytes \<Rightarrow>
             (case parse bytes of
                Not_json e \<Rightarrow> (Inl (unreadable e), fs)
              | Not_utf8 \<Rightarrow> (Inl (Python (ValueError ''invalid utf-8'')), fs)
              | Parsed v \<Rightarrow>
                  (case as_dict v of
                     None \<Rightarrow> (Inl (Dur056ArtifactError (''study artifact must be a JSON object: '' @ name)), fs)
                   | Some d \<Rightarrow> (Inr d, fs))))"

text \<open>\<^verbatim>\<open>atomic_write_json\<close>: the payload goes to a temporary file, which then replaces the target; whatever
  happens to a living process, the temporary file is gone afterwards. The name of the temporary file and
  whether the replacement succeeds are inputs.\<close>

definition atomic_write_json :: "disk \<Rightarrow> string \<Rightarrow> bool \<Rightarrow> string \<Rightarrow> dict \<Rightarrow> unit af" where
  "atomic_write_json dk tmp replace_ok path value =
     unlink_on_error tmp
       (sbind (if dk = Open_fails then sraise (Python (OSError ''mkstemp'')) else smodify (\<lambda>fs. fs(tmp \<mapsto> []))) (\<lambda>_.
        sbind (write_payload dk tmp (payload (JObj value))) (\<lambda>_.
        if replace_ok then smodify (\<lambda>fs. fs(path := fs tmp, tmp := None))
        else sraise (Python (OSError ''replace'')))))"

definition create_exclusive_json :: "disk \<Rightarrow> string \<Rightarrow> string \<Rightarrow> dict \<Rightarrow> unit af" where
  "create_exclusive_json dk directory name value =
     (let path = path_join directory name
      in sbind (open_exclusive dk path (''DUR-056 one-shot marker already exists: '' @ name)) (\<lambda>_.
         write_payload dk path (payload (JObj value))))"

text \<open>\<open>current_git_head\<close> on what the \<^verbatim>\<open>git\<close> process gave: the text of the error, or its output.\<close>

definition current_git_head :: "string + string \<Rightarrow> artifact_exn + string" where
  "current_git_head result =
     (case result of
        Inl e \<Rightarrow> Inl (Dur056ArtifactError (''cannot determine DUR-056 scorer HEAD: '' @ e))
      | Inr out \<Rightarrow> Inr (strip out))"

definition fingerprint :: "json \<Rightarrow> string" where
  "fingerprint value = ''sha256:'' @ hex (sha256 (str_encode (canonical_json value)))"

definition canonical_config_fingerprint :: "dict \<Rightarrow> string \<Rightarrow> artifact_exn + string" where
  "canonical_config_fingerprint config key =
     (let core = filter (\<lambda>(k, _). k \<noteq> key) config; calculated = fingerprint (JObj core)
      in if map_of config key = Some (JStr calculated) then Inr calculated
         else Inl (Dur056ArtifactError (''DUR-056 config fingerprint mismatch for '' @ key)))"

section \<open>What stays on disk\<close>

lemma publish_run:
  "publish dk path refusal bytes fs =
     (if fs path \<noteq> None then (Inl (Dur056ArtifactError refusal), fs)
      else case dk of
             Disk_ok \<Rightarrow> (Inr path, fs(path \<mapsto> bytes))
           | Open_fails \<Rightarrow> (Inl (Python (OSError ''open'')), fs)
           | Write_fails k \<Rightarrow> (Inl (Python (OSError ''write'')), fs)
           | Dies k \<Rightarrow> (Inl Died, fs(path \<mapsto> take k bytes)))"
  by (auto simp: publish_def sbind_def open_exclusive_def unlink_on_error_def write_payload_def sret_def
      fun_upd_idem split: disk.splits)

lemma exclusive_run:
  "create_exclusive_json dk directory name value fs =
     (let path = path_join directory name in
      if fs path \<noteq> None then (Inl (Dur056ArtifactError (''DUR-056 one-shot marker already exists: '' @ name)), fs)
      else case dk of
             Disk_ok \<Rightarrow> (Inr (), fs(path \<mapsto> payload (JObj value)))
           | Open_fails \<Rightarrow> (Inl (Python (OSError ''open'')), fs)
           | Write_fails k \<Rightarrow> (Inl (Python (OSError ''write'')), fs(path \<mapsto> take k (payload (JObj value))))
           | Dies k \<Rightarrow> (Inl Died, fs(path \<mapsto> take k (payload (JObj value)))))"
  by (auto simp: create_exclusive_json_def Let_def sbind_def open_exclusive_def write_payload_def
      split: disk.splits)

lemma atomic_run:
  assumes "fs tmp = None" and "tmp \<noteq> path"
  shows "atomic_write_json dk tmp ok path value fs =
     (case dk of
        Open_fails \<Rightarrow> (Inl (Python (OSError ''mkstemp'')), fs)
      | Write_fails k \<Rightarrow> (Inl (Python (OSError ''write'')), fs)
      | Dies k \<Rightarrow> (Inl Died, fs(tmp \<mapsto> take k (payload (JObj value))))
      | Disk_ok \<Rightarrow> if ok then (Inr (), fs(path \<mapsto> payload (JObj value)))
                   else (Inl (Python (OSError ''replace'')), fs))"
  using assms
  by (auto simp: atomic_write_json_def unlink_on_error_def sbind_def sraise_def smodify_def write_payload_def
      fun_upd_idem fun_upd_twist split: disk.splits)

text \<open>A successful write of a fresh path, as the contract of write-once stores has it.\<close>

definition published :: "string \<Rightarrow> byte list \<Rightarrow> files \<Rightarrow> artifact_exn + files" where
  "published path bytes fs =
     (case publish Disk_ok path '''' bytes fs of (Inl e, _) \<Rightarrow> Inl e | (Inr _, t) \<Rightarrow> Inr t)"

interpretation artifact_store: write_once "\<lambda>path. path" published "\<lambda>path fs. fs path"
  by unfold_locales (auto simp: published_def publish_run split: if_splits)

lemma publish_keeps: "fs p = Some bytes \<Longrightarrow> snd (publish dk path refusal b fs) p = Some bytes"
  by (auto simp: publish_run split: disk.splits)

text \<open>The operations of the module on a file system; the targets of the atomic updates are the paths in
  \<open>markers\<close>, and the temporary file is new.\<close>

inductive artifact_step :: "string set \<Rightarrow> files \<Rightarrow> files \<Rightarrow> bool" for markers where
  as_once: "artifact_step markers fs (snd (write_once_json dk stamp directory stem v fs))"
| as_unit: "artifact_step markers fs (snd (write_unit_once dk directory unit_id v fs))"
| as_marker: "artifact_step markers fs (snd (create_exclusive_json dk directory name d fs))"
| as_atomic: "path \<in> markers \<Longrightarrow> fs tmp = None \<Longrightarrow> tmp \<noteq> path \<Longrightarrow>
    artifact_step markers fs (snd (atomic_write_json dk tmp ok path d fs))"

lemma artifact_step_keeps:
  "artifact_step markers fs t \<Longrightarrow> p \<notin> markers \<Longrightarrow> fs p = Some bytes \<Longrightarrow> t p = Some bytes"
proof (induction rule: artifact_step.induct)
  case (as_once fs dk stamp directory stem v)
  then show ?case by (simp add: write_once_json_def Let_def publish_keeps)
next
  case (as_unit fs dk directory unit_id v)
  then show ?case by (simp add: write_unit_once_def publish_keeps sraise_def)
next
  case (as_marker fs dk directory name d)
  then show ?case by (auto simp: exclusive_run Let_def split: disk.splits)
next
  case (as_atomic path fs tmp dk ok d)
  then show ?case by (auto simp: atomic_run split: disk.splits)
qed

lemma artifact_run_keeps:
  "(artifact_step markers)\<^sup>*\<^sup>* fs t \<Longrightarrow> p \<notin> markers \<Longrightarrow> fs p = Some bytes \<Longrightarrow> t p = Some bytes"
  by (induction rule: rtranclp_induct) (auto dest: artifact_step_keeps)

text \<open>
  A unit that was written once is there for good: whatever operations follow, with whatever disk
  outcomes, unless they update that very path as a marker, the unit reads back as the value that was
  written, and writing it again is refused and changes nothing.
\<close>

theorem unit_written_once:
  assumes "write_unit_once dk directory unit_id value fs = (Inr path, fs1)"
    and "(artifact_step markers)\<^sup>*\<^sup>* fs1 t" and "path \<notin> markers"
    and "parse (payload value) = Parsed (JObj d)"
  shows "read_json parse directory (unit_id @ ''.json'') t = (Inr d, t) \<and>
    write_unit_once dk' directory unit_id value' t =
      (Inl (Dur056ArtifactError (''DUR-056 unit is write-once: '' @ unit_id)), t)"
proof -
  have ok: "unit_id \<noteq> ''''" "\<not> list_ex (\<lambda>c. c \<notin> set safe_filename) unit_id"
    and p: "path = unit_path directory unit_id" "fs1 path = Some (payload value)"
    using assms(1)
    by (auto simp: write_unit_once_def publish_run sraise_def split: if_splits disk.splits)
  have "t path = Some (payload value)" using artifact_run_keeps [OF assms(2,3) p(2)] .
  with ok p(1) assms(4) show ?thesis
    by (simp add: read_json_def unit_path_def Let_def write_unit_once_def publish_run)
qed

text \<open>
  A marker update is atomic. Whatever the disk does and even if the process dies, the marker holds
  its old content or the complete new one, the new one exactly when the call returns; no other file
  changes, and only a process that died leaves its temporary file.
\<close>

theorem atomic_marker:
  assumes "fs tmp = None" and "tmp \<noteq> path" and "atomic_write_json dk tmp ok path value fs = (r, t)"
  shows "t path = (if r = Inr () then Some (payload (JObj value)) else fs path) \<and>
    (\<forall>p. p \<noteq> path \<longrightarrow> p \<noteq> tmp \<longrightarrow> t p = fs p) \<and> (t tmp = None \<or> r = Inl Died)"
  using assms by (auto simp: atomic_run [of fs tmp path, OF assms(1,2)] split: disk.splits if_splits)

text \<open>
  A configuration is accepted exactly when the embedded fingerprint is that of its other entries, and
  embedding the computed fingerprint always gives an accepted configuration.
\<close>

theorem config_fingerprint_roundtrip:
  assumes "map_of config key = None"
  shows "canonical_config_fingerprint (config @ [(key, JStr (fingerprint (JObj config)))]) key =
      Inr (fingerprint (JObj config)) \<and>
    (v \<noteq> JStr (fingerprint (JObj config)) \<longrightarrow>
      canonical_config_fingerprint (config @ [(key, v)]) key =
        Inl (Dur056ArtifactError (''DUR-056 config fingerprint mismatch for '' @ key)))"
proof -
  have "filter (\<lambda>(k, _). k \<noteq> key) (config @ [(key, w)]) = config" for w
    using assms by (force simp: map_of_eq_None_iff filter_id_conv)
  moreover have "map_of (config @ [(key, w)]) key = Some w" for w
    using assms by (simp add: map_add_def)
  ultimately show ?thesis
    by (simp only: canonical_config_fingerprint_def Let_def) auto
qed

section \<open>Concrete runs\<close>

definition demo_unit :: json where
  "demo_unit = JObj [(''ok'', JBool True)]"

theorem unit_written_once_witness:
  "read_json (\<lambda>b. if b = payload demo_unit then Parsed demo_unit else Not_json '''') ''d'' ''u1.json''
      [''d/u1.json'' \<mapsto> payload demo_unit] =
     (Inr [(''ok'', JBool True)], [''d/u1.json'' \<mapsto> payload demo_unit])"
proof -
  have "write_unit_once Disk_ok ''d'' ''u1'' demo_unit Map.empty = (Inr ''d/u1.json'', [''d/u1.json'' \<mapsto> payload demo_unit])"
    by (simp add: write_unit_once_def publish_run unit_path_def path_join_def safe_filename_def)
  then show ?thesis
    using unit_written_once [of Disk_ok "''d''" "''u1''" demo_unit Map.empty "''d/u1.json''"
        "[''d/u1.json'' \<mapsto> payload demo_unit]" "{}" "[''d/u1.json'' \<mapsto> payload demo_unit]"
        "\<lambda>b. if b = payload demo_unit then Parsed demo_unit else Not_json ''''" "[(''ok'', JBool True)]"]
    by (simp add: demo_unit_def)
qed

theorem atomic_marker_witness:
  "snd (atomic_write_json (Dies 1) ''t'' True ''m'' [(''a'', JInt 1)] [''m'' \<mapsto> [7]]) ''m'' = Some [7]"
  using atomic_marker [of "[''m'' \<mapsto> [7]]" "''t''" "''m''" "Dies 1" True "[(''a'', JInt 1)]" "Inl Died"
      "[''m'' \<mapsto> [7]](''t'' \<mapsto> take 1 (payload (JObj [(''a'', JInt 1)])))"]
  by (simp add: atomic_run)

theorem config_fingerprint_roundtrip_witness:
  "canonical_config_fingerprint [(''a'', JInt 1), (''fp'', JNull)] ''fp'' =
     Inl (Dur056ArtifactError ''DUR-056 config fingerprint mismatch for fp'')"
  using config_fingerprint_roundtrip [of "[(''a'', JInt 1)]" "''fp''" JNull] by simp

end
