(* ===== verification/Source_Corpus.thy ===== *)
theory Source_Corpus
  imports Mcp
begin

text \<open>
  The source store of \<^verbatim>\<open>src/python/incident_agent/source_corpus.py\<close>: the fixtures are written to three
  SQLite tables and the retrieval index reads the chunks back from them.

  A table is the list of its rows in insertion order. The column with the families, which holds a JSON
  array of strings, is kept as the list itself; the payload of a case is the printed document. Foreign
  keys are not enforced, as SQLite's default has it.
\<close>

section \<open>The tables\<close>

datatype corpus_exn =
    IntegrityError string
  | ProgrammingError string
  | Raised_exn exn

record document_row =
  dr_document_id :: string
  dr_version :: string
  dr_service :: string
  dr_source_type :: string

record chunk_row =
  cr_chunk_id :: string
  cr_document_id :: string
  cr_chunk_index :: int
  cr_text :: string
  cr_search_vector :: string
  cr_embedding_json :: "string option"
  cr_near_duplicate_group :: "string option"
  cr_decisive_detail :: string
  cr_relevant_families :: "string list"
  cr_canary :: int

record fixture_case_row =
  fr_case_id :: string
  fr_split :: string
  fr_payload :: string

record source_corpus =
  sc_documents :: "document_row list"
  sc_chunks :: "chunk_row list"
  sc_cases :: "fixture_case_row list"
  sc_open :: bool

definition SOURCE_TABLES :: "string list" where
  "SOURCE_TABLES = [''documents'', ''chunks'', ''fixture_cases'']"

definition source_corpus_contract :: dict where
  "source_corpus_contract =
     [(''schema'', JStr ''source_corpus''),
      (''tables'', JArr (map JStr SOURCE_TABLES)),
      (''full_text_column'', JStr ''search_vector''),
      (''embedding_columns'', JArr (map JStr [''embedding'', ''embedding_json''])),
      (''boundary'', JStr ''raw source data is not workflow state'')]"

definition new_corpus :: source_corpus where
  "new_corpus = \<lparr>sc_documents = [], sc_chunks = [], sc_cases = [], sc_open = True\<rparr>"

section \<open>Loading the fixtures\<close>

text \<open>An insertion checks the primary key.\<close>

definition insert_row :: "string \<Rightarrow> ('r \<Rightarrow> string) \<Rightarrow> 'r \<Rightarrow> 'r list \<Rightarrow> corpus_exn + 'r list" where
  "insert_row column key row rows =
     (if key row \<in> key ` set rows then Inl (IntegrityError (''UNIQUE constraint failed: '' @ column))
      else Inr (rows @ [row]))"

text \<open>\<^verbatim>\<open>int(chunk_id.rsplit("-", 1)[-1])\<close>.\<close>

definition chunk_index :: "string \<Rightarrow> corpus_exn + int" where
  "chunk_index chunk_id =
     (case py_int (case rsplit1 (CHR ''-'') chunk_id of Some (_, n) \<Rightarrow> n | None \<Rightarrow> chunk_id) of
        Some i \<Rightarrow> Inr i
      | None \<Rightarrow> Inl (Raised_exn (ValueError ''invalid literal for int() with base 10'')))"

definition chunk_values :: "evidence_chunk \<Rightarrow> corpus_exn + chunk_row" where
  "chunk_values c =
     rbind (chunk_index (ec_chunk_id c)) (\<lambda>i.
     Inr \<lparr>cr_chunk_id = ec_chunk_id c, cr_document_id = ec_document_id c, cr_chunk_index = i,
          cr_text = ec_text c, cr_search_vector = ec_text c, cr_embedding_json = None,
          cr_near_duplicate_group = ec_near_duplicate_group c, cr_decisive_detail = ec_decisive_detail c,
          cr_relevant_families = ec_relevant_families c, cr_canary = (if ec_canary c then 1 else 0)\<rparr>)"

text \<open>SQLite's integers have 64 bits; the driver refuses larger ones before the insertion.\<close>

definition sqlite_integer :: "int \<Rightarrow> bool" where
  "sqlite_integer i \<longleftrightarrow> - (2 ^ 63) \<le> i \<and> i < 2 ^ 63"

definition insert_chunk :: "chunk_row \<Rightarrow> chunk_row list \<Rightarrow> corpus_exn + chunk_row list" where
  "insert_chunk row rows =
     (if \<not> sqlite_integer (cr_chunk_index row)
      then Inl (Raised_exn (OverflowError ''Python int too large to convert to SQLite INTEGER''))
      else insert_row ''chunks.chunk_id'' cr_chunk_id row rows)"

definition documents_of :: "evidence_chunk list \<Rightarrow> (string \<times> string \<times> string \<times> string) list" where
  "documents_of cs =
     fold (\<lambda>c. dict_set (ec_document_id c) (ec_version c, ec_service c, ec_source_type c)) cs []"

definition document_values :: "string \<times> string \<times> string \<times> string \<Rightarrow> document_row" where
  "document_values = (\<lambda>(k, version, service, source_type).
     \<lparr>dr_document_id = k, dr_version = version, dr_service = service, dr_source_type = source_type\<rparr>)"

definition case_json :: "incident_case \<Rightarrow> json" where
  "case_json c =
     JObj [(''case_id'', JStr (case_id c)), (''family'', JStr (family c)), (''split'', JStr (split_name c)),
       (''service'', JStr (service c)), (''query'', JStr (query c)), (''answerable'', JBool (answerable c)),
       (''document_dependent'', JBool (document_dependent c)),
       (''relevant_chunk_ids'', JArr (map JStr (relevant_chunk_ids c))),
       (''logs'', JArr (map JObj (logs c))), (''metrics'', JArr (map JObj (metrics c))),
       (''expected_diagnosis'', JStr (expected_diagnosis c)),
       (''expected_action'', (case expected_action c of None \<Rightarrow> JNull | Some d \<Rightarrow> JObj d)),
       (''canary_fixture'', JBool (canary_fixture c))]"

definition case_values :: "incident_case \<Rightarrow> fixture_case_row" where
  "case_values c =
     \<lparr>fr_case_id = case_id c, fr_split = split_name c, fr_payload = json_dumps '', '' '': '' (case_json c)\<rparr>"

definition from_fixtures :: "evidence_chunk list \<Rightarrow> incident_case list \<Rightarrow> corpus_exn + source_corpus" where
  "from_fixtures cs cases =
     rbind (foldR (insert_row ''documents.document_id'' dr_document_id) (map document_values (documents_of cs))
        (sc_documents new_corpus)) (\<lambda>ds.
     rbind (mapR chunk_values cs) (\<lambda>rows.
     rbind (foldR insert_chunk rows (sc_chunks new_corpus)) (\<lambda>ks.
     rbind (foldR (insert_row ''fixture_cases.case_id'' fr_case_id) (map case_values cases)
        (sc_cases new_corpus)) (\<lambda>fs.
     Inr (new_corpus\<lparr>sc_documents := ds, sc_chunks := ks, sc_cases := fs\<rparr>)))))"

section \<open>Reading the store\<close>

definition closed_error :: corpus_exn where
  "closed_error = ProgrammingError ''Cannot operate on a closed database.''"

definition join_rows :: "source_corpus \<Rightarrow> (chunk_row \<times> document_row) list" where
  "join_rows st =
     concat (map (\<lambda>k. map (Pair k) (filter (\<lambda>d. dr_document_id d = cr_document_id k) (sc_documents st)))
       (sort_key cr_chunk_id (sc_chunks st)))"

definition evidence_of :: "chunk_row \<times> document_row \<Rightarrow> evidence_chunk" where
  "evidence_of = (\<lambda>(k, d).
     \<lparr>ec_chunk_id = cr_chunk_id k, ec_document_id = cr_document_id k, ec_version = dr_version d,
      ec_service = dr_service d, ec_text = cr_text k, ec_source_type = dr_source_type d,
      ec_relevant_families = cr_relevant_families k, ec_canary = cr_canary k \<noteq> 0,
      ec_near_duplicate_group = cr_near_duplicate_group k, ec_decisive_detail = cr_decisive_detail k\<rparr>)"

definition chunks :: "source_corpus \<Rightarrow> corpus_exn + evidence_chunk list" where
  "chunks st = (if sc_open st then Inr (map evidence_of (join_rows st)) else Inl closed_error)"

definition counts :: "source_corpus \<Rightarrow> corpus_exn + (string \<times> nat) list" where
  "counts st =
     (if sc_open st
      then Inr (zip SOURCE_TABLES [length (sc_documents st), length (sc_chunks st), length (sc_cases st)])
      else Inl closed_error)"

definition close_corpus :: "source_corpus \<Rightarrow> source_corpus" where
  "close_corpus st = st\<lparr>sc_open := False\<rparr>"

section \<open>The round trip\<close>

lemma insert_rows:
  "foldR (insert_row col key) rows acc = Inr t \<longleftrightarrow>
     distinct (map key rows) \<and> key ` set rows \<inter> key ` set acc = {} \<and> t = acc @ rows"
proof (induction rows arbitrary: acc)
  case Nil
  then show ?case by auto
next
  case (Cons r rows)
  then show ?case by (auto simp: insert_row_def rbind_def)
qed

lemma insert_chunks:
  "foldR insert_chunk rows acc = Inr t \<longleftrightarrow>
     (\<forall>r \<in> set rows. sqlite_integer (cr_chunk_index r)) \<and>
     foldR (insert_row ''chunks.chunk_id'' cr_chunk_id) rows acc = Inr t"
proof (induction rows arbitrary: acc)
  case (Cons r rows)
  then show ?case by (auto simp: insert_chunk_def res_simps)
qed simp

lemma documents_of_map:
  "map_of (fold (\<lambda>c. dict_set (ec_document_id c) (ec_version c, ec_service c, ec_source_type c)) cs acc) k =
     (case filter (\<lambda>c. ec_document_id c = k) cs of [] \<Rightarrow> map_of acc k
      | xs \<Rightarrow> Some (ec_version (last xs), ec_service (last xs), ec_source_type (last xs)))"
  by (induction cs arbitrary: acc) (auto split: list.splits)

lemma sort_key_map: "(\<And>x. x \<in> set xs \<Longrightarrow> f (g x) = h x) \<Longrightarrow> sort_key f (map g xs) = map g (sort_key h xs)"
proof (induction xs)
  case (Cons x xs)
  have "insort_key f (g x) (map g ys) = map g (insort_key h x ys)" if "set ys \<subseteq> set xs" for ys
    using that Cons.prems by (induction ys) auto
  with Cons show ?case by simp
qed simp

lemma concat_map_single: "(\<And>x. x \<in> set xs \<Longrightarrow> F x = [f x]) \<Longrightarrow> concat (map F xs) = map f xs"
  by (induction xs) auto

lemma filter_map_of:
  "distinct (map fst al) \<Longrightarrow> map_of al k = Some v \<Longrightarrow> filter (\<lambda>p. fst p = k) al = [(k, v)]"
  by (induction al) (force simp: filter_empty_conv split: if_splits)+

lemma documents_distinct: "distinct (map fst (documents_of cs))"
proof -
  have "distinct (map fst (fold (\<lambda>c. dict_set (ec_document_id c) (ec_version c, ec_service c, ec_source_type c)) cs acc))"
    if "distinct (map fst acc)" for acc
    using that by (induction cs arbitrary: acc) (simp_all add: distinct_update)
  then show ?thesis by (simp add: documents_of_def)
qed

definition loadable :: "evidence_chunk \<Rightarrow> bool" where
  "loadable c = (case chunk_index (ec_chunk_id c) of Inl _ \<Rightarrow> False | Inr i \<Rightarrow> sqlite_integer i)"

text \<open>A chunk with the version, the service and the type that the last chunk of its document states.\<close>

definition described :: "evidence_chunk list \<Rightarrow> evidence_chunk \<Rightarrow> evidence_chunk" where
  "described cs c =
     (let l = last (filter (\<lambda>x. ec_document_id x = ec_document_id c) cs)
      in c\<lparr>ec_version := ec_version l, ec_service := ec_service l, ec_source_type := ec_source_type l\<rparr>)"

definition row_of :: "evidence_chunk \<Rightarrow> chunk_row" where
  "row_of c = (case chunk_values c of Inr r \<Rightarrow> r | Inl _ \<Rightarrow> undefined)"

lemma row_of_simps:
  assumes "chunk_values c = Inr r"
  shows "cr_chunk_id r = ec_chunk_id c" "cr_document_id r = ec_document_id c"
    "evidence_of (r, d) = c\<lparr>ec_version := dr_version d, ec_service := dr_service d, ec_source_type := dr_source_type d\<rparr>"
    "chunk_index (ec_chunk_id c) = Inr (cr_chunk_index r)"
  using assms by (auto simp: chunk_values_def res_simps evidence_of_def)

lemma loadable_row:
  "loadable c \<longleftrightarrow> chunk_values c = Inr (row_of c) \<and> sqlite_integer (cr_chunk_index (row_of c))"
  by (cases "chunk_index (ec_chunk_id c)") (simp_all add: loadable_def row_of_def chunk_values_def)

lemma mapR_rows: "mapR chunk_values cs = Inr rows \<longleftrightarrow> (\<forall>c \<in> set cs. chunk_values c = Inr (row_of c)) \<and> rows = map row_of cs"
proof (induction cs arbitrary: rows)
  case (Cons c cs)
  then show ?case by (cases "chunk_values c") (auto simp: res_simps row_of_def)
qed auto

lemma from_fixtures_Inr:
  "from_fixtures cs cases = Inr st \<longleftrightarrow>
     list_all loadable cs \<and> distinct (map ec_chunk_id cs) \<and> distinct (map case_id cases) \<and>
     st = new_corpus\<lparr>sc_documents := map document_values (documents_of cs), sc_chunks := map row_of cs,
       sc_cases := map case_values cases\<rparr>"
proof -
  have docs: "dr_document_id (document_values p) = fst p" for p by (simp add: document_values_def split: prod.split)
  have "distinct (map dr_document_id (map document_values (documents_of cs)))"
    using documents_distinct [of cs] by (simp add: comp_def docs)
  then have d: "foldR (insert_row ''documents.document_id'' dr_document_id) (map document_values (documents_of cs)) [] =
      Inr (map document_values (documents_of cs))"
    by (simp add: insert_rows del: map_map)
  have "(\<forall>c \<in> set cs. chunk_values c = Inr (row_of c)) \<and> (\<forall>c \<in> set cs. sqlite_integer (cr_chunk_index (row_of c)))
      \<longleftrightarrow> list_all loadable cs"
    by (auto simp: list_all_iff loadable_row)
  moreover have "\<forall>c \<in> set cs. chunk_values c = Inr (row_of c) \<Longrightarrow> 
      distinct (map (\<lambda>c. cr_chunk_id (row_of c)) cs) = distinct (map ec_chunk_id cs)"
    using row_of_simps(1) by (metis (mono_tags, lifting) map_cong)
  ultimately show ?thesis
    by (auto simp: from_fixtures_def new_corpus_def res_simps d mapR_rows insert_chunks insert_rows comp_def
        case_values_def)
qed

lemma documents_filter:
  assumes "c \<in> set cs"
  shows "\<exists>l. l = last (filter (\<lambda>x. ec_document_id x = ec_document_id c) cs) \<and>
    filter (\<lambda>d. dr_document_id d = ec_document_id c) (map document_values (documents_of cs)) =
      [document_values (ec_document_id c, ec_version l, ec_service l, ec_source_type l)]"
proof -
  let ?xs = "filter (\<lambda>x. ec_document_id x = ec_document_id c) cs"
  let ?l = "last ?xs"
  have "?xs \<noteq> []" using assms by (auto simp: filter_empty_conv)
  then have "map_of (documents_of cs) (ec_document_id c) = Some (ec_version ?l, ec_service ?l, ec_source_type ?l)"
    using documents_of_map [of cs "[]" "ec_document_id c"] by (simp add: documents_of_def split: list.splits)
  then have "filter (\<lambda>p. fst p = ec_document_id c) (documents_of cs) =
      [(ec_document_id c, ec_version ?l, ec_service ?l, ec_source_type ?l)]"
    by (rule filter_map_of [OF documents_distinct])
  moreover have "dr_document_id (document_values p) = fst p" for p by (simp add: document_values_def split: prod.split)
  ultimately show ?thesis by (simp add: filter_map comp_def)
qed

text \<open>
  C30. The fixtures can be loaded exactly when chunk and case identifiers are distinct and every chunk
  identifier ends in an index of 64 bits, and the store then gives back exactly the chunks, ordered by
  identifier, each with the document data that the last chunk of its document states: the chunks
  themselves, when no document is described in two ways.
\<close>

theorem corpus_roundtrip:
  "((\<exists>st. from_fixtures cs cases = Inr st) \<longleftrightarrow>
      list_all loadable cs \<and> distinct (map ec_chunk_id cs) \<and> distinct (map case_id cases)) \<and>
   (\<forall>st. from_fixtures cs cases = Inr st \<longrightarrow>
      chunks st = Inr (map (described cs) (sort_key ec_chunk_id cs)) \<and>
      ((\<forall>c \<in> set cs. described cs c = c) \<longrightarrow> chunks st = Inr (sort_key ec_chunk_id cs)))"
proof -
  have "chunks st = Inr (map (described cs) (sort_key ec_chunk_id cs))" if "from_fixtures cs cases = Inr st" for st
  proof -
    from that have ok: "\<forall>c \<in> set cs. chunk_values c = Inr (row_of c)"
      and st: "sc_chunks st = map row_of cs" "sc_documents st = map document_values (documents_of cs)" "sc_open st"
      by (auto simp: from_fixtures_Inr new_corpus_def list_all_iff loadable_row)
    have "sort_key cr_chunk_id (sc_chunks st) = map row_of (sort_key ec_chunk_id cs)"
      unfolding st using ok row_of_simps(1) by (intro sort_key_map) blast
    moreover have "map evidence_of (map (Pair (row_of c)) (filter (\<lambda>d. dr_document_id d = cr_document_id (row_of c))
        (sc_documents st))) = [described cs c]" if "c \<in> set cs" for c
      using documents_filter [OF that] row_of_simps [of c "row_of c"] ok that
      by (auto simp: st described_def Let_def document_values_def)
    ultimately show ?thesis
      by (simp add: chunks_def st(3) join_rows_def map_concat comp_def) (rule concat_map_single, simp)
  qed
  moreover have "map (described cs) (sort_key ec_chunk_id cs) = sort_key ec_chunk_id cs"
    if "\<forall>c \<in> set cs. described cs c = c"
    using that by (intro map_idI) simp
  ultimately show ?thesis by (auto simp: from_fixtures_Inr)
qed

section \<open>Concrete runs\<close>

definition demo_chunk :: "string \<Rightarrow> string \<Rightarrow> evidence_chunk" where
  "demo_chunk k v =
     \<lparr>ec_chunk_id = k, ec_document_id = ''d'', ec_version = v, ec_service = ''s'', ec_text = ''t'',
      ec_source_type = ''runbook'', ec_relevant_families = [], ec_canary = True, ec_near_duplicate_group = None,
      ec_decisive_detail = ''''\<rparr>"

theorem corpus_roundtrip_witness:
  "\<exists>st. from_fixtures [demo_chunk ''d-2'' ''v'', demo_chunk ''d-1'' ''v''] [] = Inr st \<and>
     chunks st = Inr [demo_chunk ''d-1'' ''v'', demo_chunk ''d-2'' ''v'']"
proof -
  let ?cs = "[demo_chunk ''d-2'' ''v'', demo_chunk ''d-1'' ''v'']"
  have "list_all loadable ?cs" "distinct (map ec_chunk_id ?cs)" "\<forall>c \<in> set ?cs. described ?cs c = c"
    "sort_key ec_chunk_id ?cs = [demo_chunk ''d-1'' ''v'', demo_chunk ''d-2'' ''v'']"
    by code_simp+
  then show ?thesis using corpus_roundtrip [of ?cs "[]"] by (metis distinct.simps(1) list.simps(8))
qed

end
