(* ===== verification/Py_Json.thy ===== *)
theory Py_Json
  imports Mcp
begin

text \<open>
  Access to decoded documents the way Python does it, with the exception of every wrong type: subscripts,
  \<^verbatim>\<open>get\<close>, iteration, membership, set and dictionary comprehensions, and guards that may raise while they
  are evaluated. The checks of the deployment package are written in these terms.
\<close>

section \<open>Subscripts and iteration\<close>

definition item :: "string \<Rightarrow> json \<Rightarrow> json res" where
  "item k v =
     (case v of
        JObj d \<Rightarrow> dict_item k d
      | JArr _ \<Rightarrow> Inl (TypeError ''list indices must be integers or slices'')
      | JStr _ \<Rightarrow> Inl (TypeError ''string indices must be integers'')
      | _ \<Rightarrow> Inl (TypeError ''object is not subscriptable''))"

text \<open>\<^verbatim>\<open>v[a][b]...\<close>.\<close>

fun items :: "string list \<Rightarrow> json \<Rightarrow> json res" where
  "items [] v = Inr v"
| "items (k # ks) v = rbind (item k v) (items ks)"

text \<open>\<^verbatim>\<open>v[0]\<close>.\<close>

definition first :: "json \<Rightarrow> json res" where
  "first v =
     (case v of
        JArr (x # _) \<Rightarrow> Inr x
      | JArr [] \<Rightarrow> Inl (LookupError ''list index out of range'')
      | JStr (c # _) \<Rightarrow> Inr (JStr [c])
      | JStr [] \<Rightarrow> Inl (LookupError ''string index out of range'')
      | JObj _ \<Rightarrow> Inl (KeyError ''0'')
      | _ \<Rightarrow> Inl (TypeError ''object is not subscriptable''))"

definition get :: "string \<Rightarrow> json \<Rightarrow> json \<Rightarrow> json res" where
  "get k dflt v =
     (case v of
        JObj d \<Rightarrow> Inr (case map_of d k of Some w \<Rightarrow> w | None \<Rightarrow> dflt)
      | _ \<Rightarrow> Inl (AttributeError ''object has no attribute get''))"

definition py_values :: "json \<Rightarrow> json list res" where
  "py_values v =
     (case v of JObj d \<Rightarrow> Inr (map snd d) | _ \<Rightarrow> Inl (AttributeError ''object has no attribute values''))"

definition py_items :: "json \<Rightarrow> dict res" where
  "py_items v =
     (case v of JObj d \<Rightarrow> Inr d | _ \<Rightarrow> Inl (AttributeError ''object has no attribute items''))"

text \<open>\<^verbatim>\<open>a + b\<close> of two lists.\<close>

definition list_plus :: "json \<Rightarrow> json \<Rightarrow> json list res" where
  "list_plus a b =
     (case (a, b) of (JArr xs, JArr ys) \<Rightarrow> Inr (xs @ ys) | _ \<Rightarrow> Inl (TypeError ''can only concatenate list''))"

fun infix_of :: "string \<Rightarrow> string \<Rightarrow> bool" where
  "infix_of s [] = (s = [])"
| "infix_of s (c # cs) = (take (length s) (c # cs) = s \<or> infix_of s cs)"

text \<open>\<^verbatim>\<open>k in v\<close> for a string \<open>k\<close>.\<close>

definition py_in :: "string \<Rightarrow> json \<Rightarrow> bool res" where
  "py_in k v =
     (case v of
        JObj d \<Rightarrow> Inr (k \<in> fst ` set d)
      | JArr xs \<Rightarrow> Inr (JStr k \<in> set xs)
      | JStr s \<Rightarrow> Inr (infix_of k s)
      | _ \<Rightarrow> Inl (TypeError ''argument is not iterable''))"

section \<open>Hashing\<close>

text \<open>A value as the element of a set or a dictionary key: containers are not hashable, and equal numbers
  are the same key.\<close>

definition hashed :: "json \<Rightarrow> json res" where
  "hashed v =
     (case v of
        JArr _ \<Rightarrow> Inl (TypeError ''unhashable type: list'')
      | JObj _ \<Rightarrow> Inl (TypeError ''unhashable type: dict'')
      | _ \<Rightarrow> Inr (norm v))"

lemma hashed_JStr [simp]: "hashed (JStr s) = Inr (JStr s)"
  by (simp add: hashed_def)

definition hashed_all :: "json list \<Rightarrow> json list res" where
  "hashed_all = mapR hashed"

definition same_set :: "json list \<Rightarrow> string list \<Rightarrow> bool" where
  "same_set ks ss \<longleftrightarrow> set ks = JStr ` set ss"

text \<open>\<^verbatim>\<open>set(v) == {...}\<close>.\<close>

definition set_is :: "json \<Rightarrow> string list \<Rightarrow> bool res" where
  "set_is v ss = rbind (py_iter v) (\<lambda>xs. rbind (hashed_all xs) (\<lambda>ks. Inr (same_set ks ss)))"

section \<open>Guards\<close>

text \<open>Equal values need not be normalised to be compared.\<close>

lemma py_eq_code [code]: "py_eq a b = (if a = b then True else norm a = norm b)"
  by (simp add: py_eq_def)

definition eqs :: "json res \<Rightarrow> json \<Rightarrow> bool res" where
  "eqs m w = rbind m (\<lambda>v. Inr (py_eq v w))"

definition bool_of :: "json res \<Rightarrow> bool res" where
  "bool_of m = rbind m (\<lambda>v. Inr (truthy v))"

definition is_bool :: "bool \<Rightarrow> json res \<Rightarrow> bool res" where
  "is_bool b m = rbind m (\<lambda>v. Inr (v = JBool b))"

text \<open>\<^verbatim>\<open>a and b\<close>, which evaluates \<open>b\<close> only when \<open>a\<close> holds; \<open>all\<close> and \<open>any\<close> over a generator.\<close>

definition both :: "bool res \<Rightarrow> bool res \<Rightarrow> bool res" where
  "both a b = rbind a (\<lambda>x. if x then b else Inr False)"

fun every :: "bool res list \<Rightarrow> bool res" where
  "every [] = Inr True"
| "every (m # rest) = both m (every rest)"

fun allR :: "('a \<Rightarrow> bool res) \<Rightarrow> 'a list \<Rightarrow> bool res" where
  "allR f [] = Inr True"
| "allR f (x # xs) = both (f x) (allR f xs)"

fun anyR :: "('a \<Rightarrow> bool res) \<Rightarrow> 'a list \<Rightarrow> bool res" where
  "anyR f [] = Inr False"
| "anyR f (x # xs) = rbind (f x) (\<lambda>b. if b then Inr True else anyR f xs)"

definition noneR :: "('a \<Rightarrow> bool res) \<Rightarrow> 'a list \<Rightarrow> bool res" where
  "noneR f xs = rbind (anyR f xs) (\<lambda>b. Inr (\<not> b))"

text \<open>A \<^verbatim>\<open>for\<close> statement whose body only checks.\<close>

fun each :: "('a \<Rightarrow> unit res) \<Rightarrow> 'a list \<Rightarrow> unit res" where
  "each f [] = Inr ()"
| "each f (x # xs) = rbind (f x) (\<lambda>_. each f xs)"

text \<open>Consecutive checks.\<close>

fun checks :: "unit res list \<Rightarrow> unit res" where
  "checks [] = Inr ()"
| "checks (m # rest) = rbind m (\<lambda>_. checks rest)"

lemma both_True [res_simps]: "both a b = Inr True \<longleftrightarrow> a = Inr True \<and> b = Inr True"
  by (auto simp: both_def res_simps split: if_splits)

lemma every_True [res_simps]: "every rest = Inr True \<longleftrightarrow> (\<forall>m \<in> set rest. m = Inr True)"
  by (induction rest) (auto simp: res_simps)

lemma allR_True [res_simps]: "allR f xs = Inr True \<longleftrightarrow> (\<forall>x \<in> set xs. f x = Inr True)"
  by (induction xs) (auto simp: res_simps)

lemma anyR_False [res_simps]: "anyR f xs = Inr False \<longleftrightarrow> (\<forall>x \<in> set xs. f x = Inr False)"
  by (induction xs) (auto simp: res_simps)

lemma noneR_True [res_simps]: "noneR f xs = Inr True \<longleftrightarrow> (\<forall>x \<in> set xs. f x = Inr False)"
proof -
  have "noneR f xs = Inr True \<longleftrightarrow> anyR f xs = Inr False"
    by (cases "anyR f xs") (auto simp: noneR_def)
  then show ?thesis by (simp add: anyR_False)
qed

lemma each_ok [res_simps]: "each f xs = Inr u \<longleftrightarrow> (\<forall>x \<in> set xs. f x = Inr ())"
  by (induction xs) (auto simp: res_simps)

lemma checks_ok [res_simps]: "checks rest = Inr u \<longleftrightarrow> (\<forall>m \<in> set rest. m = Inr ())"
  by (induction rest) (auto simp: res_simps)

lemma eqs_True [res_simps]: "eqs m w = Inr True \<longleftrightarrow> (\<exists>v. m = Inr v \<and> py_eq v w)"
  by (auto simp: eqs_def res_simps)

lemma eqs_False [res_simps]: "eqs m w = Inr False \<longleftrightarrow> (\<exists>v. m = Inr v \<and> \<not> py_eq v w)"
  by (auto simp: eqs_def res_simps)

end
