(* ===== verification/K3_Policy.thy ===== *)
theory K3_Policy
  imports Py_Json Sha256
begin

text \<open>
  The fail-closed guards of \<^verbatim>\<open>src/scripts/dur053_k3_policy.py\<close>: the policy a rendered deployment package has
  to satisfy, the comparison of the two arms, the ledger of live seconds and the small guards of a run.

  Manifests are decoded documents and every access raises as Python does. The connection budget, a
  committed file of integers, is a record; \<open>prefixlen\<close> stands for the parser of the \<^verbatim>\<open>ipaddress\<close> module, and
  the repository for \<open>committed_ledger\<close> is a function from artifact names to file contents.
\<close>

section \<open>Guards\<close>

definition require :: "bool \<Rightarrow> string \<Rightarrow> unit res" where
  "require condition guard = (if condition then Inr () else Inl (ValueError (''K3 guard: '' @ guard)))"

text \<open>A guard whose condition may itself raise.\<close>

definition need :: "bool res \<Rightarrow> string \<Rightarrow> unit res" where
  "need condition guard = rbind condition (\<lambda>b. require b guard)"

lemma require_ok [res_simps]: "require b g = Inr u \<longleftrightarrow> b"
  by (simp add: require_def)

lemma need_ok [res_simps]: "need c g = Inr u \<longleftrightarrow> c = Inr True"
  by (auto simp: need_def res_simps)

definition ROLES :: "string list" where
  "ROLES = [''api'', ''operator'', ''worker-control'', ''scheduler'', ''relay'', ''demand'', ''worker'', ''observer'']"

definition AUTH :: "string list" where
  "AUTH = [''api'', ''operator'', ''worker-control'']"

text \<open>\<^verbatim>\<open>DIGEST.fullmatch\<close>: characters that are not white space, \<open>@sha256:\<close> and 64 lower-case hexadecimal digits.\<close>

definition hex_char :: "char \<Rightarrow> bool" where
  "hex_char c \<longleftrightarrow> is_digit c \<or> c \<in> set ''abcdef''"

definition pinned :: "string \<Rightarrow> bool" where
  "pinned img \<longleftrightarrow>
     (let n = length img - 72; rest = drop n img
      in 72 < length img \<and> list_all (\<lambda>c. \<not> is_space c) (take n img) \<and>
         take 8 rest = ''@sha256:'' \<and> list_all hex_char (drop 8 rest))"

definition digest_match :: "json \<Rightarrow> bool res" where
  "digest_match v =
     (case v of JStr s \<Rightarrow> Inr (pinned s) | _ \<Rightarrow> Inl (TypeError ''expected string or bytes-like object''))"

definition envmap :: "json \<Rightarrow> (json \<times> json) list res" where
  "envmap container =
     rbind (get ''env'' (JArr []) container) (\<lambda>env.
     rbind (py_iter env) (\<lambda>rows.
     foldR (\<lambda>row m.
       rbind (item ''name'' row) (\<lambda>name.
       rbind (hashed name) (\<lambda>k.
       rbind (py_items row) (\<lambda>d.
       Inr (dict_set k (JObj (filter (\<lambda>p. fst p \<noteq> ''name'') d)) m))))) rows []))"

text \<open>A dictionary with hashed keys: \<^verbatim>\<open>m[k]\<close> and \<^verbatim>\<open>m.get(k)\<close> for a string.\<close>

definition key_item :: "string \<Rightarrow> (json \<times> json) list \<Rightarrow> json res" where
  "key_item k m = (case map_of m (JStr k) of Some v \<Rightarrow> Inr v | None \<Rightarrow> Inl (KeyError k))"

definition key_get :: "string \<Rightarrow> json \<Rightarrow> (json \<times> json) list \<Rightarrow> json" where
  "key_get k dflt m = (case map_of m (JStr k) of Some v \<Rightarrow> v | None \<Rightarrow> dflt)"

definition value_is :: "string \<Rightarrow> json" where
  "value_is s = JObj [(''value'', JStr s)]"

definition app_label :: "string \<Rightarrow> json" where
  "app_label name = JObj [(''matchLabels'', JObj [(''app'', JStr name)])]"

section \<open>The objects of a package\<close>

record connection_budget =
  cb_max_connections :: int
  cb_reserved_and_admin :: int
  cb_future_clients :: "(string \<times> int) list"
  cb_jobs :: "(string \<times> int) list"
  cb_relay_listen :: int
  cb_role_pools :: "(string \<times> int) list"
  cb_role_replicas :: "(string \<times> int) list"
  cb_max_surges :: "(string \<times> int) list"

definition budget_of :: "string \<Rightarrow> (string \<times> int) list \<Rightarrow> int res" where
  "budget_of k m = (case map_of m k of Some i \<Rightarrow> Inr i | None \<Rightarrow> Inl (KeyError k))"

definition plain_total :: "connection_budget \<Rightarrow> int" where
  "plain_total b = sum_list (map snd (cb_jobs b)) + sum_list (map snd (cb_future_clients b))"

text \<open>The dictionary by kind and name: a later object replaces an earlier one of the same kind and name.\<close>

definition object_key :: "json \<Rightarrow> (json \<times> json) res" where
  "object_key ob =
     rbind (item ''kind'' ob) (\<lambda>kind.
     rbind (items [''metadata'', ''name''] ob) (\<lambda>name.
     rbind (hashed kind) (\<lambda>hk.
     rbind (hashed name) (\<lambda>hn. Inr (hk, hn)))))"

definition by_of :: "json list \<Rightarrow> ((json \<times> json) \<times> json) list res" where
  "by_of obs = foldR (\<lambda>ob m. rbind (object_key ob) (\<lambda>k. Inr (dict_set k ob m))) obs []"

definition object :: "((json \<times> json) \<times> json) list \<Rightarrow> string \<Rightarrow> string \<Rightarrow> json res" where
  "object tab kind name =
     (case map_of tab (JStr kind, JStr name) of Some ob \<Rightarrow> Inr ob | None \<Rightarrow> Inl (KeyError name))"

definition of_kind :: "string \<Rightarrow> ((json \<times> json) \<times> json) list \<Rightarrow> (json \<times> json) list" where
  "of_kind kind tab = map (\<lambda>((_, name), ob). (name, ob)) (filter (\<lambda>((k, _), _). k = JStr kind) tab)"

definition policies_of :: "((json \<times> json) \<times> json) list \<Rightarrow> (json \<times> json) list res" where
  "policies_of tab =
     mapR (\<lambda>(name, ob). rbind (item ''spec'' ob) (\<lambda>spec. Inr (name, spec))) (of_kind ''NetworkPolicy'' tab)"

section \<open>Deployments\<close>

definition pod_security :: json where
  "pod_security =
     JObj [(''runAsNonRoot'', JBool True), (''runAsUser'', JInt 65532), (''runAsGroup'', JInt 65532),
       (''fsGroup'', JInt 65532), (''seccompProfile'', JObj [(''type'', JStr ''RuntimeDefault'')])]"

definition container_security :: json where
  "container_security =
     JObj [(''allowPrivilegeEscalation'', JBool False), (''readOnlyRootFilesystem'', JBool True),
       (''capabilities'', JObj [(''drop'', JArr [JStr ''ALL''])])]"

text \<open>\<^verbatim>\<open>pod["containers"] + pod.get("initContainers", [])\<close>.\<close>

definition all_containers :: "json \<Rightarrow> json list res" where
  "all_containers pod =
     rbind (item ''containers'' pod) (\<lambda>cs.
     rbind (get ''initContainers'' (JArr []) pod) (\<lambda>is. list_plus cs is))"

definition container_policy :: "json \<Rightarrow> unit res" where
  "container_policy c =
     checks
       [need (both (rbind (item ''image'' c) digest_match)
                (rbind (item ''image'' c) (\<lambda>v. rbind (py_in (replicate 64 (CHR ''0'')) v) (\<lambda>b. Inr (\<not> b)))))
          ''image-digest'',
        need (eqs (get ''imagePullPolicy'' JNull c) (JStr ''Never'')) ''loaded-image'',
        need (eqs (item ''securityContext'' c) container_security) ''container-security'',
        need (both (rbind (get ''resources'' (JObj []) c) (\<lambda>v. set_is v [''requests'', ''limits'']))
                (rbind (item ''resources'' c) (\<lambda>v. rbind (py_values v) (\<lambda>vs.
                   allR (\<lambda>x. set_is x [''cpu'', ''memory'']) vs))))
          ''resource-bounds'']"

definition engine_policy :: "string \<Rightarrow> int \<Rightarrow> (json \<times> json) list \<Rightarrow> unit res" where
  "engine_policy name pool env =
     (if name \<in> {''worker'', ''observer''} then Inr ()
      else checks
        [need (Inr (py_eq (key_get ''RUNTIME_DB_MAX_CONNS'' JNull env) (value_is (show_int pool)))) ''explicit-pool'',
         need (eqs (key_item ''RUNTIME_ROLES'' env)
                 (value_is (if name = ''scheduler'' then ''scheduler,ingestor'' else name))) ''route-role'',
         need (eqs (key_item ''RUNTIME_NAMESPACE'' env)
                 (JObj [(''valueFrom'', JObj [(''fieldRef'', JObj [(''fieldPath'', JStr ''metadata.namespace'')])])]))
           ''engine-namespace''])"

definition probe_policy :: "((json \<times> json) \<times> json) list \<Rightarrow> string \<Rightarrow> json \<Rightarrow> unit res" where
  "probe_policy tab name c =
     (if name = ''observer'' then Inr ()
      else checks
        (need (Inr (map_of tab (JStr ''PodDisruptionBudget'', JStr name) \<noteq> None)) ''pdb'' #
         map (\<lambda>(key, path).
             need (eqs (rbind (get key (JObj []) c) (get ''httpGet'' JNull))
                     (JObj [(''path'', JStr path), (''port'', JStr ''http'')])) ''probe-semantics'')
           [(''startupProbe'', ''/healthz''), (''livenessProbe'', ''/healthz''), (''readinessProbe'', ''/readyz'')]))"

definition volumes_of :: "json \<Rightarrow> (json \<times> json) list res" where
  "volumes_of pod =
     rbind (get ''volumes'' (JArr []) pod) (\<lambda>vs.
     rbind (py_iter vs) (\<lambda>rows.
     foldR (\<lambda>v m. rbind (item ''name'' v) (\<lambda>n. rbind (hashed n) (\<lambda>k. Inr (dict_set k v m)))) rows []))"

definition auth_policy :: "string \<Rightarrow> (json \<times> json) list \<Rightarrow> unit res" where
  "auth_policy name env =
     (if name \<in> set AUTH \<or> name = ''demand''
      then require (py_eq (key_get ''RUNTIME_TOKEN_AUTH'' JNull env) (value_is ''enabled'')) ''auth-enabled''
      else Inr ())"

definition identity_policy :: "string \<Rightarrow> (json \<times> json) list \<Rightarrow> (json \<times> json) list \<Rightarrow> unit res" where
  "identity_policy name env volumes =
     checks
       [need (noneR (\<lambda>v. py_in ''hostPath'' v) (map snd volumes)) ''no-hostpath'',
        if name \<in> set AUTH
        then checks
          [need (both (eqs (key_item ''RUNTIME_TOKEN_REVIEW_TOKEN_FILE'' env) (value_is ''/identity/reviewer''))
                  (eqs (rbind (key_item ''identity'' volumes) (\<lambda>v. rbind (items [''projected'', ''sources''] v) (\<lambda>ss.
                        rbind (first ss) (items [''serviceAccountToken'', ''expirationSeconds''])))) (JInt 3600)))
             ''reviewer-projection'',
           need (both (eqs (key_item ''RUNTIME_TOKEN_AUDIENCE'' env)
                    (value_is (if name = ''worker-control'' then ''durable-worker-control''
                               else if name = ''operator'' then ''durable-operator'' else ''durable-client'')))
                  (eqs (key_item ''RUNTIME_TOKEN_SERVICE_ACCOUNT'' env)
                    (value_is (if name = ''worker-control'' then ''worker'' else ''observer''))))
             ''identity-boundary'']
        else Inr (),
        if name = ''worker''
        then need (eqs (rbind (key_item ''identity'' volumes) (items [''projected'', ''sources'']))
               (JArr [JObj [(''serviceAccountToken'',
                  JObj [(''audience'', JStr ''durable-worker-control''), (''expirationSeconds'', JInt 3600),
                        (''path'', JStr ''token'')])]])) ''worker-projection''
        else Inr (),
        if name = ''demand''
        then need (both (eqs (key_item ''RUNTIME_DEMAND_BEARER_TOKEN_FILE'' env) (value_is ''/bearer/token''))
               (eqs (rbind (key_item ''bearer'' volumes) (get ''secret'' JNull))
                  (JObj [(''secretName'', JStr ''campaign-demand'')]))) ''demand-secret-file''
        else Inr ()]"

definition pod_policy :: "((json \<times> json) \<times> json) list \<Rightarrow> string \<Rightarrow> json \<Rightarrow> unit res" where
  "pod_policy tab name pod =
     checks
       [need (is_bool False (get ''automountServiceAccountToken'' JNull pod)) ''token-automount'',
        need (both (eqs (item ''serviceAccountName'' pod) (JStr name))
                (is_bool False (rbind (object tab ''ServiceAccount'' name) (get ''automountServiceAccountToken'' JNull))))
          ''role-serviceaccount'',
        need (noneR (\<lambda>x. bool_of (get x JNull pod)) [''hostNetwork'', ''hostPID'', ''hostIPC'']) ''host-isolation'',
        need (eqs (item ''securityContext'' pod) pod_security) ''pod-security'',
        need (eqs (get ''terminationGracePeriodSeconds'' JNull pod) (JInt 40)) ''drain-budget'',
        need (bool_of (get ''topologySpreadConstraints'' JNull pod)) ''topology-spread'']"

text \<open>One turn of the loop over the deployments; the result is the new total of connections.\<close>

definition deployment_policy ::
  "((json \<times> json) \<times> json) list \<Rightarrow> (json \<times> json) list \<Rightarrow> connection_budget \<Rightarrow> json \<times> json \<Rightarrow> int \<Rightarrow> int res" where
  "deployment_policy tab policies b = (\<lambda>(key, ob) total.
     let name = (case key of JStr n \<Rightarrow> n | _ \<Rightarrow> '''') in
     rbind (item ''spec'' ob) (\<lambda>spec.
     rbind (items [''template'', ''spec''] spec) (\<lambda>pod.
     rbind (pod_policy tab name pod) (\<lambda>_.
     rbind (item ''replicas'' spec) (\<lambda>replicas.
     rbind (budget_of name (cb_role_replicas b)) (\<lambda>n.
     rbind (need (both (Inr (py_eq replicas (JInt n)))
              (rbind (items [''strategy'', ''rollingUpdate''] spec) (\<lambda>ru.
               rbind (budget_of name (cb_max_surges b)) (\<lambda>surge.
               Inr (py_eq ru (JObj [(''maxSurge'', JInt surge), (''maxUnavailable'', JInt 0)]))))))
            ''surge-budget'') (\<lambda>_.
     rbind (all_containers pod) (\<lambda>cs.
     rbind (each container_policy cs) (\<lambda>_.
     rbind (rbind (item ''containers'' pod) first) (\<lambda>c.
     rbind (envmap c) (\<lambda>env.
     rbind (budget_of name (cb_role_pools b)) (\<lambda>pool.
     rbind (engine_policy name pool env) (\<lambda>_.
     rbind (budget_of name (cb_max_surges b)) (\<lambda>surge.
     rbind (probe_policy tab name c) (\<lambda>_.
     rbind (auth_policy name env) (\<lambda>_.
     rbind (volumes_of pod) (\<lambda>volumes.
     rbind (identity_policy name env volumes) (\<lambda>_.
     rbind (need (eqs (get ''podSelector'' JNull (key_get (name @ ''-egress'') (JObj []) policies)) (app_label name))
              ''network-coverage'') (\<lambda>_.
     Inr (total + (n + surge) * (pool + (if name = ''relay'' then cb_relay_listen b else 0))))))))))))))))))))))"

section \<open>The rest of the package\<close>

text \<open>\<^verbatim>\<open>next(o["metadata"]["name"] for o in objects if o["kind"] == "Namespace")\<close> inside a generator, where
  running out of objects is a \<^verbatim>\<open>RuntimeError\<close>.\<close>

fun namespace_name :: "json list \<Rightarrow> json res" where
  "namespace_name [] = Inl (RuntimeError ''generator raised StopIteration'')"
| "namespace_name (ob # obs) =
     rbind (eqs (item ''kind'' ob) (JStr ''Namespace'')) (\<lambda>b.
     if b then items [''metadata'', ''name''] ob else namespace_name obs)"

definition rbac_policy :: "((json \<times> json) \<times> json) list \<Rightarrow> json list \<Rightarrow> unit res" where
  "rbac_policy tab obs =
     rbind (rbind (object tab ''ClusterRole'' ''dur053-tokenreview'') (item ''rules'')) (\<lambda>rules.
     rbind (require (py_eq rules (JArr [JObj [(''apiGroups'', JArr [JStr ''authentication.k8s.io'']),
              (''resources'', JArr [JStr ''tokenreviews'']), (''verbs'', JArr [JStr ''create''])]]))
            ''rbac-tokenreview'') (\<lambda>_.
     rbind (object tab ''ClusterRoleBinding'' ''dur053-tokenreview'') (\<lambda>binding.
     need (both
         (rbind (item ''subjects'' binding) (\<lambda>ss. rbind (py_iter ss) (\<lambda>xs. rbind (mapR (item ''name'') xs) (\<lambda>ns.
            rbind (hashed_all ns) (\<lambda>ks. Inr (same_set ks AUTH))))))
         (rbind (item ''subjects'' binding) (\<lambda>ss. rbind (py_iter ss) (allR (\<lambda>s.
            both (eqs (item ''kind'' s) (JStr ''ServiceAccount''))
              (rbind (item ''namespace'' s) (\<lambda>ns. eqs (namespace_name obs) ns)))))))
       ''rbac-subjects'')))"

definition ingress_rule :: "json \<Rightarrow> int \<Rightarrow> json" where
  "ingress_rule source port =
     JArr [JObj [(''from'', JArr [source]),
       (''ports'', JArr [JObj [(''protocol'', JStr ''TCP''), (''port'', JInt port)]])]]"

definition INGRESS :: "(string \<times> string \<times> int) list" where
  "INGRESS = [(''api'', ''observer'', 8080), (''operator'', ''observer'', 8080),
     (''worker-control'', ''worker'', 8080), (''worker'', ''observer'', 8081)]"

definition policy_names :: "string list" where
  "policy_names = [''default-deny'', ''dns'', ''demand-ingress''] @ map (\<lambda>p. fst p @ ''-ingress'') INGRESS @
     map (\<lambda>n. n @ ''-egress'') (ROLES @ [''migrate'', ''compatibility''])"

definition egress_policy :: "(json \<Rightarrow> int res) \<Rightarrow> json \<Rightarrow> unit res" where
  "egress_policy prefixlen policy =
     rbind (get ''egress'' (JArr []) policy) (\<lambda>es. rbind (py_iter es) (each (\<lambda>rule.
       rbind (need (both (bool_of (get ''to'' JNull rule)) (bool_of (get ''ports'' JNull rule))) ''bounded-egress'') (\<lambda>_.
       rbind (item ''to'' rule) (\<lambda>ps. rbind (py_iter ps) (each (\<lambda>peer.
         rbind (py_in ''ipBlock'' peer) (\<lambda>b.
         if \<not> b then Inr ()
         else need (rbind (items [''ipBlock'', ''cidr''] peer) (\<lambda>cidr. rbind (prefixlen cidr) (\<lambda>n. Inr (n = 32))))
                ''external-endpoint-mask''))))))))"

definition network_policy :: "(json \<Rightarrow> int res) \<Rightarrow> (json \<times> json) list \<Rightarrow> unit res" where
  "network_policy prefixlen policies =
     checks
       [each (\<lambda>target. need (eqs (rbind (key_item (target @ ''-ingress'') policies) (item ''podSelector'')) (app_label target))
            ''ingress-selector'') [''api'', ''operator'', ''worker-control'', ''worker'', ''demand''],
        each (\<lambda>(target, source, port).
            need (eqs (rbind (key_item (target @ ''-ingress'') policies) (item ''ingress''))
                (ingress_rule (JObj [(''podSelector'', app_label source)]) port)) ''network-boundary'') INGRESS,
        need (eqs (rbind (key_item ''demand-ingress'' policies) (item ''ingress''))
            (ingress_rule (JObj
               [(''namespaceSelector'', JObj [(''matchLabels'', JObj [(''kubernetes.io/metadata.name'', JStr ''keda'')])]),
                (''podSelector'', app_label ''keda-operator'')]) 8091)) ''demand-network-boundary'',
        require (same_set (map fst policies) policy_names) ''network-policy-set'',
        each (egress_policy prefixlen) (map snd policies)]"

text \<open>\<^verbatim>\<open>o["spec"]["template"]["spec"]["containers"][0]["image"]\<close>.\<close>

definition first_image :: "string \<Rightarrow> json \<Rightarrow> json res" where
  "first_image key pod = rbind (item key pod) (\<lambda>cs. rbind (first cs) (item ''image''))"

definition deployment_image :: "((json \<times> json) \<times> json) list \<Rightarrow> string \<Rightarrow> json res" where
  "deployment_image tab name =
     rbind (key_item name (of_kind ''Deployment'' tab)) (\<lambda>ob.
     rbind (items [''spec'', ''template'', ''spec''] ob) (first_image ''containers''))"

definition job_policy :: "((json \<times> json) \<times> json) list \<Rightarrow> string \<Rightarrow> unit res" where
  "job_policy tab name =
     rbind (rbind (object tab ''Job'' name) (item ''spec'')) (\<lambda>job.
     rbind (items [''template'', ''spec''] job) (\<lambda>pod.
     rbind (need (every [eqs (item ''backoffLimit'' job) (JInt 0), eqs (item ''parallelism'' job) (JInt 1),
         eqs (item ''activeDeadlineSeconds'' job) (JInt 180)]) ''job-bounds'') (\<lambda>_.
     rbind (need (every [eqs (item ''serviceAccountName'' pod) (JStr name),
         is_bool False (get ''automountServiceAccountToken'' JNull pod),
         is_bool True (items [''securityContext'', ''runAsNonRoot''] pod)]) ''job-security'') (\<lambda>_.
     rbind (all_containers pod) (\<lambda>cs.
     rbind (each (\<lambda>c.
         need (every [rbind (item ''image'' c) digest_match,
           bool_of (items [''securityContext'', ''readOnlyRootFilesystem''] c),
           eqs (items [''securityContext'', ''capabilities''] c) (JObj [(''drop'', JArr [JStr ''ALL''])])])
         ''job-images-security'') cs) (\<lambda>_.
     need (rbind (first_image ''containers'' pod) (\<lambda>a. rbind (deployment_image tab ''api'') (\<lambda>b. Inr (py_eq a b))))
       ''candidate-runtime-image''))))))"

text \<open>\<^verbatim>\<open>" ".join(xs)\<close>.\<close>

definition join_words :: "json \<Rightarrow> string res" where
  "join_words v =
     rbind (py_iter v) (\<lambda>xs.
     rbind (mapR (\<lambda>x. case x of JStr s \<Rightarrow> Inr s | _ \<Rightarrow> Inl (TypeError ''sequence item: expected str instance'')) xs)
       (\<lambda>ss. Inr (join '' '' ss)))"

definition compat_policy :: "((json \<times> json) \<times> json) list \<Rightarrow> unit res" where
  "compat_policy tab =
     rbind (rbind (object tab ''Job'' ''compatibility'') (items [''spec'', ''template'', ''spec''])) (\<lambda>compat.
     need (both
         (rbind (first_image ''initContainers'' compat) (\<lambda>a. rbind (deployment_image tab ''worker'') (\<lambda>b. Inr (py_eq a b))))
         (rbind (rbind (item ''initContainers'' compat) first) (\<lambda>c. rbind (item ''command'' c) (\<lambda>cmd.
            rbind (join_words cmd) (\<lambda>s. Inr (infix_of ''default_registry'' s))))))
       ''candidate-worker-image'')"

definition scaler_trigger :: "string \<Rightarrow> json" where
  "scaler_trigger ns =
     JObj [(''type'', JStr ''metrics-api''), (''metricType'', JStr ''AverageValue''),
       (''metadata'', JObj
          [(''url'', JStr (''http://demand.'' @ ns @ ''.svc.cluster.local:8091/v1/demand'')),
           (''format'', JStr ''json''), (''valueLocation'', JStr ''demand''), (''targetValue'', JStr ''2''),
           (''authMode'', JStr ''bearer''), (''unsafeSsl'', JStr ''false'')]),
       (''authenticationRef'', JObj [(''name'', JStr ''campaign-demand'')])]"

definition scaler_behavior :: "int \<Rightarrow> json" where
  "scaler_behavior stabilization =
     JObj [(''stabilizationWindowSeconds'', JInt stabilization),
       (''policies'', JArr [JObj [(''type'', JStr ''Pods''), (''value'', JInt 1), (''periodSeconds'', JInt 30)]]),
       (''selectPolicy'', JStr ''Min'')]"

definition scaler_policy :: "((json \<times> json) \<times> json) list \<Rightarrow> unit res" where
  "scaler_policy tab =
     rbind (object tab ''ScaledObject'' ''worker-demand'') (\<lambda>scaled.
     rbind (item ''spec'' scaled) (\<lambda>so.
     checks
       [need (every [eqs (item ''minReplicaCount'' so) (JInt 1), eqs (item ''maxReplicaCount'' so) (JInt 4),
          eqs (item ''pollingInterval'' so) (JInt 5),
          eqs (item ''fallback'' so) (JObj [(''failureThreshold'', JInt 3), (''replicas'', JInt 2)])]) ''scaler-bounds'',
        rbind (rbind (item ''triggers'' so) first) (\<lambda>trigger.
        rbind (rbind (item ''metadata'' scaled) (get ''namespace'' (JStr ''dur053-kind''))) (\<lambda>ns.
        case ns of
          JStr s \<Rightarrow> require (py_eq trigger (scaler_trigger s)) ''scaler-auth-metric''
        | _ \<Rightarrow> Inl (TypeError ''can only concatenate str''))),
        need (eqs (rbind (object tab ''TriggerAuthentication'' ''campaign-demand'') (item ''spec''))
            (JObj [(''secretTargetRef'', JArr [JObj [(''parameter'', JStr ''token''), (''name'', JStr ''campaign-demand''),
               (''key'', JStr ''token'')]])])) ''scaler-secret'',
        each (\<lambda>(direction, stabilization).
            need (eqs (items [''advanced'', ''horizontalPodAutoscalerConfig'', ''behavior'', direction] so)
                (scaler_behavior stabilization)) ''scaler-behavior'')
          [(''scaleUp'', 0), (''scaleDown'', 60)]]))"

definition default_deny :: json where
  "default_deny = JObj [(''podSelector'', JObj []), (''policyTypes'', JArr [JStr ''Ingress'', JStr ''Egress''])]"

definition package_policy :: "(json \<Rightarrow> int res) \<Rightarrow> json list \<Rightarrow> connection_budget \<Rightarrow> int res" where
  "package_policy prefixlen obs b =
     rbind (by_of obs) (\<lambda>tab.
     let deployments = of_kind ''Deployment'' tab in
     rbind (require (same_set (map fst deployments) ROLES) ''role-topology'') (\<lambda>_.
     rbind (need (noneR (\<lambda>ob. eqs (item ''kind'' ob) (JStr ''Secret'')) obs) ''no-committed-secret'') (\<lambda>_.
     rbind (policies_of tab) (\<lambda>policies.
     rbind (require (py_eq (key_get ''default-deny'' JNull policies) default_deny) ''default-deny'') (\<lambda>_.
     rbind (foldR (deployment_policy tab policies b) deployments (plain_total b)) (\<lambda>total.
     rbind (rbac_policy tab obs) (\<lambda>_.
     rbind (network_policy prefixlen policies) (\<lambda>_.
     rbind (each (job_policy tab) [''migrate'', ''compatibility'']) (\<lambda>_.
     rbind (compat_policy tab) (\<lambda>_.
     rbind (scaler_policy tab) (\<lambda>_.
     rbind (require (cb_max_connections b = 100 \<and> cb_reserved_and_admin b = 8 \<and> total + 8 \<le> 100) ''connection-budget'') (\<lambda>_.
     Inr total))))))))))))"

section \<open>Matched arms\<close>

definition put_item :: "string \<Rightarrow> json \<Rightarrow> json \<Rightarrow> json res" where
  "put_item k w v =
     (case v of JObj d \<Rightarrow> Inr (JObj (dict_set k w d)) | _ \<Rightarrow> Inl (TypeError ''object does not support item assignment''))"

fun update_at :: "string list \<Rightarrow> (json \<Rightarrow> json res) \<Rightarrow> json \<Rightarrow> json res" where
  "update_at [] f v = f v"
| "update_at (k # ks) f v = rbind (item k v) (\<lambda>x. rbind (update_at ks f x) (\<lambda>y. put_item k y v))"

definition update_first :: "(json \<Rightarrow> json res) \<Rightarrow> json \<Rightarrow> json res" where
  "update_first f v =
     (case v of JArr (x # xs) \<Rightarrow> rbind (f x) (\<lambda>y. Inr (JArr (y # xs))) | _ \<Rightarrow> rbind (first v) (\<lambda>x. rbind (f x) (\<lambda>_. Inr v)))"

definition pop_item :: "string \<Rightarrow> json \<Rightarrow> json res" where
  "pop_item k v =
     (case v of JObj d \<Rightarrow> Inr (JObj (filter (\<lambda>p. fst p \<noteq> k) d)) | _ \<Rightarrow> Inl (TypeError ''pop''))"

text \<open>\<^verbatim>\<open>s.replace(old, new)\<close> for a text \<open>old\<close> that is not empty.\<close>

function replace :: "string \<Rightarrow> string \<Rightarrow> string \<Rightarrow> string" where
  "replace old new s =
     (if s = '''' \<or> old = '''' then s
      else if take (length old) s = old then new @ replace old new (drop (length old) s)
      else hd s # replace old new (tl s))"
  by pat_completeness auto
termination by (relation "measure (\<lambda>(old, _, s). length s)") auto

declare replace.simps [simp del]

definition normalize_url :: "json \<Rightarrow> json res" where
  "normalize_url v =
     (case v of
        JStr url \<Rightarrow> Inr (JStr (replace ''dur053-baseline'' ''ARM'' (replace ''dur053-kind'' ''ARM'' url)))
      | _ \<Rightarrow> Inl (AttributeError ''object has no attribute replace''))"

definition without_flag :: "bool \<Rightarrow> string \<Rightarrow> json \<Rightarrow> json res" where
  "without_flag legacy flag c =
     rbind (item ''env'' c) (\<lambda>env.
     rbind (py_iter env) (\<lambda>es.
     rbind (filterR (\<lambda>e. eqs (item ''name'' e) (JStr flag)) es) (\<lambda>flags.
     rbind (require (py_eq (JArr flags)
         (JArr (if legacy then [JObj [(''name'', JStr flag), (''value'', JStr ''legacy'')]] else []))) ''legacy-flags'') (\<lambda>_.
     rbind (filterR (\<lambda>e. rbind (eqs (item ''name'' e) (JStr flag)) (\<lambda>b. Inr (\<not> b))) es) (\<lambda>keep.
     put_item ''env'' (JArr keep) c)))))"

definition when_kind :: "string \<Rightarrow> (json \<Rightarrow> json res) \<Rightarrow> json \<Rightarrow> json res" where
  "when_kind kind f ob = rbind (eqs (item ''kind'' ob) (JStr kind)) (\<lambda>b. if b then f ob else Inr ob)"

definition normalize_object :: "bool \<Rightarrow> json \<Rightarrow> json res" where
  "normalize_object legacy ob =
     rbind (update_at [''metadata''] (pop_item ''namespace'') ob) (\<lambda>o1.
     rbind (when_kind ''Namespace'' (update_at [''metadata''] (put_item ''name'' (JStr ''ARM''))) o1) (\<lambda>o2.
     rbind (when_kind ''ScaledObject''
         (update_at [''spec'', ''triggers''] (update_first (update_at [''metadata'', ''url''] normalize_url))) o2) (\<lambda>o3.
     rbind (when_kind ''ClusterRoleBinding''
         (update_at [''subjects''] (\<lambda>ss. rbind (py_iter ss) (\<lambda>xs.
            rbind (mapR (put_item ''namespace'' (JStr ''ARM'')) xs) (\<lambda>ys. Inr (JArr ys))))) o3) (\<lambda>o4.
     when_kind ''Deployment'' (\<lambda>d.
         rbind (items [''metadata'', ''name''] d) (\<lambda>name.
         if py_eq name (JStr ''observer'') then Inr d
         else update_at [''spec'', ''template'', ''spec'', ''containers'']
                (update_first (without_flag legacy
                   (if py_eq name (JStr ''worker'') then ''WORKER_DRAIN_MODE'' else ''RUNTIME_SHUTDOWN_MODE''))) d)) o4))))"

text \<open>The order by kind and name; kinds and names that are not strings are refused.\<close>

definition tagged :: "json \<Rightarrow> ((string \<times> string) \<times> json) res" where
  "tagged ob =
     rbind (item ''kind'' ob) (\<lambda>kind.
     rbind (items [''metadata'', ''name''] ob) (\<lambda>name.
     case (kind, name) of
       (JStr k, JStr n) \<Rightarrow> Inr ((k, n), ob)
     | _ \<Rightarrow> Inl (TypeError ''not supported between instances'')))"

definition normalize :: "bool \<Rightarrow> json list \<Rightarrow> json list res" where
  "normalize legacy obs =
     rbind (mapR (normalize_object legacy) obs) (\<lambda>ys.
     rbind (mapR tagged ys) (\<lambda>ts. Inr (map snd (sort_key fst ts))))"

definition matched_arms :: "json list \<Rightarrow> json list \<Rightarrow> unit res" where
  "matched_arms treatment baseline =
     need (rbind (normalize False treatment) (\<lambda>a. rbind (normalize True baseline) (\<lambda>b.
       Inr (py_eq (JArr a) (JArr b))))) ''matched-arms''"

section \<open>The ledger of live seconds\<close>

definition LIVE_LIMIT :: int where
  "LIVE_LIMIT = 259200"

definition JOB_CEILING :: int where
  "JOB_CEILING = 18900"

text \<open>\<^verbatim>\<open>str.isdigit\<close> below 256: the decimal digits and the superscripts one to three.\<close>

definition py_isdigit :: "string \<Rightarrow> bool" where
  "py_isdigit s \<longleftrightarrow> s \<noteq> '''' \<and> list_all (\<lambda>c. is_digit c \<or> (of_char c :: nat) \<in> {178, 179, 185}) s"

definition live_seconds :: "json \<Rightarrow> bool" where
  "live_seconds v = (case v of JInt n \<Rightarrow> 0 < n \<and> n \<le> JOB_CEILING | _ \<Rightarrow> False)"

definition seconds :: "json \<Rightarrow> int" where
  "seconds v = (case v of JInt n \<Rightarrow> n | _ \<Rightarrow> 0)"

definition ledger_row :: "json \<Rightarrow> int \<times> json list \<Rightarrow> (int \<times> json list) res" where
  "ledger_row row = (\<lambda>(spent, seen).
     rbind (item ''job_id'' row) (\<lambda>job.
     rbind (hashed job) (\<lambda>k.
     rbind (require (k \<notin> set seen \<and> py_isdigit (py_str job)) ''ledger-identity'') (\<lambda>_.
     rbind (need (allR (\<lambda>x. bool_of (get x JNull row))
         [''run_id'', ''head_sha'', ''merge_ref_sha'', ''tree_sha'', ''artifact_sha256'', ''status'']) ''ledger-provenance'') (\<lambda>_.
     rbind (item ''charged_seconds'' row) (\<lambda>charged.
     rbind (require (live_seconds charged) ''ledger-duration'') (\<lambda>_.
     Inr (spent + seconds charged, k # seen))))))))"

definition ledger_check :: "json \<Rightarrow> json \<Rightarrow> string list \<Rightarrow> int res" where
  "ledger_check ledger registered prior_jobs =
     rbind (need (both (eqs (get ''schema'' JNull ledger) (JStr ''dur053.live-ledger.v1''))
         (eqs (get ''limit_seconds'' JNull ledger) (JInt LIVE_LIMIT))) ''ledger-schema'') (\<lambda>_.
     rbind (require (live_seconds registered) ''job-live-ceiling'') (\<lambda>_.
     rbind (rbind (item ''entries'' ledger) py_iter) (\<lambda>rows.
     rbind (foldR ledger_row rows (0, [])) (\<lambda>(spent, seen).
     rbind (require (set (map JStr prior_jobs) \<subseteq> set seen) ''uncommitted-live-evidence'') (\<lambda>_.
     rbind (require (spent + seconds registered \<le> LIVE_LIMIT) ''ledger-budget'') (\<lambda>_.
     Inr (LIVE_LIMIT - spent - seconds registered)))))))"

text \<open>\<open>committed_ledger\<close>: every entry has its artifact inside the repository, with the stated digest and
  provenance. \<open>artifact_file\<close> is \<open>None\<close> for a name that leaves the repository or is no file.\<close>

definition committed_entry ::
  "(string \<Rightarrow> byte list option) \<Rightarrow> (byte list \<Rightarrow> json res) \<Rightarrow> json \<Rightarrow> unit res" where
  "committed_entry artifact_file loads row =
     rbind (item ''artifact'' row) (\<lambda>name.
     case name of
       JStr path \<Rightarrow>
         (case artifact_file path of
            None \<Rightarrow> require False ''committed-ledger-artifact''
          | Some raw \<Rightarrow>
              rbind (need (rbind (item ''artifact_sha256'' row) (\<lambda>h. Inr (py_eq (JStr (hex (sha256 raw))) h)))
                 ''committed-ledger-hash'') (\<lambda>_.
              rbind (loads raw) (\<lambda>manifest.
              need (both
                  (allR (\<lambda>key. rbind (item key manifest) (\<lambda>a. rbind (item key row) (\<lambda>b. Inr (py_str a = py_str b))))
                     [''run_id'', ''job_id'', ''head_sha'', ''merge_ref_sha'', ''tree_sha'', ''status''])
                  (rbind (eqs (get ''category'' JNull row) (JStr ''k3-acceptance-smoke'')) (\<lambda>smoke.
                   rbind (if smoke then item ''elapsed_live_seconds'' manifest
                          else rbind (item ''registered_live_seconds'' manifest) (\<lambda>r. get ''charged_seconds'' r manifest)) (\<lambda>a.
                   rbind (item ''charged_seconds'' row) (\<lambda>c. Inr (py_eq a c))))))
                ''committed-ledger-provenance'')))
     | _ \<Rightarrow> Inl (TypeError ''unsupported operand type(s) for /''))"

definition committed_ledger ::
  "(string \<Rightarrow> byte list option) \<Rightarrow> (byte list \<Rightarrow> json res) \<Rightarrow> json \<Rightarrow> json res" where
  "committed_ledger artifact_file loads ledger =
     rbind (rbind (item ''entries'' ledger) py_iter) (\<lambda>rows.
     rbind (each (committed_entry artifact_file loads) rows) (\<lambda>_. Inr ledger))"

section \<open>Guards of a run\<close>

definition stable_worker_sessions :: "string list \<Rightarrow> json list \<Rightarrow> unit res" where
  "stable_worker_sessions expected pods =
     need (both (Inr (card (set expected) = 2)) (both
        (rbind (mapR (items [''metadata'', ''uid'']) pods) (\<lambda>us. rbind (hashed_all us) (\<lambda>ks. Inr (same_set ks expected))))
        (both
          (allR (\<lambda>p. bool_of (rbind (item ''status'' p) (get ''containerStatuses'' JNull))) pods)
          (allR (\<lambda>p. rbind (items [''status'', ''containerStatuses''] p) (\<lambda>cs. rbind (py_iter cs)
             (allR (\<lambda>c. eqs (item ''restartCount'' c) (JInt 0))))) pods)))) ''stable-worker-sessions''"

definition single_witness_session :: "string list \<Rightarrow> json \<Rightarrow> unit res" where
  "single_witness_session files inventory =
     need (rbind (item ''file'' inventory) (\<lambda>f. Inr (py_eq (JArr (map JStr files)) (JArr [f])))) ''single-witness-session''"

definition application_topics_absent :: "string \<Rightarrow> bool" where
  "application_topics_absent listing =
     list_all (\<lambda>t. t \<notin> set (splitlines listing)) [''durable-agent.tasks.v1'', ''durable-agent.events.v1'']"

definition worker_group_absent :: "string \<Rightarrow> bool" where
  "worker_group_absent listing \<longleftrightarrow> ''runtime-workers-v1'' \<notin> set (splitlines listing)"

definition application_groups_absent :: "string \<Rightarrow> bool" where
  "application_groups_absent listing \<longleftrightarrow>
     worker_group_absent listing \<and> ''runtime-schedulers-v1'' \<notin> set (splitlines listing)"

definition digest_part :: "string \<Rightarrow> string" where
  "digest_part s = last (split_on (CHR ''@'') s)"

definition running_image_digests :: "json list \<Rightarrow> (string \<times> string) list \<Rightarrow> unit res" where
  "running_image_digests status images =
     need (allR (\<lambda>p. rbind (item ''containers'' p) (\<lambda>cs. rbind (py_iter cs) (allR (\<lambda>c.
        rbind (item ''imageID'' c) (\<lambda>v.
        case v of
          JStr s \<Rightarrow> Inr (digest_part s \<in> set (map (\<lambda>q. digest_part (snd q)) images))
        | _ \<Rightarrow> Inl (AttributeError ''object has no attribute split'')))))) status) ''running-image-digest''"

definition terminal_report :: "json \<Rightarrow> unit res" where
  "terminal_report report = need (is_bool True (item ''valid'' report)) ''terminal-checker''"

definition postgres_budget_setting :: "int \<Rightarrow> unit res" where
  "postgres_budget_setting v = require (v = 100) ''postgres-budget-setting''"

definition supported :: "string \<Rightarrow> unit res" where
  "supported scenario = require (scenario \<in> {''package-check'', ''smoke'', ''cleanup''}) ''K3b: scenario not implemented''"

section \<open>What an accepted ledger says\<close>

definition charged :: "json \<Rightarrow> int" where
  "charged row = (case item ''charged_seconds'' row of Inr v \<Rightarrow> seconds v | Inl _ \<Rightarrow> 0)"

definition job_key :: "json \<Rightarrow> json" where
  "job_key row = (case rbind (item ''job_id'' row) hashed of Inr k \<Rightarrow> k | Inl _ \<Rightarrow> JNull)"

definition entries :: "json \<Rightarrow> json list" where
  "entries ledger = (case rbind (item ''entries'' ledger) py_iter of Inr rows \<Rightarrow> rows | Inl _ \<Rightarrow> [])"

lemma ledger_row_Inr:
  assumes "ledger_row row (spent, seen) = Inr r"
  shows "r = (spent + charged row, job_key row # seen) \<and> job_key row \<notin> set seen \<and>
    0 < charged row \<and> charged row \<le> JOB_CEILING"
proof -
  have live: "live_seconds v \<Longrightarrow> 0 < seconds v \<and> seconds v \<le> JOB_CEILING" for v
    by (simp add: live_seconds_def seconds_def split: json.splits)
  from assms show ?thesis
    by (auto simp: ledger_row_def res_simps charged_def job_key_def dest: live)
qed

lemma ledger_rows_Inr:
  "foldR ledger_row rows (spent, seen) = Inr (spent', seen') \<Longrightarrow>
     spent' = spent + sum_list (map charged rows) \<and> seen' = rev (map job_key rows) @ seen \<and>
     distinct (map job_key rows) \<and> set (map job_key rows) \<inter> set seen = {} \<and>
     (\<forall>row \<in> set rows. 0 < charged row \<and> charged row \<le> JOB_CEILING)"
proof (induction rows arbitrary: spent seen)
  case (Cons row rows)
  then obtain r where r: "ledger_row row (spent, seen) = Inr r" "foldR ledger_row rows r = Inr (spent', seen')"
    by (auto simp: res_simps)
  note h = ledger_row_Inr [OF r(1)]
  with r(2) Cons.IH [of "spent + charged row" "job_key row # seen"] show ?case by auto
qed simp

text \<open>
  C24. The ledger of live seconds is conserved. A job is admitted only when the charged seconds of all
  entries, the seconds it registers and what is reported as left add up exactly to the limit, with nothing
  negative; no job is charged twice, no charge exceeds the ceiling of a job, and every earlier job is in
  the ledger.
\<close>

theorem ledger_conserves:
  assumes "ledger_check ledger registered prior_jobs = Inr left"
  shows "left + seconds registered + sum_list (map charged (entries ledger)) = LIVE_LIMIT \<and> 0 \<le> left \<and>
    0 < seconds registered \<and> seconds registered \<le> JOB_CEILING \<and>
    distinct (map job_key (entries ledger)) \<and> JStr ` set prior_jobs \<subseteq> job_key ` set (entries ledger) \<and>
    (\<forall>row \<in> set (entries ledger). 0 < charged row \<and> charged row \<le> JOB_CEILING)"
proof -
  from assms obtain rows spent seen where r: "rbind (item ''entries'' ledger) py_iter = Inr rows"
    "foldR ledger_row rows (0, []) = Inr (spent, seen)" "live_seconds registered"
    "JStr ` set prior_jobs \<subseteq> set seen" "spent + seconds registered \<le> LIVE_LIMIT"
    "left = LIVE_LIMIT - spent - seconds registered"
    by (auto simp: ledger_check_def rbind_eq_Inr require_ok)
  from r(3) have "0 < seconds registered \<and> seconds registered \<le> JOB_CEILING"
    by (auto simp: live_seconds_def seconds_def split: json.splits)
  with r ledger_rows_Inr [OF r(2)] show ?thesis
    by (auto simp: entries_def)
qed

section \<open>What an accepted package says\<close>

definition budget_entry :: "string \<Rightarrow> (string \<times> int) list \<Rightarrow> int" where
  "budget_entry r m = (case map_of m r of Some i \<Rightarrow> i | None \<Rightarrow> 0)"

text \<open>The connections a role may hold: replicas and surge, each with its pool, and the listener of the relay.\<close>

definition role_connections :: "connection_budget \<Rightarrow> string \<Rightarrow> int" where
  "role_connections b r =
     (budget_entry r (cb_role_replicas b) + budget_entry r (cb_max_surges b)) *
     (budget_entry r (cb_role_pools b) + (if r = ''relay'' then cb_relay_listen b else 0))"

definition key_name :: "json \<Rightarrow> string" where
  "key_name k = (case k of JStr n \<Rightarrow> n | _ \<Rightarrow> '''')"

text \<open>A hardened workload: the pod drops its privileges and its token, and every container, initial ones
  included, runs a pinned image with the locked-down security context.\<close>

definition hardened_container :: "json \<Rightarrow> bool" where
  "hardened_container c \<longleftrightarrow>
     (case item ''image'' c of Inr (JStr s) \<Rightarrow> pinned s \<and> \<not> infix_of (replicate 64 (CHR ''0'')) s | _ \<Rightarrow> False) \<and>
     (case item ''securityContext'' c of Inr v \<Rightarrow> py_eq v container_security | Inl _ \<Rightarrow> False)"

definition hardened :: "json \<Rightarrow> bool" where
  "hardened ob \<longleftrightarrow>
     (case items [''spec'', ''template'', ''spec''] ob of
        Inl _ \<Rightarrow> False
      | Inr pod \<Rightarrow>
          get ''automountServiceAccountToken'' JNull pod = Inr (JBool False) \<and>
          (case item ''securityContext'' pod of Inr v \<Rightarrow> py_eq v pod_security | Inl _ \<Rightarrow> False) \<and>
          (case all_containers pod of Inr cs \<Rightarrow> list_all hardened_container cs | Inl _ \<Rightarrow> False))"

lemma digest_match_ok: "digest_match v = Inr True \<longleftrightarrow> (\<exists>s. v = JStr s \<and> pinned s)"
  by (auto simp: digest_match_def split: json.splits)

lemma container_ok: "container_policy c = Inr u \<Longrightarrow> hardened_container c"
  by (auto simp: container_policy_def hardened_container_def res_simps digest_match_ok py_in_def)

lemma budget_of_ok: "budget_of k m = Inr i \<Longrightarrow> budget_entry k m = i"
  by (auto simp: budget_of_def budget_entry_def split: option.splits)

lemma pod_ok:
  assumes "pod_policy tab name pod = Inr u"
  shows "get ''automountServiceAccountToken'' JNull pod = Inr (JBool False) \<and>
    (\<exists>v. item ''securityContext'' pod = Inr v \<and> py_eq v pod_security)"
  using assms by (auto simp: pod_policy_def res_simps is_bool_def)

lemma deployment_ok:
  assumes "deployment_policy tab policies b (key, ob) tot = Inr tot'"
  shows "tot' = tot + role_connections b (key_name key) \<and> hardened ob"
proof -
  from assms obtain spec pod cs n pool surge where
    s: "item ''spec'' ob = Inr spec" "items [''template'', ''spec''] spec = Inr pod"
    and p: "pod_policy tab (key_name key) pod = Inr ()"
    and c: "all_containers pod = Inr cs" "\<forall>c \<in> set cs. container_policy c = Inr ()"
    and n: "budget_of (key_name key) (cb_role_replicas b) = Inr n"
      "budget_of (key_name key) (cb_role_pools b) = Inr pool"
      "budget_of (key_name key) (cb_max_surges b) = Inr surge"
    and t: "tot' = tot + (n + surge) * (pool + (if key_name key = ''relay'' then cb_relay_listen b else 0))"
    unfolding deployment_policy_def Let_def prod.case key_name_def [symmetric] rbind_eq_Inr each_ok
    by (auto simp del: items.simps)
  from s have "items [''spec'', ''template'', ''spec''] ob = Inr pod" by simp
  with p c pod_ok [OF p] container_ok have "hardened ob"
    by (auto simp: hardened_def list_all_iff)
  moreover have "tot' = tot + role_connections b (key_name key)"
    using n [THEN budget_of_ok] t by (simp add: role_connections_def)
  ultimately show ?thesis by simp
qed

lemma deployments_ok:
  "foldR (deployment_policy tab policies b) ds tot = Inr tot' \<Longrightarrow>
     tot' = tot + sum_list (map (\<lambda>d. role_connections b (key_name (fst d))) ds) \<and> list_all (\<lambda>d. hardened (snd d)) ds"
proof (induction ds arbitrary: tot)
  case (Cons d ds)
  then obtain t where t: "deployment_policy tab policies b d tot = Inr t"
    "foldR (deployment_policy tab policies b) ds t = Inr tot'" by (auto simp: res_simps)
  with deployment_ok [of tab policies b "fst d" "snd d" tot t] Cons.IH [of t] show ?case by auto
qed simp

lemma by_of_ok: "by_of obs = Inr tab \<Longrightarrow> dict_ok tab"
  unfolding by_of_def by (erule foldR_invariant) (auto simp: res_simps distinct_update)

lemma of_kind_distinct:
  assumes "dict_ok tab"
  shows "distinct (map fst (of_kind kind tab))"
proof -
  have "distinct (map fst (filter (\<lambda>((k, _), _). k = JStr kind) tab))"
    using assms by (simp add: distinct_map_filter)
  moreover have "map fst (filter (\<lambda>((k, _), _). k = JStr kind) tab) = map (Pair (JStr kind)) (map fst (of_kind kind tab))"
    by (auto simp: of_kind_def)
  ultimately show ?thesis by (metis distinct_map)
qed

lemma ROLES_distinct: "distinct ROLES"
  by (simp add: ROLES_def)

lemma sum_over_roles:
  fixes f :: "string \<Rightarrow> int"
  assumes "distinct ks" and "set ks = JStr ` set ROLES"
  shows "sum_list (map (\<lambda>k. f (key_name k)) ks) = sum_list (map f ROLES)"
proof -
  have "sum_list (map (\<lambda>k. f (key_name k)) ks) = sum (\<lambda>k. f (key_name k)) (JStr ` set ROLES)"
    using assms by (simp add: sum_list_distinct_conv_sum_set)
  also have "\<dots> = sum f (set ROLES)"
    by (subst sum.reindex) (auto simp: inj_on_def key_name_def)
  also have "\<dots> = sum_list (map f ROLES)"
    using ROLES_distinct by (simp add: sum_list_distinct_conv_sum_set)
  finally show ?thesis .
qed

text \<open>
  An accepted package stays within the database: the result is the connections of the jobs, the
  clients and the eight roles at their full surge, whatever the manifests say, and leaves the eight
  reserved ones free out of a hundred. The deployments are exactly the eight roles and every one of them
  is hardened, and no object of the package is a secret.
\<close>

theorem package_guards:
  assumes "package_policy prefixlen obs b = Inr tot"
  shows "\<exists>tab. by_of obs = Inr tab \<and>
    tot = plain_total b + sum_list (map (role_connections b) ROLES) \<and> tot + 8 \<le> 100 \<and>
    fst ` set (of_kind ''Deployment'' tab) = JStr ` set ROLES \<and>
    list_all (\<lambda>d. hardened (snd d)) (of_kind ''Deployment'' tab) \<and>
    list_all (\<lambda>ob. item ''kind'' ob \<noteq> Inr (JStr ''Secret'')) obs"
proof -
  from assms obtain tab policies where
    t: "by_of obs = Inr tab" "same_set (map fst (of_kind ''Deployment'' tab)) ROLES"
      "noneR (\<lambda>ob. eqs (item ''kind'' ob) (JStr ''Secret'')) obs = Inr True"
      "foldR (deployment_policy tab policies b) (of_kind ''Deployment'' tab) (plain_total b) = Inr tot"
      "tot + 8 \<le> 100"
    unfolding package_policy_def Let_def rbind_eq_Inr require_ok need_ok by auto
  have ks: "set (map fst (of_kind ''Deployment'' tab)) = JStr ` set ROLES"
    using t(2) by (simp add: same_set_def)
  have "sum_list (map (\<lambda>k. role_connections b (key_name k)) (map fst (of_kind ''Deployment'' tab))) =
      sum_list (map (role_connections b) ROLES)"
    by (rule sum_over_roles [OF of_kind_distinct [OF by_of_ok [OF t(1)]] ks])
  then have "tot = plain_total b + sum_list (map (role_connections b) ROLES)"
    using deployments_ok [OF t(4)] by (simp add: comp_def)
  moreover have "list_all (\<lambda>ob. item ''kind'' ob \<noteq> Inr (JStr ''Secret'')) obs"
    using t(3) by (auto simp: noneR_True eqs_False list_all_iff py_eq_def)
  ultimately show ?thesis using t(1,5) ks deployments_ok [OF t(4)] by auto
qed

section \<open>Concrete runs\<close>

definition demo_ledger :: json where
  "demo_ledger =
     JObj [(''schema'', JStr ''dur053.live-ledger.v1''), (''limit_seconds'', JInt 259200),
       (''entries'', JArr [JObj [(''job_id'', JStr ''7''), (''run_id'', JStr ''r''), (''head_sha'', JStr ''h''),
          (''merge_ref_sha'', JStr ''m''), (''tree_sha'', JStr ''t''), (''artifact_sha256'', JStr ''a''),
          (''status'', JStr ''ok''), (''charged_seconds'', JInt 100)]])]"

theorem ledger_conserves_witness:
  "259000 + seconds (JInt 100) + sum_list (map charged (entries demo_ledger)) = LIVE_LIMIT"
proof -
  have "ledger_check demo_ledger (JInt 100) [''7''] = Inr 259000" by code_simp
  from ledger_conserves [OF this] show ?thesis by simp
qed

definition demo_budget :: connection_budget where
  "demo_budget =
     \<lparr>cb_max_connections = 100, cb_reserved_and_admin = 8, cb_future_clients = [(''monitor'', 2)],
      cb_jobs = [(''migrate'', 2)], cb_relay_listen = 1, cb_role_pools = map (\<lambda>r. (r, 4)) ROLES,
      cb_role_replicas = map (\<lambda>r. (r, 1)) ROLES, cb_max_surges = map (\<lambda>r. (r, 1)) ROLES\<rparr>"

definition named :: "string \<Rightarrow> string \<Rightarrow> dict \<Rightarrow> json" where
  "named kind name d = JObj ([(''kind'', JStr kind), (''metadata'', JObj [(''name'', JStr name)])] @ d)"

definition demo_image :: string where
  "demo_image = ''x@sha256:'' @ replicate 64 (CHR ''a'')"

definition demo_env :: "string \<Rightarrow> string \<Rightarrow> json" where
  "demo_env name v = JObj [(''name'', JStr name), (''value'', JStr v)]"

definition demo_container :: "string \<Rightarrow> json" where
  "demo_container r =
     JObj ([(''image'', JStr demo_image), (''imagePullPolicy'', JStr ''Never''), (''securityContext'', container_security),
       (''resources'', JObj [(''requests'', JObj [(''cpu'', JInt 1), (''memory'', JInt 1)]),
          (''limits'', JObj [(''cpu'', JInt 1), (''memory'', JInt 1)])]),
       (''env'', JArr (
          (if r \<in> {''worker'', ''observer''} then [] else
             [demo_env ''RUNTIME_DB_MAX_CONNS'' ''4'',
              demo_env ''RUNTIME_ROLES'' (if r = ''scheduler'' then ''scheduler,ingestor'' else r),
              JObj [(''name'', JStr ''RUNTIME_NAMESPACE''),
                (''valueFrom'', JObj [(''fieldRef'', JObj [(''fieldPath'', JStr ''metadata.namespace'')])])]]) @
          (if r \<in> set AUTH then
             [demo_env ''RUNTIME_TOKEN_AUTH'' ''enabled'',
              demo_env ''RUNTIME_TOKEN_REVIEW_TOKEN_FILE'' ''/identity/reviewer'',
              demo_env ''RUNTIME_TOKEN_AUDIENCE'' (if r = ''worker-control'' then ''durable-worker-control''
                 else if r = ''operator'' then ''durable-operator'' else ''durable-client''),
              demo_env ''RUNTIME_TOKEN_SERVICE_ACCOUNT'' (if r = ''worker-control'' then ''worker'' else ''observer'')] else []) @
          (if r = ''demand'' then [demo_env ''RUNTIME_TOKEN_AUTH'' ''enabled'',
              demo_env ''RUNTIME_DEMAND_BEARER_TOKEN_FILE'' ''/bearer/token''] else [])))] @
       (if r = ''observer'' then [] else
          map (\<lambda>(probe, path). (probe, JObj [(''httpGet'', JObj [(''path'', JStr path), (''port'', JStr ''http'')])]))
            [(''startupProbe'', ''/healthz''), (''livenessProbe'', ''/healthz''), (''readinessProbe'', ''/readyz'')]))"

definition demo_pod :: "string \<Rightarrow> json" where
  "demo_pod r =
     JObj [(''automountServiceAccountToken'', JBool False), (''serviceAccountName'', JStr r),
       (''securityContext'', pod_security), (''terminationGracePeriodSeconds'', JInt 40),
       (''topologySpreadConstraints'', JArr [JInt 1]), (''containers'', JArr [demo_container r]),
       (''volumes'', JArr (
          (if r = ''worker'' \<or> r \<in> set AUTH then
             [JObj [(''name'', JStr ''identity''), (''projected'', JObj [(''sources'', JArr [JObj [(''serviceAccountToken'',
                JObj [(''audience'', JStr ''durable-worker-control''), (''expirationSeconds'', JInt 3600),
                  (''path'', JStr ''token'')])]])])]] else []) @
          (if r = ''demand'' then
             [JObj [(''name'', JStr ''bearer''), (''secret'', JObj [(''secretName'', JStr ''campaign-demand'')])]] else [])))]"

definition demo_deployment :: "string \<Rightarrow> json" where
  "demo_deployment r =
     named ''Deployment'' r [(''spec'', JObj [(''replicas'', JInt 1),
       (''strategy'', JObj [(''rollingUpdate'', JObj [(''maxSurge'', JInt 1), (''maxUnavailable'', JInt 0)])]),
       (''template'', JObj [(''spec'', demo_pod r)])])]"

definition demo_job :: "string \<Rightarrow> json" where
  "demo_job name =
     named ''Job'' name [(''spec'', JObj [(''backoffLimit'', JInt 0), (''parallelism'', JInt 1),
       (''activeDeadlineSeconds'', JInt 180), (''template'', JObj [(''spec'',
          JObj [(''serviceAccountName'', JStr name), (''automountServiceAccountToken'', JBool False),
            (''securityContext'', pod_security), (''containers'', JArr [demo_container ''api'']),
            (''initContainers'', JArr [JObj [(''image'', JStr demo_image), (''securityContext'', container_security),
               (''command'', JArr [JStr ''default_registry''])]])])])])]"

text \<open>A network policy by its name, and the other objects of the sample.\<close>

definition demo_spec :: "string \<Rightarrow> json" where
  "demo_spec n =
     (if n = ''default-deny'' then default_deny
      else if n = ''demand-ingress''
      then JObj [(''podSelector'', app_label ''demand''), (''ingress'', ingress_rule (JObj
         [(''namespaceSelector'', JObj [(''matchLabels'', JObj [(''kubernetes.io/metadata.name'', JStr ''keda'')])]),
          (''podSelector'', app_label ''keda-operator'')]) 8091)]
      else case filter (\<lambda>(target, _). n = target @ ''-ingress'') INGRESS of
             (target, source, port) # _ \<Rightarrow>
               JObj [(''podSelector'', app_label target), (''ingress'', ingress_rule (JObj [(''podSelector'', app_label source)]) port)]
           | [] \<Rightarrow> JObj [(''podSelector'', app_label (take (length n - 7) n))])"

definition demo_policy :: "string \<Rightarrow> json" where
  "demo_policy n = named ''NetworkPolicy'' n [(''spec'', demo_spec n)]"

definition demo_account :: "string \<Rightarrow> json" where
  "demo_account r = named ''ServiceAccount'' r [(''automountServiceAccountToken'', JBool False)]"

definition demo_role :: json where
  "demo_role = named ''ClusterRole'' ''dur053-tokenreview'' [(''rules'', JArr [JObj
     [(''apiGroups'', JArr [JStr ''authentication.k8s.io'']), (''resources'', JArr [JStr ''tokenreviews'']),
      (''verbs'', JArr [JStr ''create''])]])]"

definition demo_binding :: json where
  "demo_binding = named ''ClusterRoleBinding'' ''dur053-tokenreview'' [(''subjects'', JArr (map (\<lambda>a.
     JObj [(''kind'', JStr ''ServiceAccount''), (''name'', JStr a), (''namespace'', JStr ''n'')]) AUTH))]"

definition demo_scaled :: json where
  "demo_scaled = named ''ScaledObject'' ''worker-demand'' [(''spec'', JObj
     [(''minReplicaCount'', JInt 1), (''maxReplicaCount'', JInt 4), (''pollingInterval'', JInt 5),
      (''fallback'', JObj [(''failureThreshold'', JInt 3), (''replicas'', JInt 2)]),
      (''triggers'', JArr [scaler_trigger ''dur053-kind'']),
      (''advanced'', JObj [(''horizontalPodAutoscalerConfig'', JObj [(''behavior'',
         JObj [(''scaleUp'', scaler_behavior 0), (''scaleDown'', scaler_behavior 60)])])])])]"

definition demo_trigger :: json where
  "demo_trigger = named ''TriggerAuthentication'' ''campaign-demand'' [(''spec'',
     JObj [(''secretTargetRef'', JArr [JObj [(''parameter'', JStr ''token''), (''name'', JStr ''campaign-demand''),
       (''key'', JStr ''token'')]])])]"

definition entry :: "string \<Rightarrow> (string \<Rightarrow> json) \<Rightarrow> string list \<Rightarrow> ((json \<times> json) \<times> json) list" where
  "entry kind f names = map (\<lambda>n. ((JStr kind, JStr n), f n)) names"

definition demo_tab :: "((json \<times> json) \<times> json) list" where
  "demo_tab =
     entry ''Namespace'' (\<lambda>n. named ''Namespace'' n []) [''n''] @
     entry ''Deployment'' demo_deployment ROLES @
     entry ''ServiceAccount'' demo_account ROLES @
     entry ''PodDisruptionBudget'' (\<lambda>r. named ''PodDisruptionBudget'' r []) ROLES @
     entry ''NetworkPolicy'' demo_policy policy_names @
     entry ''ClusterRole'' (\<lambda>_. demo_role) [''dur053-tokenreview''] @
     entry ''ClusterRoleBinding'' (\<lambda>_. demo_binding) [''dur053-tokenreview''] @
     entry ''Job'' demo_job [''migrate'', ''compatibility''] @
     entry ''ScaledObject'' (\<lambda>_. demo_scaled) [''worker-demand''] @
     entry ''TriggerAuthentication'' (\<lambda>_. demo_trigger) [''campaign-demand'']"

definition demo_package :: "json list" where
  "demo_package = map snd demo_tab"

lemma object_key_named [simp]: "object_key (named kind name d) = Inr (JStr kind, JStr name)"
  by (simp add: object_key_def named_def item_def dict_item_def)

lemma entry_simps [simp]:
  "map_of (entry K f ns) (JStr K', JStr n) = (if K' = K \<and> n \<in> set ns then Some (f n) else None)"
  "distinct (map fst (entry K f ns)) = distinct ns"
  "fst ` set (entry K f ns) = (\<lambda>n. (JStr K, JStr n)) ` set ns"
  "of_kind K' (entry K f ns) = (if K' = K then map (\<lambda>n. (JStr n, f n)) ns else [])"
  by (induction ns) (auto simp: entry_def of_kind_def)

lemma of_kind_append [simp]: "of_kind K (xs @ ys) = of_kind K xs @ of_kind K ys"
  by (simp add: of_kind_def)

lemma by_of_fresh:
  assumes "list_all (\<lambda>(k, ob). object_key ob = Inr k) tab" and "dict_ok tab"
  shows "by_of (map snd tab) = Inr tab"
proof -
  have "foldR (\<lambda>ob m. rbind (object_key ob) (\<lambda>k. Inr (dict_set k ob m))) (map snd tab) acc = Inr (acc @ tab)"
    if "list_all (\<lambda>(k, ob). object_key ob = Inr k) tab" "dict_ok (acc @ tab)" for acc
    using that
  proof (induction tab arbitrary: acc)
    case (Cons p tab)
    then show ?case
      using Cons.IH [of "acc @ [p]"] by (cases p) (auto simp: dict_set_fresh)
  qed simp
  from this [of "[]"] assms show ?thesis by (simp add: by_of_def)
qed

lemma policy_names_distinct: "distinct policy_names"
  by code_simp

lemma demo_by_of: "by_of demo_package = Inr demo_tab"
  unfolding demo_package_def
proof (rule by_of_fresh)
  show "list_all (\<lambda>(k, ob). object_key ob = Inr k) demo_tab"
    by (auto simp: demo_tab_def entry_def list_all_iff demo_deployment_def demo_account_def demo_policy_def demo_role_def
        demo_binding_def demo_job_def demo_scaled_def demo_trigger_def)
  show "dict_ok demo_tab"
    using ROLES_distinct policy_names_distinct by (auto simp: demo_tab_def)
qed

definition demo_policies :: "(json \<times> json) list" where
  "demo_policies = map (\<lambda>n. (JStr n, demo_spec n)) policy_names"

lemma demo_policies_of: "policies_of demo_tab = Inr demo_policies"
proof -
  have "item ''spec'' (demo_policy n) = Inr (demo_spec n)" for n
    by (simp add: demo_policy_def named_def item_def dict_item_def)
  then have "mapR (\<lambda>(name, ob). rbind (item ''spec'' ob) (\<lambda>spec. Inr (name, spec)))
      (map (\<lambda>n. (JStr n, demo_policy n)) ns) = Inr (map (\<lambda>n. (JStr n, demo_spec n)) ns)" for ns
    by (induction ns) simp_all
  then show ?thesis by (simp add: policies_of_def demo_tab_def demo_policies_def)
qed

text \<open>One deployment looks at three objects only, and adds to the total.\<close>

lemma deployment_cong:
  assumes "object tab ''ServiceAccount'' r = object tab' ''ServiceAccount'' r"
    and "map_of tab (JStr ''PodDisruptionBudget'', JStr r) = map_of tab' (JStr ''PodDisruptionBudget'', JStr r)"
    and "key_get (r @ ''-egress'') (JObj []) P = key_get (r @ ''-egress'') (JObj []) P'"
    and "deployment_policy tab' P' b (JStr r, ob) 0 = Inr n"
  shows "deployment_policy tab P b (JStr r, ob) t = Inr (t + n)"
proof -
  have "pod_policy tab r = pod_policy tab' r" "probe_policy tab r = probe_policy tab' r"
    using assms(1,2) by (simp_all add: pod_policy_def probe_policy_def fun_eq_iff)
  then have "deployment_policy tab P b (JStr r, ob) 0 = deployment_policy tab' P' b (JStr r, ob) 0"
    by (simp only: deployment_policy_def prod.case json.case Let_def assms(3))
  moreover have "deployment_policy tab P b (JStr r, ob) t = rbind (deployment_policy tab P b (JStr r, ob) 0) (\<lambda>x. Inr (t + x))"
    by (simp only: deployment_policy_def prod.case json.case Let_def rbind_assoc rbind_Inr add_0)
  ultimately show ?thesis using assms(4) by simp
qed

definition small_tab :: "string \<Rightarrow> ((json \<times> json) \<times> json) list" where
  "small_tab r =
     [((JStr ''ServiceAccount'', JStr r), demo_account r),
      ((JStr ''PodDisruptionBudget'', JStr r), named ''PodDisruptionBudget'' r [])]"

lemma small_deployments:
  "list_all (\<lambda>r. deployment_policy (small_tab r)
      [(JStr (r @ ''-egress''), demo_spec (r @ ''-egress''))] demo_budget
      (JStr r, demo_deployment r) 0 = Inr (role_connections demo_budget r)) ROLES"
  by code_simp

lemma demo_lookups:
  "object demo_tab ''ClusterRole'' ''dur053-tokenreview'' = Inr demo_role"
  "object demo_tab ''ClusterRoleBinding'' ''dur053-tokenreview'' = Inr demo_binding"
  "object demo_tab ''Job'' ''migrate'' = Inr (demo_job ''migrate'')"
  "object demo_tab ''Job'' ''compatibility'' = Inr (demo_job ''compatibility'')"
  "object demo_tab ''ScaledObject'' ''worker-demand'' = Inr demo_scaled"
  "object demo_tab ''TriggerAuthentication'' ''campaign-demand'' = Inr demo_trigger"
  "r \<in> set ROLES \<Longrightarrow> object demo_tab ''ServiceAccount'' r = Inr (demo_account r)"
  "r \<in> set ROLES \<Longrightarrow> map_of demo_tab (JStr ''PodDisruptionBudget'', JStr r) = Some (named ''PodDisruptionBudget'' r [])"
  by (simp_all add: object_def demo_tab_def map_add_def)

lemma demo_namespace: "namespace_name demo_package = Inr (JStr ''n'')"
  by (simp add: demo_package_def demo_tab_def entry_def named_def eqs_def item_def dict_item_def py_eq_def)

lemma demo_images: "deployment_image demo_tab r = Inr (JStr demo_image)" if "r \<in> set ROLES"
proof -
  have "map_of (map (\<lambda>n. (JStr n, f n)) ns) (JStr r) = (if r \<in> set ns then Some (f r) else None)"
    for f :: "string \<Rightarrow> json" and ns
    by (induction ns) auto
  then have "key_item r (of_kind ''Deployment'' demo_tab) = Inr (demo_deployment r)"
    using that by (simp add: demo_tab_def key_item_def)
  moreover have "rbind (items [''spec'', ''template'', ''spec''] (demo_deployment r)) (first_image ''containers'') =
      Inr (JStr demo_image)"
    by (simp add: demo_deployment_def named_def demo_pod_def demo_container_def item_def dict_item_def first_image_def
        first_def)
  ultimately show ?thesis by (simp add: deployment_image_def)
qed

lemma demo_deployments:
  "foldR (deployment_policy demo_tab demo_policies demo_budget) (map (\<lambda>r. (JStr r, demo_deployment r)) rs) t =
     Inr (t + sum_list (map (role_connections demo_budget) rs))" if "set rs \<subseteq> set ROLES"
  using that
proof (induction rs arbitrary: t)
  case (Cons r rs)
  let ?P = "[(JStr (r @ ''-egress''), demo_spec (r @ ''-egress''))]"
  have "map_of (map (\<lambda>n. (JStr n, demo_spec n)) ns) (JStr m) = (if m \<in> set ns then Some (demo_spec m) else None)" for ns m
    by (induction ns) auto
  moreover have "r @ ''-egress'' \<in> set policy_names" using Cons.prems by (auto simp: policy_names_def)
  ultimately have "key_get (r @ ''-egress'') (JObj []) demo_policies = key_get (r @ ''-egress'') (JObj []) ?P"
    by (simp add: key_get_def demo_policies_def)
  moreover have "deployment_policy (small_tab r) ?P demo_budget (JStr r, demo_deployment r) 0 =
      Inr (role_connections demo_budget r)"
    using small_deployments Cons.prems by (auto simp: list_all_iff)
  moreover have "object (small_tab r) ''ServiceAccount'' r = Inr (demo_account r)"
    "map_of (small_tab r) (JStr ''PodDisruptionBudget'', JStr r) = Some (named ''PodDisruptionBudget'' r [])"
    by (simp_all add: small_tab_def object_def)
  ultimately have "deployment_policy demo_tab demo_policies demo_budget (JStr r, demo_deployment r) t =
      Inr (t + role_connections demo_budget r)"
    using Cons.prems demo_lookups(7,8) [of r] by (intro deployment_cong [of _ _ "small_tab r"]) simp_all
  with Cons show ?case by simp
qed simp

definition small_package :: "((json \<times> json) \<times> json) list" where
  "small_package =
     [((JStr ''ClusterRole'', JStr ''dur053-tokenreview''), demo_role),
      ((JStr ''ClusterRoleBinding'', JStr ''dur053-tokenreview''), demo_binding),
      ((JStr ''Job'', JStr ''migrate''), demo_job ''migrate''),
      ((JStr ''Job'', JStr ''compatibility''), demo_job ''compatibility''),
      ((JStr ''Deployment'', JStr ''api''), demo_deployment ''api''),
      ((JStr ''Deployment'', JStr ''worker''), demo_deployment ''worker''),
      ((JStr ''ScaledObject'', JStr ''worker-demand''), demo_scaled),
      ((JStr ''TriggerAuthentication'', JStr ''campaign-demand''), demo_trigger)]"

lemma small_stages:
  "rbac_policy small_package [named ''Namespace'' ''n'' []] = Inr ()"
  "job_policy small_package ''migrate'' = Inr ()" "job_policy small_package ''compatibility'' = Inr ()"
  "compat_policy small_package = Inr ()" "scaler_policy small_package = Inr ()"
  "network_policy (\<lambda>_. Inr 32) demo_policies = Inr ()"
  by code_simp+

lemma small_lookups:
  "object small_package ''ClusterRole'' ''dur053-tokenreview'' = Inr demo_role"
  "object small_package ''ClusterRoleBinding'' ''dur053-tokenreview'' = Inr demo_binding"
  "object small_package ''Job'' ''migrate'' = Inr (demo_job ''migrate'')"
  "object small_package ''Job'' ''compatibility'' = Inr (demo_job ''compatibility'')"
  "object small_package ''ScaledObject'' ''worker-demand'' = Inr demo_scaled"
  "object small_package ''TriggerAuthentication'' ''campaign-demand'' = Inr demo_trigger"
  "deployment_image small_package ''api'' = Inr (JStr demo_image)"
  "deployment_image small_package ''worker'' = Inr (JStr demo_image)"
  "namespace_name [named ''Namespace'' ''n'' []] = Inr (JStr ''n'')"
  by (simp_all add: object_def small_package_def) code_simp+

lemma demo_stages:
  "rbac_policy demo_tab demo_package = Inr ()" "job_policy demo_tab ''migrate'' = Inr ()"
  "job_policy demo_tab ''compatibility'' = Inr ()" "compat_policy demo_tab = Inr ()" "scaler_policy demo_tab = Inr ()"
proof -
  have images: "deployment_image demo_tab ''api'' = Inr (JStr demo_image)" "deployment_image demo_tab ''worker'' = Inr (JStr demo_image)"
    by (simp_all add: demo_images ROLES_def)
  note same = demo_lookups(1-6) small_lookups demo_namespace images
  show "rbac_policy demo_tab demo_package = Inr ()"
    using small_stages(1) by (simp only: rbac_policy_def same)
  show "job_policy demo_tab ''migrate'' = Inr ()" "job_policy demo_tab ''compatibility'' = Inr ()"
    using small_stages(2,3) by (simp_all only: job_policy_def same)
  show "compat_policy demo_tab = Inr ()" "scaler_policy demo_tab = Inr ()"
    using small_stages(4,5) by (simp_all only: compat_policy_def scaler_policy_def same)
qed

lemma demo_accepted: "package_policy (\<lambda>_. Inr 32) demo_package demo_budget = Inr 70"
proof -
  have d: "of_kind ''Deployment'' demo_tab = map (\<lambda>r. (JStr r, demo_deployment r)) ROLES" by (simp add: demo_tab_def)
  have "noneR (\<lambda>ob. eqs (item ''kind'' ob) (JStr ''Secret'')) demo_package = Inr True"
    by (auto simp: noneR_True eqs_False demo_package_def demo_tab_def entry_def demo_deployment_def demo_account_def
        demo_policy_def demo_role_def demo_binding_def demo_job_def demo_scaled_def demo_trigger_def named_def item_def
        dict_item_def py_eq_def)
  moreover have "same_set (map fst (of_kind ''Deployment'' demo_tab)) ROLES"
    by (simp add: d same_set_def image_image)
  moreover have "key_get ''default-deny'' JNull demo_policies = default_deny"
    by (simp add: key_get_def demo_policies_def policy_names_def demo_spec_def)
  moreover have "plain_total demo_budget + sum_list (map (role_connections demo_budget) ROLES) = 70"
    "cb_max_connections demo_budget = 100" "cb_reserved_and_admin demo_budget = 8"
    by code_simp+
  ultimately show ?thesis
    using demo_deployments [of ROLES "plain_total demo_budget"] small_stages(6)
    by (simp add: package_policy_def Let_def demo_by_of demo_policies_of d demo_stages require_def need_def py_eq_def)
qed

theorem package_guards_witness:
  "\<exists>tab. by_of demo_package = Inr tab \<and> list_all (\<lambda>d. hardened (snd d)) (of_kind ''Deployment'' tab)"
  using package_guards [OF demo_accepted] by blast

end
