(* ===== verification/Fixture_Oracle.thy ===== *)
theory Fixture_Oracle
  imports Fixtures "HOL-Library.Multiset"
begin

text \<open>
  What the fixture generator writes can be read back by the corpus oracle: the facts of a document from
  its text, what the random operations may return, the directive a document gives for an incident key, and
  what the evidence of one case says, whatever is drawn.
\<close>

section \<open>Documents can be read back\<close>

definition plain :: "string \<Rightarrow> bool" where
  "plain t \<longleftrightarrow> t \<noteq> [] \<and> CHR ''|'' \<notin> set t \<and> CHR ''.'' \<notin> set t \<and> \<not> is_space (hd t) \<and> \<not> is_space (last t)"

lemma split_bar_none: "CHR ''|'' \<notin> set p \<Longrightarrow> split_bar p = [p]"
proof (induction p)
  case (Cons x p)
  have "take 3 (x # p) \<noteq> '' | ''"
  proof
    assume "take 3 (x # p) = '' | ''"
    then have "CHR ''|'' \<in> set (take 3 (x # p))" by simp
    with Cons.prems show False using in_set_takeD by metis
  qed
  with Cons show ?case by simp
qed simp

lemma split_bar_first:
  assumes "CHR ''|'' \<notin> set p"
  shows "split_bar (p @ '' | '' @ r) = p # split_bar r"
  using assms
proof (induction p)
  case Nil
  show ?case by simp
next
  case (Cons x p)
  have "take 3 ((x # p) @ '' | '' @ r) \<noteq> '' | ''"
    using Cons.prems by (cases p) (auto simp: take_Cons')
  with Cons show ?case by simp
qed

lemma split_bar_join: "ps \<noteq> [] \<Longrightarrow> \<forall>p \<in> set ps. CHR ''|'' \<notin> set p \<Longrightarrow> split_bar (join '' | '' ps) = ps"
proof (induction ps rule: induct_list012)
  case (3 p q ps)
  then have "split_bar (p @ '' | '' @ join '' | '' (q # ps)) = p # (q # ps)"
    using split_bar_first [of p] by simp
  then show ?case by simp
qed (auto simp: split_bar_none)

lemma strip_plain: "plain t \<Longrightarrow> strip t = t"
  by (auto simp: plain_def intro: strip_id)

lemma rstrip_dot: "plain v \<Longrightarrow> rstrip_char (CHR ''.'') (s @ v @ ''.'') = s @ v"
  by (cases v rule: rev_cases) (auto simp: plain_def rstrip_char_def)

definition fact_line :: "string \<times> string \<Rightarrow> string" where
  "fact_line f = fst f @ ''='' @ snd f"

lemma split_once_first: "c \<notin> set s \<Longrightarrow> split_once c (s @ c # t) = (s, t)"
  unfolding split_once_def by (induction s) auto

lemma parse_fact_line:
  assumes "plain n" and "CHR ''='' \<notin> set n" and "plain v"
  shows "parse_fact (fact_line (n, v)) facts = dict_set n v facts"
  using assms by (simp add: parse_fact_def fact_line_def split_once_first strip_plain)

lemma fold_dict_set:
  "distinct (map fst kvs) \<Longrightarrow> fst ` set kvs \<inter> fst ` set d = {} \<Longrightarrow> fold (\<lambda>(k, v). dict_set k v) kvs d = d @ kvs"
proof (induction kvs arbitrary: d)
  case (Cons kv kvs)
  obtain k v where kv: "kv = (k, v)" by (cases kv)
  with Cons.prems have "dict_set k v d = d @ [(k, v)]" by (auto intro: dict_set_fresh)
  with Cons kv show ?case by (auto simp: image_iff)
qed simp

definition plain_fact :: "string \<times> string \<Rightarrow> bool" where
  "plain_fact f \<longleftrightarrow> plain (fst f) \<and> CHR ''='' \<notin> set (fst f) \<and> plain (snd f)"

lemma join_last: "\<exists>s. join sep (xs @ [x]) = s @ x"
  by (induction xs rule: induct_list012) auto

lemma parse_facts_join:
  assumes "kvs \<noteq> []" and "distinct (map fst kvs)" and "\<forall>f \<in> set kvs. plain_fact f"
  shows "parse_facts (join '' | '' (map fact_line kvs) @ ''.'') = kvs"
proof -
  obtain fs n v where kvs: "kvs = fs @ [(n, v)]" using assms(1) by (metis rev_exhaust surj_pair)
  then have v: "plain v" using assms(3) by (simp add: plain_fact_def)
  obtain s where "join '' | '' (map fact_line kvs) = s @ fact_line (n, v)"
    using join_last [of "'' | ''" "map fact_line fs" "fact_line (n, v)"] kvs by auto
  then have j: "join '' | '' (map fact_line kvs) = (s @ n @ ''='') @ v" by (simp add: fact_line_def)
  then have r: "rstrip_char (CHR ''.'') (join '' | '' (map fact_line kvs) @ ''.'') = join '' | '' (map fact_line kvs)"
    using rstrip_dot [OF v, of "s @ n @ ''=''"] by simp
  have "split_bar (join '' | '' (map fact_line kvs)) = map fact_line kvs"
    using assms(1,3) by (intro split_bar_join) (auto simp: plain_fact_def plain_def fact_line_def)
  then have "parse_facts (join '' | '' (map fact_line kvs) @ ''.'') = fold parse_fact (map fact_line kvs) []"
    by (simp add: parse_facts_def r)
  also have "\<dots> = fold (\<lambda>(k, v). dict_set k v) kvs []"
    using assms(3) unfolding fold_map by (intro fold_cong) (auto simp: plain_fact_def parse_fact_line fun_eq_iff)
  finally show ?thesis using fold_dict_set [OF assms(2), of "[]"] by simp
qed

section \<open>What the random operations return\<close>

text \<open>Whatever is drawn, the computation returns a value with a property or raises one of the named errors.\<close>

definition yields :: "exn set \<Rightarrow> 'a rng \<Rightarrow> ('a \<Rightarrow> bool) \<Rightarrow> bool" where
  "yields E m P \<longleftrightarrow> (\<forall>s. case fst (m s) of Inl e \<Rightarrow> e \<in> E | Inr x \<Rightarrow> P x)"

named_theorems yields_rules

lemma yields_sbind:
  assumes "yields E m P" and "\<And>x. P x \<Longrightarrow> yields E (f x) Q"
  shows "yields E (sbind m f) Q"
  unfolding yields_def
proof
  fix s
  show "case fst (sbind m f s) of Inl e \<Rightarrow> e \<in> E | Inr x \<Rightarrow> Q x"
  proof (cases "m s")
    case (Pair r t)
    with assms(1) [unfolded yields_def, rule_format, of s] show ?thesis
      using assms(2) [unfolded yields_def, THEN spec, of _ t] by (cases r) (auto simp: sbind_def)
  qed
qed

lemma yields_weaken: "yields E m P \<Longrightarrow> (\<And>x. P x \<Longrightarrow> Q x) \<Longrightarrow> yields E m Q"
  by (auto simp: yields_def split: sum.splits)

lemma yields_sret [yields_rules]: "P x \<Longrightarrow> yields E (sret x) P"
  by (simp add: yields_def sret_def)

lemma yields_slift [yields_rules]: "P x \<Longrightarrow> yields E (slift (Inr x)) P"
  by (simp add: yields_def slift_def)

lemma yields_sraise: "e \<in> E \<Longrightarrow> yields E (sraise e) P"
  by (simp add: yields_def sraise_def)

lemma yields_randbelow: "0 < n \<Longrightarrow> yields E (randbelow n) (\<lambda>k. k < n)"
  by (simp add: yields_def randbelow_def)

lemma yields_randrange:
  assumes "a < b" and "0 < k"
  shows "yields E (randrange a b k) (\<lambda>x. a \<le> x \<and> x < b)"
proof -
  let ?n = "(b - a + k - 1) div k"
  have n: "0 < ?n" using assms by (simp add: pos_imp_zdiv_pos_iff)
  have "a + k * int j < b" if "j < nat ?n" for j
  proof -
    have "k * (int j + 1) \<le> k * ?n" using that assms(2) by (intro mult_left_mono) auto
    also have "\<dots> \<le> b - a + k - 1" using assms(2) by (metis add.commute mult.commute mult_div_mod_eq le_add_same_cancel1 pos_mod_sign zle_add1_eq_le less_add_one)
    finally show ?thesis by (simp add: algebra_simps)
  qed
  then show ?thesis using n assms(2)
    by (auto simp: randrange_def Let_def intro!: yields_sbind [OF yields_randbelow] yields_rules)
qed

lemma yields_randint: "a \<le> b \<Longrightarrow> yields E (randint a b) (\<lambda>x. a \<le> x \<and> x \<le> b)"
  using yields_randrange [of a "b + 1" 1 E] by (simp add: randint_def)

lemma yields_choice: "xs \<noteq> [] \<Longrightarrow> yields E (choice xs) (\<lambda>x. x \<in> set xs)"
  by (auto simp: choice_def intro!: yields_sbind [OF yields_randbelow] yields_rules)

lemma yields_sample: "2 \<le> length xs \<Longrightarrow> yields E (sample_two xs) (\<lambda>(a, b). a \<in> set xs \<and> b \<in> set xs)"
proof -
  assume l: "2 \<le> length xs"
  have "xs[j := last xs] ! k \<in> set xs" if "k < length xs - 1" for j k
  proof -
    have "xs[j := last xs] ! k \<in> set (xs[j := last xs])" using that by (intro nth_mem) simp
    moreover have "last xs \<in> set xs" using l by (intro last_in_set) auto
    ultimately show ?thesis using set_update_subset_insert [of xs j "last xs"] by auto
  qed
  with l show ?thesis
    by (auto simp: sample_two_def intro!: yields_sbind [OF yields_randbelow] yields_rules)
qed

lemma yields_shuffle_from: "i < length xs \<or> xs = [] \<and> i = 0 \<Longrightarrow> yields E (shuffle_from i xs) (\<lambda>ys. mset ys = mset xs)"
proof (induction i arbitrary: xs)
  case 0
  show ?case by (simp add: yields_rules)
next
  case (Suc i)
  then have l: "Suc i < length xs" by auto
  have "yields E (shuffle_from i (xs[Suc i := xs ! j, j := xs ! Suc i])) (\<lambda>ys. mset ys = mset xs)" if "j < Suc (Suc i)" for j
    using Suc.IH [of "xs[Suc i := xs ! j, j := xs ! Suc i]"] l that mset_swap [of j xs "Suc i"] by simp
  then show ?case by (auto intro: yields_sbind [OF yields_randbelow])
qed

lemma yields_shuffle: "yields E (shuffle xs) (\<lambda>ys. mset ys = mset xs)"
  unfolding shuffle_def by (rule yields_shuffle_from) (cases xs; simp)

section \<open>Actions\<close>

definition service_of :: "string \<Rightarrow> string" where
  "service_of fam = the (map_of SERVICES fam)"

definition signals_of :: "string \<Rightarrow> string list" where
  "signals_of fam = the (map_of SIGNALS fam)"

definition symptoms_of :: "string \<Rightarrow> string list" where
  "symptoms_of fam = the (map_of SYMPTOMS fam)"

definition action_of :: "string \<Rightarrow> string" where
  "action_of fam = the (map_of FAMILY_ACTIONS fam)"

definition param_of :: "string \<Rightarrow> string" where
  "param_of fam = hd (the (map_of ACTION_PARAMETERS (action_of fam)))"

lemmas tables = FAMILIES_def SERVICES_def SIGNALS_def SYMPTOMS_def FAMILY_ACTIONS_def ACTION_PARAMETERS_def
  service_of_def signals_of_def symptoms_of_def action_of_def param_of_def

lemma families:
  "fam \<in> set FAMILIES \<Longrightarrow> fam = ''bad_configuration'' \<or> fam = ''connection_pool'' \<or> fam = ''downstream_latency'' \<or> fam = ''disk_pressure''"
  by (simp add: FAMILIES_def)

lemma param_names:
  "param_of ''bad_configuration'' = ''revision''" "param_of ''connection_pool'' = ''replicas''"
  "param_of ''downstream_latency'' = ''timeout_ms''" "param_of ''disk_pressure'' = ''retention_days''"
  by (simp_all add: tables)

lemma lookups:
  assumes "fam \<in> set FAMILIES"
  shows "lookup fam SERVICES = Inr (service_of fam)" "lookup fam SIGNALS = Inr (signals_of fam)"
    "lookup fam SYMPTOMS = Inr (symptoms_of fam)" "lookup fam FAMILY_ACTIONS = Inr (action_of fam)"
    "map_of ACTION_PARAMETERS (action_of fam) = Some [param_of fam]"
  using assms by (auto simp: lookup_def tables)

lemma tables_plain:
  assumes "fam \<in> set FAMILIES"
  shows "plain (service_of fam)" "\<forall>t \<in> set (signals_of fam). plain t" "\<forall>t \<in> set (symptoms_of fam). plain t"
    "plain (action_of fam)" "CHR '':'' \<notin> set (param_of fam) \<and> CHR ''|'' \<notin> set (param_of fam) \<and> CHR ''.'' \<notin> set (param_of fam) \<and>
      param_of fam \<noteq> [] \<and> \<not> is_space (hd (param_of fam))"
    "distinct (signals_of fam)" "length (signals_of fam) = 2" "length (symptoms_of fam) = 6"
  using assms by (auto simp: tables plain_def is_space_def Let_def)

definition good_value :: "json \<Rightarrow> bool" where
  "good_value v \<longleftrightarrow> (\<exists>n. v = JInt (int n)) \<or> (\<exists>n. v = JStr (version_text (int n)))"

definition good_params :: "string \<Rightarrow> dict \<Rightarrow> bool" where
  "good_params fam d \<longleftrightarrow> (\<exists>v. d = [(param_of fam, v)] \<and> good_value v)"

definition good_action :: "string \<Rightarrow> directive \<Rightarrow> bool" where
  "good_action fam a \<longleftrightarrow> dv_action a = action_of fam \<and> dv_service a = service_of fam \<and> good_params fam (dv_parameters a)"

lemma good_int: "0 \<le> i \<Longrightarrow> good_value (JInt i)"
  unfolding good_value_def by (metis nonneg_int_cases)

lemma good_version: "0 \<le> i \<Longrightarrow> good_value (JStr (version_text i))"
  unfolding good_value_def by (metis nonneg_int_cases)

lemma show_int_nat [simp]: "show_int (int n) = show_nat n"
  by (simp add: show_int_def)

lemma version_number_text: "0 \<le> n \<Longrightarrow> version_number (version_text n) = Inr n"
  using show_nat_digits [of _ "nat n"]
  by (auto simp: version_number_def version_text_def show_int_def list_all_iff)

lemma version_text_inject [simp]: "version_text m = version_text n \<longleftrightarrow> m = n"
  by (simp add: version_text_def)

lemma yields_parameters:
  assumes "fam \<in> set FAMILIES" and "2 \<le> n"
  shows "yields E (parameters_for fam (version_text n)) (good_params fam)"
proof -
  have "yields E (sbind (randint 1 (min (n - 1) 12)) (\<lambda>back. sret [(''revision'', JStr (version_text (n - back)))]))
      (good_params ''bad_configuration'')"
    using assms(2)
    by (intro yields_sbind [OF yields_randint] yields_rules) (auto simp: good_params_def tables good_version)
  moreover have "yields E (sbind m (\<lambda>n. sret [(param_of fam, JInt n)])) (good_params fam)"
    if "yields E m (\<lambda>x. 0 \<le> x)" for m
    using that by (intro yields_sbind [OF that] yields_rules) (auto simp: good_params_def good_int)
  moreover have "yields E (randint 3 12) (\<lambda>x. 0 \<le> x)" "yields E (randint 7 60) (\<lambda>x. 0 \<le> x)"
      "yields E (randrange 800 3001 100) (\<lambda>x. 0 \<le> x)"
    by (rule yields_weaken [OF yields_randint] yields_weaken [OF yields_randrange]; simp)+
  ultimately show ?thesis using families [OF assms(1)] assms(2)
    by (elim disjE) (simp_all add: parameters_for_def version_number_text param_names)
qed

lemma yields_other_number:
  assumes "cur = [(name, v)]" and "\<exists>n \<in> set ns. v \<noteq> JInt n" and "\<forall>n \<in> set ns. 0 \<le> n" and "good_value v"
  shows "yields E (other_number name ns cur) (\<lambda>d. \<exists>w. d = [(name, w)] \<and> good_value w \<and> w \<noteq> v)"
proof -
  have eq: "py_eq (JInt n) v \<longleftrightarrow> v = JInt n" for n
    using assms(4) by (auto simp: good_value_def py_eq_def simp flip: show_int_nat)
  let ?ns = "filter (\<lambda>n. \<not> py_eq (JInt n) v) ns"
  have "?ns \<noteq> []" using assms(2) by (auto simp: eq filter_empty_conv)
  then have "yields E (sbind (choice ?ns) (\<lambda>n. sret (dict_set name (JInt n) cur))) (\<lambda>d. \<exists>w. d = [(name, w)] \<and> good_value w \<and> w \<noteq> v)"
    using assms(1,3) by (intro yields_sbind [OF yields_choice] yields_rules) (auto simp: eq good_int)
  then show ?thesis by (simp add: other_number_def dict_item_def assms(1))
qed

lemma two_numbers: "m \<in> A \<Longrightarrow> n \<in> A \<Longrightarrow> m \<noteq> n \<Longrightarrow> \<exists>k \<in> A. v \<noteq> JInt k"
  by (cases "v = JInt m") auto

lemma yields_wrong:
  assumes "fam \<in> set FAMILIES" and "3 \<le> n" and "good_params fam cur"
  shows "yields E (wrong_parameters fam cur (version_text n)) (\<lambda>d. good_params fam d \<and> d \<noteq> cur)"
proof -
  obtain v where v: "cur = [(param_of fam, v)]" "good_value v" using assms(3) by (auto simp: good_params_def)
  have goal: "yields E m (\<lambda>d. good_params fam d \<and> d \<noteq> cur)"
    if "yields E m (\<lambda>d. \<exists>w. d = [(param_of fam, w)] \<and> good_value w \<and> w \<noteq> v)" for m
    using that by (rule yields_weaken) (auto simp: v(1) good_params_def)
  let ?ts = "filter (\<lambda>t. \<not> py_eq (JStr t) v) (map version_text [1..n - 1])"
  have "{1, 2} \<subseteq> set [1..n - 1]" using assms(2) by auto
  moreover have "version_text 1 \<noteq> version_text 2" by simp
  then have "\<not> py_eq (JStr (version_text 1)) v \<or> \<not> py_eq (JStr (version_text 2)) v"
    using v(2) by (auto simp: py_eq_def good_value_def simp del: version_text_inject)
  ultimately have "version_text 1 \<in> set ?ts \<or> version_text 2 \<in> set ?ts" by auto
  then have ts: "?ts \<noteq> []" by (metis empty_iff list.set(1))
  have "yields E (sbind (choice ?ts) (\<lambda>t. sret (dict_set (param_of fam) (JStr t) cur)))
      (\<lambda>d. \<exists>w. d = [(param_of fam, w)] \<and> good_value w \<and> w \<noteq> v)"
    using ts by (intro yields_sbind [OF yields_choice] yields_rules) (auto simp: v(1) py_eq_def good_version)
  then have "fam = ''bad_configuration'' \<Longrightarrow> ?thesis"
    using assms(2) ts v(1) by (intro goal) (simp add: wrong_parameters_def version_number_text dict_item_def param_names)
  moreover have "yields E (other_number (param_of fam) [3..12] cur) (\<lambda>d. good_params fam d \<and> d \<noteq> cur)"
    by (intro goal yields_other_number [OF v(1) two_numbers [of 3 _ 4] _ v(2)]) auto
  moreover have "yields E (other_number (param_of fam) (map (\<lambda>k. 800 + 100 * k) [0..22]) cur) (\<lambda>d. good_params fam d \<and> d \<noteq> cur)"
    by (intro goal yields_other_number [OF v(1) two_numbers [of 800 _ 900] _ v(2)]) (auto simp: image_iff intro: bexI [of _ 0] bexI [of _ 1])
  moreover have "yields E (other_number (param_of fam) [7..60] cur) (\<lambda>d. good_params fam d \<and> d \<noteq> cur)"
    by (intro goal yields_other_number [OF v(1) two_numbers [of 7 _ 8] _ v(2)]) auto
  ultimately show ?thesis using families [OF assms(1)]
    by (elim disjE) (simp_all add: wrong_parameters_def param_names)
qed

lemma yields_expected:
  assumes "fam \<in> set FAMILIES" and "2 \<le> n"
  shows "yields E (expected_action_for fam (service_of fam) (version_text n)) (good_action fam)"
  using assms by (auto simp: expected_action_for_def lookups good_action_def intro!: yields_sbind [OF yields_parameters] yields_rules)

section \<open>The directive of a document\<close>

definition optional_pair :: "string \<Rightarrow> string option \<Rightarrow> (string \<times> string) list" where
  "optional_pair name v = (case v of Some t \<Rightarrow> [(name, t)] | None \<Rightarrow> [])"

definition action_pairs :: "directive option \<Rightarrow> (string \<times> string) list" where
  "action_pairs action =
     (case action of None \<Rightarrow> []
      | Some a \<Rightarrow> (''ACTION'', dv_action a) # map (\<lambda>(n, v). (''PARAMETER'', n @ '':'' @ py_str v)) (sort_key fst (dv_parameters a)))"

definition pairs where
  "pairs status sv ve sg ef sy action sb po ob =
     [(''STATUS'', status), (''SERVICE'', sv), (''VERSION'', ve), (''SIGNAL'', sg), (''EFFECTIVE'', ef), (''SYMPTOM'', sy)] @
     optional_pair ''SUPERSEDED_BY'' sb @ optional_pair ''POLICY'' po @ action_pairs action @ optional_pair ''OBSERVATION'' ob"

lemma fact_text_pairs:
  "fact_text status sv ve sg ef sy action None sb po ob = join '' | '' (map fact_line (pairs status sv ve sg ef sy action sb po ob)) @ ''.''"
proof -
  have "optional_fact n v = map fact_line (optional_pair n v)" for n v
    by (simp add: optional_fact_def optional_pair_def fact_line_def split: option.split)
  moreover have "(case action of Some a \<Rightarrow> action_facts a | None \<Rightarrow> []) = map fact_line (action_pairs action)"
    by (simp add: action_pairs_def action_facts_def fact_line_def comp_def case_prod_unfold split: option.split)
  ultimately show ?thesis by (simp add: fact_text_def pairs_def fact_line_def optional_pair_def)
qed

lemma plain_version: "0 \<le> n \<Longrightarrow> plain (version_text n)"
proof -
  assume "0 \<le> n"
  have d: "is_digit c" if "c \<in> set (show_nat (nat n))" for c using show_nat_digits that .
  then have "\<not> is_space (last (show_nat (nat n)))" by (simp add: digit_not_space)
  moreover have "\<not> is_digit (CHR ''|'')" "\<not> is_digit (CHR ''.'')" by (simp_all add: is_digit_def)
  ultimately show ?thesis using d \<open>0 \<le> n\<close> by (auto simp: plain_def version_text_def show_int_def is_space_def)
qed

lemma good_value_text:
  assumes "good_value v"
  shows "py_str v \<noteq> []" "CHR ''|'' \<notin> set (py_str v)" "CHR ''.'' \<notin> set (py_str v)" "\<not> is_space (last (py_str v))"
proof -
  have "plain (version_text (int n))" for n by (rule plain_version) simp
  then have vp: "plain (CHR ''v'' # show_nat n)" for n by (simp add: version_text_def)
  from assms have "(\<exists>n. py_str v = show_nat n) \<or> (\<exists>n. py_str v = CHR ''v'' # show_nat n)"
    by (auto simp: good_value_def py_str_def version_text_def)
  then show "py_str v \<noteq> []" "CHR ''|'' \<notin> set (py_str v)" "CHR ''.'' \<notin> set (py_str v)" "\<not> is_space (last (py_str v))"
    using vp by (auto simp: plain_def)
qed

text \<open>A document whose texts are plain and whose action has at most one parameter.\<close>

definition plain_action :: "string \<Rightarrow> directive option \<Rightarrow> bool" where
  "plain_action fam action \<longleftrightarrow>
     (\<forall>a. action = Some a \<longrightarrow> dv_action a = action_of fam \<and> (dv_parameters a = [] \<or> good_params fam (dv_parameters a)))"

lemma pairs_plain:
  assumes "fam \<in> set FAMILIES" and "plain_action fam action" and "\<forall>t \<in> {status, sv, ve, sg, ef, sy}. plain t"
    and "\<forall>t. sb = Some t \<or> po = Some t \<or> ob = Some t \<longrightarrow> plain t"
  shows "parse_facts (fact_text status sv ve sg ef sy action None sb po ob) = pairs status sv ve sg ef sy action sb po ob"
proof -
  have pa: "plain (param_of fam @ CHR '':'' # py_str v)" if "good_value v" for v
    using tables_plain(5) [OF assms(1)] good_value_text [OF that] by (auto simp: plain_def is_space_def)
  have act: "list_all plain_fact (action_pairs action)"
    using assms(2) tables_plain(4) [OF assms(1)] pa
    by (auto simp: action_pairs_def plain_action_def good_params_def plain_fact_def split: option.splits)
      (auto simp: plain_def is_space_def)
  have names: "plain_fact (n, v)" if "n \<in> {''SUPERSEDED_BY'', ''POLICY'', ''OBSERVATION'', ''STATUS'', ''SERVICE'', ''VERSION'',
      ''SIGNAL'', ''EFFECTIVE'', ''SYMPTOM''}" "plain v" for n v
    using that by (elim insertE) (simp_all add: plain_fact_def plain_def is_space_def)
  have opt: "list_all plain_fact (optional_pair n v)" if "n \<in> {''SUPERSEDED_BY'', ''POLICY'', ''OBSERVATION''}" "\<forall>t. v = Some t \<longrightarrow> plain t" for n v
    using that by (cases v) (auto simp: optional_pair_def intro: names)
  have "list_all plain_fact (pairs status sv ve sg ef sy action sb po ob)"
    unfolding pairs_def list_all_append
    using assms(3,4) by (intro conjI act opt) (simp_all add: names)
  then have "\<forall>f \<in> set (pairs status sv ve sg ef sy action sb po ob). plain_fact f" by (simp add: list_all_iff)
  moreover have "distinct (map fst (pairs status sv ve sg ef sy action sb po ob))"
    using assms(2) by (auto simp: pairs_def optional_pair_def action_pairs_def plain_action_def good_params_def split: option.split)
  moreover have "pairs status sv ve sg ef sy action sb po ob \<noteq> []" by (simp add: pairs_def)
  ultimately show ?thesis unfolding fact_text_pairs by (intro parse_facts_join)
qed

lemma read_good:
  assumes "fam \<in> set FAMILIES" and "good_value v"
  shows "read_parameter (''PARAMETER'', param_of fam @ '':'' @ py_str v) [] = [(param_of fam, v)]"
proof -
  have c: "CHR '':'' \<notin> set (param_of fam)" using tables_plain(5) [OF assms(1)] by simp
  then have s: "split_once (CHR '':'') (param_of fam @ CHR '':'' # t) = (param_of fam, t)" for t
    by (rule split_once_first)
  have d: "py_isdigit (show_nat n)" "\<not> py_isdigit (CHR ''v'' # show_nat n)" "py_int (show_nat n) = Some (int n)" for n
    using py_int_show_int [of "int n"] show_nat_digits [of _ n]
    by (auto simp: py_isdigit_def list_all_iff) (simp add: is_digit_def)
  from assms(2) show ?thesis
    by (auto simp: good_value_def read_parameter_def s d py_str_def version_text_def)
qed

lemma pairs_lookup:
  "map_of (pairs status sv ve sg ef sy action sb po ob) ''SERVICE'' = Some sv"
  "map_of (pairs status sv ve sg ef sy action sb po ob) ''VERSION'' = Some ve"
  "map_of (pairs status sv ve sg ef sy action sb po ob) ''SIGNAL'' = Some sg"
  "map_of (pairs status sv ve sg ef sy action sb po ob) ''STATUS'' = Some status"
  "map_of (pairs status sv ve sg ef sy action sb po ob) ''ACTION'' = map_option dv_action action"
  by (auto simp: pairs_def optional_pair_def action_pairs_def map_add_def split: option.splits)

lemma read_parameters:
  "fold read_parameter (pairs status sv ve sg ef sy action sb po ob) [] = fold read_parameter (action_pairs action) []"
proof -
  have skip: "fold read_parameter ps d = d" if "''PARAMETER'' \<notin> fst ` set ps" for ps d
    using that by (induction ps) (auto simp: read_parameter_def)
  let ?head = "[(''STATUS'', status), (''SERVICE'', sv), (''VERSION'', ve), (''SIGNAL'', sg), (''EFFECTIVE'', ef), (''SYMPTOM'', sy)] @
     optional_pair ''SUPERSEDED_BY'' sb @ optional_pair ''POLICY'' po"
  have "''PARAMETER'' \<notin> fst ` set ?head" "''PARAMETER'' \<notin> fst ` set (optional_pair ''OBSERVATION'' ob)"
    by (auto simp: optional_pair_def split: option.splits)
  moreover have "fold read_parameter (xs @ ys @ zs) [] = fold read_parameter ys []"
    if "''PARAMETER'' \<notin> fst ` set xs" "''PARAMETER'' \<notin> fst ` set zs" for xs ys zs
    by (simp only: fold_append comp_apply skip [OF that(1)] skip [OF that(2)])
  ultimately have "fold read_parameter (?head @ action_pairs action @ optional_pair ''OBSERVATION'' ob) [] =
      fold read_parameter (action_pairs action) []" by blast
  then show ?thesis by (simp only: pairs_def append_assoc)
qed

text \<open>The directive a document gives for a key: its action, when it is a current document for that key and
  the action has its parameter.\<close>

lemma chunk_directive_fact:
  assumes "fam \<in> set FAMILIES" and "plain_action fam action" and "\<forall>t \<in> {status, sv, ve, sg, ef, sy}. plain t"
    and "\<forall>t. sb = Some t \<or> po = Some t \<or> ob = Some t \<longrightarrow> plain t" and "\<forall>a. action = Some a \<longrightarrow> dv_service a = sv"
    and "ec_text chunk = fact_text status sv ve sg ef sy action None sb po ob"
  shows "chunk_directive key chunk =
    (if key = (sv, ve, sg) \<and> status = ''CURRENT'' \<and> (\<exists>a. action = Some a \<and> dv_parameters a \<noteq> []) then action else None)"
proof -
  have read: "fold read_parameter [(''ACTION'', x), (''PARAMETER'', param_of fam @ CHR '':'' # py_str v)] [] = [(param_of fam, v)]"
    if "good_value v" for x v
  proof -
    have "read_parameter (''ACTION'', x) [] = []" by (simp add: read_parameter_def)
    with read_good [OF assms(1) that] show ?thesis by simp
  qed
  have "complete_action (pairs status sv ve sg ef sy action sb po ob) (sv, ve, sg) =
      (if \<exists>a. action = Some a \<and> dv_parameters a \<noteq> [] then action else None)"
  proof (cases action)
    case None
    then show ?thesis by (simp add: complete_action_def pairs_lookup)
  next
    case (Some a)
    show ?thesis
    proof (cases "dv_parameters a = []")
      case True
      with Some assms(2) show ?thesis
        by (simp add: complete_action_def pairs_lookup read_parameters action_pairs_def plain_action_def lookups [OF assms(1)]
            read_parameter_def)
    next
      case False
      then obtain v where v: "dv_parameters a = [(param_of fam, v)]" "good_value v"
        using assms(2) Some by (auto simp: plain_action_def good_params_def)
      have "a = \<lparr>dv_action = dv_action a, dv_service = sv, dv_parameters = [(param_of fam, v)]\<rparr>" using v Some assms(5) by simp
      with Some v read [OF v(2)] assms(2) show ?thesis
        by (simp add: complete_action_def pairs_lookup read_parameters action_pairs_def plain_action_def lookups [OF assms(1)] del: fold_simps)
    qed
  qed
  then show ?thesis
    by (cases key) (auto simp: chunk_directive_def assms(6) pairs_plain [OF assms(1-4)] pairs_lookup)
qed

section \<open>The evidence of a case\<close>

lemma plain_number:
  assumes "0 \<le> n" and "\<forall>c \<in> set pre. c \<noteq> CHR ''|'' \<and> c \<noteq> CHR ''.''" and "pre \<noteq> []" and "\<not> is_space (hd pre)"
  shows "plain (pre @ show_int n)"
proof -
  have d: "is_digit c" if "c \<in> set (show_nat (nat n))" for c using show_nat_digits that .
  moreover have "\<not> is_digit (CHR ''|'')" "\<not> is_digit (CHR ''.'')" by (simp_all add: is_digit_def)
  ultimately show ?thesis using assms by (auto simp: plain_def show_int_def digit_not_space)
qed

lemma plain_date: "m \<in> {''2026-08'', ''2026-09''} \<Longrightarrow> 0 \<le> n \<Longrightarrow> plain (m @ ''-'' @ pad2 n)"
  using plain_number [of n "m @ ''-''"] plain_number [of n "m @ ''-0''"] by (auto simp: pad2_def is_space_def)

lemma yields_date: "m \<in> {''2026-08'', ''2026-09''} \<Longrightarrow> yields E (effective_date m) plain"
  unfolding effective_date_def by (intro yields_sbind [OF yields_randint] yields_rules plain_date) auto

lemma plain_policy:
  assumes "0 \<le> kp_active_version_number plan" and "suffix \<in> {'''', ''-a'', ''-b''}" and "policy_name plan suffix = Some t"
  shows "plain t"
proof -
  have "plain (''policy-'' @ show_int (kp_active_version_number plan))"
    using assms(1) by (intro plain_number) (auto simp: is_space_def)
  with assms(2,3) show ?thesis by (auto simp: policy_name_def plain_def is_space_def)
qed

definition plan_key :: "descriptor \<Rightarrow> key_plan \<Rightarrow> incident_key" where
  "plan_key d plan = (service_of (fst (snd d)), version_text (kp_active_version_number plan), kp_signal plan)"

definition plan_good :: "descriptor \<Rightarrow> key_plan \<Rightarrow> bool" where
  "plan_good d plan \<longleftrightarrow>
     (case d of (category, fam, index) \<Rightarrow>
        fam \<in> set FAMILIES \<and> 20 \<le> kp_active_version_number plan \<and> kp_signal plan \<in> set (signals_of fam) \<and>
        good_action fam (kp_action plan) \<and>
        (category = Stale_unresolved_conflict \<longrightarrow> (\<exists>a. kp_conflicting_action plan = Some a \<and> good_action fam a \<and>
           dv_parameters a \<noteq> dv_parameters (kp_action plan))))"

text \<open>A decoy is a well-formed document for a key outside the given ones.\<close>

definition decoy_good :: "incident_key set \<Rightarrow> descriptor \<Rightarrow> key_plan \<Rightarrow> bool" where
  "decoy_good T d plan \<longleftrightarrow>
     (case d of (category, fam, index) \<Rightarrow> category = Near_duplicate_decoy \<longrightarrow>
        (\<exists>dk n. kp_decoy plan = Some dk \<and> dk_service dk = service_of fam \<and> dk_version dk = version_text n \<and> 0 \<le> n \<and>
           dk_signal dk \<in> set (signals_of fam) \<and> dk_symptom dk \<in> set (symptoms_of fam) \<and> good_action fam (dk_action dk) \<and>
           (dk_service dk, dk_version dk, dk_signal dk) \<notin> T))"

definition frame_good :: "descriptor \<Rightarrow> key_plan \<Rightarrow> case_frame \<Rightarrow> bool" where
  "frame_good d plan cf \<longleftrightarrow>
     (cf_service cf, cf_version cf, cf_signal cf) = plan_key d plan \<and> cf_other_signal cf \<in> set (signals_of (fst (snd d))) \<and>
     cf_symptom cf \<in> set (symptoms_of (fst (snd d)))"

fun own_directives :: "case_category \<Rightarrow> key_plan \<Rightarrow> directive list" where
  "own_directives Answerable plan = [kp_action plan]"
| "own_directives Insufficient_no_guidance plan = []"
| "own_directives Insufficient_missing_parameter plan = []"
| "own_directives Stale_current_action plan = [kp_action plan]"
| "own_directives Stale_unresolved_conflict plan = [kp_action plan, the (kp_conflicting_action plan)]"
| "own_directives Near_duplicate_decoy plan = [kp_action plan]"

definition gives :: "incident_key \<Rightarrow> directive option \<Rightarrow> evidence_chunk \<Rightarrow> bool" where
  "gives k0 a chunk \<longleftrightarrow> (\<forall>key. chunk_directive key chunk = (if key = k0 then a else None))"

lemma plain_current: "plain ''CURRENT''" "plain ''SUPERSEDED''" "plain ''sample count increased''"
  by (simp_all add: plain_def is_space_def)

lemma good_plain: "good_action fam a \<Longrightarrow> plain_action fam (Some a)"
  by (simp add: good_action_def plain_action_def)

lemma yields_document:
  assumes "fam \<in> set FAMILIES" and "\<forall>a. action = Some a \<longrightarrow> dv_service a = service_of fam" and "plain_action fam action"
    and "0 \<le> n" and "sg \<in> set (signals_of fam)" and "sy \<in> set (symptoms_of fam)" and "status \<in> {''CURRENT'', ''SUPERSEDED''}"
    and "m \<in> {''2026-08'', ''2026-09''}" and "\<forall>t. sb = Some t \<or> po = Some t \<or> ob = Some t \<longrightarrow> plain t"
  shows "yields E (sbind (effective_date m) (\<lambda>ef. sret (chunk_for slot (service_of fam) (version_text n)
      (fact_text status (service_of fam) (version_text n) sg ef sy action None sb po ob) src)))
    (gives (service_of fam, version_text n, sg)
      (if status = ''CURRENT'' \<and> (\<exists>a. action = Some a \<and> dv_parameters a \<noteq> []) then action else None))"
proof (intro yields_sbind [OF yields_date] yields_sret)
  show "m \<in> {''2026-08'', ''2026-09''}" by fact
  fix ef assume ef: "plain ef"
  let ?c = "chunk_for slot (service_of fam) (version_text n) (fact_text status (service_of fam) (version_text n) sg ef sy action None sb po ob) src"
  have t: "ec_text ?c = fact_text status (service_of fam) (version_text n) sg ef sy action None sb po ob"
    by (simp add: chunk_for_def Let_def)
  have "plain status" using assms(7) plain_current by auto
  then have p: "\<forall>t \<in> {status, service_of fam, version_text n, sg, ef, sy}. plain t"
    using tables_plain(1,2,3) [OF assms(1)] ef plain_version [OF assms(4)] assms(5,6) by blast
  show "gives (service_of fam, version_text n, sg)
      (if status = ''CURRENT'' \<and> (\<exists>a. action = Some a \<and> dv_parameters a \<noteq> []) then action else None) ?c"
    unfolding gives_def chunk_directive_fact [OF assms(1,3) p assms(9) assms(2) t] by auto
qed

lemma current_chunk_unfold:
  "current_chunk slot cf action po src = sbind (effective_date ''2026-09'') (\<lambda>ef. sret (chunk_for slot (cf_service cf) (cf_version cf)
     (fact_text ''CURRENT'' (cf_service cf) (cf_version cf) (cf_signal cf) ef (cf_symptom cf) action None None po None) src))"
  by (simp add: current_chunk_def current_text_def sbind_assoc)

lemma frame_facts:
  assumes "plan_good d plan" and "frame_good d plan cf" and "fam = fst (snd d)"
  shows "fam \<in> set FAMILIES" "cf_service cf = service_of fam" "cf_version cf = version_text (kp_active_version_number plan)"
    "cf_signal cf = kp_signal plan" "kp_signal plan \<in> set (signals_of fam)" "cf_other_signal cf \<in> set (signals_of fam)"
    "cf_symptom cf \<in> set (symptoms_of fam)" "0 \<le> kp_active_version_number plan" "3 \<le> kp_active_version_number plan"
    "good_action fam (kp_action plan)"
  using assms by (auto simp: plan_good_def frame_good_def plan_key_def)

lemma yields_current:
  assumes "plan_good d plan" and "frame_good d plan cf" and "fam = fst (snd d)" and "plain_action fam (Some a)"
    and "dv_service a = service_of fam" and "\<forall>t. po = Some t \<longrightarrow> plain t"
  shows "yields E (current_chunk slot cf (Some a) po src) (gives (plan_key d plan) (if dv_parameters a \<noteq> [] then Some a else None))"
proof -
  note f = frame_facts [OF assms(1-3)]
  have "yields E (current_chunk slot cf (Some a) po src) (gives (service_of fam, version_text (kp_active_version_number plan), kp_signal plan)
      (if ''CURRENT'' = ''CURRENT'' \<and> (\<exists>b. Some a = Some b \<and> dv_parameters b \<noteq> []) then Some a else None))"
    unfolding current_chunk_unfold f(2-4)
    by (rule yields_document [OF f(1) _ assms(4) f(8) f(5) f(7)]) (use assms(5,6) in auto)
  then show ?thesis using assms(3) by (simp add: plan_key_def)
qed

lemma yields_observation:
  assumes "plan_good d plan" and "frame_good d plan cf"
  shows "yields E (observation_chunk cf) (\<lambda>c. \<forall>key. chunk_directive key c = None)"
proof -
  note f = frame_facts [OF assms refl]
  have "yields E (observation_chunk cf) (gives (service_of (fst (snd d)), version_text (kp_active_version_number plan), cf_other_signal cf)
      (if ''CURRENT'' = ''CURRENT'' \<and> (\<exists>b. (None :: directive option) = Some b \<and> dv_parameters b \<noteq> []) then None else None))"
    unfolding observation_chunk_def f(2,3)
    by (rule yields_document [OF f(1) _ _ f(8) f(6) f(7)]) (auto simp: plain_action_def plain_current)
  then show ?thesis by (rule yields_weaken) (simp add: gives_def)
qed

lemma yields_superseded:
  assumes "plan_good d plan" and "frame_good d plan cf" and "fam = fst (snd d)"
  shows "yields E (superseded_chunk fam cf plan) (\<lambda>c. \<forall>key. chunk_directive key c = None)"
proof -
  note f = frame_facts [OF assms]
  let ?a = "\<lambda>wrong. (kp_action plan)\<lparr>dv_service := service_of fam, dv_parameters := wrong\<rparr>"
  let ?v = "\<lambda>back. max 1 (kp_active_version_number plan - back)"
  have gp: "good_params fam (dv_parameters (kp_action plan))" using f(10) by (simp add: good_action_def)
  have "yields E (sbind (effective_date ''2026-08'') (\<lambda>ef. sret (chunk_for ''superseded'' (service_of fam) (version_text (?v k))
      (fact_text ''SUPERSEDED'' (service_of fam) (version_text (?v k)) (kp_signal plan) ef (cf_symptom cf) (Some (?a wrong)) None
        (policy_name plan '''') None None) ''runbook''))) (\<lambda>c. \<forall>key. chunk_directive key c = None)"
    if "good_params fam wrong" for wrong k
  proof -
    have "plain_action fam (Some (?a wrong))" using f(10) that by (simp add: good_action_def plain_action_def)
    then have "yields E (sbind (effective_date ''2026-08'') (\<lambda>ef. sret (chunk_for ''superseded'' (service_of fam) (version_text (?v k))
      (fact_text ''SUPERSEDED'' (service_of fam) (version_text (?v k)) (kp_signal plan) ef (cf_symptom cf) (Some (?a wrong)) None
        (policy_name plan '''') None None) ''runbook'')))
      (gives (service_of fam, version_text (?v k), kp_signal plan)
        (if ''SUPERSEDED'' = ''CURRENT'' \<and> (\<exists>b. Some (?a wrong) = Some b \<and> dv_parameters b \<noteq> []) then Some (?a wrong) else None))"
      using plain_policy [OF f(8), of "''''"] f(5,7) by (intro yields_document [OF f(1)]) auto
    then show ?thesis by (rule yields_weaken) (simp add: gives_def)
  qed
  then show ?thesis
    unfolding superseded_chunk_def Let_def f(2-4)
    by (intro yields_sbind [OF yields_randint] yields_sbind [OF yields_wrong [OF f(1) f(9) gp]]) auto
qed

lemma yields_decoy_chunk:
  assumes "fam \<in> set FAMILIES" and "dk_service dk = service_of fam" and "dk_version dk = version_text n" and "0 \<le> n"
    and "dk_signal dk \<in> set (signals_of fam)" and "dk_symptom dk \<in> set (symptoms_of fam)" and "good_action fam (dk_action dk)"
  shows "yields E (decoy_chunk dk) (\<lambda>c. \<forall>key. key \<noteq> (dk_service dk, dk_version dk, dk_signal dk) \<longrightarrow> chunk_directive key c = None)"
proof -
  have "yields E (decoy_chunk dk) (gives (service_of fam, version_text n, dk_signal dk)
      (if ''CURRENT'' = ''CURRENT'' \<and> (\<exists>b. Some (dk_action dk) = Some b \<and> dv_parameters b \<noteq> []) then Some (dk_action dk) else None))"
    unfolding decoy_chunk_def assms(2,3)
    using assms(7) by (intro yields_document [OF assms(1) _ good_plain assms(4,5,6)]) (auto simp: good_action_def)
  then show ?thesis by (rule yields_weaken) (simp add: gives_def assms(2,3))
qed

text \<open>What the evidence of a case says about the keys of a set: its own directives for its own key and
  nothing for any other.\<close>

definition evidence_for :: "incident_key set \<Rightarrow> incident_key \<Rightarrow> directive list \<Rightarrow> evidence_chunk list \<Rightarrow> bool" where
  "evidence_for T k0 ds ev \<longleftrightarrow> (\<forall>key \<in> T. List.map_filter (chunk_directive key) ev = (if key = k0 then ds else []))"

definition expected_of :: "case_category \<Rightarrow> key_plan \<Rightarrow> directive option" where
  "expected_of category plan = (if category \<in> {Answerable, Stale_current_action, Near_duplicate_decoy} then Some (kp_action plan) else None)"

lemma evidence_nil: "evidence_for T k0 [] []"
  by (simp add: evidence_for_def map_filter_simps)

lemma evidence_own: "gives k0 (Some a) c \<Longrightarrow> evidence_for T k0 ds ev \<Longrightarrow> evidence_for T k0 (a # ds) (c # ev)"
  by (simp add: gives_def evidence_for_def map_filter_simps del: split_paired_All)

lemma evidence_none: "(\<And>key. key \<in> T \<Longrightarrow> chunk_directive key c = None) \<Longrightarrow> evidence_for T k0 ds ev \<Longrightarrow> evidence_for T k0 ds (c # ev)"
  by (simp add: evidence_for_def map_filter_simps)

lemmas evidence_rules = evidence_nil evidence_own evidence_none

lemma evidence_after: "\<forall>key. chunk_directive key c = None \<Longrightarrow> gives k0 (Some a) c' \<Longrightarrow> evidence_for T k0 [a] [c, c']"
  by (intro evidence_none evidence_own evidence_nil) auto

lemma gives_None: "gives k0 None c \<Longrightarrow> chunk_directive key c = None"
  by (simp add: gives_def del: split_paired_All)

lemma yields_evidence:
  assumes "plan_good (category, fam, index) plan" and "frame_good (category, fam, index) plan cf"
    and "decoy_good T (category, fam, index) plan"
  shows "yields E (case_evidence category fam cf plan)
    (\<lambda>(ev, ex). evidence_for T (plan_key (category, fam, index) plan) (own_directives category plan) ev \<and> ex = expected_of category plan)"
proof -
  let ?k = "plan_key (category, fam, index) plan"
  note f = frame_facts [OF assms(1,2), of fam, simplified]
  have a: "good_action fam (kp_action plan)" "dv_service (kp_action plan) = service_of fam" "dv_parameters (kp_action plan) \<noteq> []"
    using f(10) by (auto simp: good_action_def good_params_def)
  have cur: "yields E (current_chunk slot cf (Some b) po src) (gives ?k (Some b))"
    if "good_action fam b" "\<forall>t. po = Some t \<longrightarrow> plain t" for slot b po src
    using yields_current [OF assms(1,2), of fam b po E slot src] good_plain [OF that(1)] that
    by (auto simp: good_action_def good_params_def)
  note pol = plain_policy [OF f(8)]
  show ?thesis
  proof (cases category)
    case Answerable
    have "yields E (current_chunk ''current'' cf (Some (kp_action plan)) None ''runbook'') (gives ?k (Some (kp_action plan)))"
      using a by (intro cur) auto
    then show ?thesis unfolding Answerable case_evidence.simps
      by (rule yields_sbind) (simp add: yields_rules evidence_rules expected_of_def)
  next
    case Insufficient_no_guidance
    show ?thesis unfolding Insufficient_no_guidance case_evidence.simps
      by (rule yields_sbind [OF yields_observation [OF assms(1,2)]])
        (auto simp: expected_of_def intro!: yields_rules evidence_rules)
  next
    case Insufficient_missing_parameter
    let ?b = "(kp_action plan)\<lparr>dv_service := cf_service cf, dv_parameters := []\<rparr>"
    have "yields E (current_chunk ''partial'' cf (Some ?b) None ''runbook'') (gives ?k (if dv_parameters ?b \<noteq> [] then Some ?b else None))"
      using a(1) f(2) by (intro yields_current [OF assms(1,2)]) (auto simp: plain_action_def good_action_def)
    then show ?thesis unfolding Insufficient_missing_parameter case_evidence.simps
      by (rule yields_sbind) (auto simp: expected_of_def intro!: yields_rules evidence_rules dest: gives_None)
  next
    case Stale_current_action
    have "yields E (current_chunk ''current'' cf (Some (kp_action plan)) (policy_name plan '''') ''runbook'') (gives ?k (Some (kp_action plan)))"
      using a pol by (intro cur) auto
    from yields_sbind [OF yields_superseded [OF assms(1,2)] yields_sbind [OF this]] show ?thesis
      unfolding Stale_current_action case_evidence.simps
      by (rule yields_weaken) (simp_all add: yields_rules expected_of_def evidence_after del: split_paired_All)
  next
    case Stale_unresolved_conflict
    then obtain b where b: "kp_conflicting_action plan = Some b" "good_action fam b" using assms(1) by (auto simp: plan_good_def)
    have p: "yields E (current_chunk ''policy-a'' cf (Some (kp_action plan)) (policy_name plan ''-a'') ''runbook'') (gives ?k (Some (kp_action plan)))"
      using a pol by (intro cur) auto
    have q: "yields E (current_chunk ''policy-b'' cf (Some b) (policy_name plan ''-b'') ''postmortem'') (gives ?k (Some b))"
      using b pol by (intro cur) auto
    from yields_sbind [OF p yields_sbind [OF q]] show ?thesis
      unfolding Stale_unresolved_conflict case_evidence.simps b(1) option.case
      by (rule yields_weaken) (simp_all add: yields_rules evidence_rules b(1) expected_of_def)
  next
    case Near_duplicate_decoy
    then obtain dk n where dk: "kp_decoy plan = Some dk" "dk_service dk = service_of fam" "dk_version dk = version_text n" "0 \<le> n"
        "dk_signal dk \<in> set (signals_of fam)" "dk_symptom dk \<in> set (symptoms_of fam)" "good_action fam (dk_action dk)"
        "(dk_service dk, dk_version dk, dk_signal dk) \<notin> T"
      using assms(3) by (auto simp: decoy_good_def)
    have "yields E (current_chunk ''current'' cf (Some (kp_action plan)) None ''runbook'') (gives ?k (Some (kp_action plan)))"
      using a by (intro cur) auto
    moreover have "yields E (sret ([c, c'], Some (kp_action plan)))
        (\<lambda>(ev, ex). evidence_for T ?k (own_directives category plan) ev \<and> ex = expected_of category plan)"
      if "gives ?k (Some (kp_action plan)) c" "\<forall>key. key \<noteq> (dk_service dk, dk_version dk, dk_signal dk) \<longrightarrow> chunk_directive key c' = None"
      for c c'
    proof -
      have "evidence_for T ?k [kp_action plan] [c, c']"
        using dk(8) that by (intro evidence_own evidence_none evidence_nil) metis+
      then show ?thesis by (simp add: yields_rules Near_duplicate_decoy expected_of_def)
    qed
    ultimately show ?thesis
      unfolding Near_duplicate_decoy case_evidence.simps dk(1) option.case
      by (rule yields_sbind [OF _ yields_sbind [OF yields_decoy_chunk [OF f(1) dk(2-7)]]])
  qed
qed

section \<open>One case\<close>

lemma incident_key_of_case:
  "derive_incident_key (case_logs cid cf) (case_metrics cid cf) = Inr (cf_service cf, cf_version cf, cf_signal cf)"
  by (simp add: derive_incident_key_def case_logs_def case_metrics_def key_of_row_def map_filter_simps)

lemma templates_format:
  assumes "t \<in> set DEV_QUERY_TEMPLATES \<union> set HELDOUT_QUERY_TEMPLATES"
  shows "\<exists>q. format_template [(''service'', a), (''version'', b), (''signal'', c), (''symptom'', d)] t = Inr q"
  using assms by (auto simp: DEV_QUERY_TEMPLATES_def HELDOUT_QUERY_TEMPLATES_def format_template_def lookup_def)

lemma first_other_signal:
  assumes "fam \<in> set FAMILIES"
  shows "\<exists>g. first_other sg (signals_of fam) = Inr g \<and> g \<in> set (signals_of fam)"
proof -
  obtain a b where ab: "signals_of fam = [a, b]" using tables_plain(7) [OF assms]
    by (auto simp: numeral_2_eq_2 length_Suc_conv)
  then have "a \<noteq> b" using tables_plain(6) [OF assms] by simp
  with ab show ?thesis by (auto simp: first_other_def)
qed

lemma yields_slift_ex: "\<exists>x. r = Inr x \<and> P x \<Longrightarrow> yields E (slift r) P"
  by (auto intro: yields_slift)

text \<open>A case that fits its descriptor and plan.\<close>

definition case_good :: "incident_key set \<Rightarrow> string \<Rightarrow> descriptor \<Rightarrow> key_plan \<Rightarrow> dur056_case \<Rightarrow> bool" where
  "case_good T split_label d plan c \<longleftrightarrow>
     dc_case_id c = (case d of (category, fam, index) \<Rightarrow> case_identifier split_label category fam index) \<and> dc_split c = split_label \<and>
     derive_incident_key (dc_logs c) (dc_metrics c) = Inr (plan_key d plan) \<and>
     dc_expected_action c = expected_of (fst d) plan \<and> dc_family c = fst (snd d) \<and>
     good_action (fst (snd d)) (dc_injection_wrong_action c) \<and> dc_expected_action c \<noteq> Some (dc_injection_wrong_action c) \<and>
     evidence_for T (plan_key d plan) (own_directives (fst d) plan) (dc_evidence c)"

lemma yields_build_case:
  assumes "plan_good (category, fam, index) plan" and "decoy_good T (category, fam, index) plan" and "tv \<in> {1, 2}"
  shows "yields E (build_case split_label category fam index plan tv) (case_good T split_label (category, fam, index) plan)"
proof -
  let ?d = "(category, fam, index)"
  let ?cid = "case_identifier split_label category fam index"
  have fam: "fam \<in> set FAMILIES" and n: "3 \<le> kp_active_version_number plan" and a: "good_action fam (kp_action plan)"
    using assms(1) by (auto simp: plan_good_def)
  then have gp: "good_params fam (dv_parameters (kp_action plan))" by (simp add: good_action_def)
  obtain g where g: "first_other (kp_signal plan) (signals_of fam) = Inr g" "g \<in> set (signals_of fam)"
    using first_other_signal [OF fam] by blast
  let ?cf = "\<lparr>cf_service = service_of fam, cf_version = version_text (kp_active_version_number plan), cf_signal = kp_signal plan,
                cf_other_signal = g, cf_symptom = symptoms_of fam ! (index mod length (symptoms_of fam))\<rparr>"
  have fr: "frame_good ?d plan ?cf"
    using g(2) tables_plain(8) [OF fam] by (auto simp: frame_good_def plan_key_def intro: nth_mem)
  have inj: "\<exists>t. injection_text_for_action ((kp_action plan)\<lparr>dv_service := service_of fam, dv_parameters := wrong\<rparr>) tv = Inr t"
    if "good_params fam wrong" for wrong
    using that assms(3) by (auto simp: injection_text_for_action_def good_params_def)
  let ?ts = "if split_label = ''development'' then DEV_QUERY_TEMPLATES else HELDOUT_QUERY_TEMPLATES"
  have ts: "2 \<le> length ?ts" "set ?ts \<subseteq> set DEV_QUERY_TEMPLATES \<union> set HELDOUT_QUERY_TEMPLATES"
    by (auto simp: DEV_QUERY_TEMPLATES_def HELDOUT_QUERY_TEMPLATES_def)
  have ne: "kp_action plan \<noteq> (kp_action plan)\<lparr>dv_service := service_of fam, dv_parameters := w\<rparr>"
    if "w \<noteq> dv_parameters (kp_action plan)" for w
    using that by (cases "kp_action plan") auto
  note fmt = yields_slift_ex [of _ "\<lambda>_. True", simplified, OF templates_format]
  note ev = yields_evidence [OF assms(1) fr assms(2)]
  note wr = yields_wrong [OF fam n gp]
  show ?thesis
    unfolding build_case_def Let_def
    apply (simp only: lookups [OF fam] g(1) sm_simps incident_key_of_case prod.case)
    apply (rule yields_sbind [OF yields_sample [OF ts(1)]])
    apply clarify
    apply (rule yields_sbind [OF fmt], use ts(2) in blast)
    apply (rule yields_sbind [OF fmt], use ts(2) in blast)
    apply (rule yields_sbind [OF ev])
    apply clarify
    apply (simp only: case_frame.simps)
    apply (rule yields_sbind [OF wr])
    apply (rule yields_sbind [OF yields_slift_ex [of _ "\<lambda>_. True", simplified, OF inj]], blast)
    apply (rule yields_sret)
    using a ne apply (auto simp: case_good_def incident_key_of_case plan_key_def good_action_def expected_of_def)
    done
qed

end
