(* ===== verification/Fixture_Labels.thy ===== *)
theory Fixture_Labels
  imports Fixture_Oracle
begin

text \<open>
  The cases of a split and their labels: the plans of the generator, the cases built from them, and the
  theorem that the oracle run on the whole corpus of a split gives the expected action of every case.
\<close>

section \<open>The plans of a split\<close>

definition identifier_of :: "string \<Rightarrow> descriptor \<Rightarrow> string" where
  "identifier_of split_label d = (case d of (category, fam, index) \<Rightarrow> case_identifier split_label category fam index)"

definition sound_descriptors :: "string \<Rightarrow> bool" where
  "sound_descriptors split_label \<longleftrightarrow>
     length (descriptors split_label) = (if split_label = ''development'' then 30 else 60) \<and> distinct (descriptors split_label) \<and>
     distinct (map (identifier_of split_label) (descriptors split_label)) \<and>
     list_all (\<lambda>d. fst (snd d) \<in> set FAMILIES) (descriptors split_label)"

lemma sound_dev: "sound_descriptors ''development''"
  by code_simp

lemma sound_heldout: "sound_descriptors ''heldout''"
  by code_simp

lemma sound: "sound_descriptors split_label"
proof (cases "split_label = ''development''")
  case True
  then show ?thesis using sound_dev by simp
next
  case False
  then have "descriptors split_label = descriptors ''heldout''" "identifier_of split_label = identifier_of ''heldout''"
    by (simp_all add: descriptors_def identifier_of_def case_identifier_def fun_eq_iff)
  with False sound_heldout show ?thesis by (simp add: sound_descriptors_def)
qed

lemma yields_plan_target:
  assumes "fst (snd d) \<in> set FAMILIES" and "20 \<le> n" and "d \<notin> fst ` set plans"
  shows "yields E (plan_target d n (plans, keys)) (\<lambda>st. \<exists>p. st = (plans @ [(d, p)], List.insert (plan_key d p) keys) \<and>
    plan_good d p \<and> kp_active_version_number p = n)"
proof -
  obtain category fam index where d: "d = (category, fam, index)" by (cases d)
  with assms(1) have fam: "fam \<in> set FAMILIES" by simp
  let ?sg = "signals_of fam ! ((index + category_order category) mod length (signals_of fam))"
  have sg: "?sg \<in> set (signals_of fam)" using tables_plain(7) [OF fam] by (intro nth_mem) simp
  let ?conflict = "\<lambda>a. if category = Stale_unresolved_conflict
     then sbind (wrong_parameters fam (dv_parameters a) (version_text n)) (\<lambda>wrong. sret (Some (a\<lparr>dv_service := service_of fam, dv_parameters := wrong\<rparr>)))
     else sret None"
  have conflict: "yields E (?conflict a) (\<lambda>c. category = Stale_unresolved_conflict \<longrightarrow> (\<exists>b. c = Some b \<and> good_action fam b \<and>
      dv_parameters b \<noteq> dv_parameters a))" if "good_action fam a" for a
  proof (cases "category = Stale_unresolved_conflict")
    case True
    have "good_params fam (dv_parameters a)" using that by (simp add: good_action_def)
    from yields_wrong [OF fam _ this] show ?thesis using True that assms(2)
      by (auto simp: good_action_def intro!: yields_sbind [OF yields_wrong [OF fam]] yields_rules)
  qed (simp add: yields_rules)
  have "yields E (sbind (expected_action_for fam (service_of fam) (version_text n)) (\<lambda>a. sbind (?conflict a) (\<lambda>c.
      sret (dict_set d \<lparr>kp_active_version_number = n, kp_signal = ?sg, kp_action = a, kp_conflicting_action = c, kp_decoy = None\<rparr> plans,
        List.insert (service_of fam, version_text n, ?sg) keys))))
    (\<lambda>st. \<exists>p. st = (plans @ [(d, p)], List.insert (plan_key d p) keys) \<and> plan_good d p \<and> kp_active_version_number p = n)"
    using assms(2) fam sg dict_set_fresh [OF assms(3)]
    by (intro yields_sbind [OF yields_expected [OF fam]] yields_sbind [OF conflict] yields_sret)
      (auto simp: plan_key_def plan_good_def d)
  then show ?thesis unfolding plan_target_def d Let_def by (simp add: lookups [OF fam])
qed

definition planned :: "(descriptor \<times> int) list \<Rightarrow> (descriptor \<times> key_plan) list \<Rightarrow> bool" where
  "planned dns ps \<longleftrightarrow> list_all2 (\<lambda>dn dp. fst dp = fst dn \<and> plan_good (fst dp) (snd dp) \<and> kp_active_version_number (snd dp) = snd dn) dns ps"

lemma yields_plan_targets:
  assumes "\<forall>dn \<in> set dns. fst (snd (fst dn)) \<in> set FAMILIES \<and> 20 \<le> snd dn" and "distinct (map fst plans @ map fst dns)"
  shows "yields E (plan_targets dns (plans, keys))
    (\<lambda>st. \<exists>ps. fst st = plans @ ps \<and> planned dns ps \<and> set (snd st) = set keys \<union> (\<lambda>dp. plan_key (fst dp) (snd dp)) ` set ps)"
  using assms
proof (induction dns arbitrary: plans keys)
  case Nil
  show ?case by (simp add: yields_rules planned_def)
next
  case (Cons dn dns)
  obtain d n where dn: "dn = (d, n)" by (cases dn)
  have t: "yields E (plan_target d n (plans, keys)) (\<lambda>st. \<exists>p. st = (plans @ [(d, p)], List.insert (plan_key d p) keys) \<and>
      plan_good d p \<and> kp_active_version_number p = n)"
    using Cons.prems dn by (intro yields_plan_target) auto
  show ?case unfolding dn plan_targets.simps
  proof (rule yields_sbind [OF t])
    fix st assume "\<exists>p. st = (plans @ [(d, p)], List.insert (plan_key d p) keys) \<and> plan_good d p \<and> kp_active_version_number p = n"
    then obtain p where st: "st = (plans @ [(d, p)], List.insert (plan_key d p) keys)" and p: "plan_good d p" "kp_active_version_number p = n"
      by blast
    show "yields E (plan_targets dns st) (\<lambda>st. \<exists>ps. fst st = plans @ ps \<and> planned ((d, n) # dns) ps \<and>
        set (snd st) = set keys \<union> (\<lambda>dp. plan_key (fst dp) (snd dp)) ` set ps)"
      unfolding st
    proof (rule yields_weaken [OF Cons.IH])
      show "\<forall>dn \<in> set dns. fst (snd (fst dn)) \<in> set FAMILIES \<and> 20 \<le> snd dn" "distinct (map fst (plans @ [(d, p)]) @ map fst dns)"
        using Cons.prems dn by auto
      fix st assume "\<exists>ps. fst st = (plans @ [(d, p)]) @ ps \<and> planned dns ps \<and>
          set (snd st) = set (List.insert (plan_key d p) keys) \<union> (\<lambda>dp. plan_key (fst dp) (snd dp)) ` set ps"
      then obtain ps where "fst st = plans @ ((d, p) # ps)" "planned dns ps"
          "set (snd st) = set (List.insert (plan_key d p) keys) \<union> (\<lambda>dp. plan_key (fst dp) (snd dp)) ` set ps" by auto
      with p show "\<exists>ps. fst st = plans @ ps \<and> planned ((d, n) # dns) ps \<and>
          set (snd st) = set keys \<union> (\<lambda>dp. plan_key (fst dp) (snd dp)) ` set ps"
        by (intro exI [of _ "(d, p) # ps"]) (auto simp: planned_def)
    qed
  qed
qed

text \<open>Decoys change nothing else of a plan, and never take the key of a target.\<close>

definition like :: "key_plan \<Rightarrow> key_plan \<Rightarrow> bool" where
  "like p q \<longleftrightarrow> q\<lparr>kp_decoy := None\<rparr> = p\<lparr>kp_decoy := None\<rparr>"

lemma like_fields:
  assumes "like p q"
  shows "plan_key d q = plan_key d p" "plan_good d q = plan_good d p" "kp_action q = kp_action p"
proof -
  obtain n s a c dk n' s' a' c' dk' where "p = \<lparr>kp_active_version_number = n, kp_signal = s, kp_action = a, kp_conflicting_action = c, kp_decoy = dk\<rparr>"
    "q = \<lparr>kp_active_version_number = n', kp_signal = s', kp_action = a', kp_conflicting_action = c', kp_decoy = dk'\<rparr>"
    by (cases p, cases q)
  with assms show "plan_key d q = plan_key d p" "plan_good d q = plan_good d p" "kp_action q = kp_action p"
    by (auto simp: like_def plan_key_def plan_good_def)
qed

definition crowded :: exn where
  "crowded = ValueError ''cannot assign a collision-free nearby decoy version''"

lemma filter_hd: "filter P xs = y # ys \<Longrightarrow> P y \<and> y \<in> set xs"
  by (metis filter_eq_ConsD in_set_conv_decomp)

lemma yields_plan_decoy:
  assumes "plan_good d p" and "like p q" and "map_of plans d = Some q" and "T \<subseteq> set used"
  shows "yields {crowded} (plan_decoy d p (plans, used)) (\<lambda>st. \<exists>p'. map_of (fst st) = (map_of plans)(d \<mapsto> p') \<and> like p p' \<and>
    decoy_good T d p' \<and> T \<subseteq> set (snd st))"
proof -
  obtain category fam index where d: "d = (category, fam, index)" by (cases d)
  have fam: "fam \<in> set FAMILIES" and n: "20 \<le> kp_active_version_number p" and sg: "kp_signal p \<in> set (signals_of fam)"
    and a: "good_action fam (kp_action p)" using assms(1) by (auto simp: plan_good_def d)
  then have gp: "good_params fam (dv_parameters (kp_action p))" by (simp add: good_action_def)
  have sy: "symptoms_of fam \<noteq> []" using tables_plain(8) [OF fam] by auto
  show ?thesis
  proof (cases "category = Near_duplicate_decoy")
    case False
    then have "plan_decoy d p (plans, used) = sret (plans, used)" by (simp add: plan_decoy_def d)
    moreover have "map_of plans = (map_of plans)(d \<mapsto> q)" using assms(3) by (simp add: fun_upd_idem)
    moreover have "decoy_good T d q" using False by (simp add: decoy_good_def d)
    ultimately show ?thesis using assms(2,4) by (auto intro!: yields_sret exI [of _ q])
  next
    case True
    let ?free = "\<lambda>offsets. filter (\<lambda>n. n > 1 \<and> (service_of fam, version_text n, kp_signal p) \<notin> set used)
        (map (\<lambda>offset. kp_active_version_number p + offset) offsets)"
    let ?dk = "\<lambda>n wrong sy. \<lparr>dk_service = service_of fam, dk_version = version_text n, dk_signal = kp_signal p, dk_symptom = sy,
        dk_action = (kp_action p)\<lparr>dv_service := service_of fam, dv_parameters := wrong\<rparr>\<rparr>"
    let ?last = "\<lambda>n. sbind (wrong_parameters fam (dv_parameters (kp_action p)) (version_text n)) (\<lambda>wrong.
        sbind (choice (symptoms_of fam)) (\<lambda>sy. sret (dict_set d (p\<lparr>kp_decoy := Some (?dk n wrong sy)\<rparr>) plans,
          List.insert (service_of fam, version_text n, kp_signal p) used)))"
    let ?Q = "\<lambda>st. \<exists>p'. map_of (fst st) = (map_of plans)(d \<mapsto> p') \<and> like p p' \<and> decoy_good T d p' \<and> T \<subseteq> set (snd st)"
    have fin: "yields {crowded} (?last m) ?Q" if "3 \<le> m" "(service_of fam, version_text m, kp_signal p) \<notin> set used" for m
    proof (intro yields_sbind [OF yields_wrong [OF fam that(1) gp]] yields_sbind [OF yields_choice [OF sy]] yields_sret)
      fix wrong sy assume w: "good_params fam wrong \<and> wrong \<noteq> dv_parameters (kp_action p)" and s: "sy \<in> set (symptoms_of fam)"
      have "decoy_good T d (p\<lparr>kp_decoy := Some (?dk m wrong sy)\<rparr>)"
        using w s sg that assms(4) a by (auto simp: decoy_good_def d good_action_def)
      then show "?Q (dict_set d (p\<lparr>kp_decoy := Some (?dk m wrong sy)\<rparr>) plans, List.insert (service_of fam, version_text m, kp_signal p) used)"
        using assms(4) by (intro exI [of _ "p\<lparr>kp_decoy := Some (?dk m wrong sy)\<rparr>"]) (auto simp: update_conv like_def)
    qed
    have "yields {crowded} (case ?free offsets of [] \<Rightarrow> sraise crowded | m # _ \<Rightarrow> ?last m) ?Q" if "mset offsets = mset nearby_offsets" for offsets
    proof (cases "?free offsets")
      case Nil
      then show ?thesis by (simp add: yields_sraise)
    next
      case (Cons m ms)
      have "set offsets = set nearby_offsets" using that by (metis set_mset_mset)
      with filter_hd [OF Cons] n have "3 \<le> m" "(service_of fam, version_text m, kp_signal p) \<notin> set used"
        by (auto simp: nearby_offsets_def)
      from fin [OF this] Cons show ?thesis by simp
    qed
    then have "yields {crowded} (sbind (shuffle nearby_offsets) (\<lambda>offsets. case ?free offsets of [] \<Rightarrow> sraise crowded | m # _ \<Rightarrow> ?last m)) ?Q"
      by (rule yields_sbind [OF yields_shuffle])
    then show ?thesis unfolding plan_decoy_def d True Let_def crowded_def by (simp add: lookups [OF fam] cong: list.case_cong)
  qed
qed

lemma yields_plan_decoys:
  assumes "\<forall>dp \<in> set rest. plan_good (fst dp) (snd dp)" and "distinct (map fst rest)" and "T \<subseteq> set used"
    and "\<forall>dp \<in> set rest. \<exists>q. map_of plans (fst dp) = Some q \<and> like (snd dp) q"
  shows "yields {crowded} (plan_decoys rest (plans, used)) (\<lambda>st.
    (\<forall>dp \<in> set rest. \<exists>q. map_of (fst st) (fst dp) = Some q \<and> like (snd dp) q \<and> decoy_good T (fst dp) q) \<and>
    (\<forall>d. d \<notin> fst ` set rest \<longrightarrow> map_of (fst st) d = map_of plans d))"
  using assms
proof (induction rest arbitrary: plans used)
  case Nil
  show ?case by (simp add: yields_rules)
next
  case (Cons dp rest)
  obtain d p where dp: "dp = (d, p)" by (cases dp)
  obtain q where q: "map_of plans d = Some q" "like p q" using Cons.prems(4) dp by auto
  have g: "plan_good d p" using Cons.prems(1) dp by simp
  show ?case unfolding dp plan_decoys.simps
  proof (rule yields_sbind [OF yields_plan_decoy [OF g q(2,1) Cons.prems(3)]])
    fix st assume "\<exists>p'. map_of (fst st) = (map_of plans)(d \<mapsto> p') \<and> like p p' \<and> decoy_good T d p' \<and> T \<subseteq> set (snd st)"
    then obtain p' where p': "map_of (fst st) = (map_of plans)(d \<mapsto> p')" "like p p'" "decoy_good T d p'" "T \<subseteq> set (snd st)" by blast
    have nd: "d \<notin> fst ` set rest" using Cons.prems(2) dp by auto
    have "yields {crowded} (plan_decoys rest (fst st, snd st)) (\<lambda>st'.
      (\<forall>dp \<in> set rest. \<exists>q. map_of (fst st') (fst dp) = Some q \<and> like (snd dp) q \<and> decoy_good T (fst dp) q) \<and>
      (\<forall>e. e \<notin> fst ` set rest \<longrightarrow> map_of (fst st') e = map_of (fst st) e))"
      using Cons.prems dp nd p' by (intro Cons.IH) (auto simp: image_iff)
    then show "yields {crowded} (plan_decoys rest st) (\<lambda>st'.
      (\<forall>dp \<in> set ((d, p) # rest). \<exists>q. map_of (fst st') (fst dp) = Some q \<and> like (snd dp) q \<and> decoy_good T (fst dp) q) \<and>
      (\<forall>e. e \<notin> fst ` set ((d, p) # rest) \<longrightarrow> map_of (fst st') e = map_of plans e))"
      unfolding prod.collapse
    proof (rule yields_weaken)
      fix st' assume r: "(\<forall>dp \<in> set rest. \<exists>q. map_of (fst st') (fst dp) = Some q \<and> like (snd dp) q \<and> decoy_good T (fst dp) q) \<and>
        (\<forall>e. e \<notin> fst ` set rest \<longrightarrow> map_of (fst st') e = map_of (fst st) e)"
      then have "map_of (fst st') d = Some p'" using nd p'(1) by (simp del: split_paired_All)
      with r p' show "(\<forall>dp \<in> set ((d, p) # rest). \<exists>q. map_of (fst st') (fst dp) = Some q \<and> like (snd dp) q \<and> decoy_good T (fst dp) q) \<and>
        (\<forall>e. e \<notin> fst ` set ((d, p) # rest) \<longrightarrow> map_of (fst st') e = map_of plans e)" by (simp del: split_paired_All)
    qed
  qed
qed

section \<open>The cases of a split\<close>

lemma yields_build_rows:
  assumes "\<forall>d \<in> set ds. \<exists>p. map_of plans d = Some p \<and> plan_good d p \<and> decoy_good T d p" and "tv \<in> {1, 2}"
  shows "yields E (build_rows split_label tv plans ds)
    (list_all2 (\<lambda>d c. \<exists>p. map_of plans d = Some p \<and> plan_good d p \<and> case_good T split_label d p c) ds)"
  using assms(1)
proof (induction ds)
  case Nil
  show ?case by (simp add: yields_rules)
next
  case (Cons d ds)
  obtain category fam index where d: "d = (category, fam, index)" by (cases d)
  from Cons.prems obtain p where p: "map_of plans d = Some p" "plan_good d p" "decoy_good T d p" by auto
  have "yields E (sbind (build_case split_label category fam index p tv) (\<lambda>c.
      sbind (build_rows split_label tv plans ds) (\<lambda>cs. sret (c # cs))))
    (list_all2 (\<lambda>d c. \<exists>p. map_of plans d = Some p \<and> plan_good d p \<and> case_good T split_label d p c) (d # ds))"
    using p Cons by (intro yields_sbind [OF yields_build_case [OF _ _ assms(2), of _ _ _ p T]] yields_sbind [OF Cons.IH] yields_sret)
      (auto simp: d)
  with p(1) show ?case by (simp add: d)
qed

text \<open>What is known of the cases before they are sorted and checked: each fits its descriptor, and the keys
  of the plans are the keys that the evidence was built against and are pairwise different.\<close>

definition rows_good :: "string \<Rightarrow> dur056_case list \<Rightarrow> bool" where
  "rows_good split_label rows \<longleftrightarrow> (\<exists>T plans.
     list_all2 (\<lambda>d c. \<exists>p. map_of plans d = Some p \<and> plan_good d p \<and> case_good T split_label d p c) (descriptors split_label) rows \<and>
     (\<forall>d \<in> set (descriptors split_label). plan_key d (the (map_of plans d)) \<in> T) \<and>
     inj_on (\<lambda>d. plan_key d (the (map_of plans d))) (set (descriptors split_label)))"

lemma planned_keys:
  assumes "planned dns ps" and "distinct (map snd dns)" and "distinct (map fst dns)"
  shows "inj_on (\<lambda>dp. plan_key (fst dp) (snd dp)) (set ps)" "map fst ps = map fst dns" "\<forall>dp \<in> set ps. plan_good (fst dp) (snd dp)"
proof -
  have m: "map (kp_active_version_number \<circ> snd) ps = map snd dns" "map fst ps = map fst dns"
    using assms(1) unfolding planned_def by (induction rule: list_all2_induct) auto
  have "inj_on (kp_active_version_number \<circ> snd) (set ps)" using m(1) assms(2) by (metis distinct_map)
  then show "inj_on (\<lambda>dp. plan_key (fst dp) (snd dp)) (set ps)" by (auto simp: inj_on_def plan_key_def)
  show "map fst ps = map fst dns" by (rule m(2))
  show "\<forall>dp \<in> set ps. plan_good (fst dp) (snd dp)"
    using assms(1) unfolding planned_def by (induction rule: list_all2_induct) auto
qed

lemma plans_to_rows:
  assumes "tv \<in> {1, 2}" and "inj_on (\<lambda>dp. plan_key (fst dp) (snd dp)) (set ps)" and "map fst ps = descriptors split_label"
    and "\<forall>dp \<in> set ps. plan_good (fst dp) (snd dp)" and "T = (\<lambda>dp. plan_key (fst dp) (snd dp)) ` set ps"
    and "\<forall>dp \<in> set ps. \<exists>q. map_of plans (fst dp) = Some q \<and> like (snd dp) q \<and> decoy_good T (fst dp) q"
  shows "yields E (build_rows split_label tv plans (descriptors split_label)) (rows_good split_label)"
proof -
  let ?ds = "descriptors split_label"
  let ?m = "map_of plans"
  have all: "\<exists>p q. (d, p) \<in> set ps \<and> ?m d = Some q \<and> like p q \<and> decoy_good T d q" if "d \<in> set ?ds" for d
  proof -
    from that have "d \<in> set (map fst ps)" by (simp only: assms(3))
    then obtain p where "(d, p) \<in> set ps" by auto
    with assms(6) show ?thesis by fastforce
  qed
  have key: "plan_key d (the (?m d)) = plan_key d p" if dp: "(d, p) \<in> set ps" for d p
  proof -
    from assms(6) [rule_format, OF dp] obtain r where "?m d = Some r" "like p r" by auto
    then show ?thesis using like_fields(1) by simp
  qed
  have "inj_on (\<lambda>d. plan_key d (the (?m d))) (set ?ds)"
  proof (rule inj_onI)
    fix d e assume d: "d \<in> set ?ds" and e: "e \<in> set ?ds" and eq: "plan_key d (the (?m d)) = plan_key e (the (?m e))"
    from all [OF d] all [OF e] obtain p p' where m: "(d, p) \<in> set ps" "(e, p') \<in> set ps" by blast
    with eq key have "plan_key (fst (d, p)) (snd (d, p)) = plan_key (fst (e, p')) (snd (e, p'))" by simp
    from inj_onD [OF assms(2) this m] show "d = e" by simp
  qed
  moreover have "\<forall>d \<in> set ?ds. plan_key d (the (?m d)) \<in> T"
  proof
    fix d assume "d \<in> set ?ds"
    from all [OF this] obtain p where "(d, p) \<in> set ps" by blast
    with key [OF this] assms(5) show "plan_key d (the (?m d)) \<in> T" by force
  qed
  moreover have "\<forall>d \<in> set ?ds. \<exists>p. ?m d = Some p \<and> plan_good d p \<and> decoy_good T d p"
  proof
    fix d assume "d \<in> set ?ds"
    from all [OF this] obtain p r where r: "(d, p) \<in> set ps" "?m d = Some r" "like p r" "decoy_good T d r" by blast
    then have "plan_good d r" using assms(4) like_fields(2) [OF r(3), of d] by fastforce
    with r show "\<exists>p. ?m d = Some p \<and> plan_good d p \<and> decoy_good T d p" by blast
  qed
  then have "yields E (build_rows split_label tv plans ?ds)
      (list_all2 (\<lambda>d c. \<exists>p. ?m d = Some p \<and> plan_good d p \<and> case_good T split_label d p c) ?ds)"
    by (rule yields_build_rows [OF _ assms(1)])
  ultimately show ?thesis unfolding rows_good_def by (elim yields_weaken) blast
qed

lemma shuffled_range:
  assumes "mset xs = mset [a..b]"
  shows "length xs = nat (b - a + 1)" "distinct xs" "set xs = {a..b}"
proof -
  have "length xs = length [a..b]" by (rule mset_eq_length [OF assms])
  then show "length xs = nat (b - a + 1)" by simp
  show "distinct xs" using mset_eq_imp_distinct_iff [OF assms] by simp
  show "set xs = {a..b}" using mset_eq_setD [OF assms] by simp
qed

lemma build_plans_rows:
  assumes "tv \<in> {1, 2}"
  shows "yields {crowded} (sbind (build_plans split_label) (\<lambda>st. build_rows split_label tv (fst st) (descriptors split_label)))
    (rows_good split_label)"
proof -
  let ?ds = "descriptors split_label"
  have snd_ok: "length ?ds \<le> 60" "distinct ?ds" "\<forall>d \<in> set ?ds. fst (snd d) \<in> set FAMILIES"
    using sound [of split_label] by (auto simp: sound_descriptors_def list_all_iff)
  have "yields {crowded} (sbind (plan_targets (zip ?ds pool) ([], [])) (\<lambda>st. sbind (plan_decoys (fst st) st) (\<lambda>st.
      build_rows split_label tv (fst st) ?ds))) (rows_good split_label)" if pool: "mset pool = mset [20..1499]" for pool
  proof -
    note perm = shuffled_range [OF pool]
    have l: "length pool = 1480" using perm(1) by simp
    note dp = perm(2) and sp = perm(3)
    let ?dns = "zip ?ds pool"
    have f: "map fst ?dns = ?ds" using l snd_ok(1) by (simp add: map_fst_zip_take)
    have s: "distinct (map snd ?dns)" using dp by (simp add: map_snd_zip_take)
    have ok: "\<forall>dn \<in> set ?dns. fst (snd (fst dn)) \<in> set FAMILIES \<and> 20 \<le> snd dn"
    proof
      fix dn assume "dn \<in> set ?dns"
      then have "fst dn \<in> set ?ds" "snd dn \<in> set pool" by (metis prod.collapse set_zip_leftD, metis prod.collapse set_zip_rightD)
      with snd_ok(3) sp show "fst (snd (fst dn)) \<in> set FAMILIES \<and> 20 \<le> snd dn" by auto
    qed
    have t: "yields {crowded} (plan_targets ?dns ([], [])) (\<lambda>st. \<exists>ps. fst st = [] @ ps \<and> planned ?dns ps \<and>
        set (snd st) = set [] \<union> (\<lambda>dp. plan_key (fst dp) (snd dp)) ` set ps)"
      using ok f snd_ok(2) by (intro yields_plan_targets) auto
    show ?thesis
    proof (rule yields_sbind [OF t])
      fix st assume "\<exists>ps. fst st = [] @ ps \<and> planned ?dns ps \<and> set (snd st) = set [] \<union> (\<lambda>dp. plan_key (fst dp) (snd dp)) ` set ps"
      then obtain ps where ps: "fst st = ps" "planned ?dns ps" "set (snd st) = (\<lambda>dp. plan_key (fst dp) (snd dp)) ` set ps" by auto
      have k: "inj_on (\<lambda>dp. plan_key (fst dp) (snd dp)) (set ps)" "map fst ps = ?ds" "\<forall>dp \<in> set ps. plan_good (fst dp) (snd dp)"
        using planned_keys [OF ps(2) s] f snd_ok(2) by auto
      have dps: "distinct (map fst ps)" using k(2) snd_ok(2) by simp
      let ?T = "set (snd st)"
      have "yields {crowded} (plan_decoys ps (ps, snd st)) (\<lambda>st'.
          (\<forall>dp \<in> set ps. \<exists>q. map_of (fst st') (fst dp) = Some q \<and> like (snd dp) q \<and> decoy_good ?T (fst dp) q) \<and>
          (\<forall>d. d \<notin> fst ` set ps \<longrightarrow> map_of (fst st') d = map_of ps d))"
        using k(3) dps by (intro yields_plan_decoys) (auto simp: like_def intro: map_of_is_SomeI)
      moreover have "(ps, snd st) = st" using ps(1) by auto
      ultimately have dec: "yields {crowded} (plan_decoys (fst st) st) (\<lambda>st'.
          \<forall>dp \<in> set ps. \<exists>q. map_of (fst st') (fst dp) = Some q \<and> like (snd dp) q \<and> decoy_good ?T (fst dp) q)"
        using ps(1) by (auto intro: yields_weaken)
      show "yields {crowded} (sbind (plan_decoys (fst st) st) (\<lambda>st. build_rows split_label tv (fst st) ?ds)) (rows_good split_label)"
        by (rule yields_sbind [OF dec plans_to_rows [OF assms k ps(3)]])
    qed
  qed
  then show ?thesis unfolding build_plans_def sbind_assoc by (rule yields_sbind [OF yields_shuffle])
qed

section \<open>Directives are told apart by their texts\<close>

lemma json_string_version: "json_string (version_text (int n)) = [dquote] @ version_text (int n) @ [dquote]"
proof -
  have "json_char c = [c]" if "is_digit c" for c
    using that by (auto simp: json_char_def is_digit_def Let_def dquote_def backslash_def)
  then have "concat (map json_char (show_nat n)) = show_nat n"
    using show_nat_digits [of _ n] by (induction "show_nat n") (auto simp: map_idI concat_map_singleton cong: map_cong)
  then show ?thesis by (simp add: json_string_def version_text_def json_char_def Let_def dquote_def)
qed

lemma value_text_inject:
  assumes "good_value v" and "good_value w" and "json_dumps isep ksep v = json_dumps isep ksep w"
  shows "v = w"
proof -
  have "hd (show_nat m) \<noteq> dquote" for m
    using show_nat_digits [of "hd (show_nat m)" m] by (auto simp: is_digit_def dquote_def)
  then have "show_nat m \<noteq> dquote # t" for m t by (metis list.sel(1))
  moreover have "dquote # t \<noteq> show_nat m" for m t using calculation by metis
  ultimately show ?thesis using assms
    by (auto simp: good_value_def json_string_version)
qed

lemma directive_text_inject:
  assumes "good_action fam a" and "good_action fam b" and "dv_parameters a \<noteq> dv_parameters b"
  shows "directive_text a \<noteq> directive_text b"
proof
  assume eq: "directive_text a = directive_text b"
  obtain v w where vw: "dv_parameters a = [(param_of fam, v)]" "good_value v" "dv_parameters b = [(param_of fam, w)]" "good_value w"
    using assms(1,2) by (auto simp: good_action_def good_params_def)
  have "directive_text d = ''{'' @ json_string ''action'' @ '':'' @ json_string (action_of fam) @ '','' @ json_string ''parameters'' @ '':{'' @
      json_string (param_of fam) @ '':'' @ json_dumps '','' '':'' x @ ''},'' @ json_string ''service'' @ '':'' @ json_string (service_of fam) @ ''}''"
    if "good_action fam d" "dv_parameters d = [(param_of fam, x)]" for d x
    using that by (simp add: directive_text_def directive_json_def good_action_def)
  from this [OF assms(1) vw(1)] this [OF assms(2) vw(3)] eq
  have "json_dumps '','' '':'' v = json_dumps '','' '':'' w" by simp
  with value_text_inject vw assms(3) show False by auto
qed

section \<open>Labels\<close>

definition label_fits :: "directive list \<Rightarrow> directive option \<Rightarrow> bool" where
  "label_fits ds expected \<longleftrightarrow>
     (\<exists>a. ds = [a] \<and> expected = Some a) \<or> ds = [] \<and> expected = None \<or>
     (\<exists>a b. ds = [a, b] \<and> directive_text a \<noteq> directive_text b \<and> expected = None)"

lemma own_label:
  assumes "plan_good d p"
  shows "label_fits (own_directives (fst d) p) (expected_of (fst d) p)"
proof -
  obtain category fam index where d: "d = (category, fam, index)" by (cases d)
  have g: "good_action fam (kp_action p)" and c: "category = Stale_unresolved_conflict \<Longrightarrow> \<exists>b. kp_conflicting_action p = Some b \<and>
      good_action fam b \<and> dv_parameters b \<noteq> dv_parameters (kp_action p)"
    using assms by (auto simp: plan_good_def d)
  show ?thesis
  proof (cases category)
    case Stale_unresolved_conflict
    with c obtain b where "kp_conflicting_action p = Some b" "good_action fam b" "dv_parameters b \<noteq> dv_parameters (kp_action p)" by blast
    with g directive_text_inject [of fam "kp_action p" b] Stale_unresolved_conflict show ?thesis by (auto simp: label_fits_def expected_of_def d)
  qed (auto simp: label_fits_def expected_of_def d)
qed

definition key_of :: "dur056_case \<Rightarrow> incident_key" where
  "key_of c = projr (derive_incident_key (dc_logs c) (dc_metrics c))"

text \<open>Cases with pairwise different keys, whose evidence says nothing about the keys of the others.\<close>

definition cases_good :: "dur056_case list \<Rightarrow> bool" where
  "cases_good rows \<longleftrightarrow> distinct (map key_of rows) \<and>
     (\<forall>c \<in> set rows. derive_incident_key (dc_logs c) (dc_metrics c) = Inr (key_of c) \<and>
        (\<exists>ds. label_fits ds (dc_expected_action c) \<and> evidence_for (key_of ` set rows) (key_of c) ds (dc_evidence c)))"

lemma fold_collect:
  "fold (collect_directive key) corpus found =
     fold (\<lambda>d. dict_set (directive_text d) d) (List.map_filter (chunk_directive key) corpus) found"
  by (induction corpus arbitrary: found) (auto simp: collect_directive_def map_filter_simps split: option.splits)

lemma map_filter_concat: "List.map_filter f (concat xss) = concat (map (List.map_filter f) xss)"
  by (induction xss) (simp_all add: map_filter_def)

lemma concat_at_key: "distinct (map f xs) \<Longrightarrow> x \<in> set xs \<Longrightarrow> concat (map (\<lambda>y. if f y = f x then g y else []) xs) = g x"
proof (induction xs)
  case (Cons y ys)
  have none: "concat (map (\<lambda>y. if f y = k then g y else []) zs) = []" if "k \<notin> f ` set zs" for k zs
    using that by auto
  show ?case
  proof (cases "x \<in> set ys")
    case True
    then have "f y \<noteq> f x" using Cons.prems(1) by auto
    with Cons True show ?thesis by simp
  next
    case False
    then have "x = y" using Cons.prems(2) by simp
    with none [of "f y" ys] Cons.prems(1) show ?thesis by simp
  qed
qed simp

lemma oracle_agrees:
  assumes "cases_good rows" and "c \<in> set rows"
  shows "corpus_oracle_decision c (concat (map dc_evidence rows)) = Inr (dc_expected_action c)"
proof -
  let ?k = "key_of c"
  have k: "?k \<in> key_of ` set rows" using assms(2) by simp
  obtain ds where ds: "label_fits ds (dc_expected_action c)" "evidence_for (key_of ` set rows) ?k ds (dc_evidence c)"
    using assms by (auto simp: cases_good_def)
  have "List.map_filter (chunk_directive ?k) (dc_evidence c') = (if key_of c' = ?k then List.map_filter (chunk_directive ?k) (dc_evidence c') else [])"
    if "c' \<in> set rows" for c'
    using assms(1) that k by (auto simp: cases_good_def evidence_for_def)
  then have "List.map_filter (chunk_directive ?k) (concat (map dc_evidence rows)) =
      concat (map (\<lambda>c'. if key_of c' = ?k then List.map_filter (chunk_directive ?k) (dc_evidence c') else []) rows)"
    by (simp add: map_filter_concat comp_def cong: map_cong)
  also have "\<dots> = List.map_filter (chunk_directive ?k) (dc_evidence c)"
    using assms by (intro concat_at_key) (auto simp: cases_good_def)
  also have "\<dots> = ds" using ds(2) k by (auto simp: evidence_for_def)
  finally have "fold (collect_directive ?k) (concat (map dc_evidence rows)) [] = fold (\<lambda>d. dict_set (directive_text d) d) ds []"
    by (simp only: fold_collect)
  then have "(case fold (collect_directive ?k) (concat (map dc_evidence rows)) [] of [(_, d)] \<Rightarrow> Some d | _ \<Rightarrow> None) = dc_expected_action c"
    using ds(1) by (auto simp: label_fits_def)
  then show ?thesis using assms by (simp add: corpus_oracle_decision_def cases_good_def)
qed

lemma labels_consistent:
  assumes "cases_good rows"
  shows "validate_key_label_consistency rows = Inr ()"
proof -
  have "\<exists>out. foldR add_label cs outcomes = Inr out \<and> (\<forall>kl \<in> set out. length (snd kl) = 1)"
    if "set cs \<subseteq> set rows" "distinct (map key_of cs)" "\<forall>kl \<in> set outcomes. length (snd kl) = 1 \<and> fst kl \<notin> key_of ` set cs" for cs outcomes
    using that
  proof (induction cs arbitrary: outcomes)
    case (Cons c cs)
    have "key_of c \<notin> fst ` set outcomes" using Cons.prems(3) by auto
    moreover have "derive_incident_key (dc_logs c) (dc_metrics c) = Inr (key_of c)"
      using assms Cons.prems(1) by (auto simp: cases_good_def)
    ultimately have "add_label c outcomes = Inr (outcomes @ [(key_of c, [expected_text c])])"
      by (simp add: add_label_def dict_set_fresh map_of_eq_None_iff [THEN iffD2])
    with Cons show ?case by auto
  qed auto
  from this [of rows "[]"] assms obtain out where "foldR add_label rows [] = Inr out" "\<forall>kl \<in> set out. length (snd kl) = 1"
    by (auto simp: cases_good_def)
  moreover from this(2) have "filter (\<lambda>(key, labels). length labels \<noteq> 1) out = []" by (auto simp: filter_empty_conv)
  ultimately show ?thesis by (simp add: validate_key_label_consistency_def)
qed

lemma labels_valid:
  assumes "cases_good rows"
  shows "validate_corpus_labels rows (concat (map dc_evidence rows)) =
    Inr \<lparr>lr_cases = length rows, lr_correct = int (length rows), lr_mismatches = []\<rparr>"
proof -
  have "mismatch_of (concat (map dc_evidence rows)) c = Inr []" if "c \<in> set rows" for c
    by (simp add: mismatch_of_def oracle_agrees [OF assms that])
  then have "mapR (mismatch_of (concat (map dc_evidence rows))) rows = Inr (map (\<lambda>_. []) rows)"
    by (simp add: mapR_eq_Inr list_all2_conv_all_nth)
  then show ?thesis by (simp add: validate_corpus_labels_def labels_consistent [OF assms] concat_eq_Nil_conv [THEN iffD2])
qed

lemma list_all2_member: "list_all2 P xs ys \<Longrightarrow> y \<in> set ys \<Longrightarrow> \<exists>x \<in> set xs. P x y"
  by (induction rule: list_all2_induct) auto

lemma rows_facts:
  assumes "rows_good split_label rows" and "mset rows' = mset rows"
  shows "cases_good rows'" "check_rows split_label rows' = Inr rows'"
proof -
  let ?ds = "descriptors split_label"
  from assms(1) obtain T plans where l: "list_all2 (\<lambda>d c. \<exists>p. map_of plans d = Some p \<and> plan_good d p \<and> case_good T split_label d p c) ?ds rows"
    and t: "\<forall>d \<in> set ?ds. plan_key d (the (map_of plans d)) \<in> T" and i: "inj_on (\<lambda>d. plan_key d (the (map_of plans d))) (set ?ds)"
    unfolding rows_good_def by blast
  have s: "distinct ?ds" "distinct (map (identifier_of split_label) ?ds)" "length ?ds = (if split_label = ''development'' then 30 else 60)"
    using sound by (simp_all add: sound_descriptors_def)
  have g: "\<exists>d \<in> set ?ds. \<exists>p. map_of plans d = Some p \<and> plan_good d p \<and> case_good T split_label d p c" if "c \<in> set rows" for c
    by (rule list_all2_member [OF l that])
  have k: "map key_of rows = map (\<lambda>d. plan_key d (the (map_of plans d))) ?ds"
    and ids: "map dc_case_id rows = map (identifier_of split_label) ?ds"
    using l by (induction rule: list_all2_induct) (auto simp: case_good_def key_of_def identifier_of_def)
  have dk: "distinct (map key_of rows)" using s(1) i by (simp add: k distinct_map)
  have perm: "distinct (map f rows') = distinct (map f rows)" for f :: "dur056_case \<Rightarrow> 'z"
    using assms(2) by (intro mset_eq_imp_distinct_iff) simp
  have st: "set rows' = set rows" by (rule mset_eq_setD [OF assms(2)])
  have dk': "distinct (map key_of rows')" "distinct (map dc_case_id rows')" "length rows' = length rows"
    using dk s(2) ids mset_eq_length [OF assms(2)] by (simp_all add: perm)
  have kT: "key_of ` set rows' \<subseteq> T"
  proof -
    have "key_of ` set rows' = set (map key_of rows)" using st by simp
    also have "\<dots> \<subseteq> T" unfolding k using t by auto
    finally show ?thesis .
  qed
  show "cases_good rows'"
    unfolding cases_good_def
  proof (intro conjI ballI dk'(1))
    fix c assume "c \<in> set rows'"
    then obtain d p where p: "plan_good d p" "case_good T split_label d p c" using g st by blast
    then show "derive_incident_key (dc_logs c) (dc_metrics c) = Inr (key_of c)" by (simp add: case_good_def key_of_def)
    have "evidence_for (key_of ` set rows') (key_of c) (own_directives (fst d) p) (dc_evidence c)"
      using p(2) kT by (auto simp: case_good_def key_of_def evidence_for_def)
    with own_label [OF p(1)] p(2) show "\<exists>ds. label_fits ds (dc_expected_action c) \<and>
        evidence_for (key_of ` set rows') (key_of c) ds (dc_evidence c)" by (auto simp: case_good_def)
  qed
  have "length rows' = length ?ds" using dk'(3) list_all2_lengthD [OF l] by simp
  moreover have "\<not> list_ex (\<lambda>c. dc_split c \<noteq> split_label) rows'" using g st by (auto simp: list_ex_iff case_good_def)
  ultimately show "check_rows split_label rows' = Inr rows'" using s(3) dk'(2) by (simp add: check_rows_def)
qed

text \<open>An action as registered for a family: its name, its service and exactly the parameters it requires.\<close>

definition typed_action :: "string \<Rightarrow> directive \<Rightarrow> bool" where
  "typed_action fam a \<longleftrightarrow> map_of FAMILY_ACTIONS fam = Some (dv_action a) \<and> map_of SERVICES fam = Some (dv_service a) \<and>
     map_of ACTION_PARAMETERS (dv_action a) = Some (map fst (dv_parameters a))"

definition typed_case :: "dur056_case \<Rightarrow> bool" where
  "typed_case c \<longleftrightarrow> dc_family c \<in> set FAMILIES \<and> typed_action (dc_family c) (dc_injection_wrong_action c) \<and>
     (case dc_expected_action c of None \<Rightarrow> True | Some a \<Rightarrow> typed_action (dc_family c) a \<and> a \<noteq> dc_injection_wrong_action c)"

lemma good_typed: "fam \<in> set FAMILIES \<Longrightarrow> good_action fam a \<Longrightarrow> typed_action fam a"
  using lookups [of fam] by (auto simp: typed_action_def good_action_def good_params_def lookup_def split: option.splits)

lemma rows_typed: "rows_good split_label rows \<Longrightarrow> c \<in> set rows \<Longrightarrow> typed_case c"
proof -
  assume r: "rows_good split_label rows" and c: "c \<in> set rows"
  from r obtain T plans where l: "list_all2 (\<lambda>d c. \<exists>p. map_of plans d = Some p \<and> plan_good d p \<and> case_good T split_label d p c)
      (descriptors split_label) rows" unfolding rows_good_def by blast
  from list_all2_member [OF l c] obtain d p where g: "plan_good d p" "case_good T split_label d p c" by blast
  have fam: "fst (snd d) \<in> set FAMILIES" "good_action (fst (snd d)) (kp_action p)"
    using g(1) by (auto simp: plan_good_def)
  then show "typed_case c" using g(2)
    by (auto simp: typed_case_def case_good_def expected_of_def good_typed)
qed

text \<open>What a build gives, or the error it stops with.\<close>

lemma build_cases_cases:
  obtains (bad_version) "text_version \<notin> {1, 2}" "build_cases random split_label text_version =
      Inl (ValueError ''DUR-056 injection text version must be 1 or 2'')"
  | (crowded) "text_version \<in> {1, 2}" "build_cases random split_label text_version = Inl crowded"
  | (built) rows where "text_version \<in> {1, 2}" "rows_good split_label rows"
      "build_cases random split_label text_version = Inr (sort_key dc_case_id rows)"
      "cases_good (sort_key dc_case_id rows)" "check_rows split_label (sort_key dc_case_id rows) = Inr (sort_key dc_case_id rows)"
proof (cases "text_version \<in> {1, 2}")
  case False
  then show thesis using bad_version by (simp add: build_cases_def)
next
  case True
  let ?seed = "random (if split_label = ''development'' then DEV_SEED else HELDOUT_SEED)"
  let ?rows = "sbind (build_plans split_label) (\<lambda>st. build_rows split_label text_version (fst st) (descriptors split_label))"
  have b: "build_cases random split_label text_version =
      fst (sbind ?rows (\<lambda>rows. slift (check_rows split_label (sort_key dc_case_id rows))) ?seed)"
    using True by (simp add: build_cases_def sbind_assoc)
  obtain r t where rt: "?rows ?seed = (r, t)" by (cases "?rows ?seed")
  from build_plans_rows [OF True, of split_label] have y: "case r of Inl e \<Rightarrow> e \<in> {crowded} | Inr rows \<Rightarrow> rows_good split_label rows"
    unfolding yields_def using rt by (metis fst_conv)
  show thesis
  proof (cases r)
    case (Inl e)
    with y b rt True show thesis using crowded by simp
  next
    case (Inr rows)
    have "cases_good (sort_key dc_case_id rows)" "check_rows split_label (sort_key dc_case_id rows) = Inr (sort_key dc_case_id rows)"
      using rows_facts [of split_label rows "sort_key dc_case_id rows"] y Inr by simp_all
    then show thesis using built True y b rt Inr by (simp add: slift_def)
  qed
qed

text \<open>
  C15. The generated study is solvable as labelled, whatever the random generator draws. Building a split
  either gives exactly the registered number of cases, with different identifiers and different incident
  keys, such that the structural oracle run on the whole corpus of the split returns the expected action of
  every case (the label check finds no mismatch); or it stops because all six versions near some
  near-duplicate target are taken. No other error is possible for a registered injection text.
\<close>

theorem labels_match_oracle:
  "case build_cases random split_label text_version of
     Inl e \<Rightarrow> e = (if text_version \<in> {1, 2} then ValueError ''cannot assign a collision-free nearby decoy version''
                   else ValueError ''DUR-056 injection text version must be 1 or 2'')
   | Inr cases \<Rightarrow> length cases = (if split_label = ''development'' then 30 else 60) \<and> distinct (map dc_case_id cases) \<and>
       distinct (map (\<lambda>c. derive_incident_key (dc_logs c) (dc_metrics c)) cases) \<and>
       validate_corpus_labels cases (concat (map dc_evidence cases)) =
         Inr \<lparr>lr_cases = length cases, lr_correct = int (length cases), lr_mismatches = []\<rparr>"
proof (cases rule: build_cases_cases [of text_version random split_label])
  case (built rows)
  let ?rs = "sort_key dc_case_id rows"
  have "map (\<lambda>c. derive_incident_key (dc_logs c) (dc_metrics c)) ?rs = map Inr (map key_of ?rs)"
    using built(4) by (simp add: cases_good_def)
  then have "distinct (map (\<lambda>c. derive_incident_key (dc_logs c) (dc_metrics c)) ?rs)"
    using built(4) by (simp only: cases_good_def distinct_map inj_on_def) simp
  then show ?thesis using labels_valid [OF built(4)] built(3,5) by (auto simp: check_rows_def split: if_splits)
qed (simp_all add: crowded_def)

text \<open>
  C23. Every generated case is well typed: the expected action, when there is one, is the registered action
  of its family on its service with exactly the parameters that action requires, and so is the wrong action
  that the injected text asks for, which is never the expected one.
\<close>

theorem cases_well_typed:
  "case build_cases random split_label text_version of Inl e \<Rightarrow> True | Inr cases \<Rightarrow> list_all typed_case cases"
  by (cases rule: build_cases_cases [of text_version random split_label]) (auto simp: list_all_iff intro: rows_typed)

end
