(* ===== verification/Scorer.thy ===== *)
theory Scorer
  imports Fixture_Labels
begin

text \<open>
  The receipt-gated, resumable one-shot scorer of \<^verbatim>\<open>src/python/incident_agent/dur056_scorer.py\<close>: the check
  of the review receipt, the frozen context, the unit plan and \<^verbatim>\<open>OneShotScorer\<close>, on the files and the
  write operations of the artifact module.

  A run of the scorer mutates its marker and raises through several handlers, so the state carries the
  files, the marker object, the unit being worked on and the units handed to the unit handler so far. What
  the run does not control is a record of inputs indexed by a counter of external calls: the disk, the
  answer of \<^verbatim>\<open>git\<close>, the gate verifier, the unit and final handlers and the clock. The process may die in
  any write; no handler of an exception runs then.
\<close>

section \<open>Errors and inputs\<close>

datatype scorer_exn =
    ScorerError string
  | ArtifactError string
  | ProviderError string int bool
  | UnitWorkflowError string
  | OtherError string string
  | Killed

fun exn_class :: "exn \<Rightarrow> string" where
  "exn_class (ValueError _) = ''ValueError''"
| "exn_class (RuntimeError _) = ''RuntimeError''"
| "exn_class (LookupError _) = ''LookupError''"
| "exn_class (KeyError _) = ''KeyError''"
| "exn_class (TypeError _) = ''TypeError''"
| "exn_class (AttributeError _) = ''AttributeError''"
| "exn_class (OSError _) = ''OSError''"
| "exn_class (UnicodeEncodeError _) = ''UnicodeEncodeError''"
| "exn_class (OverflowError _) = ''OverflowError''"
| "exn_class (JSONDecodeError _) = ''JSONDecodeError''"

fun exn_text :: "exn \<Rightarrow> string" where
  "exn_text (ValueError m) = m"
| "exn_text (RuntimeError m) = m"
| "exn_text (LookupError m) = m"
| "exn_text (KeyError m) = repr_string m"
| "exn_text (TypeError m) = m"
| "exn_text (AttributeError m) = m"
| "exn_text (OSError m) = m"
| "exn_text (UnicodeEncodeError m) = m"
| "exn_text (OverflowError m) = m"
| "exn_text (JSONDecodeError m) = m"

fun from_artifact :: "artifact_exn \<Rightarrow> scorer_exn" where
  "from_artifact (Dur056ArtifactError m) = ArtifactError m"
| "from_artifact (Python e) = OtherError (exn_class e) (exn_text e)"
| "from_artifact Died = Killed"

text \<open>\<^verbatim>\<open>type(error).__name__\<close> and \<^verbatim>\<open>str(error)\<close>.\<close>

fun error_type :: "scorer_exn \<Rightarrow> string" where
  "error_type (ScorerError _) = ''Dur056ScorerError''"
| "error_type (ArtifactError _) = ''Dur056ArtifactError''"
| "error_type (ProviderError _ _ _) = ''Dur056ProviderError''"
| "error_type (UnitWorkflowError _) = ''WorkflowError''"
| "error_type (OtherError c _) = c"
| "error_type Killed = ''''"

fun error_text :: "scorer_exn \<Rightarrow> string" where
  "error_text (ScorerError m) = m"
| "error_text (ArtifactError m) = m"
| "error_text (ProviderError m _ _) = m"
| "error_text (UnitWorkflowError m) = m"
| "error_text (OtherError _ m) = m"
| "error_text Killed = ''''"

record scorer_world =
  sw_disk :: "nat \<Rightarrow> disk"
  sw_replace :: "nat \<Rightarrow> bool"
  sw_fresh :: "files \<Rightarrow> string"
  sw_head :: "nat \<Rightarrow> scorer_exn + string"
  sw_gate :: "nat \<Rightarrow> scorer_exn + unit"
  sw_handler :: "nat \<Rightarrow> string \<Rightarrow> scorer_exn + json"
  sw_finalize :: "nat \<Rightarrow> scorer_exn + unit"
  sw_time :: "nat \<Rightarrow> nat \<Rightarrow> string"
  sw_parse :: "byte list \<Rightarrow> parsed"
  sw_glob :: "files \<Rightarrow> string list"

text \<open>The directories and names of the marker, the units and the receipt, and the frozen identity.\<close>

record scorer =
  sr_directory :: string
  sr_marker :: string
  sr_units :: string
  sr_receipt_directory :: string
  sr_receipt :: string
  sr_head_sha :: string
  sr_retrieval :: string
  sr_agent :: string
  sr_receipt_fp :: string

record scorer_state =
  ss_files :: files
  ss_marker :: "dict option"
  ss_active :: string
  ss_calls :: "string list"
  ss_tick :: nat

type_synonym 'a sc = "(scorer_state, scorer_exn, 'a) sm"

text \<open>Every external call takes the next index.\<close>

definition tick :: "nat sc" where
  "tick s = (Inr (ss_tick s), s\<lparr>ss_tick := Suc (ss_tick s)\<rparr>)"

definition on_files :: "'a af \<Rightarrow> 'a sc" where
  "on_files m s =
     (case m (ss_files s) of
        (Inl e, fs) \<Rightarrow> (Inl (from_artifact e), s\<lparr>ss_files := fs\<rparr>)
      | (Inr x, fs) \<Rightarrow> (Inr x, s\<lparr>ss_files := fs\<rparr>))"

text \<open>\<^verbatim>\<open>try: m except ...: h\<close> and \<^verbatim>\<open>try: m finally: f\<close>, neither of which runs in a process that died.\<close>

definition try_except :: "'a sc \<Rightarrow> (scorer_exn \<Rightarrow> 'a sc) \<Rightarrow> 'a sc" where
  "try_except m h s =
     (case m s of
        (Inl e, t) \<Rightarrow> if e = Killed then (Inl e, t) else h e t
      | (Inr x, t) \<Rightarrow> (Inr x, t))"

definition try_finally :: "'a sc \<Rightarrow> (scorer_state \<Rightarrow> scorer_state) \<Rightarrow> 'a sc" where
  "try_finally m f s = (case m s of (r, t) \<Rightarrow> (r, if r = Inl Killed then t else f t))"

definition stamp :: "scorer_world \<Rightarrow> nat \<Rightarrow> json sc" where
  "stamp w k = sget (\<lambda>s. JStr (sw_time w (ss_tick s) k))"

definition SCORER_SCHEMA :: string where
  "SCORER_SCHEMA = ''dur056-heldout-scorer.v1''"

definition RECEIPT_SCHEMA :: string where
  "RECEIPT_SCHEMA = ''dur056-gate-a-receipt.v1''"

definition RUN_ID :: string where
  "RUN_ID = ''run-001''"

section \<open>The receipt\<close>

definition mismatches :: "(string \<times> string) list \<Rightarrow> dict \<Rightarrow> string list" where
  "mismatches expected d = map fst (filter (\<lambda>(k, v). map_of d k \<noteq> Some (JStr v)) expected)"

definition verify_receipt :: "scorer_world \<Rightarrow> scorer \<Rightarrow> dict sc" where
  "verify_receipt w cf =
     sbind (on_files (read_json (sw_parse w) (sr_receipt_directory cf) (sr_receipt cf))) (\<lambda>receipt.
     let bad = mismatches
           [(''schema'', RECEIPT_SCHEMA), (''reviewer'', ''Claude''), (''verdict'', ''NO_BLOCKING_FINDINGS''),
            (''target_commit'', sr_head_sha cf), (''retrieval_config_fingerprint'', sr_retrieval cf),
            (''agent_config_fingerprint'', sr_agent cf)] receipt
     in sbind (sensure (bad = []) (ScorerError (''held-out scoring receipt is missing or mismatched: '' @ join '', '' bad)))
          (\<lambda>_.
        sbind (sensure (case map_of receipt ''review_round'' of
                 Some v \<Rightarrow> (case as_int v of Some i \<Rightarrow> 1 \<le> i | None \<Rightarrow> False) | None \<Rightarrow> False)
            (ScorerError ''Gate A receipt has no valid review_round'')) (\<lambda>_.
        sret receipt)))"

definition receipt_fingerprint :: "scorer \<Rightarrow> files \<Rightarrow> string" where
  "receipt_fingerprint cf fs =
     ''sha256:'' @ hex (sha256 (case fs (path_join (sr_receipt_directory cf) (sr_receipt cf)) of
       Some bytes \<Rightarrow> bytes | None \<Rightarrow> []))"

definition freeze_fields :: "scorer \<Rightarrow> (string \<times> string) list" where
  "freeze_fields cf =
     [(''head_sha'', sr_head_sha cf), (''retrieval_config_fingerprint'', sr_retrieval cf),
      (''agent_config_fingerprint'', sr_agent cf), (''receipt_fingerprint'', sr_receipt_fp cf)]"

definition assert_unchanged :: "scorer_world \<Rightarrow> scorer \<Rightarrow> dict option \<Rightarrow> unit sc" where
  "assert_unchanged w cf mk =
     sbind tick (\<lambda>n.
     sbind (slift (sw_head w n)) (\<lambda>current_head.
     sbind (sensure (current_head = sr_head_sha cf)
        (ScorerError ''held-out scorer HEAD changed after Gate A review'')) (\<lambda>_.
     sbind (slift (sw_gate w n)) (\<lambda>_.
     sbind (verify_receipt w cf) (\<lambda>_.
     sbind (sget (\<lambda>s. receipt_fingerprint cf (ss_files s) = sr_receipt_fp cf)) (\<lambda>same.
     sbind (sensure same (ScorerError ''Gate A receipt changed after scorer authorization'')) (\<lambda>_.
     case mk of
       None \<Rightarrow> sret ()
     | Some d \<Rightarrow>
         (let bad = mismatches (freeze_fields cf) d
          in sensure (bad = []) (ScorerError
               (''held-out resume marker no longer matches the reviewed freeze: '' @ join '', '' bad))))))))))"

section \<open>The marker\<close>

definition marker_path :: "scorer \<Rightarrow> string" where
  "marker_path cf = path_join (sr_directory cf) (sr_marker cf)"

definition lock_name :: "scorer \<Rightarrow> string" where
  "lock_name cf = sr_marker cf @ ''.lock''"

definition lock_path :: "scorer \<Rightarrow> string" where
  "lock_path cf = path_join (sr_directory cf) (lock_name cf)"

definition temp_path :: "scorer_world \<Rightarrow> scorer \<Rightarrow> files \<Rightarrow> string" where
  "temp_path w cf fs = path_join (sr_directory cf) (''dur056-marker-'' @ sw_fresh w fs @ ''.tmp'')"

definition set_marker :: "dict \<Rightarrow> unit sc" where
  "set_marker d = smodify (\<lambda>s. s\<lparr>ss_marker := Some d\<rparr>)"

definition the_marker :: "dict sc" where
  "the_marker = sget (\<lambda>s. case ss_marker s of Some d \<Rightarrow> d | None \<Rightarrow> [])"

definition set_active :: "string \<Rightarrow> unit sc" where
  "set_active u = smodify (\<lambda>s. s\<lparr>ss_active := u\<rparr>)"

text \<open>\<^verbatim>\<open>atomic_write_json(self.marker_path, marker)\<close>.\<close>

definition save_marker :: "scorer_world \<Rightarrow> scorer \<Rightarrow> unit sc" where
  "save_marker w cf =
     sbind tick (\<lambda>n. sbind the_marker (\<lambda>d. sbind (sget (\<lambda>s. temp_path w cf (ss_files s))) (\<lambda>tmp.
     on_files (atomic_write_json (sw_disk w n) tmp (sw_replace w n) (marker_path cf) d))))"

text \<open>\<^verbatim>\<open>marker.setdefault(key, []).append(value)\<close>; a value that is not a list has no \<^verbatim>\<open>append\<close>.\<close>

definition append_to :: "string \<Rightarrow> json \<Rightarrow> unit sc" where
  "append_to key v =
     sbind the_marker (\<lambda>d.
     case map_of d key of
       None \<Rightarrow> set_marker (dict_set key (JArr [v]) d)
     | Some (JArr xs) \<Rightarrow> set_marker (dict_set key (JArr (xs @ [v])) d)
     | Some _ \<Rightarrow> sraise (OtherError ''AttributeError'' ''object has no attribute append''))"

definition put_marker :: "string \<Rightarrow> json \<Rightarrow> unit sc" where
  "put_marker key v = sbind the_marker (\<lambda>d. set_marker (dict_set key v d))"

definition status_of :: "dict \<Rightarrow> string" where
  "status_of d = (case map_of d ''status'' of Some v \<Rightarrow> py_str v | None \<Rightarrow> '''')"

definition resume_marker :: "scorer_world \<Rightarrow> scorer \<Rightarrow> bool \<Rightarrow> unit sc" where
  "resume_marker w cf resume =
     sbind (sensure resume (ScorerError ''a DUR-056 held-out run already exists; explicit resume required'')) (\<lambda>_.
     sbind (on_files (read_json (sw_parse w) (sr_directory cf) (sr_marker cf))) (\<lambda>marker.
     sbind (set_marker marker) (\<lambda>_.
     sbind (sensure (map_of marker ''status'' \<noteq> Some (JStr ''COMPLETE''))
        (ScorerError ''DUR-056 held-out freeze is already COMPLETE'')) (\<lambda>_.
     sbind (sensure (take 8 (status_of marker) = ''ABORTED_'')
        (ScorerError ''resume is allowed only after an ABORTED_* marker'')) (\<lambda>_.
     sbind (assert_unchanged w cf (Some marker)) (\<lambda>_.
     let from_status = (case map_of marker ''status'' of Some v \<Rightarrow> v | None \<Rightarrow> JNull) in
     sbind (stamp w 0) (\<lambda>t0.
     sbind (append_to ''events'' (JObj [(''type'', JStr ''RESUME''), (''timestamp'', t0), (''from_status'', from_status)])) (\<lambda>_.
     sbind (stamp w 1) (\<lambda>t1.
     sbind (append_to ''resumes'' (JObj [(''timestamp'', t1), (''from_status'', from_status)])) (\<lambda>_.
     sbind (put_marker ''status'' (JStr ''RUNNING'')) (\<lambda>_.
     sbind (stamp w 2) (\<lambda>t2.
     sbind (put_marker ''resumed_at'' t2) (\<lambda>_.
     save_marker w cf)))))))))))))"

definition new_marker :: "scorer \<Rightarrow> json \<Rightarrow> json \<Rightarrow> dict" where
  "new_marker cf t0 t1 =
     [(''schema'', JStr SCORER_SCHEMA), (''run_id'', JStr RUN_ID), (''status'', JStr ''RUNNING''),
      (''head_sha'', JStr (sr_head_sha cf)), (''retrieval_config_fingerprint'', JStr (sr_retrieval cf)),
      (''agent_config_fingerprint'', JStr (sr_agent cf)), (''receipt_fingerprint'', JStr (sr_receipt_fp cf)),
      (''started_at'', t0), (''completed_units'', JArr []),
      (''events'', JArr [JObj [(''type'', JStr ''START''), (''timestamp'', t1)]]),
      (''aborts'', JArr []), (''resumes'', JArr [])]"

definition create_marker :: "scorer_world \<Rightarrow> scorer \<Rightarrow> bool \<Rightarrow> unit sc" where
  "create_marker w cf resume =
     sbind (sensure (\<not> resume) (ScorerError ''cannot resume DUR-056 without an abort marker'')) (\<lambda>_.
     sbind (stamp w 0) (\<lambda>t0. sbind (stamp w 1) (\<lambda>t1.
     sbind (set_marker (new_marker cf t0 t1)) (\<lambda>_.
     sbind tick (\<lambda>n.
     on_files (create_exclusive_json (sw_disk w n) (sr_directory cf) (sr_marker cf) (new_marker cf t0 t1)))))))"

section \<open>Units\<close>

definition unit_exists :: "scorer \<Rightarrow> files \<Rightarrow> string \<Rightarrow> bool" where
  "unit_exists cf fs u \<longleftrightarrow> fs (unit_path (sr_units cf) u) \<noteq> None"

text \<open>\<^verbatim>\<open>path.stem\<close> of a name that ends in \<^verbatim>\<open>.json\<close>.\<close>

definition stem :: "string \<Rightarrow> string" where
  "stem name = take (length name - 5) name"

definition load_unit :: "scorer_world \<Rightarrow> scorer \<Rightarrow> string list \<Rightarrow> string \<Rightarrow> string sc" where
  "load_unit w cf unit_ids name =
     sbind (try_except (on_files (read_json (sw_parse w) (sr_units cf) name))
        (\<lambda>e. case e of ArtifactError _ \<Rightarrow> sraise (ScorerError (''invalid completed unit file '' @ name)) | _ \<Rightarrow> sraise e)) (\<lambda>row.
     let u = (case map_of row ''unit_id'' of Some v \<Rightarrow> py_str v | None \<Rightarrow> '''') in
     sbind (sensure (u \<in> set unit_ids \<and> stem name = u)
        (ScorerError (''unexpected DUR-056 completed unit '' @ name))) (\<lambda>_.
     sbind (sensure (mismatches (take 3 (freeze_fields cf)) row = [])
        (ScorerError (''completed unit '' @ u @ '' belongs to another freeze''))) (\<lambda>_.
     sret u)))"

fun load_units :: "scorer_world \<Rightarrow> scorer \<Rightarrow> string list \<Rightarrow> string list \<Rightarrow> string list sc" where
  "load_units w cf unit_ids [] = sret []"
| "load_units w cf unit_ids (name # names) =
     sbind (load_unit w cf unit_ids name) (\<lambda>u. sbind (load_units w cf unit_ids names) (\<lambda>us. sret (u # us)))"

definition load_existing_units :: "scorer_world \<Rightarrow> scorer \<Rightarrow> string list \<Rightarrow> string list sc" where
  "load_existing_units w cf unit_ids = sbind (sget (\<lambda>s. sw_glob w (ss_files s))) (load_units w cf unit_ids)"

text \<open>The fields every row carries, after those of its outcome.\<close>

definition unit_row :: "scorer \<Rightarrow> string \<Rightarrow> json \<Rightarrow> dict \<Rightarrow> dict" where
  "unit_row cf u t d =
     fold (\<lambda>(k, v). dict_set k v)
       [(''schema'', JStr (SCORER_SCHEMA @ ''.unit'')), (''unit_id'', JStr u), (''run_id'', JStr RUN_ID),
        (''head_sha'', JStr (sr_head_sha cf)), (''retrieval_config_fingerprint'', JStr (sr_retrieval cf)),
        (''agent_config_fingerprint'', JStr (sr_agent cf)), (''completed_at'', t)] d"

text \<open>\<^verbatim>\<open>sorted(set(marker["completed_units"]) | {unit_id})\<close>; the entries are strings.\<close>

definition strings_of :: "json \<Rightarrow> string list" where
  "strings_of v = (case v of JArr xs \<Rightarrow> List.map_filter as_str xs | _ \<Rightarrow> [])"

definition add_completed :: "string \<Rightarrow> unit sc" where
  "add_completed u =
     sbind the_marker (\<lambda>d.
     set_marker (dict_set ''completed_units''
       (JArr (map JStr (sort (remdups (u # (case map_of d ''completed_units'' of Some v \<Rightarrow> strings_of v | None \<Rightarrow> [])))))) d))"

definition write_unit :: "scorer_world \<Rightarrow> scorer \<Rightarrow> string \<Rightarrow> dict \<Rightarrow> unit sc" where
  "write_unit w cf u row =
     sbind tick (\<lambda>n.
     sbind (on_files (write_unit_once (sw_disk w n) (sr_units cf) u (JObj row))) (\<lambda>_. sret ()))"

definition record_unit :: "scorer_world \<Rightarrow> scorer \<Rightarrow> string \<Rightarrow> dict \<Rightarrow> unit sc" where
  "record_unit w cf u outcome =
     sbind (stamp w 0) (\<lambda>t.
     sbind (write_unit w cf u (unit_row cf u t outcome)) (\<lambda>_.
     sbind (add_completed u) (\<lambda>_.
     save_marker w cf)))"

definition error_row :: "string \<Rightarrow> string \<Rightarrow> int \<Rightarrow> dict" where
  "error_row status e attempts =
     [(''outcome'', JStr ''NOT_SAFE''), (''status'', JStr status), (''error'', JStr (take 500 e)), (''attempts'', JInt attempts)]"

text \<open>An abort: the marker says where and why the run stopped, and is saved.\<close>

definition abort :: "scorer_world \<Rightarrow> scorer \<Rightarrow> string \<Rightarrow> scorer_exn \<Rightarrow> unit sc" where
  "abort w cf u e =
     sbind (stamp w 0) (\<lambda>t.
     let entry = JObj [(''type'', JStr ''ABORTED_INFRASTRUCTURE''), (''timestamp'', t), (''failing_unit'', JStr u),
           (''error_type'', JStr (error_type e)), (''error'', JStr (take 1000 (error_text e)))]
     in sbind (put_marker ''status'' (JStr ''ABORTED_INFRASTRUCTURE'')) (\<lambda>_.
        sbind (put_marker ''failing_unit'' (JStr u)) (\<lambda>_.
        sbind (put_marker ''aborted_at'' t) (\<lambda>_.
        sbind (append_to ''aborts'' entry) (\<lambda>_.
        sbind (append_to ''events'' entry) (\<lambda>_.
        save_marker w cf))))))"

definition abort_message :: "string \<Rightarrow> scorer_exn \<Rightarrow> scorer_exn" where
  "abort_message u e = ScorerError (''DUR-056 infrastructure abort at '' @ u @ '': '' @ error_type e @ '': '' @ error_text e)"

definition handle_unit :: "scorer_world \<Rightarrow> scorer \<Rightarrow> string \<Rightarrow> unit sc" where
  "handle_unit w cf u =
     sbind the_marker (\<lambda>mk.
     sbind (assert_unchanged w cf (Some mk)) (\<lambda>_.
     sbind tick (\<lambda>n.
     sbind (smodify (\<lambda>s. s\<lparr>ss_calls := ss_calls s @ [u]\<rparr>)) (\<lambda>_.
     sbind (slift (sw_handler w n u)) (\<lambda>result.
     case as_dict result of
       None \<Rightarrow> sraise (ScorerError ''unit handler must return a JSON object'')
     | Some d \<Rightarrow> record_unit w cf u d)))))"

definition unit_failed :: "scorer_world \<Rightarrow> scorer \<Rightarrow> string \<Rightarrow> scorer_exn \<Rightarrow> unit sc" where
  "unit_failed w cf u e =
     (case e of
        ProviderError m attempts uncertain \<Rightarrow>
          record_unit w cf u (error_row ''PROVIDER_ERROR'' m attempts @ [(''uncertain'', JBool uncertain)])
      | UnitWorkflowError m \<Rightarrow> record_unit w cf u (error_row ''WORKFLOW_ERROR'' m 0)
      | _ \<Rightarrow> sbind (abort w cf u e) (\<lambda>_. sraise (abort_message u e)))"

definition process_unit :: "scorer_world \<Rightarrow> scorer \<Rightarrow> string \<Rightarrow> unit sc" where
  "process_unit w cf u =
     sbind (sget (\<lambda>s. unit_exists cf (ss_files s) u)) (\<lambda>done.
     if done then sret ()
     else sbind (set_active u) (\<lambda>_. try_except (handle_unit w cf u) (unit_failed w cf u)))"

fun process_units :: "scorer_world \<Rightarrow> scorer \<Rightarrow> string list \<Rightarrow> unit sc" where
  "process_units w cf [] = sret ()"
| "process_units w cf (u # us) = sbind (process_unit w cf u) (\<lambda>_. process_units w cf us)"

section \<open>A run\<close>

definition finalize :: "scorer_world \<Rightarrow> scorer \<Rightarrow> unit sc" where
  "finalize w cf =
     sbind (set_active ''final-report'') (\<lambda>_.
     sbind the_marker (\<lambda>d.
     sbind (slift (case py_int_json (case map_of d ''finalization_attempts'' of Some v \<Rightarrow> v | None \<Rightarrow> JInt 0) of
              Inl e \<Rightarrow> Inl (OtherError (exn_class e) (exn_text e)) | Inr i \<Rightarrow> Inr i)) (\<lambda>attempts.
     sbind (put_marker ''finalization_attempts'' (JInt (attempts + 1))) (\<lambda>_.
     sbind (stamp w 0) (\<lambda>t.
     sbind (put_marker ''finalizing_at'' t) (\<lambda>_.
     sbind (save_marker w cf) (\<lambda>_.
     sbind tick (\<lambda>n. slift (sw_finalize w n)))))))))"

definition mark_complete :: "scorer_world \<Rightarrow> scorer \<Rightarrow> string list \<Rightarrow> dict sc" where
  "mark_complete w cf unit_ids =
     sbind (put_marker ''status'' (JStr ''COMPLETE'')) (\<lambda>_.
     sbind (stamp w 0) (\<lambda>t0.
     sbind (put_marker ''completed_at'' t0) (\<lambda>_.
     sbind (put_marker ''unit_count'' (JInt (int (length unit_ids)))) (\<lambda>_.
     sbind (put_marker ''completed_units'' (JArr (map JStr unit_ids))) (\<lambda>_.
     sbind (stamp w 1) (\<lambda>t1.
     sbind (append_to ''events'' (JObj [(''type'', JStr ''COMPLETE''), (''timestamp'', t1)])) (\<lambda>_.
     sbind (save_marker w cf) (\<lambda>_.
     the_marker))))))))"

definition run_body :: "scorer_world \<Rightarrow> scorer \<Rightarrow> string list \<Rightarrow> bool \<Rightarrow> bool \<Rightarrow> dict sc" where
  "run_body w cf unit_ids resume finalizes =
     sbind (sget (\<lambda>s. ss_files s (marker_path cf) \<noteq> None)) (\<lambda>present.
     sbind (if present then resume_marker w cf resume else create_marker w cf resume) (\<lambda>_.
     sbind (set_active ''unit-reconciliation'') (\<lambda>_.
     sbind (load_existing_units w cf unit_ids) (\<lambda>existing.
     sbind (put_marker ''completed_units'' (JArr (map JStr (sort (remdups existing))))) (\<lambda>_.
     sbind (save_marker w cf) (\<lambda>_.
     sbind (process_units w cf unit_ids) (\<lambda>_.
     sbind (if finalizes then finalize w cf else sret ()) (\<lambda>_.
     mark_complete w cf unit_ids))))))))"

definition run_failed :: "scorer_world \<Rightarrow> scorer \<Rightarrow> scorer_exn \<Rightarrow> dict sc" where
  "run_failed w cf e =
     sbind (sget (\<lambda>s. case ss_marker s of Some d \<Rightarrow> map_of d ''status'' = Some (JStr ''RUNNING'') | None \<Rightarrow> False)) (\<lambda>running.
     sbind (sget ss_active) (\<lambda>u.
     sbind (if running then abort w cf u e else sret ()) (\<lambda>_.
     sraise (case e of ScorerError _ \<Rightarrow> e | _ \<Rightarrow> abort_message u e))))"

definition unlink_lock :: "scorer \<Rightarrow> scorer_state \<Rightarrow> scorer_state" where
  "unlink_lock cf s = s\<lparr>ss_files := (ss_files s)(lock_path cf := None)\<rparr>"

definition acquire_lock :: "scorer_world \<Rightarrow> scorer \<Rightarrow> unit sc" where
  "acquire_lock w cf =
     sbind (stamp w 0) (\<lambda>t. sbind tick (\<lambda>n.
     try_except (on_files (create_exclusive_json (sw_disk w n) (sr_directory cf) (lock_name cf)
          [(''run_id'', JStr RUN_ID), (''created_at'', t)]))
       (\<lambda>e. case e of
              ArtifactError _ \<Rightarrow> sraise (ScorerError ''another held-out scorer process owns the one-shot lock'')
            | _ \<Rightarrow> sraise e)))"

definition locked_run :: "scorer_world \<Rightarrow> scorer \<Rightarrow> string list \<Rightarrow> bool \<Rightarrow> bool \<Rightarrow> dict sc" where
  "locked_run w cf unit_ids resume finalizes =
     sbind (smodify (\<lambda>s. s\<lparr>ss_marker := None, ss_active := ''marker-initialization''\<rparr>)) (\<lambda>_.
     try_finally (try_except (run_body w cf unit_ids resume finalizes) (run_failed w cf)) (unlink_lock cf))"

definition run :: "scorer_world \<Rightarrow> scorer \<Rightarrow> string list \<Rightarrow> bool \<Rightarrow> bool \<Rightarrow> dict sc" where
  "run w cf unit_ids resume finalizes =
     sbind (sensure (unit_ids \<noteq> [] \<and> distinct unit_ids)
        (ScorerError ''held-out scorer unit plan must be non-empty and unique'')) (\<lambda>_.
     sbind (assert_unchanged w cf None) (\<lambda>_.
     sbind (acquire_lock w cf) (\<lambda>_.
     locked_run w cf unit_ids resume finalizes)))"

section \<open>The unit plan and the frozen context\<close>

definition ARMS :: "string list" where
  "ARMS = [''no_retrieval'', ''keyword'', ''dense'', ''hybrid'']"

definition heldout_unit_ids :: "dur056_case list \<Rightarrow> scorer_exn + string list" where
  "heldout_unit_ids cases =
     (if length cases \<noteq> 60 \<or> list_ex (\<lambda>c. dc_split c \<noteq> ''heldout'') cases
      then Inl (ScorerError ''held-out unit plan requires the registered 60 cases'')
      else Inr ([''heldout-embedding-preparation''] @
        concat (map (\<lambda>arm. map (\<lambda>c. ''primary-'' @ arm @ ''-'' @ dc_case_id c) cases) ARMS) @
        concat (map (\<lambda>profile. concat (map (\<lambda>condition. map (\<lambda>c. ''injection-'' @ profile @ ''-'' @ condition @ ''-'' @ dc_case_id c) cases)
          [''clean-a'', ''clean-b'', ''injected''])) [''defended'', ''plain''])))"

text \<open>\<^verbatim>\<open>directory.glob(prefix + "*.json")\<close> on the names of a directory.\<close>

definition glob_json :: "string \<Rightarrow> string list \<Rightarrow> string list" where
  "glob_json pre names =
     filter (\<lambda>n. take (length pre) n = pre \<and> length pre + 5 \<le> length n \<and> drop (length n - 5) n = ''.json'') names"

definition latest_freeze :: "string list \<Rightarrow> scorer_exn + string" where
  "latest_freeze names =
     (case sort (glob_json ''gate-a-freeze-review-r209-v3-'' names) of
        [p] \<Rightarrow> Inr p
      | _ # _ # _ \<Rightarrow> Inl (ScorerError ''expected exactly one committed DUR-056 R209 Gate A freeze bundle'')
      | [] \<Rightarrow>
          (case sort (glob_json ''gate-a-freeze-review-v3-'' names) of
             [p] \<Rightarrow> Inr p
           | _ \<Rightarrow> Inl (ScorerError ''expected exactly one committed DUR-056 v3 Gate A freeze bundle'')))"

record frozen_context =
  fc_freeze_path :: string
  fc_bundle :: dict
  fc_retrieval :: dict
  fc_agent :: dict
  fc_retrieval_fingerprint :: string
  fc_agent_fingerprint :: string
  fc_receipt_fingerprint :: string
  fc_head_sha :: string
  fc_retrieval_path :: string
  fc_agent_path :: string

definition STUDY_VERSION :: string where
  "STUDY_VERSION = ''dur056-solvable-evidence-v3''"

definition bundle_entry :: "string \<Rightarrow> dict \<Rightarrow> scorer_exn + string" where
  "bundle_entry key bundle =
     (case map_of bundle key of None \<Rightarrow> Inl (OtherError ''KeyError'' (repr_string key)) | Some v \<Rightarrow> Inr (py_str v))"

definition check_bundle :: "dict \<Rightarrow> unit sc" where
  "check_bundle bundle =
     sbind (sensure (case map_of bundle ''freeze_fingerprint'' of
              None \<Rightarrow> True | Some JNull \<Rightarrow> True
            | Some claimed \<Rightarrow> JStr (fingerprint (JObj (filter (\<lambda>(k, _). k \<noteq> ''freeze_fingerprint'') bundle))) = claimed)
        (ScorerError ''DUR-056 Gate A freeze bundle fingerprint is invalid'')) (\<lambda>_.
     sensure (map_of bundle ''heldout_scored'' = Some (JBool False) \<and> map_of bundle ''gate'' = Some (JStr ''A'') \<and>
              map_of bundle ''study_version'' = Some (JStr STUDY_VERSION))
        (ScorerError ''DUR-056 Gate A freeze bundle is not eligible''))"

definition lift_artifact :: "artifact_exn + 'a \<Rightarrow> 'a sc" where
  "lift_artifact r = slift (case r of Inl e \<Rightarrow> Inl (from_artifact e) | Inr x \<Rightarrow> Inr x)"

definition load_frozen_context :: "scorer_world \<Rightarrow> string \<Rightarrow> string list \<Rightarrow> frozen_context sc" where
  "load_frozen_context w directory names =
     sbind (slift (latest_freeze names)) (\<lambda>freeze_path.
     sbind (on_files (read_json (sw_parse w) directory freeze_path)) (\<lambda>bundle.
     sbind (check_bundle bundle) (\<lambda>_.
     sbind (slift (bundle_entry ''retrieval_config_path'' bundle)) (\<lambda>retrieval_path.
     sbind (slift (bundle_entry ''agent_config_path'' bundle)) (\<lambda>agent_path.
     sbind (on_files (read_json (sw_parse w) directory retrieval_path)) (\<lambda>retrieval.
     sbind (on_files (read_json (sw_parse w) directory agent_path)) (\<lambda>agent.
     sbind (lift_artifact (canonical_config_fingerprint retrieval ''config_fingerprint'')) (\<lambda>retrieval_fp.
     sbind (lift_artifact (canonical_config_fingerprint agent ''config_fingerprint'')) (\<lambda>agent_fp.
     sbind (sensure (map_of bundle ''retrieval_config_fingerprint'' = Some (JStr retrieval_fp))
        (ScorerError ''retrieval config differs from the accepted freeze bundle'')) (\<lambda>_.
     sbind (sensure (map_of bundle ''agent_config_fingerprint'' = Some (JStr agent_fp))
        (ScorerError ''agent config differs from the accepted freeze bundle'')) (\<lambda>_.
     sbind tick (\<lambda>n.
     sbind (slift (sw_head w n)) (\<lambda>head_sha.
     let cf = \<lparr>sr_directory = '''', sr_marker = '''', sr_units = '''', sr_receipt_directory = directory,
               sr_receipt = ''gate-a-accepted.json'', sr_head_sha = head_sha, sr_retrieval = retrieval_fp, sr_agent = agent_fp,
               sr_receipt_fp = ''''\<rparr> in
     sbind (verify_receipt w cf) (\<lambda>_.
     sget (\<lambda>s. \<lparr>fc_freeze_path = freeze_path, fc_bundle = bundle, fc_retrieval = retrieval, fc_agent = agent,
       fc_retrieval_fingerprint = retrieval_fp, fc_agent_fingerprint = agent_fp,
       fc_receipt_fingerprint = receipt_fingerprint cf (ss_files s), fc_head_sha = head_sha,
       fc_retrieval_path = retrieval_path, fc_agent_path = agent_path\<rparr>)))))))))))))))"

section \<open>What a run keeps\<close>

text \<open>Files of the model are told apart by directory and name.\<close>

lemma path_join_inj:
  assumes "path_join d n = path_join d' n'" and "CHR ''/'' \<notin> set n" and "CHR ''/'' \<notin> set n'"
  shows "d = d' \<and> n = n'"
proof -
  have "rsplit1 (CHR ''/'') (path_join d n) = Some (d, n)"
    if "CHR ''/'' \<notin> set n" for d n using rsplit1_last [OF that, of d] by (simp add: path_join_def)
  from this [OF assms(2)] this [OF assms(3)] assms(1) show ?thesis by (metis option.inject prod.inject)
qed

definition scorer_ok :: "scorer \<Rightarrow> bool" where
  "scorer_ok cf \<longleftrightarrow>
     sr_units cf \<noteq> sr_directory cf \<and> sr_receipt_directory cf \<noteq> sr_directory cf \<and>
     CHR ''/'' \<notin> set (sr_marker cf) \<and> CHR ''/'' \<notin> set (sr_receipt cf) \<and> drop (length (sr_marker cf) - 4) (sr_marker cf) \<noteq> ''.tmp''"

definition world_ok :: "scorer_world \<Rightarrow> bool" where
  "world_ok w \<longleftrightarrow> (\<forall>fs. CHR ''/'' \<notin> set (sw_fresh w fs))"

definition safe_unit :: "string \<Rightarrow> bool" where
  "safe_unit u \<longleftrightarrow> CHR ''/'' \<notin> set u"

lemma unit_spared:
  assumes "scorer_ok cf" and "world_ok w" and "safe_unit u"
  shows "unit_path (sr_units cf) u \<noteq> marker_path cf" "unit_path (sr_units cf) u \<noteq> lock_path cf"
    "unit_path (sr_units cf) u \<noteq> temp_path w cf fs"
proof -
  have u: "CHR ''/'' \<notin> set (u @ ''.json'')" using assms(3) by (simp add: safe_unit_def)
  have d: "sr_units cf \<noteq> sr_directory cf" and m: "CHR ''/'' \<notin> set (sr_marker cf)"
    using assms(1) by (auto simp: scorer_ok_def)
  show "unit_path (sr_units cf) u \<noteq> marker_path cf"
    using path_join_inj [of _ "u @ ''.json''" "sr_directory cf" "sr_marker cf"] u m d
    by (auto simp: unit_path_def marker_path_def)
  show "unit_path (sr_units cf) u \<noteq> lock_path cf"
    using path_join_inj [of _ "u @ ''.json''" "sr_directory cf" "lock_name cf"] u m d
    by (auto simp: unit_path_def lock_path_def lock_name_def)
  show "unit_path (sr_units cf) u \<noteq> temp_path w cf fs"
    using path_join_inj [of _ "u @ ''.json''" "sr_directory cf" "''dur056-marker-'' @ sw_fresh w fs @ ''.tmp''"] u d assms(2)
    by (auto simp: unit_path_def temp_path_def world_ok_def)
qed

lemma lock_marker_differ: "lock_path cf \<noteq> marker_path cf"
  by (auto simp: lock_path_def marker_path_def lock_name_def path_join_def)

lemma lock_temp_differ:
  assumes "scorer_ok cf" and "world_ok w"
  shows "lock_path cf \<noteq> temp_path w cf fs"
proof
  let ?tmp = "''dur056-marker-'' @ sw_fresh w fs @ ''.tmp''"
  assume "lock_path cf = temp_path w cf fs"
  then have "path_join (sr_directory cf) (lock_name cf) = path_join (sr_directory cf) ?tmp"
    by (simp only: lock_path_def temp_path_def)
  moreover have "CHR ''/'' \<notin> set (lock_name cf)" "CHR ''/'' \<notin> set ?tmp"
    using assms by (auto simp: scorer_ok_def lock_name_def world_ok_def)
  ultimately have "lock_name cf = ?tmp" using path_join_inj by blast
  moreover have "last (lock_name cf) = CHR ''k''" "last ?tmp = CHR ''p''" by (simp_all add: lock_name_def)
  ultimately have "CHR ''k'' = CHR ''p''" by metis
  then show False by simp
qed

lemma preserves_on_files:
  assumes "\<And>s. I s \<Longrightarrow> I (s\<lparr>ss_files := snd (m (ss_files s))\<rparr>)"
  shows "preserves I (on_files m)"
proof -
  have "I (snd (on_files m s))" if "I s" for s
    using assms [OF that] by (cases "m (ss_files s)") (auto simp: on_files_def split: sum.splits)
  then show ?thesis by (simp add: preserves_def)
qed

lemma preserves_try_except [keeps]:
  "preserves I m \<Longrightarrow> (\<And>e. preserves I (h e)) \<Longrightarrow> preserves I (try_except m h)"
  by (auto simp: preserves_def try_except_def split: prod.splits sum.splits)

lemma preserves_try_finally:
  "preserves I m \<Longrightarrow> (\<And>s. I s \<Longrightarrow> I (f s)) \<Longrightarrow> preserves I (try_finally m f)"
  by (auto simp: preserves_def try_finally_def split: prod.splits)

lemma preserves_case_exn [keeps]:
  "(\<And>m. preserves I (f1 m)) \<Longrightarrow> (\<And>m. preserves I (f2 m)) \<Longrightarrow> (\<And>m a b. preserves I (f3 m a b)) \<Longrightarrow>
   (\<And>m. preserves I (f4 m)) \<Longrightarrow> (\<And>c m. preserves I (f5 c m)) \<Longrightarrow> preserves I f6 \<Longrightarrow>
   preserves I (case e of ScorerError m \<Rightarrow> f1 m | ArtifactError m \<Rightarrow> f2 m | ProviderError m a b \<Rightarrow> f3 m a b
     | UnitWorkflowError m \<Rightarrow> f4 m | OtherError c m \<Rightarrow> f5 c m | Killed \<Rightarrow> f6)"
  by (cases e) auto

lemma preserves_case_json [keeps]:
  "preserves I f1 \<Longrightarrow> (\<And>b. preserves I (f2 b)) \<Longrightarrow> (\<And>i. preserves I (f3 i)) \<Longrightarrow> (\<And>t. preserves I (f4 t)) \<Longrightarrow>
   (\<And>t. preserves I (f5 t)) \<Longrightarrow> (\<And>xs. preserves I (f6 xs)) \<Longrightarrow> (\<And>d. preserves I (f7 d)) \<Longrightarrow>
   preserves I (case v of JNull \<Rightarrow> f1 | JBool b \<Rightarrow> f2 b | JInt i \<Rightarrow> f3 i | JFloat t \<Rightarrow> f4 t | JStr t \<Rightarrow> f5 t
     | JArr xs \<Rightarrow> f6 xs | JObj d \<Rightarrow> f7 d)"
  by (cases v) auto

text \<open>
  What the parts of a run keep: a predicate on the files and the calls that does not see the marker object,
  the active unit and the counter, and that the writes of the marker, of a missing unit and of the lock
  respect.
\<close>

locale scorer_invariant =
  fixes w :: scorer_world and cf :: scorer and I :: "files \<Rightarrow> string list \<Rightarrow> bool"
  assumes k_marker: "I fs cs \<Longrightarrow>
      I (snd (atomic_write_json dk (temp_path w cf fs) ok (marker_path cf) d fs)) cs"
    and k_exclusive: "I fs cs \<Longrightarrow> I (snd (create_exclusive_json dk (sr_directory cf) name d fs)) cs"
    and k_unit: "I fs cs \<Longrightarrow> I (snd (write_unit_once dk (sr_units cf) u v fs)) cs"
    and k_unlock: "I fs cs \<Longrightarrow> I (fs(lock_path cf := None)) cs"
begin

definition sinv :: "scorer_state \<Rightarrow> bool" where
  "sinv s \<longleftrightarrow> I (ss_files s) (ss_calls s)"

lemma k_tick [keeps]: "preserves sinv tick"
  by (simp add: preserves_def tick_def sinv_def)

lemma k_sets [keeps]: "preserves sinv (set_marker d)" "preserves sinv (set_active u)"
  by (simp_all add: preserves_def set_marker_def set_active_def smodify_def sinv_def)

lemma k_read [keeps]: "preserves sinv (on_files (read_json p d n))"
proof -
  have "snd (read_json p d n fs) = fs" for fs
    by (auto simp: read_json_def Let_def split: option.splits parsed.splits)
  then show ?thesis by (auto intro!: preserves_on_files simp: sinv_def)
qed

lemma k_small [keeps]: "preserves sinv (stamp w k)" "preserves sinv the_marker"
  by (simp_all add: stamp_def the_marker_def keeps)

lemma k_puts [keeps]: "preserves sinv (put_marker k v)" "preserves sinv (append_to k v)" "preserves sinv (add_completed u)"
  by (simp_all add: put_marker_def append_to_def add_completed_def keeps)

lemma k_save [keeps]: "preserves sinv (save_marker w cf)"
proof -
  have "sinv (snd (save_marker w cf s))" if "sinv s" for s
    using k_marker [of "ss_files s" "ss_calls s"] that
    by (auto simp: save_marker_def sbind_def tick_def the_marker_def sget_def on_files_def sinv_def split: sum.splits prod.splits)
       (metis snd_conv)+
  then show ?thesis by (simp add: preserves_def)
qed

lemma k_lock_file [keeps]: "preserves sinv (on_files (create_exclusive_json dk (sr_directory cf) name d))"
  by (rule preserves_on_files) (auto simp: sinv_def intro: k_exclusive)

lemma k_unit_file [keeps]: "preserves sinv (on_files (write_unit_once dk (sr_units cf) u v))"
  by (rule preserves_on_files) (auto simp: sinv_def intro: k_unit)

lemma k_checks [keeps]: "preserves sinv (verify_receipt w cf)" "preserves sinv (assert_unchanged w cf mk)"
  by (simp_all add: verify_receipt_def assert_unchanged_def Let_def keeps)

lemma k_start [keeps]: "preserves sinv (resume_marker w cf b)" "preserves sinv (create_marker w cf b)"
  "preserves sinv (acquire_lock w cf)"
  by (simp_all add: resume_marker_def create_marker_def acquire_lock_def Let_def keeps)

lemma k_load [keeps]: "preserves sinv (load_units w cf us ns)"
  by (induction ns) (simp_all add: load_unit_def Let_def keeps)

lemma k_existing [keeps]: "preserves sinv (load_existing_units w cf us)"
  by (simp add: load_existing_units_def keeps)

lemma k_record [keeps]: "preserves sinv (record_unit w cf u d)" "preserves sinv (abort w cf u e)"
  by (simp_all add: record_unit_def write_unit_def abort_def Let_def keeps)

lemma k_failed [keeps]: "preserves sinv (unit_failed w cf u e)" "preserves sinv (run_failed w cf e)"
  by (simp_all add: unit_failed_def run_failed_def keeps)

lemma k_end [keeps]: "preserves sinv (finalize w cf)" "preserves sinv (mark_complete w cf us)"
  by (simp_all add: finalize_def mark_complete_def keeps)

end

text \<open>Checks only read: they keep every predicate on the files and the calls.\<close>

lemma reads_keep_files:
  "preserves (\<lambda>s. P (ss_files s) (ss_calls s)) (assert_unchanged w cf mk)"
proof -
  have t: "preserves (\<lambda>s. P (ss_files s) (ss_calls s)) tick" by (simp add: preserves_def tick_def)
  have "snd (read_json p d n fs) = fs" for p d n fs
    by (auto simp: read_json_def Let_def split: option.splits parsed.splits)
  then have "preserves (\<lambda>s. P (ss_files s) (ss_calls s)) (on_files (read_json p d n))" for p d n
    by (auto intro!: preserves_on_files)
  with t show ?thesis by (simp add: assert_unchanged_def verify_receipt_def Let_def keeps)
qed

text \<open>An invariant of a whole run also allows the handler to be called for a unit that has no file.\<close>

locale scorer_run = scorer_invariant +
  assumes k_call: "I fs cs \<Longrightarrow> \<not> unit_exists cf fs u \<Longrightarrow> I fs (cs @ [u])"
begin

lemma k_handle: "triple (\<lambda>s. sinv s \<and> \<not> unit_exists cf (ss_files s) u) (handle_unit w cf u) (\<lambda>_. sinv) sinv"
  unfolding handle_unit_def
proof (rule triple_sbind)
  let ?J = "\<lambda>s. sinv s \<and> \<not> unit_exists cf (ss_files s) u"
  show "triple ?J the_marker (\<lambda>_. ?J) sinv"
    by (simp add: triple_def the_marker_def sget_def)
  fix mk
  have J: "preserves ?J (assert_unchanged w cf (Some mk))"
    using reads_keep_files [of "\<lambda>fs cs. I fs cs \<and> \<not> unit_exists cf fs u" w cf "Some mk"] by (simp add: sinv_def)
  have call: "triple ?J (smodify (\<lambda>s. s\<lparr>ss_calls := ss_calls s @ [u]\<rparr>)) (\<lambda>_. sinv) sinv"
    by (simp add: triple_def smodify_def sinv_def k_call)
  have tk: "preserves ?J tick" by (simp add: preserves_def tick_def sinv_def)
  have rest: "triple sinv (sbind (slift (sw_handler w n u)) (\<lambda>result. case as_dict result of
        None \<Rightarrow> sraise (ScorerError ''unit handler must return a JSON object'')
      | Some d \<Rightarrow> record_unit w cf u d)) (\<lambda>_. sinv) sinv" for n
    by (simp add: preserves_triple [symmetric] keeps)
  show "triple ?J (sbind (assert_unchanged w cf (Some mk)) (\<lambda>_. sbind tick (\<lambda>n.
      sbind (smodify (\<lambda>s. s\<lparr>ss_calls := ss_calls s @ [u]\<rparr>)) (\<lambda>_.
      sbind (slift (sw_handler w n u)) (\<lambda>result. case as_dict result of
        None \<Rightarrow> sraise (ScorerError ''unit handler must return a JSON object'')
      | Some d \<Rightarrow> record_unit w cf u d))))) (\<lambda>_. sinv) sinv"
    by (intro triple_sbind [OF triple_preserves [OF J]] triple_sbind [OF triple_preserves [OF tk]]
        triple_sbind [OF call] rest) simp_all
qed

lemma k_process: "preserves sinv (process_unit w cf u)"
proof -
  have "sinv (snd (process_unit w cf u s))" if "sinv s" for s
  proof (cases "unit_exists cf (ss_files s) u")
    case True
    with that show ?thesis by (simp add: process_unit_def sret_def)
  next
    case False
    let ?s = "s\<lparr>ss_active := u\<rparr>"
    have P: "sinv ?s \<and> \<not> unit_exists cf (ss_files ?s) u" using that False by (simp add: sinv_def)
    obtain q t where h: "handle_unit w cf u ?s = (q, t)" by (cases "handle_unit w cf u ?s")
    have "sinv t" using tripleD [OF k_handle P] h by (cases q) auto
    with h have "sinv (snd (try_except (handle_unit w cf u) (unit_failed w cf u) ?s))"
      using k_failed(1) by (cases q) (auto simp: try_except_def preserves_def)
    then show ?thesis using False by (simp add: process_unit_def set_active_def)
  qed
  then show ?thesis by (simp add: preserves_def)
qed

lemma k_processes [keeps]: "preserves sinv (process_units w cf us)"
  by (induction us) (simp_all add: k_process keeps)

lemma k_body [keeps]: "preserves sinv (run_body w cf us b fin)"
  by (simp add: run_body_def keeps)

lemma k_run: "preserves sinv (run w cf us b fin)"
proof -
  have "preserves sinv (smodify (\<lambda>s. s\<lparr>ss_marker := None, ss_active := ''marker-initialization''\<rparr>) :: unit sc)"
    by (simp add: preserves_def smodify_def sinv_def)
  moreover have "preserves sinv (try_finally (try_except (run_body w cf us b fin) (run_failed w cf)) (unlink_lock cf))"
  proof (rule preserves_try_finally)
    show "preserves sinv (try_except (run_body w cf us b fin) (run_failed w cf))"
      by (rule preserves_try_except [OF k_body k_failed(2)])
    show "sinv s \<Longrightarrow> sinv (unlink_lock cf s)" for s by (simp add: unlink_lock_def sinv_def k_unlock)
  qed
  ultimately show ?thesis by (simp add: run_def locked_run_def keeps)
qed

end

lemma atomic_frame: "p \<noteq> path \<Longrightarrow> p \<noteq> tmp \<Longrightarrow> snd (atomic_write_json dk tmp ok path d fs) p = fs p"
  by (auto simp: atomic_write_json_def unlink_on_error_def sbind_def sraise_def smodify_def write_payload_def
      split: disk.splits)

lemma exclusive_keeps: "fs p = Some b \<Longrightarrow> snd (create_exclusive_json dk directory name d fs) p = Some b"
  by (auto simp: exclusive_run Let_def split: disk.splits)

lemma unit_once_keeps: "fs p = Some b \<Longrightarrow> snd (write_unit_once dk directory u v fs) p = Some b"
  by (simp add: write_unit_once_def publish_keeps sraise_def)

text \<open>A stored unit: its file stays, and the handler is not called for it again.\<close>

definition stored :: "scorer_world \<Rightarrow> scorer \<Rightarrow> string \<Rightarrow> byte list \<Rightarrow> nat \<Rightarrow> files \<Rightarrow> string list \<Rightarrow> bool" where
  "stored w cf u b n fs cs \<longleftrightarrow> scorer_ok cf \<and> world_ok w \<and> safe_unit u \<and>
     fs (unit_path (sr_units cf) u) = Some b \<and> count_list cs u = n"

definition present :: "scorer_world \<Rightarrow> scorer \<Rightarrow> string \<Rightarrow> files \<Rightarrow> string list \<Rightarrow> bool" where
  "present w cf u fs cs \<longleftrightarrow> scorer_ok cf \<and> world_ok w \<and> safe_unit u \<and> unit_exists cf fs u"

interpretation unit_stored: scorer_run w cf "stored w cf u b n" for w cf u b n
proof unfold_locales
  fix fs cs dk ok d name u' v
  show "stored w cf u b n fs cs \<Longrightarrow>
      stored w cf u b n (snd (atomic_write_json dk (temp_path w cf fs) ok (marker_path cf) d fs)) cs"
    using unit_spared [of cf w u] by (simp add: stored_def atomic_frame)
  show "stored w cf u b n fs cs \<Longrightarrow> stored w cf u b n (snd (create_exclusive_json dk (sr_directory cf) name d fs)) cs"
    by (simp add: stored_def exclusive_keeps)
  show "stored w cf u b n fs cs \<Longrightarrow> stored w cf u b n (snd (write_unit_once dk (sr_units cf) u' v fs)) cs"
    by (simp add: stored_def unit_once_keeps)
  show "stored w cf u b n fs cs \<Longrightarrow> stored w cf u b n (fs(lock_path cf := None)) cs"
    using unit_spared [of cf w u] by (simp add: stored_def)
  show "stored w cf u b n fs cs \<Longrightarrow> \<not> unit_exists cf fs u' \<Longrightarrow> stored w cf u b n fs (cs @ [u'])"
    by (auto simp: stored_def unit_exists_def)
qed

interpretation unit_present: scorer_run w cf "present w cf u" for w cf u
proof unfold_locales
  have st: "present w cf u fs cs \<longleftrightarrow> (\<exists>b. stored w cf u b (count_list cs u) fs cs)" for fs cs
    by (auto simp: present_def stored_def unit_exists_def)
  fix fs cs dk ok d name u' v
  show "present w cf u fs cs \<Longrightarrow>
      present w cf u (snd (atomic_write_json dk (temp_path w cf fs) ok (marker_path cf) d fs)) cs"
    unfolding st using unit_stored.k_marker by blast
  show "present w cf u fs cs \<Longrightarrow> present w cf u (snd (create_exclusive_json dk (sr_directory cf) name d fs)) cs"
    unfolding st using unit_stored.k_exclusive by blast
  show "present w cf u fs cs \<Longrightarrow> present w cf u (snd (write_unit_once dk (sr_units cf) u' v fs)) cs"
    unfolding st using unit_stored.k_unit by blast
  show "present w cf u fs cs \<Longrightarrow> present w cf u (fs(lock_path cf := None)) cs"
    unfolding st using unit_stored.k_unlock by blast
  show "present w cf u fs cs \<Longrightarrow> \<not> unit_exists cf fs u' \<Longrightarrow> present w cf u fs (cs @ [u'])"
    by (simp add: present_def)
qed

section \<open>Sequences of runs\<close>

text \<open>Runs of the scorer with any inputs, and changes that others make to files that are neither units nor
  the marker: a new receipt, a lock that an operator removes. The calls of all runs are kept.\<close>

inductive scorer_step :: "scorer \<Rightarrow> string list \<Rightarrow> scorer_state \<Rightarrow> scorer_state \<Rightarrow> bool" for cf us where
  st_run: "world_ok w \<Longrightarrow> scorer_step cf us s (snd (run w cf us b fin s))"
| st_other: "p \<noteq> marker_path cf \<Longrightarrow> (\<forall>u \<in> set us. p \<noteq> unit_path (sr_units cf) u) \<Longrightarrow>
    scorer_step cf us s (s\<lparr>ss_files := (ss_files s)(p := x)\<rparr>)"

inductive_cases scorer_stepE: "scorer_step cf us s t"

lemma scorer_step_stored:
  assumes "scorer_step cf us s t" and "scorer_ok cf" and "u \<in> set us" and "safe_unit u"
    and "ss_files s (unit_path (sr_units cf) u) = Some b" and "count_list (ss_calls s) u = n"
  shows "ss_files t (unit_path (sr_units cf) u) = Some b \<and> count_list (ss_calls t) u = n"
  using assms(1)
proof (cases rule: scorer_step.cases)
  case (st_run w b' fin)
  then have "unit_stored.sinv w cf u b n s" using assms(2-6) by (simp add: unit_stored.sinv_def stored_def)
  then have "unit_stored.sinv w cf u b n t"
    using unit_stored.k_run [of w cf u b n us b' fin] st_run by (simp add: preserves_def)
  then show ?thesis by (simp add: unit_stored.sinv_def stored_def)
next
  case (st_other p x)
  with assms(3,5,6) show ?thesis by auto
qed

text \<open>
  C13. Every unit is scored at most once after it is stored. Along any sequence of runs, resumed or not,
  with any failure of the disk, the handler, the gate or the process, and with other people changing other
  files in between, a unit that has its file keeps exactly that file, and the unit handler is never called
  for it again.
\<close>

theorem unit_scored_once:
  assumes "(scorer_step cf us)\<^sup>*\<^sup>* s t" and "scorer_ok cf" and "u \<in> set us" and "safe_unit u"
    and "ss_files s (unit_path (sr_units cf) u) = Some b"
  shows "ss_files t (unit_path (sr_units cf) u) = Some b \<and> count_list (ss_calls t) u = count_list (ss_calls s) u"
  using assms(1)
proof (induction rule: rtranclp_induct)
  case base
  then show ?case using assms(5) by simp
next
  case (step t t')
  then show ?case using scorer_step_stored [OF step(2) assms(2,3,4)] by simp
qed

section \<open>The end of a run\<close>

lemma on_files_Inr: "on_files m s = (Inr x, t) \<longleftrightarrow> (\<exists>fs. m (ss_files s) = (Inr x, fs) \<and> t = s\<lparr>ss_files := fs\<rparr>)"
  by (auto simp: on_files_def split: prod.splits sum.splits)

lemma save_marker_Inr:
  assumes "save_marker w cf s = (Inr (), t)" and "temp_path w cf (ss_files s) \<noteq> marker_path cf"
  shows "ss_files t (marker_path cf) = Some (payload (JObj (case ss_marker s of Some d \<Rightarrow> d | None \<Rightarrow> []))) \<and>
    ss_marker t = ss_marker s"
  using assms
  by (auto simp: save_marker_def sbind_def tick_def the_marker_def sget_def on_files_Inr atomic_write_json_def
      unlink_on_error_def sraise_def smodify_def write_payload_def split: disk.splits if_splits prod.splits sum.splits
      artifact_exn.splits)

lemma record_unit_exists:
  assumes "record_unit w cf u d s = (Inr (), t)" and "scorer_ok cf" and "world_ok w" and "safe_unit u"
  shows "unit_exists cf (ss_files t) u"
proof -
  from assms(1) obtain row s1 where wr: "write_unit w cf u row s = (Inr (), s1)"
      and rest: "sbind (add_completed u) (\<lambda>_. save_marker w cf) s1 = (Inr (), t)"
    by (auto simp: record_unit_def stamp_def sbind_Inr sget_def)
  from wr have "unit_exists cf (ss_files s1) u"
    by (auto simp: write_unit_def sbind_def tick_def on_files_def write_unit_once_def publish_run sraise_def sret_def
        unit_exists_def split: if_splits disk.splits)
  then have "unit_present.sinv w cf u s1" using assms(2-4) by (simp add: unit_present.sinv_def present_def)
  moreover have "preserves (unit_present.sinv w cf u) (sbind (add_completed u) (\<lambda>_. save_marker w cf))"
    by (intro keeps unit_present.k_puts unit_present.k_save)
  ultimately have "unit_present.sinv w cf u t" using rest by (blast dest: preservesD)
  then show ?thesis by (simp add: unit_present.sinv_def present_def)
qed

lemma process_unit_exists:
  assumes "process_unit w cf u s = (Inr (), t)" and "scorer_ok cf" and "world_ok w" and "safe_unit u"
  shows "unit_exists cf (ss_files t) u"
proof (cases "unit_exists cf (ss_files s) u")
  case True
  with assms(1) show ?thesis by (simp add: process_unit_def sret_def)
next
  case False
  let ?s = "s\<lparr>ss_active := u\<rparr>"
  from False assms(1) have "try_except (handle_unit w cf u) (unit_failed w cf u) ?s = (Inr (), t)"
    by (simp add: process_unit_def set_active_def)
  then consider "handle_unit w cf u ?s = (Inr (), t)"
    | e s1 where "handle_unit w cf u ?s = (Inl e, s1)" "unit_failed w cf u e s1 = (Inr (), t)"
    by (auto simp: try_except_def split: prod.splits sum.splits if_splits)
  then obtain d s2 where "record_unit w cf u d s2 = (Inr (), t)"
  proof cases
    case 1
    then show ?thesis using that
      by (auto simp: handle_unit_def sbind_Inr sraise_def split: option.splits)
  next
    case 2
    then show ?thesis using that
      by (auto simp: unit_failed_def sbind_Inr sraise_def split: scorer_exn.splits)
  qed
  from record_unit_exists [OF this assms(2-4)] show ?thesis .
qed

lemma process_units_exist:
  assumes "process_units w cf us s = (Inr (), t)" and "scorer_ok cf" and "world_ok w" and "\<forall>u \<in> set us. safe_unit u"
  shows "\<forall>u \<in> set us. unit_exists cf (ss_files t) u"
  using assms(1,4)
proof (induction us arbitrary: s)
  case (Cons u us)
  from Cons.prems(1) obtain s1 where p: "process_unit w cf u s = (Inr (), s1)" "process_units w cf us s1 = (Inr (), t)"
    by (auto simp: sbind_Inr)
  have "unit_exists cf (ss_files s1) u" using process_unit_exists [OF p(1) assms(2,3)] Cons.prems(2) by simp
  then have "unit_present.sinv w cf u s1"
    using assms(2,3) Cons.prems(2) by (simp add: unit_present.sinv_def present_def)
  then have "unit_present.sinv w cf u t" by (rule preservesD [OF unit_present.k_processes _ p(2)])
  then have "unit_exists cf (ss_files t) u" by (simp add: unit_present.sinv_def present_def)
  with Cons.IH [OF p(2)] Cons.prems(2) show ?case by simp
qed simp

lemma temp_marker_differ:
  assumes "scorer_ok cf" and "world_ok w"
  shows "temp_path w cf fs \<noteq> marker_path cf"
proof
  let ?tmp = "''dur056-marker-'' @ sw_fresh w fs @ ''.tmp''"
  assume "temp_path w cf fs = marker_path cf"
  then have "path_join (sr_directory cf) ?tmp = path_join (sr_directory cf) (sr_marker cf)"
    by (simp only: marker_path_def temp_path_def)
  moreover have "CHR ''/'' \<notin> set ?tmp" "CHR ''/'' \<notin> set (sr_marker cf)"
    using assms by (auto simp: scorer_ok_def world_ok_def)
  ultimately have m: "sr_marker cf = ?tmp" using path_join_inj by metis
  have "drop (length xs - 4) xs = ''.tmp''" if "xs = ys @ ''.tmp''" for xs ys :: string
    using that by simp
  from this [of ?tmp "''dur056-marker-'' @ sw_fresh w fs"] m have "drop (length (sr_marker cf) - 4) (sr_marker cf) = ''.tmp''"
    by simp
  then show False using assms(1) by (simp add: scorer_ok_def)
qed

lemma put_marker_run:
  "put_marker k v s =
     (Inr (), s\<lparr>ss_marker := Some (dict_set k v (case ss_marker s of Some d \<Rightarrow> d | None \<Rightarrow> []))\<rparr>)"
  by (simp add: put_marker_def the_marker_def set_marker_def smodify_def)

lemma append_to_Inr:
  "append_to k v s = (Inr (), t) \<Longrightarrow> ss_marker s = Some d \<Longrightarrow>
     \<exists>xs. t = s\<lparr>ss_marker := Some (dict_set k (JArr xs) d)\<rparr>"
  by (auto simp: append_to_def the_marker_def set_marker_def smodify_def sraise_def split: option.splits json.splits)

lemma mark_complete_Inr:
  assumes "mark_complete w cf us s = (Inr d, t)" and "scorer_ok cf" and "world_ok w"
  shows "ss_files t (marker_path cf) = Some (payload (JObj d)) \<and> map_of d ''status'' = Some (JStr ''COMPLETE'') \<and>
    map_of d ''completed_units'' = Some (JArr (map JStr us))"
proof -
  let ?m = "dict_set ''completed_units'' (JArr (map JStr us)) (dict_set ''unit_count'' (JInt (int (length us)))
      (dict_set ''completed_at'' (JStr (sw_time w (ss_tick s) 0)) (dict_set ''status'' (JStr ''COMPLETE'')
        (case ss_marker s of Some d \<Rightarrow> d | None \<Rightarrow> []))))"
  let ?e = "JObj [(''type'', JStr ''COMPLETE''), (''timestamp'', JStr (sw_time w (ss_tick s) 1))]"
  let ?s1 = "s\<lparr>ss_marker := Some ?m\<rparr>"
  from assms(1) have rest: "sbind (append_to ''events'' ?e) (\<lambda>_. sbind (save_marker w cf) (\<lambda>_. the_marker)) ?s1 = (Inr d, t)"
    by (simp add: mark_complete_def put_marker_run stamp_def)
  from rest obtain s2 s3 where a: "append_to ''events'' ?e ?s1 = (Inr (), s2)"
    and sv: "save_marker w cf s2 = (Inr (), s3)" and e: "the_marker s3 = (Inr d, t)"
    by (auto simp: sbind_Inr)
  have "ss_marker ?s1 = Some ?m" by simp
  from append_to_Inr [OF a this] obtain xs where s2: "ss_marker s2 = Some (dict_set ''events'' (JArr xs) ?m)" by auto
  from save_marker_Inr [OF sv temp_marker_differ [OF assms(2,3)]] s2 e show ?thesis
    by (auto simp: the_marker_def sget_def)
qed

lemma run_body_Inr:
  assumes "run_body w cf us b fin s = (Inr d, t)" and "scorer_ok cf" and "world_ok w" and "\<forall>u \<in> set us. safe_unit u"
  shows "(\<forall>u \<in> set us. unit_exists cf (ss_files t) u) \<and> ss_files t (marker_path cf) = Some (payload (JObj d)) \<and>
    map_of d ''status'' = Some (JStr ''COMPLETE'') \<and> map_of d ''completed_units'' = Some (JArr (map JStr us))"
proof -
  from assms(1) obtain s1 s2 s3 where p: "process_units w cf us s1 = (Inr (), s2)"
    and f: "(if fin then finalize w cf else sret ()) s2 = (Inr (), s3)" and c: "mark_complete w cf us s3 = (Inr d, t)"
    by (simp add: run_body_def sbind_Inr) blast
  have "unit_exists cf (ss_files t) u" if "u \<in> set us" for u
  proof -
    have "unit_exists cf (ss_files s2) u" using process_units_exist [OF p assms(2-4)] that by blast
    then have i: "unit_present.sinv w cf u s2" using assms(2-4) that by (simp add: unit_present.sinv_def present_def)
    have "preserves (unit_present.sinv w cf u) (if fin then finalize w cf else sret ())"
      by (intro keeps unit_present.k_end(1))
    then have "unit_present.sinv w cf u s3" using i f by (blast dest: preservesD)
    then have "unit_present.sinv w cf u t" by (rule preservesD [OF unit_present.k_end(2) _ c])
    then show ?thesis by (simp add: unit_present.sinv_def present_def)
  qed
  with mark_complete_Inr [OF c assms(2,3)] show ?thesis by blast
qed

lemma locked_run_Inr:
  assumes "locked_run w cf us b fin s = (Inr d, t)"
  shows "\<exists>u s1. run_body w cf us b fin s1 = (Inr d, u) \<and> t = unlink_lock cf u"
  using assms
  by (auto simp: locked_run_def try_finally_def try_except_def run_failed_def sbind_Inr sraise_def
      split: prod.splits sum.splits if_splits)

text \<open>
  A run that returns has finished the study: every unit of the plan has its file, the marker on disk
  is the returned one, it says COMPLETE and lists the whole plan, and the lock is free again. A run that
  got the lock and is not killed leaves the lock free, however it ends.
\<close>

theorem run_completes:
  assumes "scorer_ok cf" and "world_ok w" and "\<forall>u \<in> set us. safe_unit u"
  shows "(run w cf us b fin s = (Inr d, t) \<longrightarrow>
      (\<forall>u \<in> set us. unit_exists cf (ss_files t) u) \<and> ss_files t (marker_path cf) = Some (payload (JObj d)) \<and>
      map_of d ''status'' = Some (JStr ''COMPLETE'') \<and> map_of d ''completed_units'' = Some (JArr (map JStr us))) \<and>
    (locked_run w cf us b fin s = (r, t) \<longrightarrow> r \<noteq> Inl Killed \<longrightarrow> ss_files t (lock_path cf) = None)"
proof -
  have "(\<forall>u \<in> set us. unit_exists cf (ss_files t) u) \<and> ss_files t (marker_path cf) = Some (payload (JObj d)) \<and>
      map_of d ''status'' = Some (JStr ''COMPLETE'') \<and> map_of d ''completed_units'' = Some (JArr (map JStr us))"
    if "run w cf us b fin s = (Inr d, t)"
  proof -
    from that obtain s1 where "locked_run w cf us b fin s1 = (Inr d, t)"
      by (auto simp: run_def sbind_Inr)
    from locked_run_Inr [OF this] obtain s2 v where v: "run_body w cf us b fin s2 = (Inr d, v)" "t = unlink_lock cf v"
      by blast
    have "unit_path (sr_units cf) u \<noteq> lock_path cf" if "u \<in> set us" for u
      using unit_spared(2) [OF assms(1,2)] assms(3) that by blast
    with run_body_Inr [OF v(1) assms] v(2) lock_marker_differ [of cf] show ?thesis
      by (auto simp: unlink_lock_def unit_exists_def)
  qed
  moreover have "ss_files t (lock_path cf) = None" if "locked_run w cf us b fin s = (r, t)" "r \<noteq> Inl Killed"
    using that by (auto simp: locked_run_def try_finally_def unlink_lock_def split: prod.splits if_splits)
  ultimately show ?thesis by blast
qed

section \<open>Runs that are refused\<close>

lemma assert_unchanged_same:
  "\<exists>r t. assert_unchanged w cf mk s = (r, t) \<and> ss_files t = ss_files s \<and> ss_calls t = ss_calls s \<and> ss_marker t = ss_marker s"
proof -
  have "preserves (\<lambda>t. ss_files t = ss_files s \<and> ss_calls t = ss_calls s \<and> ss_marker t = ss_marker s)
      (assert_unchanged w cf mk)"
  proof -
    let ?I = "\<lambda>t. ss_files t = ss_files s \<and> ss_calls t = ss_calls s \<and> ss_marker t = ss_marker s"
    have "preserves ?I tick" by (simp add: preserves_def tick_def)
    moreover have "snd (read_json p d n fs) = fs" for p d n fs
      by (auto simp: read_json_def Let_def split: option.splits parsed.splits)
    then have "preserves ?I (on_files (read_json p d n))" for p d n by (auto intro!: preserves_on_files)
    ultimately show ?thesis by (simp add: assert_unchanged_def verify_receipt_def Let_def keeps)
  qed
  from this [unfolded preserves_def, rule_format, of s] show ?thesis
    by (cases "assert_unchanged w cf mk s") simp
qed

text \<open>A run reaches its body only through the lock, and the lock file is all that changes before.\<close>

lemma run_cases:
  obtains e t where "run w cf us b fin s = (Inl e, t)" "ss_calls t = ss_calls s"
      "\<forall>p. p \<noteq> lock_path cf \<longrightarrow> ss_files t p = ss_files s p"
      "ss_files s (lock_path cf) \<noteq> None \<longrightarrow> ss_files t = ss_files s"
  | s1 where "run w cf us b fin s = locked_run w cf us b fin s1" "ss_calls s1 = ss_calls s"
      "\<forall>p. p \<noteq> lock_path cf \<longrightarrow> ss_files s1 p = ss_files s p" "ss_files s (lock_path cf) = None"
proof -
  obtain r u where a: "assert_unchanged w cf None s = (r, u)" "ss_files u = ss_files s" "ss_calls u = ss_calls s"
    using assert_unchanged_same by blast
  obtain r' v where l: "acquire_lock w cf u = (r', v)" by (cases "acquire_lock w cf u")
  have v: "ss_calls v = ss_calls s" "\<forall>p. p \<noteq> lock_path cf \<longrightarrow> ss_files v p = ss_files s p"
    "ss_files s (lock_path cf) \<noteq> None \<Longrightarrow> ss_files v = ss_files s \<and> (\<exists>e. r' = Inl e)"
    using l a(2,3)
    by (auto simp: acquire_lock_def stamp_def sbind_def tick_def sget_def try_except_def on_files_def exclusive_run Let_def
        lock_path_def sraise_def split: disk.splits if_splits)
  show thesis
  proof (cases "us \<noteq> [] \<and> distinct us")
    case False
    then have "run w cf us b fin s = (Inl (ScorerError ''held-out scorer unit plan must be non-empty and unique''), s)"
      by (auto simp: run_def sbind_sensure)
    then show thesis using that(1) by blast
  next
    case True
    then have run: "run w cf us b fin s = sbind (assert_unchanged w cf None) (\<lambda>_.
        sbind (acquire_lock w cf) (\<lambda>_. locked_run w cf us b fin)) s" by (simp add: run_def)
    show thesis
    proof (cases r)
      case (Inl e)
      with run a(1) have "run w cf us b fin s = (Inl e, u)" by simp
      then show thesis using that(1) a by auto
    next
      case (Inr x)
      with run a(1) have run': "run w cf us b fin s = sbind (acquire_lock w cf) (\<lambda>_. locked_run w cf us b fin) u" by simp
      show thesis
      proof (cases r')
        case (Inl e)
        with run' l have "run w cf us b fin s = (Inl e, v)" by simp
        then show thesis using that(1) v by blast
      next
        case (Inr y)
        with run' l have "run w cf us b fin s = locked_run w cf us b fin v" by simp
        then show thesis using that(2) v Inr by blast
      qed
    qed
  qed
qed

text \<open>
  A finished study stays finished. Once the marker on disk says COMPLETE, every run raises, resumed or
  not: the unit handler is not called and no file changes except the lock.
\<close>

theorem complete_is_final:
  assumes "ss_files s (marker_path cf) = Some bytes" and "sw_parse w bytes = Parsed (JObj d)"
    and "map_of d ''status'' = Some (JStr ''COMPLETE'')"
  shows "\<exists>e t. run w cf us b fin s = (Inl e, t) \<and> ss_calls t = ss_calls s \<and>
    (\<forall>p. p \<noteq> lock_path cf \<longrightarrow> ss_files t p = ss_files s p)"
proof (cases rule: run_cases [of w cf us b fin s])
  case (1 e t)
  then show ?thesis by blast
next
  case (2 s1)
  let ?s = "s1\<lparr>ss_marker := None, ss_active := ''marker-initialization''\<rparr>"
  have m: "ss_files s1 (marker_path cf) = Some bytes" using 2(3) lock_marker_differ [of cf] assms(1) by metis
  have rd: "on_files (read_json (sw_parse w) (sr_directory cf) (sr_marker cf)) ?s = (Inr d, ?s)"
    using m assms(2) by (simp add: on_files_def read_json_def Let_def marker_path_def)
  have "\<exists>e u. run_body w cf us b fin ?s = (Inl (ScorerError e), u) \<and> ss_calls u = ss_calls s1 \<and> ss_files u = ss_files s1 \<and>
      (ss_marker u = None \<or> ss_marker u = Some d)"
  proof (cases b)
    case False
    then have "resume_marker w cf b ?s =
        (Inl (ScorerError ''a DUR-056 held-out run already exists; explicit resume required''), ?s)"
      by (simp add: resume_marker_def sraise_def)
    then show ?thesis by (simp add: run_body_def m)
  next
    case True
    then have "resume_marker w cf b ?s = (Inl (ScorerError ''DUR-056 held-out freeze is already COMPLETE''), ?s\<lparr>ss_marker := Some d\<rparr>)"
      using assms(3) by (simp add: resume_marker_def set_marker_def sraise_def
          sbind_run(2) [where m = "on_files (read_json (sw_parse w) (sr_directory cf) (sr_marker cf))", OF rd])
    then show ?thesis by (simp add: run_body_def m)
  qed
  then obtain e u where u: "run_body w cf us b fin ?s = (Inl (ScorerError e), u)" "ss_calls u = ss_calls s1"
      "ss_files u = ss_files s1" "ss_marker u = None \<or> ss_marker u = Some d" by blast
  have "run_failed w cf (ScorerError e) u = (Inl (ScorerError e), u)"
    using u(4) assms(3) by (auto simp: run_failed_def sraise_def)
  then have "locked_run w cf us b fin s1 = (Inl (ScorerError e), unlink_lock cf u)"
    using u(1) by (simp add: locked_run_def try_finally_def try_except_def)
  with 2 u(2,3) show ?thesis by (auto simp: unlink_lock_def)
qed

text \<open>
  C36. A failed write of the lock blocks the study for good. When the write of the lock file fails, which
  happens outside the part of the code that removes the lock, the run raises and the file stays; from then
  on no run, whatever its inputs, calls the handler or changes a file, until somebody removes the lock.
\<close>

theorem lock_left_behind:
  assumes "us \<noteq> [] \<and> distinct us" and "assert_unchanged w cf None s = (Inr (), s1)"
    and "ss_files s (lock_path cf) = None" and "sw_disk w (ss_tick s1) = Write_fails k"
  shows "\<exists>t. run w cf us b fin s = (Inl (OtherError ''OSError'' ''write''), t) \<and> ss_files t (lock_path cf) \<noteq> None \<and>
    (\<forall>w' b' fin'. \<exists>e t'. run w' cf us b' fin' t = (Inl e, t') \<and> ss_files t' = ss_files t \<and> ss_calls t' = ss_calls t)"
proof -
  have f: "ss_files s1 = ss_files s" using assert_unchanged_same [of w cf None s] assms(2) by auto
  let ?p = "payload (JObj [(''run_id'', JStr RUN_ID), (''created_at'', JStr (sw_time w (ss_tick s1) 0))])"
  let ?t = "s1\<lparr>ss_tick := Suc (ss_tick s1), ss_files := (ss_files s1)(lock_path cf \<mapsto> take k ?p)\<rparr>"
  have "acquire_lock w cf s1 = (Inl (OtherError ''OSError'' ''write''), ?t)"
    using assms(3,4) f
    by (simp add: acquire_lock_def stamp_def sbind_def tick_def sget_def try_except_def on_files_def exclusive_run Let_def
        lock_path_def sraise_def)
  then have r: "run w cf us b fin s = (Inl (OtherError ''OSError'' ''write''), ?t)"
    using assms(1) by (simp add: run_def sbind_run(2) [where m = "assert_unchanged w cf None", OF assms(2)])
  have l: "ss_files ?t (lock_path cf) \<noteq> None" by simp
  have "\<exists>e t'. run w' cf us b' fin' ?t = (Inl e, t') \<and> ss_files t' = ss_files ?t \<and> ss_calls t' = ss_calls ?t" for w' b' fin'
  proof (cases rule: run_cases [of w' cf us b' fin' ?t])
    case (1 e t')
    with l show ?thesis by blast
  next
    case (2 s1')
    with l show ?thesis by blast
  qed
  with r l show ?thesis by blast
qed

section \<open>The plan of the held-out study\<close>

definition safe_name :: "string \<Rightarrow> bool" where
  "safe_name u \<longleftrightarrow> u \<noteq> [] \<and> list_all (\<lambda>c. c \<in> set safe_filename) u"

lemma safe_identifiers: "list_all safe_name (map (identifier_of ''heldout'') (descriptors ''heldout''))"
  by code_simp

lemma safe_append: "safe_name t \<Longrightarrow> list_all (\<lambda>c. c \<in> set safe_filename) pre \<Longrightarrow> safe_name (pre @ t)"
  by (simp add: safe_name_def)

definition unit_prefixes :: "string list" where
  "unit_prefixes = map (\<lambda>arm. ''primary-'' @ arm @ ''-'') ARMS @
     concat (map (\<lambda>profile. map (\<lambda>condition. ''injection-'' @ profile @ ''-'' @ condition @ ''-'') [''clean-a'', ''clean-b'', ''injected''])
       [''defended'', ''plain''])"

lemma heldout_units_form:
  assumes "length cases = 60" and "\<not> list_ex (\<lambda>c. dc_split c \<noteq> ''heldout'') cases"
  shows "heldout_unit_ids cases = Inr (''heldout-embedding-preparation'' # concat (map (\<lambda>p. map (\<lambda>c. p @ dc_case_id c) cases) unit_prefixes))"
  using assms by (simp add: heldout_unit_ids_def unit_prefixes_def ARMS_def)

text \<open>No prefix continues another one, so prefix and case are read off a unit.\<close>

fun parts :: "string \<Rightarrow> string \<Rightarrow> bool" where
  "parts (a # as) (b # bs) = (if a = b then parts as bs else True)"
| "parts _ _ = False"

lemma parts_differ: "parts p q \<Longrightarrow> p @ x \<noteq> q @ y"
  by (induction p q rule: parts.induct) (auto split: if_splits)

lemma prefixes_part: "\<forall>i < 10. \<forall>j < 10. i \<noteq> j \<longrightarrow> parts (unit_prefixes ! i) (unit_prefixes ! j)"
  by code_simp

lemma prefixes_ok: "length unit_prefixes = 10" "\<forall>p \<in> set unit_prefixes. list_all (\<lambda>c. c \<in> set safe_filename) p \<and> hd p \<noteq> CHR ''h'' \<and> p \<noteq> []"
  by code_simp+

lemma distinct_blocks:
  assumes "\<forall>i < length ps. \<forall>j < length ps. i \<noteq> j \<longrightarrow> parts (ps ! i) (ps ! j)" and "distinct ids"
  shows "distinct (concat (map (\<lambda>p. map (\<lambda>x. p @ x) ids) ps))"
  using assms(1)
proof (induction ps)
  case (Cons p ps)
  have "parts p (ps ! j)" if "j < length ps" for j using Cons.prems [rule_format, of 0 "Suc j"] that by simp
  then have "\<forall>q \<in> set ps. parts p q" by (auto simp: in_set_conv_nth)
  then have "set (map (\<lambda>x. p @ x) ids) \<inter> set (concat (map (\<lambda>p. map (\<lambda>x. p @ x) ids) ps)) = {}" using parts_differ by fastforce
  moreover have "parts (ps ! i) (ps ! j)" if "i < length ps" "j < length ps" "i \<noteq> j" for i j
    using Cons.prems [rule_format, of "Suc i" "Suc j"] that by simp
  ultimately show ?case using Cons.IH assms(2) by (simp add: distinct_map inj_on_def)
qed simp

lemma built_case_ids:
  assumes "rows_good split_label rows"
  shows "mset (map dc_case_id rows) = mset (map (identifier_of split_label) (descriptors split_label))"
proof -
  from assms obtain T plans where "list_all2 (\<lambda>d c. \<exists>p. map_of plans d = Some p \<and> plan_good d p \<and> case_good T split_label d p c)
      (descriptors split_label) rows" unfolding rows_good_def by blast
  then have "map dc_case_id rows = map (identifier_of split_label) (descriptors split_label)"
    by (induction rule: list_all2_induct) (auto simp: case_good_def identifier_of_def)
  then show ?thesis by simp
qed

text \<open>
  The held-out plan fits the scorer. The cases that the generator builds for the held-out split give a
  plan of exactly 601 units, pairwise different, so that a run accepts the plan; and every unit has a name
  that the artifact module accepts as a file name, so that no unit fails to be stored because of its name.
\<close>

theorem heldout_plan_fits:
  "case build_cases random ''heldout'' text_version of
     Inl e \<Rightarrow> True
   | Inr cases \<Rightarrow> (case heldout_unit_ids cases of
        Inl e \<Rightarrow> False
      | Inr units \<Rightarrow> length units = 601 \<and> distinct units \<and>
          list_all (\<lambda>u. write_unit_once Disk_ok directory u value Map.empty =
            (Inr (unit_path directory u), [unit_path directory u \<mapsto> payload value])) units)"
proof (cases rule: build_cases_cases [of text_version random "''heldout''"])
  case (built rows)
  let ?rs = "sort_key dc_case_id rows" and ?u0 = "''heldout-embedding-preparation''"
  let ?us = "?u0 # concat (map (\<lambda>p. map (\<lambda>x. p @ x) (map dc_case_id ?rs)) unit_prefixes)"
  have chk: "length ?rs = 60" "\<not> list_ex (\<lambda>c. dc_split c \<noteq> ''heldout'') ?rs" "distinct (map dc_case_id ?rs)"
    using built(5) by (auto simp: check_rows_def split: if_splits)
  have u: "heldout_unit_ids ?rs = Inr ?us" using heldout_units_form [OF chk(1,2)] by (simp add: comp_def)
  have "mset (map dc_case_id ?rs) = mset (map (identifier_of ''heldout'') (descriptors ''heldout''))"
    using built_case_ids [OF built(2)] by simp
  then have "set (map dc_case_id ?rs) = set (map (identifier_of ''heldout'') (descriptors ''heldout''))" by (rule mset_eq_setD)
  then have ids: "\<forall>x \<in> set (map dc_case_id ?rs). safe_name x" using safe_identifiers by (simp add: list_all_iff)
  have d: "distinct (concat (map (\<lambda>p. map (\<lambda>x. p @ x) (map dc_case_id ?rs)) unit_prefixes))"
    using prefixes_part prefixes_ok(1) chk(3) by (intro distinct_blocks) simp_all
  have "?u0 \<noteq> p @ x" if "p \<in> set unit_prefixes" for p x
    using prefixes_ok(2) that by (cases p) auto
  with d have "distinct ?us" by auto
  moreover have "length ?us = 601" using chk(1) prefixes_ok(1) by (simp add: length_concat comp_def sum_list_triv)
  moreover have "safe_name v" if "v \<in> set ?us" for v
    using that ids prefixes_ok(2) by (auto intro!: safe_append simp: safe_name_def safe_filename_def)
  then have "list_all (\<lambda>u. write_unit_once Disk_ok directory u value Map.empty =
      (Inr (unit_path directory u), [unit_path directory u \<mapsto> payload value])) ?us"
    by (auto simp: list_all_iff write_unit_once_def publish_run list_ex_iff safe_name_def)
  ultimately show ?thesis using built(3) u by (simp only: sum.case)
qed simp_all

text \<open>
  A loaded context is one that the scorer accepts: as long as the files, the head and the gate are as they
  were, a scorer made from it passes its check of the freeze; and the configurations of the context are
  those whose fingerprints the bundle and the receipt carry.
\<close>

lemma verify_receipt_files: "verify_receipt w cf s = (r, t) \<Longrightarrow> t = s"
  by (auto simp: verify_receipt_def sbind_def on_files_def read_json_def Let_def sensure_def sret_def sraise_def
      split: option.splits parsed.splits json.splits if_splits sum.splits prod.splits)

lemma verify_receipt_at:
  assumes "verify_receipt w cf s = (Inr d, t)" and "ss_files u = ss_files s"
    and "sr_receipt_directory cf' = sr_receipt_directory cf" "sr_receipt cf' = sr_receipt cf" "sr_head_sha cf' = sr_head_sha cf"
      "sr_retrieval cf' = sr_retrieval cf" "sr_agent cf' = sr_agent cf"
  shows "verify_receipt w cf' u = (Inr d, u)"
proof -
  let ?m = "read_json (sw_parse w) (sr_receipt_directory cf) (sr_receipt cf)"
  from assms(1) obtain fs where m: "?m (ss_files s) = (Inr d, fs)"
    by (auto simp: verify_receipt_def sbind_Inr on_files_Inr Let_def sensure_def sret_def sraise_def split: if_splits)
  have fs: "fs = ss_files s" using m by (auto simp: read_json_def Let_def split: option.splits parsed.splits)
  then have "on_files ?m s = (Inr d, s)" "on_files ?m u = (Inr d, u)" using m assms(2) by (simp_all add: on_files_def)
  with assms(1,3-) show ?thesis
    by (auto simp: verify_receipt_def Let_def sensure_def sret_def sraise_def
        sbind_run(2) [where m = "on_files ?m"] split: if_splits)
qed

lemma frozen_context_accepted:
  assumes "load_frozen_context w directory names s = (Inr ctx, t)"
    and "sw_head w (ss_tick t) = Inr (fc_head_sha ctx)" and "sw_gate w (ss_tick t) = Inr ()"
    and "sr_receipt_directory cf = directory" "sr_receipt cf = ''gate-a-accepted.json''" "sr_head_sha cf = fc_head_sha ctx"
      "sr_retrieval cf = fc_retrieval_fingerprint ctx" "sr_agent cf = fc_agent_fingerprint ctx"
      "sr_receipt_fp cf = fc_receipt_fingerprint ctx"
  shows "assert_unchanged w cf None t = (Inr (), t\<lparr>ss_tick := Suc (ss_tick t)\<rparr>)"
    and "canonical_config_fingerprint (fc_retrieval ctx) ''config_fingerprint'' = Inr (fc_retrieval_fingerprint ctx)"
    and "canonical_config_fingerprint (fc_agent ctx) ''config_fingerprint'' = Inr (fc_agent_fingerprint ctx)"
    and "map_of (fc_bundle ctx) ''heldout_scored'' = Some (JBool False)"
proof -
  let ?cf = "\<lambda>head rfp afp. \<lparr>sr_directory = '''', sr_marker = '''', sr_units = '''', sr_receipt_directory = directory,
      sr_receipt = ''gate-a-accepted.json'', sr_head_sha = head, sr_retrieval = rfp, sr_agent = afp, sr_receipt_fp = ''''\<rparr>"
  from assms(1) obtain bd retrieval agent rfp afp head d s1 s2 s3 where b: "check_bundle bd s1 = (Inr (), s2)"
    and fps: "lift_artifact (canonical_config_fingerprint retrieval ''config_fingerprint'') s1 = (Inr rfp, s1)"
      "lift_artifact (canonical_config_fingerprint agent ''config_fingerprint'') s1 = (Inr afp, s1)"
    and v: "verify_receipt w (?cf head rfp afp) s3 = (Inr d, t)"
    and ctx: "fc_bundle ctx = bd" "fc_retrieval ctx = retrieval" "fc_agent ctx = agent" "fc_retrieval_fingerprint ctx = rfp"
      "fc_agent_fingerprint ctx = afp" "fc_head_sha ctx = head" "fc_receipt_fingerprint ctx = receipt_fingerprint (?cf head rfp afp) (ss_files t)"
    by (auto simp: load_frozen_context_def sbind_Inr Let_def sget_def lift_artifact_def slift_def)
  have t: "t = s3" using verify_receipt_files [OF v] .
  have "verify_receipt w cf u = (Inr d, u)" if "ss_files u = ss_files t" for u
    using verify_receipt_at [OF v, of u cf] that assms(4-8) ctx t by simp
  moreover have "receipt_fingerprint cf (ss_files t) = sr_receipt_fp cf"
    using assms(4,5,9) ctx(7) by (simp add: receipt_fingerprint_def)
  ultimately show "assert_unchanged w cf None t = (Inr (), t\<lparr>ss_tick := Suc (ss_tick t)\<rparr>)"
    using assms(2,3,6) by (simp add: assert_unchanged_def tick_def sbind_def slift_def sensure_def sget_def sret_def)
  show "canonical_config_fingerprint (fc_retrieval ctx) ''config_fingerprint'' = Inr (fc_retrieval_fingerprint ctx)"
    "canonical_config_fingerprint (fc_agent ctx) ''config_fingerprint'' = Inr (fc_agent_fingerprint ctx)"
    using fps ctx by (auto simp: lift_artifact_def slift_def split: sum.splits)
  show "map_of (fc_bundle ctx) ''heldout_scored'' = Some (JBool False)"
    using b ctx(1) by (auto simp: check_bundle_def sbind_Inr sensure_def sret_def sraise_def split: if_splits)
qed

section \<open>Concrete runs\<close>

definition demo_scorer :: scorer where
  "demo_scorer = \<lparr>sr_directory = ''m'', sr_marker = ''k'', sr_units = ''u'', sr_receipt_directory = ''r'', sr_receipt = ''g'',
     sr_head_sha = ''h'', sr_retrieval = ''f'', sr_agent = ''a'', sr_receipt_fp = ''sha256:'' @ hex (sha256 [])\<rparr>"

definition demo_receipt :: dict where
  "demo_receipt = [(''schema'', JStr RECEIPT_SCHEMA), (''reviewer'', JStr ''Claude''), (''verdict'', JStr ''NO_BLOCKING_FINDINGS''),
     (''target_commit'', JStr ''h''), (''retrieval_config_fingerprint'', JStr ''f''),
     (''agent_config_fingerprint'', JStr ''a''), (''review_round'', JInt 1)]"

definition demo_final :: dict where
  "demo_final = [(''status'', JStr ''COMPLETE'')]"

definition demo_world :: "(nat \<Rightarrow> disk) \<Rightarrow> scorer_world" where
  "demo_world dk = \<lparr>sw_disk = dk, sw_replace = (\<lambda>_. True), sw_fresh = (\<lambda>_. ''x''), sw_head = (\<lambda>_. Inr ''h''),
     sw_gate = (\<lambda>_. Inr ()), sw_handler = (\<lambda>_ _. Inr (JObj [])), sw_finalize = (\<lambda>_. Inr ()), sw_time = (\<lambda>_ _. ''t''),
     sw_parse = (\<lambda>b. if b = [] then Parsed (JObj demo_receipt) else Parsed (JObj demo_final)), sw_glob = (\<lambda>_. [])\<rparr>"

definition demo_state :: "files \<Rightarrow> scorer_state" where
  "demo_state fs = \<lparr>ss_files = fs, ss_marker = None, ss_active = '''', ss_calls = [], ss_tick = 0\<rparr>"

lemma demo_ok: "scorer_ok demo_scorer" "world_ok (demo_world dk)"
  by (simp_all add: scorer_ok_def demo_scorer_def world_ok_def demo_world_def)

lemma demo_accepts:
  assumes "ss_files s ''r/g'' = Some []" and "\<forall>d. mk = Some d \<longrightarrow> mismatches (freeze_fields demo_scorer) d = []"
  shows "assert_unchanged (demo_world dk) demo_scorer mk s = (Inr (), s\<lparr>ss_tick := Suc (ss_tick s)\<rparr>)"
proof -
  have "verify_receipt (demo_world dk) demo_scorer t = (Inr demo_receipt, t)" if "ss_files t ''r/g'' = Some []" for t
    using that
    by (simp add: verify_receipt_def sbind_def on_files_def read_json_def path_join_def Let_def demo_world_def
        demo_scorer_def demo_receipt_def mismatches_def sret_def sensure_def)
  then show ?thesis using assms
    by (simp add: assert_unchanged_def tick_def sbind_def slift_def sensure_def sget_def receipt_fingerprint_def demo_world_def
        demo_scorer_def path_join_def sret_def Let_def split: option.splits)
qed

lemma demo_simps:
  "sw_disk (demo_world dk) = dk" "sw_replace (demo_world dk) n" "sw_time (demo_world dk) n k = ''t''"
  "sw_glob (demo_world dk) fs = []" "sw_handler (demo_world dk) n u = Inr (JObj [])" "sw_finalize (demo_world dk) n = Inr ()"
  "marker_path demo_scorer = ''m/k''" "lock_path demo_scorer = ''m/k.lock''" "lock_name demo_scorer = ''k.lock''"
  "temp_path (demo_world dk) demo_scorer fs = ''m/dur056-marker-x.tmp''" "sr_directory demo_scorer = ''m''"
  "sr_marker demo_scorer = ''k''" "sr_units demo_scorer = ''u''"
  by (simp_all add: demo_world_def demo_scorer_def marker_path_def lock_path_def lock_name_def temp_path_def path_join_def)

lemma demo_save:
  assumes "ss_files s ''m/dur056-marker-x.tmp'' = None"
  shows "save_marker (demo_world (\<lambda>_. Disk_ok)) demo_scorer s = (Inr (), s\<lparr>ss_tick := Suc (ss_tick s),
      ss_files := (ss_files s)(''m/k'' \<mapsto> payload (JObj (case ss_marker s of Some d \<Rightarrow> d | None \<Rightarrow> [])))\<rparr>)"
  using assms
  by (simp add: save_marker_def sbind_def tick_def the_marker_def sget_def demo_simps on_files_def atomic_run)

theorem unit_scored_once_witness:
  "count_list (ss_calls (snd (run (demo_world (\<lambda>_. Disk_ok)) demo_scorer [''v''] True True (demo_state [''u/v.json'' \<mapsto> [1]])))) ''v'' = 0"
proof -
  have "scorer_step demo_scorer [''v''] (demo_state [''u/v.json'' \<mapsto> [1]])
      (snd (run (demo_world (\<lambda>_. Disk_ok)) demo_scorer [''v''] True True (demo_state [''u/v.json'' \<mapsto> [1]])))"
    by (rule st_run [OF demo_ok(2)])
  then show ?thesis
    using unit_scored_once [OF r_into_rtranclp demo_ok(1), of "[''v'']" _ _ "''v''" "[1]"]
    by (simp add: safe_unit_def demo_state_def unit_path_def path_join_def demo_scorer_def)
qed

theorem run_completes_witness:
  "unit_exists demo_scorer (ss_files (snd (run (demo_world (\<lambda>_. Disk_ok)) demo_scorer [''v''] False True
      (demo_state [''r/g'' \<mapsto> []])))) ''v''"
proof -
  let ?r = "run (demo_world (\<lambda>_. Disk_ok)) demo_scorer [''v''] False True (demo_state [''r/g'' \<mapsto> []])"
  have "\<exists>d t. ?r = (Inr d, t)"
    by (simp add: run_def demo_accepts sbind_def demo_state_def acquire_lock_def stamp_def sget_def tick_def try_except_def
        on_files_def exclusive_run demo_simps Let_def path_join_def locked_run_def smodify_def try_finally_def run_body_def
        create_marker_def set_marker_def set_active_def load_existing_units_def sret_def put_marker_run demo_save process_unit_def
        unit_exists_def unit_path_def handle_unit_def the_marker_def new_marker_def mismatches_def freeze_fields_def
        slift_def record_unit_def write_unit_def write_unit_once_def safe_filename_def publish_run add_completed_def strings_of_def
        finalize_def mark_complete_def append_to_def py_int_json_def)
  then obtain d t where "?r = (Inr d, t)" by blast
  with run_completes [OF demo_ok, of "[''v'']" "\<lambda>_. Disk_ok" False True "demo_state [''r/g'' \<mapsto> []]" d t] show ?thesis
    by (simp add: safe_unit_def)
qed

theorem complete_is_final_witness:
  "ss_calls (snd (run (demo_world (\<lambda>_. Disk_ok)) demo_scorer [''v''] True True (demo_state [''r/g'' \<mapsto> [], ''m/k'' \<mapsto> [2]]))) = []"
  using complete_is_final [of "demo_state [''r/g'' \<mapsto> [], ''m/k'' \<mapsto> [2]]" demo_scorer "[2]" "demo_world (\<lambda>_. Disk_ok)" demo_final
      "[''v'']" True True]
  by (auto simp: demo_state_def demo_scorer_def marker_path_def path_join_def demo_world_def demo_final_def)

theorem lock_left_behind_witness:
  "\<exists>t. run (demo_world (\<lambda>_. Write_fails 1)) demo_scorer [''v''] False True (demo_state [''r/g'' \<mapsto> []]) =
      (Inl (OtherError ''OSError'' ''write''), t) \<and> ss_files t (lock_path demo_scorer) \<noteq> None \<and>
      (\<exists>e t'. run (demo_world (\<lambda>_. Disk_ok)) demo_scorer [''v''] True True t = (Inl e, t') \<and> ss_calls t' = ss_calls t)"
proof -
  have a: "assert_unchanged (demo_world (\<lambda>_. Write_fails 1)) demo_scorer None (demo_state [''r/g'' \<mapsto> []]) =
      (Inr (), (demo_state [''r/g'' \<mapsto> []])\<lparr>ss_tick := 1\<rparr>)"
    by (simp add: demo_accepts demo_state_def)
  have p: "ss_files (demo_state [''r/g'' \<mapsto> []]) (lock_path demo_scorer) = None"
    by (simp add: demo_state_def lock_path_def lock_name_def path_join_def demo_scorer_def)
  have "[''v''] \<noteq> [] \<and> distinct [''v'']" by simp
  from lock_left_behind [OF this a p, of 1 False True] show ?thesis
    by (auto simp: demo_world_def) blast
qed

end
