(* ===== verification/Retrieval.thy ===== *)
theory Retrieval
  imports Mcp Sha256 Spend_Ledger "HOL-Library.Product_Lexorder" "HOL-Library.Multiset"
begin

text \<open>
  Runbook retrieval: the deterministic index of \<^verbatim>\<open>src/python/incident_agent/retrieval.py\<close>, the rank fusion, the
  search adapter and the threshold selection of \<^verbatim>\<open>dur056_retrieval.py\<close>, and the adapters of
  \<^verbatim>\<open>dur056_evaluation.py\<close> that record and alter its responses.

  Scores are floats. The fused scores are computed with the rounding of every reciprocal and every addition
  (\<open>double\<close>), which decides their order: with the constant 60 the ranks 6 and 39 and the ranks 12 and 28 have equal
  sums of reciprocals and different float sums. Keyword scores are quotients of two small counts, which floats
  order the same way, and are kept exact up to the rounding to eight places; the normalised dot product of two embeddings, whose
  rounding is not modelled, is the parameter \<open>cosine\<close>, and so are the two rankings that the database returns
  to the adapter.
\<close>

section \<open>Tokens and embeddings\<close>

record retrieval_config =
  rc_corpus_version :: string
  rc_embedding_model :: string
  rc_embedding_revision :: string
  rc_embedding_dimension :: nat
  rc_top_k :: nat
  rc_keyword_threshold :: rat
  rc_dense_threshold :: rat
  rc_rrf_k :: nat

definition default_config :: retrieval_config where
  "default_config =
     \<lparr>rc_corpus_version = ''m6-corpus-v1'', rc_embedding_model = ''durable-hash-embed-v1'',
      rc_embedding_revision = ''sha256:incident-agent-local-64d-v1'', rc_embedding_dimension = 64, rc_top_k = 5,
      rc_keyword_threshold = 3 / 4, rc_dense_threshold = 45 / 100, rc_rrf_k = 60\<rparr>"

definition token_char :: "char \<Rightarrow> bool" where
  "token_char c \<longleftrightarrow> (let n = (of_char c :: nat) in 97 \<le> n \<and> n \<le> 122 \<or> 48 \<le> n \<and> n \<le> 57 \<or> n = 95)"

fun token_runs :: "string \<Rightarrow> string list" where
  "token_runs [] = [[]]"
| "token_runs (c # cs) =
     (if token_char c then (case token_runs cs of [] \<Rightarrow> [[c]] | t # ts \<Rightarrow> (c # t) # ts) else [] # token_runs cs)"

definition tokens :: "string \<Rightarrow> string list" where
  "tokens value = filter (\<lambda>t. t \<noteq> []) (token_runs (map lower_char value))"

text \<open>The vector before its normalisation; its entries are whole numbers.\<close>

definition add_token :: "nat \<Rightarrow> string \<Rightarrow> int list \<Rightarrow> int list" where
  "add_token dimension token v =
     (let digest = sha256 (str_encode token); i = from_bytes_big (take 4 digest) mod dimension;
          sign = (if odd (unat (digest ! 4)) then 1 else -1)
      in v[i := v ! i + sign])"

definition token_vector :: "string \<Rightarrow> nat \<Rightarrow> int list" where
  "token_vector value dimension = fold (add_token dimension) (tokens value) (replicate dimension 0)"

section \<open>The index\<close>

record index_hit =
  ih_chunk_id :: string
  ih_document_id :: string
  ih_version :: string
  ih_service :: string
  ih_score :: rat
  ih_snippet :: string

record index_response =
  ir_arm :: string
  ir_query :: string
  ir_keyword :: "index_hit list"
  ir_dense :: "index_hit list"
  ir_hybrid :: "index_hit list"
  ir_delivered :: "index_hit list"
  ir_sufficient :: bool
  ir_reason :: string

definition keyword_score :: "string list \<Rightarrow> evidence_chunk \<Rightarrow> rat" where
  "keyword_score query_tokens chunk =
     (if query_tokens = [] then 0
      else of_nat (length (filter (\<lambda>t. t \<in> set (tokens (ec_text chunk))) query_tokens)) / of_nat (card (set query_tokens)))"

definition hit_of :: "rat \<Rightarrow> evidence_chunk \<Rightarrow> index_hit" where
  "hit_of score c = \<lparr>ih_chunk_id = ec_chunk_id c, ih_document_id = ec_document_id c, ih_version = ec_version c,
     ih_service = ec_service c, ih_score = round8 score, ih_snippet = take 240 (ec_text c)\<rparr>"

definition chunk_score :: "(int list \<Rightarrow> int list \<Rightarrow> rat) \<Rightarrow> retrieval_config \<Rightarrow> string \<Rightarrow> bool \<Rightarrow> evidence_chunk \<Rightarrow> rat" where
  "chunk_score cosine cfg q dense c =
     (if dense then cosine (token_vector q (rc_embedding_dimension cfg)) (token_vector (ec_text c) (rc_embedding_dimension cfg))
      else keyword_score (tokens q) c)"

definition index_hits :: "(int list \<Rightarrow> int list \<Rightarrow> rat) \<Rightarrow> retrieval_config \<Rightarrow> evidence_chunk list \<Rightarrow> string \<Rightarrow> bool \<Rightarrow> index_hit list" where
  "index_hits cosine cfg corpus q dense =
     (let scored = map (\<lambda>c. (chunk_score cosine cfg q dense c, c)) corpus
      in map (\<lambda>(score, c). hit_of score c) (take (rc_top_k cfg) (sort_key (\<lambda>(score, c). (- score, ec_chunk_id c)) scored)))"

text \<open>Reciprocal rank fusion: the ranks of a list, added to those collected before.\<close>

fun add_ranks :: "nat \<Rightarrow> nat \<Rightarrow> index_hit list \<Rightarrow> (string \<times> rat) list \<Rightarrow> (string \<times> rat) list" where
  "add_ranks k rank [] ranks = ranks"
| "add_ranks k rank (h # hs) ranks =
     add_ranks k (Suc rank) hs
       (dict_set (ih_chunk_id h)
         (float_add (case map_of ranks (ih_chunk_id h) of Some s \<Rightarrow> s | None \<Rightarrow> 0) (double (1 / (of_nat k + of_nat rank))))
         ranks)"

definition hits_by_id :: "index_hit list \<Rightarrow> (string \<times> index_hit) list" where
  "hits_by_id hs = fold (\<lambda>h. dict_set (ih_chunk_id h) h) hs []"

definition fuse :: "(rat \<Rightarrow> rat) \<Rightarrow> nat \<Rightarrow> nat \<Rightarrow> index_hit list \<Rightarrow> index_hit list \<Rightarrow> index_hit list" where
  "fuse rounded k top_k keyword dense =
     (let ranks = add_ranks k 1 dense (add_ranks k 1 keyword []);
          by_id = hits_by_id (keyword @ dense);
          ordered = take top_k (sort_key (\<lambda>(cid, s). (- s, cid)) ranks)
      in map (\<lambda>(cid, s). (the (map_of by_id cid))\<lparr>ih_chunk_id := cid, ih_score := rounded s\<rparr>) ordered)"

definition first_score_reaches :: "rat \<Rightarrow> index_hit list \<Rightarrow> bool" where
  "first_score_reaches threshold hs = (case hs of [] \<Rightarrow> False | h # _ \<Rightarrow> threshold \<le> ih_score h)"

definition search :: "(int list \<Rightarrow> int list \<Rightarrow> rat) \<Rightarrow> retrieval_config \<Rightarrow> evidence_chunk list \<Rightarrow> string \<Rightarrow> string \<Rightarrow> index_response res" where
  "search cosine cfg corpus q arm =
     (if arm \<notin> {''keyword'', ''dense'', ''hybrid''} then Inl (ValueError ''arm must be keyword, dense, or hybrid'')
      else
        let keyword = index_hits cosine cfg corpus q False; dense = index_hits cosine cfg corpus q True;
            keyword_ok = first_score_reaches (rc_keyword_threshold cfg) keyword;
            dense_ok = first_score_reaches (rc_dense_threshold cfg) dense;
            hybrid = fuse round8 (rc_rrf_k cfg) (rc_top_k cfg) keyword dense;
            (delivered, reason) =
              (if arm = ''keyword'' then (if keyword_ok then (keyword, ''keyword_threshold_pass'') else ([], ''keyword_threshold_failed''))
               else if arm = ''dense'' then (if dense_ok then (dense, ''dense_threshold_pass'') else ([], ''dense_threshold_failed''))
               else if \<not> keyword_ok \<and> \<not> dense_ok then ([], ''hybrid_constituent_thresholds_failed'')
               else (hybrid, ''hybrid_or_constituent_pass''))
        in Inr \<lparr>ir_arm = arm, ir_query = q, ir_keyword = keyword, ir_dense = dense, ir_hybrid = hybrid, ir_delivered = delivered,
                ir_sufficient = (delivered \<noteq> []), ir_reason = reason\<rparr>)"

text \<open>\<^verbatim>\<open>benchmark\<close>: recall, mean reciprocal rank and false positives over labelled queries.\<close>

record labelled_query =
  lq_query :: string
  lq_answerable :: bool
  lq_relevant :: "string list"

record benchmark_report =
  br_arm :: string
  br_queries :: nat
  br_answerable :: nat
  br_ranking_recall :: rat
  br_delivered_recall :: rat
  br_ranking_mrr :: rat
  br_false_positive_rate :: rat

definition ranking_of :: "string \<Rightarrow> index_response \<Rightarrow> index_hit list" where
  "ranking_of arm r = (if arm = ''keyword'' then ir_keyword r else if arm = ''dense'' then ir_dense r else ir_hybrid r)"

text \<open>The position of the first relevant hit, from one.\<close>

definition first_relevant :: "string list \<Rightarrow> string list \<Rightarrow> nat option" where
  "first_relevant relevant ids =
     (let before = takeWhile (\<lambda>i. i \<notin> set relevant) ids
      in if length before < length ids then Some (Suc (length before)) else None)"

definition benchmark :: "(int list \<Rightarrow> int list \<Rightarrow> rat) \<Rightarrow> retrieval_config \<Rightarrow> evidence_chunk list \<Rightarrow> labelled_query list \<Rightarrow> string \<Rightarrow> benchmark_report res" where
  "benchmark cosine cfg corpus rows arm =
     rbind (mapR (\<lambda>row. rbind (search cosine cfg corpus (lq_query row) arm) (\<lambda>r. Inr (row, r))) rows) (\<lambda>rs.
     let ranked = List.map_filter (\<lambda>(row, r). first_relevant (lq_relevant row) (map ih_chunk_id (ranking_of arm r))) rs;
         delivered_hits = length (filter (\<lambda>(row, r). list_ex (\<lambda>h. ih_chunk_id h \<in> set (lq_relevant row)) (ir_delivered r)) rs);
         false_positive = length (filter (\<lambda>(row, r). lq_relevant row = [] \<and> ir_sufficient r) rs);
         answerable = length (filter lq_answerable rows); no_answer = length (filter (\<lambda>row. \<not> lq_answerable row) rows);
         n = (of_nat (max 1 answerable) :: rat)
     in Inr \<lparr>br_arm = arm, br_queries = length rows, br_answerable = answerable,
             br_ranking_recall = of_nat (length ranked) / n, br_delivered_recall = of_nat delivered_hits / n,
             br_ranking_mrr = sum_list (map (\<lambda>p. 1 / of_nat p) ranked) / n,
             br_false_positive_rate = of_nat false_positive / of_nat (max 1 no_answer)\<rparr>)"

section \<open>The adapters of the solvable-evidence study\<close>

definition disjunctive_tsquery :: "string \<Rightarrow> string" where
  "disjunctive_tsquery q = join '' | '' (fold (\<lambda>t ts. if t \<in> set ts then ts else ts @ [t]) (tokens q) [])"

datatype retrieval_exn =
    Dur056RetrievalError string
  | RetrievalPython exn
  | RetrievalSpend spend_exn
  | PsycopgError string

record search_config =
  sc_top_k :: nat
  sc_keyword_threshold :: rat
  sc_dense_threshold :: rat
  sc_rrf_k :: nat

text \<open>The adapter: the frozen query vectors, the split of each query and the two allowlists. What the database
  returns for the keyword and the dense query are the parameters \<open>keyword_rows\<close> and \<open>dense_rows\<close>.\<close>

record postgres_adapter =
  pa_config :: search_config
  pa_query_vectors :: "(string \<times> (string \<times> string)) list"
  pa_query_splits :: "(string \<times> string) list"
  pa_allowed_query_splits :: "string list"
  pa_corpus_splits :: "string list"

definition keyword_hits_056 :: "(string \<Rightarrow> string list \<Rightarrow> nat \<Rightarrow> index_hit list) \<Rightarrow> string \<Rightarrow> string list \<Rightarrow> nat \<Rightarrow> index_hit list" where
  "keyword_hits_056 keyword_rows q splits top_k =
     (if disjunctive_tsquery q = '''' then [] else keyword_rows (disjunctive_tsquery q) splits top_k)"

definition dense_hits_056 ::
  "(string \<Rightarrow> string list \<Rightarrow> nat \<Rightarrow> index_hit list) \<Rightarrow> string \<Rightarrow> string \<Rightarrow> string \<Rightarrow> nat \<Rightarrow> string list \<Rightarrow> retrieval_exn + index_hit list" where
  "dense_hits_056 dense_rows query_id vector query_split top_k corpus_splits =
     (if query_id = '''' then Inl (Dur056RetrievalError ''dense retrieval received an empty query vector ID'')
      else if query_split \<notin> {''development'', ''heldout''} then Inl (Dur056RetrievalError ''dense retrieval received an invalid query split'')
      else Inr (dense_rows vector corpus_splits top_k))"

definition reciprocal_rank_fusion :: "index_hit list \<Rightarrow> index_hit list \<Rightarrow> nat \<Rightarrow> nat \<Rightarrow> index_hit list" where
  "reciprocal_rank_fusion keyword dense k top_k = fuse (\<lambda>s. s) k top_k keyword dense"

definition adapter_ranks ::
  "(string \<Rightarrow> string list \<Rightarrow> nat \<Rightarrow> index_hit list) \<Rightarrow> (string \<Rightarrow> string list \<Rightarrow> nat \<Rightarrow> index_hit list) \<Rightarrow> postgres_adapter \<Rightarrow>
   string \<Rightarrow> retrieval_exn + (index_hit list \<times> index_hit list \<times> index_hit list)" where
  "adapter_ranks keyword_rows dense_rows pa q =
     (case map_of (pa_query_vectors pa) q of
        None \<Rightarrow> Inl (Dur056RetrievalError ''query text has no frozen DUR-056 embedding'')
      | Some (query_id, vector) \<Rightarrow>
          (case map_of (pa_query_splits pa) q of
             None \<Rightarrow> Inl (RetrievalPython (KeyError q))
           | Some query_split \<Rightarrow>
               if query_split \<notin> set (pa_allowed_query_splits pa)
               then Inl (Dur056RetrievalError (''retrieval refused query split '' @ query_split))
               else if \<not> set (pa_corpus_splits pa) \<subseteq> {''development'', ''heldout''}
               then Inl (Dur056RetrievalError ''retrieval corpus split allowlist is invalid'')
               else
                 let top_k = sc_top_k (pa_config pa); keyword = keyword_hits_056 keyword_rows q (pa_corpus_splits pa) top_k
                 in rbind (dense_hits_056 dense_rows query_id vector query_split top_k (pa_corpus_splits pa)) (\<lambda>dense.
                    Inr (keyword, dense, reciprocal_rank_fusion keyword dense (sc_rrf_k (pa_config pa)) top_k))))"

definition adapter_search ::
  "(string \<Rightarrow> string list \<Rightarrow> nat \<Rightarrow> index_hit list) \<Rightarrow> (string \<Rightarrow> string list \<Rightarrow> nat \<Rightarrow> index_hit list) \<Rightarrow> postgres_adapter \<Rightarrow>
   string \<Rightarrow> string \<Rightarrow> retrieval_exn + index_response" where
  "adapter_search keyword_rows dense_rows pa q arm =
     (if arm \<notin> {''keyword'', ''dense'', ''hybrid''}
      then Inl (RetrievalPython (ValueError ''DUR-056 retrieval arm must be keyword, dense, or hybrid''))
      else rbind (adapter_ranks keyword_rows dense_rows pa q) (\<lambda>(keyword, dense, hybrid).
        let keyword_ok = first_score_reaches (sc_keyword_threshold (pa_config pa)) keyword;
            dense_ok = first_score_reaches (sc_dense_threshold (pa_config pa)) dense;
            (selected, prediction) =
              (if arm = ''keyword'' then (keyword, keyword_ok) else if arm = ''dense'' then (dense, dense_ok)
               else (hybrid, keyword_ok \<or> dense_ok))
        in Inr \<lparr>ir_arm = arm, ir_query = q, ir_keyword = keyword, ir_dense = dense, ir_hybrid = hybrid, ir_delivered = selected,
                ir_sufficient = prediction,
                ir_reason = (if prediction then ''sufficiency_classifier_positive'' else ''sufficiency_classifier_negative'')\<rparr>))"

definition no_retrieval_search :: "string \<Rightarrow> string \<Rightarrow> index_response" where
  "no_retrieval_search q arm =
     \<lparr>ir_arm = arm, ir_query = q, ir_keyword = [], ir_dense = [], ir_hybrid = [], ir_delivered = [], ir_sufficient = False,
      ir_reason = ''no_retrieval_arm''\<rparr>"

text \<open>\<^verbatim>\<open>InjectedRetrievalAdapter.search\<close> and \<^verbatim>\<open>RecordingRetrievalAdapter.search\<close> around another adapter.\<close>

definition injected_search :: "('e + index_response) \<Rightarrow> string list \<Rightarrow> string \<Rightarrow> string \<Rightarrow> 'e + index_response" where
  "injected_search base target_queries injection_text q =
     rbind base (\<lambda>response.
     if q \<notin> set target_queries \<or> ir_delivered response = [] then Inr response
     else Inr (response\<lparr>ir_delivered :=
       map (\<lambda>h. h\<lparr>ih_snippet := ih_snippet h @ [newline] @ injection_text\<rparr>) (ir_delivered response)\<rparr>))"

definition recorded_search :: "('e + index_response) \<Rightarrow> (index_response list, 'e, index_response) sm" where
  "recorded_search base = sbind (slift base) (\<lambda>r. sbind (smodify (\<lambda>rs. rs @ [r])) (\<lambda>_. sret r))"

section \<open>Choosing a threshold\<close>

definition balanced_accuracy :: "bool list \<Rightarrow> bool list \<Rightarrow> retrieval_exn + rat" where
  "balanced_accuracy labels predicted =
     (let positives = map snd (filter fst (zip labels predicted)); negatives = map snd (filter (\<lambda>lp. \<not> fst lp) (zip labels predicted))
      in if length labels \<noteq> length predicted then Inl (RetrievalPython (ValueError ''zip() arguments have different lengths''))
         else if positives = [] \<or> negatives = [] then Inl (Dur056RetrievalError ''development retrieval labels must include both classes'')
         else Inr ((of_nat (length (filter id positives)) / of_nat (length positives) +
                    (1 - of_nat (length (filter id negatives)) / of_nat (length negatives))) / 2))"

definition positives_at :: "rat \<Rightarrow> bool \<Rightarrow> (rat \<times> bool) list \<Rightarrow> nat" where
  "positives_at threshold label rows = length (filter (\<lambda>(score, l). l = label \<and> threshold \<le> score) rows)"

type_synonym threshold_key = "rat \<times> rat \<times> rat \<times> rat"

definition threshold_key :: "rat list \<Rightarrow> bool list \<Rightarrow> rat \<Rightarrow> retrieval_exn + threshold_key" where
  "threshold_key scores labels threshold =
     rbind (balanced_accuracy labels (map (\<lambda>s. threshold \<le> s) scores)) (\<lambda>accuracy.
     Inr (accuracy, - of_nat (positives_at threshold False (zip scores labels)), of_nat (positives_at threshold True (zip scores labels)),
          - threshold))"

fun best_threshold :: "rat list \<Rightarrow> bool list \<Rightarrow> (threshold_key \<times> rat) option \<Rightarrow> rat list \<Rightarrow> retrieval_exn + (threshold_key \<times> rat) option" where
  "best_threshold scores labels best [] = Inr best"
| "best_threshold scores labels best (t # ts) =
     rbind (threshold_key scores labels t) (\<lambda>key.
     best_threshold scores labels (case best of Some (b, _) \<Rightarrow> if b < key then Some (key, t) else best | None \<Rightarrow> Some (key, t)) ts)"

record threshold_choice =
  tc_threshold :: rat
  tc_balanced_accuracy :: rat
  tc_false_positive_count :: rat

definition DEV_THRESHOLD_GRID :: "rat list" where
  "DEV_THRESHOLD_GRID = map (\<lambda>i. of_int (25 * i) / 1000) [0..40]"

definition threshold_candidates :: "rat list \<Rightarrow> rat list" where
  "threshold_candidates scores = sort (remdups ([0, 1] @ scores @ DEV_THRESHOLD_GRID))"

definition choose_threshold :: "rat list \<Rightarrow> bool list \<Rightarrow> retrieval_exn + threshold_choice" where
  "choose_threshold scores labels =
     rbind (best_threshold scores labels None (threshold_candidates scores)) (\<lambda>best.
     case best of
       Some ((accuracy, false_positive, _, _), t) \<Rightarrow>
         Inr \<lparr>tc_threshold = t, tc_balanced_accuracy = accuracy, tc_false_positive_count = - false_positive\<rparr>
     | None \<Rightarrow> Inl (RetrievalPython (RuntimeError ''assert best is not None'')))"

section \<open>Rank fusion implements its specification\<close>

text \<open>What a ranking contributes to the score of a document: the float reciprocal of its rank from one, offset by
  the constant; nothing when it is not ranked. The score is the float sum of the contributions, the keyword
  ranking first.\<close>

definition rank_shares :: "nat \<Rightarrow> string list \<Rightarrow> string \<Rightarrow> rat list" where
  "rank_shares k ids cid =
     (let before = takeWhile (\<lambda>i. i \<noteq> cid) ids
      in if length before < length ids then [double (1 / (of_nat k + of_nat (Suc (length before))))] else [])"

definition float_sum :: "rat \<Rightarrow> rat list \<Rightarrow> rat" where
  "float_sum s xs = foldl float_add s xs"

definition fused_scores :: "nat \<Rightarrow> string list \<Rightarrow> string list \<Rightarrow> (string \<times> rat) list" where
  "fused_scores k keyword dense =
     map (\<lambda>cid. (cid, float_sum 0 (rank_shares k keyword cid @ rank_shares k dense cid))) (remdups (keyword @ dense))"

lemma shares_at:
  assumes "distinct (xs @ cid # ys)"
  shows "rank_shares k (xs @ cid # ys) cid = [double (1 / (of_nat k + of_nat (Suc (length xs))))]"
proof -
  have "takeWhile (\<lambda>i. i \<noteq> cid) (xs @ cid # ys) = xs" using assms by (auto simp: takeWhile_tail takeWhile_eq_all_conv)
  then show ?thesis by (simp add: rank_shares_def)
qed

lemma shares_none: "cid \<notin> set ids \<Longrightarrow> rank_shares k ids cid = []"
proof -
  assume "cid \<notin> set ids"
  then have "takeWhile (\<lambda>i. i \<noteq> cid) ids = ids" by (auto simp: takeWhile_eq_all_conv)
  then show ?thesis unfolding rank_shares_def Let_def by (simp only: less_irrefl if_False)
qed

definition rank_of :: "(string \<times> rat) list \<Rightarrow> string \<Rightarrow> rat" where
  "rank_of ranks cid = (case map_of ranks cid of Some s \<Rightarrow> s | None \<Rightarrow> 0)"

lemma rank_of_set: "rank_of (dict_set a s ranks) cid = (if cid = a then s else rank_of ranks cid)"
  by (simp add: rank_of_def)

lemma add_ranks_keys: "fst ` set (add_ranks k r hs ranks) = fst ` set ranks \<union> ih_chunk_id ` set hs"
proof (induction hs arbitrary: r ranks)
  case (Cons h hs)
  have "fst ` set (dict_set a v ranks) = insert a (fst ` set ranks)" for a v
    by (simp add: dom_update)
  with Cons show ?case by simp
qed simp

lemma add_ranks_distinct: "distinct (map fst ranks) \<Longrightarrow> distinct (map fst (add_ranks k r hs ranks))"
  by (induction hs arbitrary: r ranks) (auto intro: distinct_update)

lemma add_ranks_score:
  assumes "distinct (pre @ map ih_chunk_id hs)" and "r = Suc (length pre)"
  shows "rank_of (add_ranks k r hs ranks) cid =
    float_sum (rank_of ranks cid) (if cid \<in> ih_chunk_id ` set hs then rank_shares k (pre @ map ih_chunk_id hs) cid else [])"
  using assms
proof (induction hs arbitrary: r ranks pre)
  case Nil
  then show ?case by (simp add: float_sum_def)
next
  case (Cons h hs)
  let ?a = "ih_chunk_id h"
  let ?ranks = "dict_set ?a (float_add (rank_of ranks ?a) (double (1 / (of_nat k + of_nat r)))) ranks"
  have step: "add_ranks k r (h # hs) ranks = add_ranks k (Suc r) hs ?ranks" by (simp add: rank_of_def)
  have IH: "rank_of (add_ranks k (Suc r) hs ?ranks) cid = float_sum (rank_of ?ranks cid)
      (if cid \<in> ih_chunk_id ` set hs then rank_shares k ((pre @ [?a]) @ map ih_chunk_id hs) cid else [])"
    using Cons.prems by (intro Cons.IH) auto
  have "rank_shares k (pre @ ?a # map ih_chunk_id hs) ?a = [double (1 / (of_nat k + of_nat r))]"
    using Cons.prems by (subst shares_at) auto
  moreover have "?a \<notin> ih_chunk_id ` set hs" using Cons.prems(1) by auto
  ultimately show ?case unfolding step IH by (auto simp: rank_of_set float_sum_def)
qed

lemma fused_map:
  assumes "distinct (map ih_chunk_id keyword)" and "distinct (map ih_chunk_id dense)"
  shows "mset (add_ranks k 1 dense (add_ranks k 1 keyword [])) = mset (fused_scores k (map ih_chunk_id keyword) (map ih_chunk_id dense))"
proof -
  let ?r = "add_ranks k 1 dense (add_ranks k 1 keyword [])" and ?f = "fused_scores k (map ih_chunk_id keyword) (map ih_chunk_id dense)"
  have score: "rank_of ?r cid =
      float_sum 0 (rank_shares k (map ih_chunk_id keyword) cid @ rank_shares k (map ih_chunk_id dense) cid)" for cid
    using add_ranks_score [of "[]" keyword 1 k "[]" cid] add_ranks_score [of "[]" dense 1 k "add_ranks k 1 keyword []" cid] assms
    by (auto simp: shares_none rank_of_def float_sum_def)
  have d: "distinct (map fst ?r)" by (intro add_ranks_distinct) simp
  have keys: "fst ` set ?r = set (map ih_chunk_id keyword @ map ih_chunk_id dense)" by (auto simp: add_ranks_keys)
  have r: "?r = map (\<lambda>cid. (cid, rank_of ?r cid)) (map fst ?r)"
  proof (rule nth_equalityI)
    fix i assume i: "i < length ?r"
    have "map_of ?r (fst (?r ! i)) = Some (snd (?r ! i))" using d i by (auto intro: map_of_is_SomeI)
    then show "?r ! i = map (\<lambda>cid. (cid, rank_of ?r cid)) (map fst ?r) ! i" using i by (simp add: rank_of_def prod_eq_iff)
  qed simp
  have "mset (map fst ?r) = mset (remdups (map ih_chunk_id keyword @ map ih_chunk_id dense))"
    using d keys by (intro set_eq_iff_mset_eq_distinct [THEN iffD1]) auto
  then have "mset (map (\<lambda>cid. (cid, rank_of ?r cid)) (map fst ?r)) = mset ?f"
    unfolding fused_scores_def score by (metis mset_map)
  then show ?thesis using r by metis
qed

lemma fuse_pairs:
  "map (\<lambda>h. (ih_chunk_id h, ih_score h)) (fuse rounded k top_k keyword dense) =
   map (\<lambda>(cid, s). (cid, rounded s))
     (take top_k (sort_key (\<lambda>(cid, s). (- s, cid)) (add_ranks k 1 dense (add_ranks k 1 keyword []))))"
  by (simp add: fuse_def Let_def comp_def split_def)

text \<open>C17. Reciprocal rank fusion: two rankings without repetitions are fused into the first \<open>top_k\<close> documents
  of either, by decreasing float sum of the reciprocals of their ranks and then by identifier, with that sum as
  their score.\<close>

theorem fusion_refines:
  assumes "distinct (map ih_chunk_id keyword)" and "distinct (map ih_chunk_id dense)"
  shows "map (\<lambda>h. (ih_chunk_id h, ih_score h)) (reciprocal_rank_fusion keyword dense k top_k) =
    take top_k (sort_key (\<lambda>(cid, s). (- s, cid)) (fused_scores k (map ih_chunk_id keyword) (map ih_chunk_id dense)))"
proof -
  have "sort_key (\<lambda>(cid, s). (- s, cid)) (add_ranks k 1 dense (add_ranks k 1 keyword [])) =
      sort_key (\<lambda>(cid, s). (- s, cid)) (fused_scores k (map ih_chunk_id keyword) (map ih_chunk_id dense))"
    by (rule sort_key_eq_sort_key [OF fused_map [OF assms]]) (auto simp: inj_on_def)
  then show ?thesis unfolding reciprocal_rank_fusion_def fuse_pairs by (simp add: split_def)
qed

definition demo_hit :: "string \<Rightarrow> index_hit" where
  "demo_hit cid = \<lparr>ih_chunk_id = cid, ih_document_id = ''d'', ih_version = ''1'', ih_service = ''checkout'', ih_score = 0, ih_snippet = ''''\<rparr>"

theorem fusion_refines_witness:
  "map (\<lambda>h. (ih_chunk_id h, ih_score h))
     (reciprocal_rank_fusion [demo_hit ''a'', demo_hit ''b''] [demo_hit ''b'', demo_hit ''c''] 60 2) =
   [(''b'', 146468205755307 / 4503599627370496), (''a'', 4725088133634619 / 288230376151711744)]"
  by (subst fusion_refines)
    (simp_all add: demo_hit_def fused_scores_def rank_shares_def float_sum_def float_add_def double_eval)

text \<open>Ranks with equal sums of reciprocals whose float sums differ.\<close>

lemma float_sums_part:
  "1 / 66 + 1 / 99 = (1 / 72 + 1 / 88 :: rat)"
  "float_sum 0 [double (1 / 72), double (1 / 88)] < float_sum 0 [double (1 / 66), double (1 / 99)]"
  by (simp_all add: float_sum_def float_add_def double_eval)

section \<open>What a search delivers\<close>

lemma round8_mono: "x \<le> y \<Longrightarrow> round8 x \<le> round8 y"
  by (simp add: round8_def half_even_mono divide_right_mono)

abbreviation scored :: "(int list \<Rightarrow> int list \<Rightarrow> rat) \<Rightarrow> retrieval_config \<Rightarrow> string \<Rightarrow> bool \<Rightarrow> evidence_chunk list \<Rightarrow> evidence_chunk list" where
  "scored cosine cfg q dense \<equiv> sort_key (\<lambda>c. (- chunk_score cosine cfg q dense c, ec_chunk_id c))"

lemma index_hits_alt:
  "index_hits cosine cfg corpus q dense =
   map (\<lambda>c. hit_of (chunk_score cosine cfg q dense c) c) (take (rc_top_k cfg) (scored cosine cfg q dense corpus))"
proof -
  have "insort_key (\<lambda>(score, c). (- score, ec_chunk_id c)) (g x, x) (map (\<lambda>c. (g c, c)) ys) =
      map (\<lambda>c. (g c, c)) (insort_key (\<lambda>c. (- g c, ec_chunk_id c)) x ys)" for g :: "evidence_chunk \<Rightarrow> rat" and x ys
    by (induction ys) auto
  then have "sort_key (\<lambda>(score, c). (- score, ec_chunk_id c)) (map (\<lambda>c. (g c, c)) xs) =
      map (\<lambda>c. (g c, c)) (sort_key (\<lambda>c. (- g c, ec_chunk_id c)) xs)" for g :: "evidence_chunk \<Rightarrow> rat" and xs
    by (induction xs) auto
  then show ?thesis by (simp add: index_hits_def take_map comp_def)
qed

lemma index_hits_order_free:
  assumes "distinct (map ec_chunk_id corpus)" and "mset corpus' = mset corpus"
  shows "index_hits cosine cfg corpus' q dense = index_hits cosine cfg corpus q dense"
proof -
  have "inj_on (\<lambda>c. (- chunk_score cosine cfg q dense c, ec_chunk_id c)) (set corpus')"
    using assms(1) mset_eq_setD [OF assms(2)] by (auto simp: distinct_map inj_on_def)
  then show ?thesis unfolding index_hits_alt by (simp add: sort_key_eq_sort_key [OF assms(2)])
qed

lemma index_hits_ids:
  assumes "distinct (map ec_chunk_id corpus)"
  shows "distinct (map ih_chunk_id (index_hits cosine cfg corpus q dense))"
proof -
  have "distinct (map ec_chunk_id (take n (sort_key f corpus)))" for n and f :: "evidence_chunk \<Rightarrow> rat \<times> string"
  proof -
    have "set (take n (sort_key f corpus)) \<subseteq> set corpus" by (metis set_sort set_take_subset)
    then show ?thesis using assms inj_on_subset by (auto simp: distinct_map)
  qed
  then show ?thesis by (simp add: index_hits_alt comp_def hit_of_def)
qed

text \<open>A hit describes a chunk of the corpus.\<close>

definition describes :: "evidence_chunk list \<Rightarrow> index_hit \<Rightarrow> bool" where
  "describes corpus h \<longleftrightarrow>
     (\<exists>c\<in>set corpus. ih_chunk_id h = ec_chunk_id c \<and> ih_document_id h = ec_document_id c \<and> ih_version h = ec_version c \<and>
        ih_service h = ec_service c \<and> ih_snippet h = take 240 (ec_text c))"

lemma index_hits_describe: "h \<in> set (index_hits cosine cfg corpus q dense) \<Longrightarrow> describes corpus h"
  by (auto simp: index_hits_alt describes_def hit_of_def dest!: in_set_takeD)

lemma index_hits_length: "length (index_hits cosine cfg corpus q dense) \<le> rc_top_k cfg"
  by (simp add: index_hits_def)

text \<open>The first hit has the greatest score, so that the gate on it is a gate on the whole corpus.\<close>

lemma first_score_spec:
  assumes "0 < rc_top_k cfg"
  shows "first_score_reaches t (index_hits cosine cfg corpus q dense) \<longleftrightarrow>
    (\<exists>c\<in>set corpus. t \<le> round8 (chunk_score cosine cfg q dense c))"
proof (cases "scored cosine cfg q dense corpus")
  case Nil
  then have "corpus = []" by (metis set_empty set_sort)
  then show ?thesis by (simp add: index_hits_def first_score_reaches_def)
next
  case (Cons c cs)
  have "sorted (map (\<lambda>c. (- chunk_score cosine cfg q dense c, ec_chunk_id c)) (c # cs))"
    using sorted_sort_key [of "\<lambda>c. (- chunk_score cosine cfg q dense c, ec_chunk_id c)" corpus] by (simp add: Cons)
  then have "chunk_score cosine cfg q dense d \<le> chunk_score cosine cfg q dense c" if "d \<in> set (c # cs)" for d
    using that by (auto simp: less_eq_prod_def)
  moreover have corpus: "set corpus = set (c # cs)" using set_sort [of _ corpus] Cons by metis
  ultimately have "round8 (chunk_score cosine cfg q dense d) \<le> round8 (chunk_score cosine cfg q dense c)" if "d \<in> set corpus" for d
    using that by (simp add: round8_mono)
  moreover have "c \<in> set corpus" by (simp add: corpus)
  moreover obtain n where "rc_top_k cfg = Suc n" using assms gr0_implies_Suc by blast
  ultimately show ?thesis
    by (auto simp: index_hits_alt Cons first_score_reaches_def hit_of_def intro: order_trans)
qed

lemma hits_by_id_some:
  "cid \<in> ih_chunk_id ` set hs \<Longrightarrow> \<exists>h\<in>set hs. map_of (hits_by_id hs) cid = Some h \<and> ih_chunk_id h = cid"
proof (induction hs rule: rev_induct)
  case (snoc h hs)
  then show ?case by (auto simp: hits_by_id_def)
qed simp

lemma fuse_ids:
  assumes "distinct (map ih_chunk_id keyword)" and "distinct (map ih_chunk_id dense)"
  shows "distinct (map ih_chunk_id (fuse rounded k top_k keyword dense))"
proof -
  let ?r = "add_ranks k 1 dense (add_ranks k 1 keyword [])"
  have "distinct (map fst ?r)" by (intro add_ranks_distinct) simp
  then have d: "distinct ?r" and inj: "inj_on fst (set ?r)" by (simp_all add: distinct_map)
  have "set (take top_k (sort_key f ?r)) \<subseteq> set ?r" for f :: "string \<times> rat \<Rightarrow> rat \<times> string" by (metis set_sort set_take_subset)
  then have "distinct (map fst (take top_k (sort_key f ?r)))" for f :: "string \<times> rat \<Rightarrow> rat \<times> string"
    using d inj by (simp add: distinct_map inj_on_subset)
  then show ?thesis by (simp add: fuse_def Let_def comp_def split_def)
qed

lemma fuse_describes:
  assumes "h \<in> set (fuse rounded k top_k keyword dense)" and "\<And>x. x \<in> set (keyword @ dense) \<Longrightarrow> describes corpus x"
  shows "describes corpus h"
proof -
  let ?r = "add_ranks k 1 dense (add_ranks k 1 keyword [])"
  obtain cid s where cs: "(cid, s) \<in> set ?r"
    and h: "h = (the (map_of (hits_by_id (keyword @ dense)) cid))\<lparr>ih_chunk_id := cid, ih_score := rounded s\<rparr>"
    using assms(1) by (auto simp: fuse_def Let_def dest!: in_set_takeD)
  have "cid \<in> ih_chunk_id ` set (keyword @ dense)"
    using image_eqI [of cid fst "(cid, s)", OF _ cs] by (auto simp: add_ranks_keys)
  from hits_by_id_some [OF this] obtain x where "x \<in> set (keyword @ dense)" "map_of (hits_by_id (keyword @ dense)) cid = Some x" "ih_chunk_id x = cid"
    by blast
  with assms(2) h show ?thesis by (fastforce simp: describes_def)
qed

lemma fuse_empty: "0 < top_k \<Longrightarrow> fuse rounded k top_k keyword dense = [] \<longleftrightarrow> keyword = [] \<and> dense = []"
proof -
  assume "0 < top_k"
  have "fuse rounded k top_k keyword dense = [] \<longleftrightarrow> add_ranks k 1 dense (add_ranks k 1 keyword []) = []"
    using \<open>0 < top_k\<close> by (simp add: fuse_def Let_def) (metis set_empty set_sort)
  also have "\<dots> \<longleftrightarrow> fst ` set (add_ranks k 1 dense (add_ranks k 1 keyword [])) = {}" by simp
  also have "\<dots> \<longleftrightarrow> keyword = [] \<and> dense = []" by (simp only: add_ranks_keys) auto
  finally show ?thesis .
qed

lemma fuse_length: "length (fuse rounded k top_k keyword dense) \<le> top_k"
  by (simp add: fuse_def Let_def)

text \<open>The chunks that open the gate of an arm.\<close>

definition opens_gate :: "(int list \<Rightarrow> int list \<Rightarrow> rat) \<Rightarrow> retrieval_config \<Rightarrow> string \<Rightarrow> string \<Rightarrow> evidence_chunk \<Rightarrow> bool" where
  "opens_gate cosine cfg q arm c \<longleftrightarrow>
     arm \<noteq> ''dense'' \<and> rc_keyword_threshold cfg \<le> round8 (chunk_score cosine cfg q False c) \<or>
     arm \<noteq> ''keyword'' \<and> rc_dense_threshold cfg \<le> round8 (chunk_score cosine cfg q True c)"

lemma search_returns:
  "arm \<in> {''keyword'', ''dense'', ''hybrid''} \<Longrightarrow> \<exists>r. search cosine cfg corpus q arm = Inr r"
  by (auto simp: search_def Let_def split: prod.split)

lemma first_score_nonempty: "first_score_reaches t hs \<Longrightarrow> hs \<noteq> []"
  by (auto simp: first_score_reaches_def)

text \<open>C18. A search over chunks with distinct identifiers delivers at most \<open>top_k\<close> hits, all distinct, each
  describing a chunk of the corpus; it delivers something, and says that it is sufficient, exactly when some
  chunk of the whole corpus reaches the threshold of the arm; and the order in which the corpus was loaded
  does not matter.\<close>

theorem search_sound:
  assumes "distinct (map ec_chunk_id corpus)" and "0 < rc_top_k cfg" and "search cosine cfg corpus q arm = Inr r"
    and "mset corpus' = mset corpus"
  shows "length (ir_delivered r) \<le> rc_top_k cfg \<and> distinct (map ih_chunk_id (ir_delivered r)) \<and>
    list_all (describes corpus) (ir_delivered r) \<and> (ir_delivered r \<noteq> []) = ir_sufficient r \<and>
    ir_sufficient r = (\<exists>c\<in>set corpus. opens_gate cosine cfg q arm c) \<and>
    search cosine cfg corpus' q arm = Inr r"
proof -
  let ?k = "index_hits cosine cfg corpus q False" and ?d = "index_hits cosine cfg corpus q True"
  let ?h = "fuse round8 (rc_rrf_k cfg) (rc_top_k cfg) ?k ?d"
  note ids = index_hits_ids [OF assms(1), of cosine cfg q]
  have h: "distinct (map ih_chunk_id ?h)" by (rule fuse_ids [OF ids ids])
  have dh: "describes corpus x" if "x \<in> set ?h" for x
    by (rule fuse_describes [OF that]) (auto intro: index_hits_describe)
  have ne: "first_score_reaches t ?k \<Longrightarrow> ?h \<noteq> []" "first_score_reaches t ?d \<Longrightarrow> ?h \<noteq> []" for t
    using fuse_empty [OF assms(2)] by (auto dest: first_score_nonempty)
  have arm: "arm = ''keyword'' \<or> arm = ''dense'' \<or> arm = ''hybrid''" using assms(3) by (auto simp: search_def split: if_splits)
  note gate = first_score_spec [OF assms(2), of _ cosine corpus q, symmetric]
  have suff: "(\<exists>c\<in>set corpus. opens_gate cosine cfg q arm c) \<longleftrightarrow>
      arm \<noteq> ''dense'' \<and> first_score_reaches (rc_keyword_threshold cfg) ?k \<or>
      arm \<noteq> ''keyword'' \<and> first_score_reaches (rc_dense_threshold cfg) ?d"
    unfolding opens_gate_def first_score_spec [OF assms(2)] by blast
  have "search cosine cfg corpus' q arm = search cosine cfg corpus q arm"
    unfolding search_def index_hits_order_free [OF assms(1, 4)] ..
  with assms(3) have "search cosine cfg corpus' q arm = Inr r" by simp
  moreover from arm assms(3) have "length (ir_delivered r) \<le> rc_top_k cfg \<and> distinct (map ih_chunk_id (ir_delivered r)) \<and>
    list_all (describes corpus) (ir_delivered r) \<and> (ir_delivered r \<noteq> []) = ir_sufficient r \<and>
    ir_sufficient r = (\<exists>c\<in>set corpus. opens_gate cosine cfg q arm c)"
    unfolding suff
    by (elim disjE) (auto simp: search_def Let_def list_all_iff ids h dh index_hits_length fuse_length
        intro: index_hits_describe dest: first_score_nonempty ne split: if_splits)
  ultimately show ?thesis by simp
qed

definition demo_chunk :: "string \<Rightarrow> string \<Rightarrow> evidence_chunk" where
  "demo_chunk cid t = \<lparr>ec_chunk_id = cid, ec_document_id = ''runbook'', ec_version = ''1'', ec_service = ''checkout'', ec_text = t,
     ec_source_type = ''runbook'', ec_relevant_families = [], ec_canary = False, ec_near_duplicate_group = None, ec_decisive_detail = ''''\<rparr>"

lemma demo_tokens:
  "tokens ''Pool exhausted'' = [''pool'', ''exhausted'']" "tokens ''disk'' = [''disk'']"
  "tokens ''pool pool pool disk'' = [''pool'', ''pool'', ''pool'', ''disk'']" "tokens ''pool'' = [''pool'']"
  by code_simp+

theorem search_sound_witness:
  "\<exists>r. search (\<lambda>_ _. 0) default_config [demo_chunk ''b'' ''Pool exhausted'', demo_chunk ''a'' ''disk''] ''pool'' ''hybrid'' = Inr r \<and>
     ir_sufficient r \<and> search (\<lambda>_ _. 0) default_config [demo_chunk ''a'' ''disk'', demo_chunk ''b'' ''Pool exhausted''] ''pool'' ''hybrid'' = Inr r"
proof -
  let ?corpus = "[demo_chunk ''b'' ''Pool exhausted'', demo_chunk ''a'' ''disk'']"
  obtain r where r: "search (\<lambda>_ _. 0) default_config ?corpus ''pool'' ''hybrid'' = Inr r"
    using search_returns [of "''hybrid''"] by blast
  have "opens_gate (\<lambda>_ _. 0) default_config ''pool'' ''hybrid'' (demo_chunk ''b'' ''Pool exhausted'')"
    by (simp add: opens_gate_def chunk_score_def keyword_score_def demo_tokens demo_chunk_def default_config_def round8_def half_even_def)
  with search_sound [OF _ _ r, of "rev ?corpus"] r show ?thesis
    by (auto simp: demo_chunk_def default_config_def)
qed

text \<open>The keyword score divides the number of query tokens found, counted with repetitions, by the number of
  distinct ones, so that a repeated word is counted again: a query of two words of which the chunk has one
  scores one and a half, and passes the default threshold of three quarters.\<close>

theorem keyword_score_repeats:
  "\<exists>q c. 2 * card (set (tokens q) \<inter> set (tokens (ec_text c))) = card (set (tokens q)) \<and>
     chunk_score cosine default_config q False c = 3 / 2 \<and> opens_gate cosine default_config q ''keyword'' c"
  by (intro exI [of _ "''pool pool pool disk''"] exI [of _ "demo_chunk ''a'' ''pool''"])
     (simp add: opens_gate_def chunk_score_def keyword_score_def demo_tokens demo_chunk_def default_config_def round8_def half_even_def)

section \<open>The chosen threshold is optimal\<close>

lemma best_threshold_spec:
  assumes "best_threshold scores labels best ts = Inr (Some (k, u))"
    and "\<And>b v. best = Some (b, v) \<Longrightarrow> threshold_key scores labels v = Inr b"
  shows "threshold_key scores labels u = Inr k \<and> (\<forall>t\<in>set ts. \<exists>k'. threshold_key scores labels t = Inr k' \<and> k' \<le> k) \<and>
    (\<forall>b v. best = Some (b, v) \<longrightarrow> b \<le> k)"
  using assms
proof (induction ts arbitrary: best)
  case (Cons t ts)
  from Cons.prems(1) obtain key where key: "threshold_key scores labels t = Inr key"
    and rest: "best_threshold scores labels (case best of Some (b, _) \<Rightarrow> if b < key then Some (key, t) else best | None \<Rightarrow> Some (key, t)) ts =
      Inr (Some (k, u))"
    by (auto simp: res_simps)
  have "\<And>b v. (case best of Some (b, _) \<Rightarrow> if b < key then Some (key, t) else best | None \<Rightarrow> Some (key, t)) = Some (b, v) \<Longrightarrow>
      threshold_key scores labels v = Inr b"
    using Cons.prems(2) key by (auto split: option.splits if_splits)
  note IH = Cons.IH [OF rest this]
  show ?case
  proof (cases best)
    case None
    with IH key show ?thesis by (auto simp del: split_paired_Ex)
  next
    case (Some p)
    obtain b v where p: "p = (b, v)" by (cases p)
    show ?thesis
    proof (cases "b < key")
      case True
      with IH key Some p have "key \<le> k" by auto
      with IH key Some p True show ?thesis by (auto intro: order_trans less_imp_le simp del: split_paired_Ex)
    next
      case False
      with IH key Some p have "b \<le> k" "key \<le> b" by auto
      with IH key Some p False show ?thesis by (auto intro: order_trans simp del: split_paired_Ex)
    qed
  qed
qed simp

text \<open>Any threshold predicts what one of the candidates predicts, unless it rejects every score.\<close>

lemma same_predictions:
  assumes "s \<in> set scores" and "(t :: rat) \<le> s"
  obtains u where "u \<in> set scores" and "map (\<lambda>s. u \<le> s) scores = map (\<lambda>s. t \<le> s) scores"
proof -
  let ?u = "Min {s \<in> set scores. t \<le> s}"
  have "?u \<in> {s \<in> set scores. t \<le> s}" using assms by (intro Min_in) auto
  moreover have "?u \<le> s \<longleftrightarrow> t \<le> s" if "s \<in> set scores" for s
    using that calculation by (auto intro: order_trans Min_le)
  ultimately show thesis by (intro that [of ?u]) auto
qed

lemma constant_predictions:
  assumes "balanced_accuracy labels (map (\<lambda>_. b) scores) = Inr a"
  shows "a = 1 / 2"
proof -
  have "map snd (filter P (zip labels (map (\<lambda>_. b) scores))) = replicate (length (filter P (zip labels (map (\<lambda>_. b) scores)))) b"
    for P :: "bool \<times> bool \<Rightarrow> bool"
    by (rule replicate_eqI) (auto dest: set_zip_rightD)
  note * = this
  show ?thesis using assms unfolding balanced_accuracy_def Let_def * by (cases b) (auto split: if_splits)
qed

text \<open>The threshold chosen on the development set has the balanced accuracy that is recorded for it, and no
  threshold at all has a better one.\<close>

theorem threshold_optimal:
  assumes "choose_threshold scores labels = Inr tc" and "\<forall>s\<in>set scores. 0 \<le> s"
    and "balanced_accuracy labels (map (\<lambda>s. t \<le> s) scores) = Inr a"
  shows "balanced_accuracy labels (map (\<lambda>s. tc_threshold tc \<le> s) scores) = Inr (tc_balanced_accuracy tc) \<and>
    a \<le> tc_balanced_accuracy tc"
proof -
  from assms(1) obtain k u where best: "best_threshold scores labels None (threshold_candidates scores) = Inr (Some (k, u))"
    and tc: "tc_threshold tc = u" "tc_balanced_accuracy tc = fst k"
    by (auto simp: choose_threshold_def res_simps split: option.splits)
  note spec = best_threshold_spec [OF best, simplified]
  have key: "fst k' = a'" if "threshold_key scores labels v = Inr k'" "balanced_accuracy labels (map (\<lambda>s. v \<le> s) scores) = Inr a'" for v k' a'
    using that by (auto simp: threshold_key_def)
  have "\<exists>v\<in>set (threshold_candidates scores). \<exists>a'. balanced_accuracy labels (map (\<lambda>s. v \<le> s) scores) = Inr a' \<and> a \<le> a'"
  proof (cases "\<exists>s\<in>set scores. t \<le> s")
    case True
    then obtain v where "v \<in> set scores" "map (\<lambda>s. v \<le> s) scores = map (\<lambda>s. t \<le> s) scores" using same_predictions by blast
    then have "balanced_accuracy labels (map (\<lambda>s. v \<le> s) scores) = Inr a" "v \<in> set (threshold_candidates scores)"
      using assms(3) by (simp_all only: threshold_candidates_def) simp
    then show ?thesis by blast
  next
    case False
    then have "map (\<lambda>s. t \<le> s) scores = map (\<lambda>_. False) scores" by simp
    then have "a = 1 / 2" using assms(3) constant_predictions by metis
    have "0 \<in> set (threshold_candidates scores)" by (simp add: threshold_candidates_def)
    then obtain k' where "threshold_key scores labels 0 = Inr k'" using spec by blast
    then obtain a' where a': "balanced_accuracy labels (map (\<lambda>s. 0 \<le> s) scores) = Inr a'" by (auto simp: threshold_key_def res_simps)
    moreover have "map (\<lambda>s. 0 \<le> s) scores = map (\<lambda>_. True) scores" using assms(2) by simp
    ultimately have "a' = 1 / 2" using constant_predictions by metis
    then show ?thesis using a' \<open>a = 1 / 2\<close> by (intro bexI [of _ 0]) (auto simp: threshold_candidates_def)
  qed
  then obtain v a' where v: "v \<in> set (threshold_candidates scores)" "balanced_accuracy labels (map (\<lambda>s. v \<le> s) scores) = Inr a'" "a \<le> a'"
    by blast
  from spec v(1) obtain k' where k': "threshold_key scores labels v = Inr k'" "k' \<le> k" by blast
  then have "a' \<le> fst k" using key [OF k'(1) v(2)] by (auto simp: less_eq_prod_def)
  moreover have "balanced_accuracy labels (map (\<lambda>s. u \<le> s) scores) = Inr (fst k)"
    using spec by (auto simp: threshold_key_def res_simps)
  ultimately show ?thesis using v(3) tc by simp
qed

lemma balanced_accuracy_returns:
  assumes "length labels = length predicted" and "{True, False} \<subseteq> set labels"
  shows "\<exists>a. balanced_accuracy labels predicted = Inr a"
proof -
  have "set labels = fst ` set (zip labels predicted)" using assms(1) by (metis map_fst_zip set_map)
  then have "\<exists>p. (True, p) \<in> set (zip labels predicted)" "\<exists>p. (False, p) \<in> set (zip labels predicted)"
    using assms(2) by (force simp: image_iff)+
  then have "map snd (filter fst (zip labels predicted)) \<noteq> []" "map snd (filter (\<lambda>lp. \<not> fst lp) (zip labels predicted)) \<noteq> []"
    by (force simp: filter_empty_conv)+
  then show ?thesis unfolding balanced_accuracy_def Let_def using assms(1) by (simp only: if_False simp_thms) blast
qed

lemma best_threshold_returns:
  assumes "length labels = length scores" and "{True, False} \<subseteq> set labels"
  shows "\<exists>b. best_threshold scores labels best ts = Inr b \<and> (b = None \<longrightarrow> best = None \<and> ts = [])"
proof (induction ts arbitrary: best)
  case (Cons t ts)
  obtain a where "balanced_accuracy labels (map (\<lambda>s. t \<le> s) scores) = Inr a"
    using balanced_accuracy_returns [OF _ assms(2), of "map (\<lambda>s. t \<le> s) scores"] assms(1) by auto
  then obtain key where "threshold_key scores labels t = Inr key" by (simp add: threshold_key_def)
  then show ?case using Cons.IH by (fastforce split: option.splits if_splits)
qed simp

lemma choose_threshold_returns:
  assumes "length labels = length scores" and "{True, False} \<subseteq> set labels"
  shows "\<exists>tc. choose_threshold scores labels = Inr tc"
proof -
  have "0 \<in> set (threshold_candidates scores)" by (simp add: threshold_candidates_def)
  then have "threshold_candidates scores \<noteq> []" by auto
  with best_threshold_returns [OF assms, of None "threshold_candidates scores"] obtain b
    where "best_threshold scores labels None (threshold_candidates scores) = Inr (Some b)" by auto
  then show ?thesis by (cases b) (auto simp: choose_threshold_def)
qed

theorem threshold_optimal_witness:
  "\<exists>tc. choose_threshold [9 / 10, 1 / 5] [True, False] = Inr tc \<and> 1 \<le> tc_balanced_accuracy tc"
proof -
  obtain tc where tc: "choose_threshold [9 / 10, 1 / 5] [True, False] = Inr tc"
    using choose_threshold_returns [of "[True, False]" "[9 / 10, 1 / 5]"] by auto
  have "balanced_accuracy [True, False] (map (\<lambda>s. 1 / 2 \<le> s) [9 / 10 :: rat, 1 / 5]) = Inr 1" by (simp add: balanced_accuracy_def)
  with threshold_optimal [OF tc, of "1 / 2" 1] tc show ?thesis by simp
qed

end
