(* ===== verification/Reservations.thy ===== *)
theory Reservations
  imports Spend_Ledger Mcp Py_Json
begin

text \<open>
  The contract between the spend ledgers and the clients of paid services: a call reserves, and its entry is
  then settled or failed. The locale states what a client relies on, once for the ledgers of both studies;
  what the clients have in common besides is which exceptions reading an answer can raise.
\<close>

section \<open>Open reservations\<close>

fun open_ids :: "ledger_entry list \<Rightarrow> string list" where
  "open_ids [] = []"
| "open_ids (Request r # es) = (if rq_state r = ''RESERVED'' then rq_call_id r # open_ids es else open_ids es)"
| "open_ids (_ # es) = open_ids es"

lemma open_ids_append [simp]: "open_ids (es @ fs) = open_ids es @ open_ids fs"
  by (induction es rule: open_ids.induct) simp_all

lemma find_fresh [simp]:
  "find_request cid es = None \<Longrightarrow> rq_call_id r = cid \<Longrightarrow> find_request cid (es @ [Request r]) = Some r"
  by (induction es rule: open_ids.induct) (auto split: if_splits)

lemma update_fresh [simp]:
  "find_request cid es = None \<Longrightarrow> rq_call_id r = cid \<Longrightarrow> update_request cid g (es @ [Request r]) = es @ [Request (g r)]"
  by (induction es rule: open_ids.induct) (auto split: if_splits)

text \<open>The ledger with one entry more than before, for the call.\<close>

definition with_entry :: "string \<Rightarrow> ledger \<Rightarrow> request_entry \<Rightarrow> ledger_file \<Rightarrow> bool" where
  "with_entry cid l e f \<longleftrightarrow>
     find_request cid (lg_entries l) = None \<and> rq_call_id e = cid \<and> (\<exists>l'. f = Ledger l' \<and> lg_entries l' = lg_entries l @ [Request e])"

locale paid_calls =
  fixes reserve :: "string \<Rightarrow> string \<Rightarrow> string \<Rightarrow> int \<Rightarrow> int \<Rightarrow> string spend"
    and fail :: "string \<Rightarrow> bool \<Rightarrow> string \<Rightarrow> unit spend"
    and settle :: "'u \<Rightarrow> string \<Rightarrow> rat spend"
  assumes reserve_entry: "reserve cid model op bytes n (Ledger l) = (r, f) \<Longrightarrow> find_request cid (lg_entries l) = None \<Longrightarrow>
      case r of Inl _ \<Rightarrow> f = Ledger l | Inr c \<Rightarrow> c = cid \<and> (\<exists>e. with_entry cid l e f \<and> rq_state e = ''RESERVED'')"
    and fail_entry: "with_entry cid l e f \<Longrightarrow>
      \<exists>e' f'. fail cid b d f = (Inr (), f') \<and> with_entry cid l e' f' \<and> rq_state e' \<noteq> ''RESERVED'' \<and>
        (rq_state e = ''RESERVED'' \<longrightarrow> rq_state e' = (if b then ''UNCERTAIN'' else ''REJECTED''))"
    and settle_entry: "with_entry cid l e f \<Longrightarrow> settle u cid f = (q, f') \<Longrightarrow>
      \<exists>e'. with_entry cid l e' f' \<and>
        (\<forall>cost. q = Inr cost \<longrightarrow> rq_state e' = ''SETTLED'' \<and> (\<exists>v. rq_usage e' = Some v \<and> us_cost v = round8 cost))"
begin

text \<open>A call whose settlement fails is closed by failing it.\<close>

lemma failed_settlement_closes:
  assumes "with_entry cid l e f" and "settle u cid f = (Inl x, f')"
  shows "\<exists>e' f''. fail cid b d f' = (Inr (), f'') \<and> with_entry cid l e' f'' \<and> rq_state e' \<noteq> ''RESERVED''"
  using settle_entry [OF assms] fail_entry by blast

end

interpretation study_056: paid_calls reserve_056 fail_056 "\<lambda>(i, j, k, rid, lat) cid. settle_056 cid i j k rid lat"
proof
  show "case r of Inl _ \<Rightarrow> f = Ledger l | Inr c \<Rightarrow> c = cid \<and> (\<exists>e. with_entry cid l e f \<and> rq_state e = ''RESERVED'')"
    if "reserve_056 cid model op bytes n (Ledger l) = (r, f)" "find_request cid (lg_entries l) = None" for cid model op bytes n l r f
    using that
    by (auto simp: reserve_056_def transact_def read_ledger_def reserve_locked_056_def with_entry_def new_request_def Let_def res_simps
        split: if_splits sum.splits option.splits)
  show "\<exists>e' f'. fail_056 cid b d f = (Inr (), f') \<and> with_entry cid l e' f' \<and> rq_state e' \<noteq> ''RESERVED'' \<and>
      (rq_state e = ''RESERVED'' \<longrightarrow> rq_state e' = (if b then ''UNCERTAIN'' else ''REJECTED''))"
    if "with_entry cid l e f" for cid l e f b d
    using that by (auto simp: with_entry_def fail_056_def transact_def read_ledger_def get_entry_def released_def)
  show "\<exists>e'. with_entry cid l e' f' \<and>
      (\<forall>cost. r = Inr cost \<longrightarrow> rq_state e' = ''SETTLED'' \<and> (\<exists>v. rq_usage e' = Some v \<and> us_cost v = round8 cost))"
    if "with_entry cid l e f" "(case u of (i, j, k, rid, lat) \<Rightarrow> \<lambda>cid. settle_056 cid i j k rid lat) cid f = (r, f')" for cid l e f u r f'
    using that
    by (auto simp: with_entry_def settle_056_def transact_def read_ledger_def settle_locked_056_def get_entry_def settled_def Let_def res_simps
        mark_settled_def split: if_splits sum.splits option.splits prod.splits)
qed

lemma settle_locked_055_entries:
  assumes "settle_locked_055 cid i j c k rid lat l = Inr (cost, l')"
  shows "lg_entries l' = update_request cid (mark_settled i c j k rid lat cost) (lg_entries l)"
proof -
  obtain e cost' where "charge_055 cid i j c k rid lat cost' e l = Inr (cost, l')"
    using assms unfolding settle_locked_055_def rbind_eq_Inr Let_def by blast
  then show ?thesis by (auto simp: charge_055_def Let_def res_simps)
qed

interpretation study_055: paid_calls reserve_055 fail_055 "\<lambda>(i, j, c, k, rid, lat) cid. settle_055 cid i j c k rid lat"
proof
  show "case r of Inl _ \<Rightarrow> f = Ledger l | Inr c \<Rightarrow> c = cid \<and> (\<exists>e. with_entry cid l e f \<and> rq_state e = ''RESERVED'')"
    if "reserve_055 cid model op bytes n (Ledger l) = (r, f)" "find_request cid (lg_entries l) = None" for cid model op bytes n l r f
    using that
    by (auto simp: reserve_055_def transact_def read_ledger_def reserve_locked_055_def with_entry_def new_request_def Let_def res_simps
        split: if_splits sum.splits option.splits)
  show "\<exists>e' f'. fail_055 cid b d f = (Inr (), f') \<and> with_entry cid l e' f' \<and> rq_state e' \<noteq> ''RESERVED'' \<and>
      (rq_state e = ''RESERVED'' \<longrightarrow> rq_state e' = (if b then ''UNCERTAIN'' else ''REJECTED''))"
    if "with_entry cid l e f" for cid l e f b d
    using that by (auto simp: with_entry_def fail_055_def transact_def read_ledger_def get_entry_def released_def)
  show "\<exists>e'. with_entry cid l e' f' \<and>
      (\<forall>cost. r = Inr cost \<longrightarrow> rq_state e' = ''SETTLED'' \<and> (\<exists>v. rq_usage e' = Some v \<and> us_cost v = round8 cost))"
    if "with_entry cid l e f" "(case u of (i, j, c, k, rid, lat) \<Rightarrow> \<lambda>cid. settle_055 cid i j c k rid lat) cid f = (r, f')" for cid l e f u r f'
    using that
    by (auto simp: with_entry_def settle_055_def transact_def read_ledger_def dest!: settle_locked_055_entries
        simp: mark_settled_def split: if_splits sum.splits prod.splits)
qed

section \<open>Exceptions of reading an answer\<close>

lemma mapR_raises: "mapR f xs = Inl e \<Longrightarrow> \<exists>x\<in>set xs. f x = Inl e"
  by (induction xs) (auto simp: res_simps)

lemma anyR_raises: "anyR f xs = Inl e \<Longrightarrow> \<exists>x\<in>set xs. f x = Inl e"
  by (induction xs) (auto simp: res_simps split: if_splits)

lemma item_error: "item k v = Inl e \<Longrightarrow> value_error e"
  by (auto simp: item_def dict_item_def split: json.splits option.splits)

lemma iter_error: "py_iter v = Inl e \<Longrightarrow> value_error e"
  by (auto simp: py_iter_def split: json.splits)

abbreviation overflow_error :: "exn \<Rightarrow> bool" where
  "overflow_error e \<equiv> (\<exists>m. e = OverflowError m)"

lemma int_error: "py_int_json v = Inl e \<Longrightarrow> value_error e \<or> overflow_error e"
  by (cases v) (auto simp: py_int_json_def split: option.splits if_splits)

definition spend_caught :: "spend_exn \<Rightarrow> bool" where
  "spend_caught e = (case e of SpendError _ \<Rightarrow> True | SpendRaised x \<Rightarrow> value_error x)"

lemma settle_locked_error: "settle_locked_056 cid i j k rid lat l = Inl e \<Longrightarrow> spend_caught e"
  unfolding settle_locked_056_def rbind_eq_Inl
  by (auto simp: get_entry_def price_056_def spend_caught_def ensure_eq_Inl Let_def split: option.splits)

lemma settle_error: "settle_056 cid i j k rid lat f = (Inl e, f') \<Longrightarrow> spend_caught e"
  by (cases f) (auto simp: settle_056_def transact_def read_ledger_def spend_caught_def [of "SpendError _"] dest: settle_locked_error
      split: if_splits sum.splits prod.splits)

end
