(* ===== verification/Study_Database.thy ===== *)
theory Study_Database
  imports Retrieval Scorer Reservations
begin

text \<open>
  The database side of \<^verbatim>\<open>src/python/incident_agent/dur056_retrieval.py\<close>: seeding the corpus of a split, the
  embedding client with its reservation in the spend ledger, storing embeddings in batches, the vectors of the
  queries and the two ranking queries.

  The tables are lists of rows with the constraints of the migrations. Every statement consumes one outcome of
  the world, an error of the database or its success; a transaction whose body or commit raises leaves the
  tables as they were. The answer of the embedding service, fresh identifiers and the text of a float are
  functions of the world as well. Full text matching and ranking, the cosine distance and the rows that the
  approximate index returns are parameters of the ranking queries.
\<close>

section \<open>Tables, world and state\<close>

record corpus_row =
  cw_study_version :: string
  cw_split :: string
  cw_chunk_id :: string
  cw_document_id :: string
  cw_service :: string
  cw_version :: string
  cw_source_type :: string
  cw_content :: string
  cw_embedding :: "string option"

record query_row =
  qw_study_version :: string
  qw_split :: string
  qw_query_id :: string
  qw_embedding :: string

datatype api_answer =
    ApiHttpError int "string res" string
  | ApiFailed string
  | ApiAnswered json string

record study_world =
  w_sql :: "nat \<Rightarrow> string option"
  w_api :: "nat \<Rightarrow> api_answer"
  w_uuid :: "nat \<Rightarrow> string"
  w_float :: "json \<Rightarrow> string res"
  w_api_key :: string

record embed_record =
  er_operation :: string
  er_split :: string
  er_ids :: "string list"
  er_response_id :: json
  er_input_tokens :: int
  er_latency_ms :: string
  er_cost :: rat

record study_state =
  sd_chunks :: "corpus_row list"
  sd_queries :: "query_row list"
  sd_ledger :: ledger_file
  sd_records :: "embed_record list"
  sd_statements :: nat
  sd_calls :: nat

type_synonym 'a study = "(study_state, retrieval_exn, 'a) sm"

definition study_execute :: "study_world \<Rightarrow> unit study" where
  "study_execute w = (\<lambda>s.
     (case w_sql w (sd_statements s) of Some m \<Rightarrow> Inl (PsycopgError m) | None \<Rightarrow> Inr (),
      s\<lparr>sd_statements := Suc (sd_statements s)\<rparr>))"

text \<open>\<^verbatim>\<open>with connection.transaction()\<close>: the commit is a statement too.\<close>

definition transaction :: "study_world \<Rightarrow> 'a study \<Rightarrow> 'a study" where
  "transaction w body = (\<lambda>s.
     case sbind body (\<lambda>x. sbind (study_execute w) (\<lambda>_. sret x)) s of
       (Inr x, t) \<Rightarrow> (Inr x, t)
     | (Inl e, t) \<Rightarrow> (Inl e, t\<lparr>sd_chunks := sd_chunks s, sd_queries := sd_queries s\<rparr>))"

text \<open>\<^verbatim>\<open>except psycopg.Error as error: raise Dur056RetrievalError(f"...{error}")\<close>.\<close>

definition wrap_psycopg :: "string \<Rightarrow> 'a study \<Rightarrow> 'a study" where
  "wrap_psycopg message m = (\<lambda>s.
     case m s of (Inl (PsycopgError e), t) \<Rightarrow> (Inl (Dur056RetrievalError (message @ e)), t) | r \<Rightarrow> r)"

section \<open>Seeding the corpus of a split\<close>

definition rows_for_cases :: "dur056_case list \<Rightarrow> evidence_chunk list" where
  "rows_for_cases cases = concat (map dc_evidence cases)"

definition corpus_row_of :: "string \<Rightarrow> evidence_chunk \<Rightarrow> corpus_row" where
  "corpus_row_of split c =
     \<lparr>cw_study_version = STUDY_VERSION, cw_split = split, cw_chunk_id = ec_chunk_id c, cw_document_id = ec_document_id c,
      cw_service = ec_service c, cw_version = ec_version c, cw_source_type = ec_source_type c, cw_content = ec_text c,
      cw_embedding = None\<rparr>"

definition same_key :: "string \<Rightarrow> string \<Rightarrow> corpus_row \<Rightarrow> bool" where
  "same_key split cid r \<longleftrightarrow> cw_study_version r = STUDY_VERSION \<and> cw_split r = split \<and> cw_chunk_id r = cid"

definition seed_chunk :: "study_world \<Rightarrow> string \<Rightarrow> evidence_chunk \<Rightarrow> unit study" where
  "seed_chunk w split c =
     sbind (study_execute w) (\<lambda>_.
     if split \<notin> {''development'', ''heldout''} \<or> ec_source_type c \<notin> {''runbook'', ''postmortem''}
     then sraise (PsycopgError ''new row violates check constraint'')
     else smodify (\<lambda>s.
       if list_ex (same_key split (ec_chunk_id c)) (sd_chunks s) then s
       else s\<lparr>sd_chunks := sd_chunks s @ [corpus_row_of split c]\<rparr>))"

fun insert_chunks :: "study_world \<Rightarrow> string \<Rightarrow> evidence_chunk list \<Rightarrow> unit study" where
  "insert_chunks w split [] = sret ()"
| "insert_chunks w split (c # cs) = sbind (seed_chunk w split c) (\<lambda>_. insert_chunks w split cs)"

definition split_rows :: "string \<Rightarrow> corpus_row list \<Rightarrow> corpus_row list" where
  "split_rows split rows = filter (\<lambda>r. cw_study_version r = STUDY_VERSION \<and> cw_split r = split) rows"

definition persisted_texts :: "string \<Rightarrow> corpus_row list \<Rightarrow> (string \<times> string) list" where
  "persisted_texts split rows = fold (\<lambda>r. dict_set (cw_chunk_id r) (cw_content r)) (split_rows split rows) []"

definition expected_texts :: "evidence_chunk list \<Rightarrow> (string \<times> string) list" where
  "expected_texts chunks = fold (\<lambda>c. dict_set (ec_chunk_id c) (ec_text c)) chunks []"

definition seed_corpus :: "study_world \<Rightarrow> dur056_case list \<Rightarrow> string \<Rightarrow> evidence_chunk list study" where
  "seed_corpus w cases split =
     (if cases = [] \<or> list_ex (\<lambda>c. dc_split c \<noteq> split) cases
      then sraise (Dur056RetrievalError (''DUR-056 '' @ split @ '' corpus input has mixed or empty splits''))
      else
        let chunks = rows_for_cases cases; expected = expected_texts chunks
        in wrap_psycopg ''cannot seed DUR-056 corpus: ''
          (sbind (transaction w
             (sbind (insert_chunks w split chunks) (\<lambda>_.
              sbind (study_execute w) (\<lambda>_. sget (\<lambda>s. persisted_texts split (sd_chunks s)))))) (\<lambda>persisted.
           if list_ex (\<lambda>(cid, t). map_of persisted cid \<noteq> Some t) expected
           then sraise (Dur056RetrievalError ''persisted DUR-056 corpus differs from registered fixtures'')
           else if length persisted \<noteq> length expected
           then sraise (Dur056RetrievalError ''unexpected rows exist in the DUR-056 split corpus'')
           else sret chunks)))"

section \<open>Queries\<close>

record study_query =
  sq_query_id :: string
  sq_case_id :: string
  sq_query :: string
  sq_split :: string

definition case_queries :: "string \<Rightarrow> string \<Rightarrow> dur056_case \<Rightarrow> study_query list" where
  "case_queries prefix split c =
     map (\<lambda>(suffix, q). \<lparr>sq_query_id = prefix @ dc_case_id c @ ''-'' @ suffix, sq_case_id = dc_case_id c, sq_query = q, sq_split = split\<rparr>)
       [(''a'', dc_query_clean_a c), (''b'', dc_query_clean_b c)]"

definition development_query_rows :: "dur056_case list \<Rightarrow> retrieval_exn + study_query list" where
  "development_query_rows cases =
     rbind (mapR (\<lambda>c. if dc_split c \<noteq> ''development''
                      then Inl (Dur056RetrievalError ''development query builder received held-out case data'')
                      else Inr (case_queries ''dev-'' ''development'' c)) cases) (\<lambda>rows. Inr (concat rows))"

definition heldout_query_rows :: "dur056_case list \<Rightarrow> retrieval_exn + study_query list" where
  "heldout_query_rows cases =
     (if cases = [] \<or> list_ex (\<lambda>c. dc_split c \<noteq> ''heldout'') cases
      then Inl (Dur056RetrievalError ''held-out query builder requires only held-out fixtures'')
      else Inr (concat (map (case_queries ''hel-'' ''heldout'') cases)))"

section \<open>The embedding client\<close>

definition EMBEDDING_MODEL :: string where
  "EMBEDDING_MODEL = ''text-embedding-3-small''"

definition EMBEDDING_DIMENSION :: nat where
  "EMBEDDING_DIMENSION = 1536"

definition EMBEDDING_BATCH_SIZE :: nat where
  "EMBEDDING_BATCH_SIZE = 48"

definition embedding_provider :: "study_world \<Rightarrow> string \<Rightarrow> bool \<Rightarrow> retrieval_exn + string" where
  "embedding_provider w split_scope heldout_authorized =
     (if split_scope = ''heldout'' \<and> \<not> heldout_authorized
      then Inl (Dur056RetrievalError ''held-out embedding scope requires accepted Gate A receipt'')
      else if w_api_key w = ''''
      then Inl (Dur056RetrievalError ''OPENAI_API_KEY is required for DUR-056 embeddings'')
      else Inr split_scope)"

definition on_ledger :: "'a spend \<Rightarrow> 'a study" where
  "on_ledger m = (\<lambda>s. case m (sd_ledger s) of
     (Inl e, f) \<Rightarrow> (Inl (RetrievalSpend e), s\<lparr>sd_ledger := f\<rparr>) | (Inr x, f) \<Rightarrow> (Inr x, s\<lparr>sd_ledger := f\<rparr>))"

definition embed_payload :: "string list \<Rightarrow> json" where
  "embed_payload inputs =
     JObj [(''model'', JStr EMBEDDING_MODEL), (''input'', JArr (map JStr inputs)), (''encoding_format'', JStr ''float''),
           (''dimensions'', JInt (int EMBEDDING_DIMENSION))]"

text \<open>\<^verbatim>\<open>sorted(result["data"], key=lambda row: row["index"])\<close> on whole numbers; other indexes, which the service
  does not send, do not compare.\<close>

definition sort_rows :: "json list \<Rightarrow> json list res" where
  "sort_rows rows =
     rbind (mapR (item ''index'') rows) (\<lambda>keys.
     if length rows \<le> 1 then Inr rows
     else rbind (mapR (\<lambda>k. case as_int k of Some i \<Rightarrow> Inr i | None \<Rightarrow> Inl (TypeError ''indexes are not comparable'')) keys) (\<lambda>is.
          Inr (map snd (sort_key fst (zip is rows)))))"

definition vector_length :: "json \<Rightarrow> nat res" where
  "vector_length v = (case v of
     JArr xs \<Rightarrow> Inr (length xs) | JStr t \<Rightarrow> Inr (length t) | JObj d \<Rightarrow> Inr (length d) | _ \<Rightarrow> Inl (TypeError ''object has no len()''))"

definition answer_vectors :: "nat \<Rightarrow> json \<Rightarrow> json list res" where
  "answer_vectors n result =
     rbind (rbind (item ''data'' result) py_iter) (\<lambda>data.
     rbind (sort_rows data) (\<lambda>rows.
     rbind (mapR (item ''embedding'') rows) (\<lambda>vectors.
     rbind (if length vectors \<noteq> n then Inr True
            else anyR (\<lambda>v. rbind (vector_length v) (\<lambda>k. Inr (k \<noteq> EMBEDDING_DIMENSION))) vectors) (\<lambda>bad.
     if bad then Inl (ValueError ''embedding vector count or dimension mismatch'') else Inr vectors))))"

definition answer_tokens :: "json \<Rightarrow> int res" where
  "answer_tokens result = rbind (items [''usage'', ''prompt_tokens''] result) py_int_json"

definition answer_id :: "json \<Rightarrow> json" where
  "answer_id result = (case result of JObj d \<Rightarrow> (case map_of d ''id'' of Some v \<Rightarrow> v | None \<Rightarrow> JNull) | _ \<Rightarrow> JNull)"

definition lift_py :: "'a res \<Rightarrow> 'a study" where
  "lift_py r = slift (case r of Inl e \<Rightarrow> Inl (RetrievalPython e) | Inr x \<Rightarrow> Inr x)"

definition settle_answer :: "string \<Rightarrow> nat \<Rightarrow> json \<Rightarrow> string \<Rightarrow> (json list \<times> int \<times> rat) study" where
  "settle_answer cid n result latency =
     sbind (lift_py (answer_vectors n result)) (\<lambda>vectors.
     sbind (lift_py (answer_tokens result)) (\<lambda>prompt_tokens.
     sbind (on_ledger (settle_056 cid prompt_tokens 0 0
              (if truthy (answer_id result) then Some (py_str (answer_id result)) else None) latency)) (\<lambda>cost.
     sret (vectors, prompt_tokens, cost))))"

text \<open>\<^verbatim>\<open>except (KeyError, TypeError, ValueError, Dur056SpendError)\<close>, with the text of the error.\<close>

definition bad_answer :: "retrieval_exn \<Rightarrow> string option" where
  "bad_answer e =
     (let py = (\<lambda>x. case x of KeyError k \<Rightarrow> Some (repr_string k) | TypeError m \<Rightarrow> Some m | ValueError m \<Rightarrow> Some m
                      | UnicodeEncodeError m \<Rightarrow> Some m
                      | JSONDecodeError m \<Rightarrow> Some m | _ \<Rightarrow> None)
      in case e of
           RetrievalPython x \<Rightarrow> py x
         | RetrievalSpend (SpendError m) \<Rightarrow> Some m
         | RetrievalSpend (SpendRaised x) \<Rightarrow> py x
         | _ \<Rightarrow> None)"

definition reserve_call :: "study_world \<Rightarrow> string \<Rightarrow> nat \<Rightarrow> string study" where
  "reserve_call w op bytes = (\<lambda>s. on_ledger (reserve_056 (w_uuid w (sd_calls s)) EMBEDDING_MODEL op (int bytes) 0) s)"

definition call_api :: "study_world \<Rightarrow> api_answer study" where
  "call_api w = (\<lambda>s. (Inr (w_api w (sd_calls s)), s\<lparr>sd_calls := Suc (sd_calls s)\<rparr>))"

definition fail_call :: "string \<Rightarrow> bool \<Rightarrow> string \<Rightarrow> string \<Rightarrow> 'a study" where
  "fail_call cid uncertain detail message =
     sbind (on_ledger (fail_056 cid uncertain detail)) (\<lambda>_. sraise (Dur056RetrievalError message))"

definition handle_answer :: "string \<Rightarrow> string list \<Rightarrow> string list \<Rightarrow> string \<Rightarrow> string \<Rightarrow> api_answer \<Rightarrow> json list study" where
  "handle_answer cid inputs ids split op answer =
     (case answer of
        ApiHttpError code body message \<Rightarrow>
          sbind (on_ledger (fail_056 cid False message)) (\<lambda>_.
          sbind (lift_py body) (\<lambda>detail.
          sraise (Dur056RetrievalError (''embedding API HTTP '' @ show_int code @ '': '' @ take 400 detail))))
      | ApiFailed message \<Rightarrow> fail_call cid True message (''embedding API failed: '' @ message)
      | ApiAnswered result latency \<Rightarrow> (\<lambda>s.
          case settle_answer cid (length inputs) result latency s of
            (Inr (vectors, prompt_tokens, cost), t) \<Rightarrow>
              (Inr vectors, t\<lparr>sd_records := sd_records t @
                 [\<lparr>er_operation = op, er_split = split, er_ids = ids, er_response_id = answer_id result,
                   er_input_tokens = prompt_tokens, er_latency_ms = latency, er_cost = round8 cost\<rparr>]\<rparr>)
          | (Inl e, t) \<Rightarrow>
              (case bad_answer e of
                 Some m \<Rightarrow> fail_call cid True (''bad response: '' @ m) (''embedding response was invalid: '' @ m) t
               | None \<Rightarrow> (Inl e, t))))"

definition embed :: "study_world \<Rightarrow> string \<Rightarrow> string list \<Rightarrow> string list \<Rightarrow> string \<Rightarrow> string \<Rightarrow> json list study" where
  "embed w split_scope inputs ids split op =
     (if split \<noteq> split_scope
      then sraise (Dur056RetrievalError (split_scope @ '' embedding provider refused '' @ split @ '' content''))
      else if inputs = [] \<or> length inputs \<noteq> length ids \<or> EMBEDDING_BATCH_SIZE < length inputs
      then sraise (Dur056RetrievalError ''DUR-056 embedding batch is empty, misaligned, or too large'')
      else if list_ex (\<lambda>v. strip v = '''') inputs
      then sraise (Dur056RetrievalError ''DUR-056 embedding text cannot be empty'')
      else
        sbind (reserve_call w op (length (str_encode (canonical_json (embed_payload inputs))))) (\<lambda>cid.
        sbind (call_api w) (handle_answer cid inputs ids split op)))"

section \<open>Storing embeddings\<close>

definition vector_text :: "study_world \<Rightarrow> json \<Rightarrow> string study" where
  "vector_text w v =
     sbind (lift_py (vector_length v)) (\<lambda>n.
     if n \<noteq> EMBEDDING_DIMENSION then sraise (Dur056RetrievalError ''DUR-056 vector has the wrong dimension'')
     else sbind (lift_py (rbind (py_iter v) (mapR (w_float w)))) (\<lambda>ts. sret (''['' @ join '','' ts @ '']'')))"

definition existing_chunks :: "study_world \<Rightarrow> string \<Rightarrow> string list study" where
  "existing_chunks w split =
     sbind (study_execute w) (\<lambda>_. sget (\<lambda>s. map cw_chunk_id (filter (\<lambda>r. cw_embedding r \<noteq> None) (split_rows split (sd_chunks s)))))"

definition query_key :: "string \<Rightarrow> string \<Rightarrow> query_row \<Rightarrow> bool" where
  "query_key split qid r \<longleftrightarrow> qw_study_version r = STUDY_VERSION \<and> qw_split r = split \<and> qw_query_id r = qid"

definition existing_queries :: "study_world \<Rightarrow> string \<Rightarrow> string list study" where
  "existing_queries w split =
     sbind (study_execute w) (\<lambda>_. sget (\<lambda>s. map qw_query_id (filter (\<lambda>r. qw_study_version r = STUDY_VERSION \<and> qw_split r = split) (sd_queries s))))"

text \<open>The rows that the \<^verbatim>\<open>UPDATE\<close> matches, and the table after it.\<close>

definition pending :: "string \<Rightarrow> string \<Rightarrow> corpus_row \<Rightarrow> bool" where
  "pending split cid r \<longleftrightarrow> same_key split cid r \<and> cw_embedding r = None"

definition set_embedding :: "string \<Rightarrow> string \<Rightarrow> string \<Rightarrow> corpus_row list \<Rightarrow> corpus_row list" where
  "set_embedding split cid v rows = map (\<lambda>r. if pending split cid r then r\<lparr>cw_embedding := Some v\<rparr> else r) rows"

definition store_chunk :: "study_world \<Rightarrow> string \<Rightarrow> evidence_chunk \<times> json \<Rightarrow> unit study" where
  "store_chunk w split = (\<lambda>(c, v).
     sbind (vector_text w v) (\<lambda>text.
     sbind (study_execute w) (\<lambda>_.
     sbind (sget (\<lambda>s. length (filter (pending split (ec_chunk_id c)) (sd_chunks s)))) (\<lambda>rowcount.
     sbind (smodify (\<lambda>s. s\<lparr>sd_chunks := set_embedding split (ec_chunk_id c) text (sd_chunks s)\<rparr>)) (\<lambda>_.
     sensure (rowcount = 1) (Dur056RetrievalError (''refusing to overwrite embedding '' @ ec_chunk_id c)))))))"

definition store_query :: "study_world \<Rightarrow> string \<Rightarrow> study_query \<times> json \<Rightarrow> unit study" where
  "store_query w split = (\<lambda>(q, v).
     sbind (vector_text w v) (\<lambda>text.
     sbind (study_execute w) (\<lambda>_.
     sbind (sget (\<lambda>s. list_ex (query_key split (sq_query_id q)) (sd_queries s))) (\<lambda>conflict.
     if conflict then sraise (Dur056RetrievalError (''refusing to overwrite query vector '' @ sq_query_id q))
     else smodify (\<lambda>s. s\<lparr>sd_queries := sd_queries s @
       [\<lparr>qw_study_version = STUDY_VERSION, qw_split = split, qw_query_id = sq_query_id q, qw_embedding = text\<rparr>]\<rparr>)))))"

fun store_all :: "('a \<Rightarrow> unit study) \<Rightarrow> 'a list \<Rightarrow> unit study" where
  "store_all store [] = sret ()"
| "store_all store (x # xs) = sbind (store x) (\<lambda>_. store_all store xs)"

text \<open>\<^verbatim>\<open>for offset in range(0, len(inputs), EMBEDDING_BATCH_SIZE)\<close>.\<close>

function batches :: "'a list \<Rightarrow> 'a list list" where
  "batches [] = []"
| "batches (x # xs) = take EMBEDDING_BATCH_SIZE (x # xs) # batches (drop EMBEDDING_BATCH_SIZE (x # xs))"
  by pat_completeness auto
termination
  by (relation "measure length") (auto simp: EMBEDDING_BATCH_SIZE_def)

fun embed_batches ::
  "study_world \<Rightarrow> string \<Rightarrow> string \<Rightarrow> string \<Rightarrow> string \<Rightarrow> ('a \<Rightarrow> string) \<Rightarrow> ('a \<Rightarrow> string) \<Rightarrow> ('a \<times> json \<Rightarrow> unit study) \<Rightarrow> nat \<Rightarrow>
   'a list list \<Rightarrow> unit study" where
  "embed_batches w scope split op message text_of id_of store i [] = sret ()"
| "embed_batches w scope split op message text_of id_of store i (b # bs) =
     sbind (embed w scope (map text_of b) (map id_of b) split (op @ show_nat (Suc i))) (\<lambda>vectors.
     sbind (wrap_psycopg message (transaction w (store_all store (zip b vectors)))) (\<lambda>_.
     embed_batches w scope split op message text_of id_of store (Suc i) bs))"

definition embed_missing :: "study_world \<Rightarrow> string \<Rightarrow> evidence_chunk list \<Rightarrow> study_query list \<Rightarrow> string \<Rightarrow> unit study" where
  "embed_missing w scope chunks queries split =
     (if scope \<noteq> split then sraise (Dur056RetrievalError ''embedding phase and requested split do not match'')
      else if list_ex (\<lambda>q. sq_split q \<noteq> split) queries
      then sraise (Dur056RetrievalError ''DUR-056 query embedding input contains another split'')
      else
        sbind (existing_chunks w split) (\<lambda>chunk_done.
        sbind (embed_batches w scope split (''dur056-embed-'' @ split @ ''-corpus-'') ''cannot persist DUR-056 corpus vectors: ''
                 ec_text ec_chunk_id (store_chunk w split) 0
                 (batches (filter (\<lambda>c. ec_chunk_id c \<notin> set chunk_done) chunks))) (\<lambda>_.
        sbind (existing_queries w split) (\<lambda>query_done.
        embed_batches w scope split (''dur056-embed-'' @ split @ ''-queries-'') ''cannot persist DUR-056 query vectors: ''
          sq_query sq_query_id (store_query w split) 0
          (batches (filter (\<lambda>q. sq_query_id q \<notin> set query_done) queries))))))"

fun query_vectors :: "study_world \<Rightarrow> study_query list \<Rightarrow> (string \<times> (string \<times> string)) list \<Rightarrow> (string \<times> (string \<times> string)) list study" where
  "query_vectors w [] result = sret result"
| "query_vectors w (q # qs) result =
     sbind (study_execute w) (\<lambda>_.
     sbind (sget (\<lambda>s. find (query_key (sq_split q) (sq_query_id q)) (sd_queries s))) (\<lambda>found.
     case found of
       None \<Rightarrow> sraise (Dur056RetrievalError (''DUR-056 query vector is missing: '' @ sq_query_id q))
     | Some r \<Rightarrow>
         if map_of result (sq_query q) \<noteq> None \<and> map_of result (sq_query q) \<noteq> Some (sq_query_id q, qw_embedding r)
         then sraise (Dur056RetrievalError ''duplicate DUR-056 query text has different IDs'')
         else query_vectors w qs (dict_set (sq_query q) (sq_query_id q, qw_embedding r) result)))"

definition query_vector_map :: "study_world \<Rightarrow> study_query list \<Rightarrow> (string \<times> (string \<times> string)) list study" where
  "query_vector_map w rows = wrap_psycopg ''cannot read DUR-056 query vectors: '' (query_vectors w rows [])"

section \<open>The ranking queries\<close>

definition row_hit :: "rat \<Rightarrow> corpus_row \<Rightarrow> index_hit" where
  "row_hit score r = \<lparr>ih_chunk_id = cw_chunk_id r, ih_document_id = cw_document_id r, ih_version = cw_version r,
     ih_service = cw_service r, ih_score = score, ih_snippet = take 1200 (cw_content r)\<rparr>"

definition keyword_select ::
  "(string \<Rightarrow> string \<Rightarrow> bool) \<Rightarrow> (string \<Rightarrow> string \<Rightarrow> rat) \<Rightarrow> corpus_row list \<Rightarrow> string \<Rightarrow> string list \<Rightarrow> nat \<Rightarrow> index_hit list" where
  "keyword_select text_match ts_rank rows tsquery splits top_k =
     map (\<lambda>r. row_hit (ts_rank (cw_content r) tsquery) r)
       (take top_k (sort_key (\<lambda>r. (- ts_rank (cw_content r) tsquery, cw_chunk_id r))
         (filter (\<lambda>r. cw_study_version r = STUDY_VERSION \<and> text_match (cw_content r) tsquery \<and> cw_split r \<in> set splits) rows)))"

text \<open>The approximate index returns rows of the table in its order, from which the condition keeps those of
  the study and the splits.\<close>

definition dense_select ::
  "(string \<Rightarrow> corpus_row list \<Rightarrow> corpus_row list) \<Rightarrow> (string \<Rightarrow> string \<Rightarrow> rat) \<Rightarrow> corpus_row list \<Rightarrow> string \<Rightarrow> string list \<Rightarrow> nat \<Rightarrow> index_hit list" where
  "dense_select index_scan distance rows vector splits top_k =
     map (\<lambda>r. row_hit (1 - distance (case cw_embedding r of Some v \<Rightarrow> v | None \<Rightarrow> '''') vector) r)
       (take top_k (filter (\<lambda>r. cw_study_version r = STUDY_VERSION \<and> cw_embedding r \<noteq> None \<and> cw_split r \<in> set splits)
         (index_scan vector rows)))"


section \<open>The barrier between the splits\<close>

text \<open>A source of ranked rows that keeps to the splits it is given.\<close>

locale split_source =
  fixes rows :: "string \<Rightarrow> string list \<Rightarrow> nat \<Rightarrow> index_hit list" and allowed :: "string list \<Rightarrow> index_hit \<Rightarrow> bool"
  assumes rows_allowed: "h \<in> set (rows q splits k) \<Longrightarrow> allowed splits h"
    and allowed_score: "allowed splits (h\<lparr>ih_score := x\<rparr>) = allowed splits h"

text \<open>The adapter over two such sources.\<close>

locale split_adapter = keyword: split_source keyword_rows allowed + dense: split_source dense_rows allowed
  for keyword_rows dense_rows allowed
begin

lemma fuse_allowed:
  assumes "h \<in> set (fuse rounded k top_k kw dn)" and "\<And>x. x \<in> set (kw @ dn) \<Longrightarrow> allowed splits x"
  shows "allowed splits h"
proof -
  obtain cid s where cs: "(cid, s) \<in> set (add_ranks k 1 dn (add_ranks k 1 kw []))"
    and h: "h = (the (map_of (hits_by_id (kw @ dn)) cid))\<lparr>ih_chunk_id := cid, ih_score := rounded s\<rparr>"
    using assms(1) by (auto simp: fuse_def Let_def dest!: in_set_takeD)
  have "cid \<in> ih_chunk_id ` set (kw @ dn)"
    using image_eqI [of cid fst "(cid, s)", OF _ cs] by (auto simp: add_ranks_keys)
  from hits_by_id_some [OF this] obtain x where x: "x \<in> set (kw @ dn)" "map_of (hits_by_id (kw @ dn)) cid = Some x" "ih_chunk_id x = cid"
    by blast
  then have "h = x\<lparr>ih_score := rounded s\<rparr>" using h by auto
  then show ?thesis using assms(2) [OF x(1)] by (simp add: keyword.allowed_score)
qed

lemma keyword_allowed: "h \<in> set (keyword_hits_056 keyword_rows q splits k) \<Longrightarrow> allowed splits h"
  by (auto simp: keyword_hits_056_def dest: keyword.rows_allowed split: if_splits)

lemma dense_allowed: "dense_hits_056 dense_rows qid v split k splits = Inr hs \<Longrightarrow> h \<in> set hs \<Longrightarrow> allowed splits h"
  by (auto simp: dense_hits_056_def dest: dense.rows_allowed split: if_splits)

lemma ranks_allowed:
  assumes "adapter_ranks keyword_rows dense_rows pa q = Inr (kw, dn, hy)"
  shows "(\<exists>s. map_of (pa_query_splits pa) q = Some s \<and> s \<in> set (pa_allowed_query_splits pa)) \<and>
    (\<forall>h\<in>set (kw @ dn @ hy). allowed (pa_corpus_splits pa) h)"
proof -
  from assms obtain s qid v where s: "map_of (pa_query_splits pa) q = Some s" "s \<in> set (pa_allowed_query_splits pa)"
    and kw: "kw = keyword_hits_056 keyword_rows q (pa_corpus_splits pa) (sc_top_k (pa_config pa))"
    and dn: "dense_hits_056 dense_rows qid v s (sc_top_k (pa_config pa)) (pa_corpus_splits pa) = Inr dn"
    and hy: "hy = fuse (\<lambda>s. s) (sc_rrf_k (pa_config pa)) (sc_top_k (pa_config pa)) kw dn"
    by (auto simp: adapter_ranks_def reciprocal_rank_fusion_def Let_def res_simps split: option.splits if_splits)
  have both: "\<forall>h\<in>set (kw @ dn). allowed (pa_corpus_splits pa) h"
    using keyword_allowed dense_allowed [OF dn] kw by auto
  then have "\<forall>h\<in>set hy. allowed (pa_corpus_splits pa) h" unfolding hy using fuse_allowed by blast
  with both s show ?thesis by auto
qed

lemma search_allowed:
  assumes "adapter_search keyword_rows dense_rows pa q arm = Inr r"
  shows "(\<exists>s. map_of (pa_query_splits pa) q = Some s \<and> s \<in> set (pa_allowed_query_splits pa)) \<and>
    list_all (allowed (pa_corpus_splits pa)) (ir_keyword r @ ir_dense r @ ir_hybrid r @ ir_delivered r)"
proof -
  from assms obtain kw dn hy where ranks: "adapter_ranks keyword_rows dense_rows pa q = Inr (kw, dn, hy)"
    by (auto simp: adapter_search_def rbind_eq_Inr split: if_splits)
  have arm: "arm \<in> {''keyword'', ''dense'', ''hybrid''}" using assms by (auto simp: adapter_search_def split: if_splits)
  have r: "ir_keyword r = kw \<and> ir_dense r = dn \<and> ir_hybrid r = hy \<and> ir_delivered r \<in> {kw, dn, hy}"
    using assms arm unfolding adapter_search_def ranks by (elim insertE emptyE) (simp_all add: Let_def, (metis index_response.select_convs)+)
  then have "set (ir_delivered r) \<subseteq> set (kw @ dn @ hy)" by auto
  then show ?thesis using ranks_allowed [OF ranks] r by (auto simp: list_all_iff)
qed

end

text \<open>The rows of the study in the given splits, and the hits that describe them.\<close>

definition from_split :: "corpus_row list \<Rightarrow> string list \<Rightarrow> index_hit \<Rightarrow> bool" where
  "from_split rows splits h \<longleftrightarrow>
     (\<exists>r\<in>set rows. cw_study_version r = STUDY_VERSION \<and> cw_split r \<in> set splits \<and> h = row_hit (ih_score h) r)"

interpretation keyword_source: split_source "keyword_select text_match ts_rank rows" "from_split rows" for text_match ts_rank rows
proof
  show "from_split rows splits h" if "h \<in> set (keyword_select text_match ts_rank rows q splits k)" for h q splits k
    using that by (auto simp: keyword_select_def from_split_def row_hit_def dest!: in_set_takeD)
  show "from_split rows splits (h\<lparr>ih_score := x\<rparr>) = from_split rows splits h" for splits h x
    by (cases h) (simp add: from_split_def row_hit_def)
qed

text \<open>The approximate index promises no more than rows of the table.\<close>

locale table_scan =
  fixes index_scan :: "string \<Rightarrow> corpus_row list \<Rightarrow> corpus_row list"
  assumes scan_rows: "set (index_scan vector rows) \<subseteq> set rows"

sublocale table_scan \<subseteq> dense_source: split_source "dense_select index_scan distance rows" "from_split rows" for distance rows
proof
  show "from_split rows splits h" if "h \<in> set (dense_select index_scan distance rows q splits k)" for h q splits k
    using that scan_rows by (fastforce simp: dense_select_def from_split_def row_hit_def dest!: in_set_takeD)
qed (rule keyword_source.allowed_score)

sublocale table_scan \<subseteq> adapter: split_adapter "keyword_select text_match ts_rank rows" "dense_select index_scan distance rows" "from_split rows"
  for text_match ts_rank distance rows ..

context table_scan
begin

lemmas barrier = adapter.search_allowed

end

text \<open>The exact scan, which the order of the query names.\<close>

definition exact_scan :: "(string \<Rightarrow> string \<Rightarrow> rat) \<Rightarrow> string \<Rightarrow> corpus_row list \<Rightarrow> corpus_row list" where
  "exact_scan distance vector rows =
     sort_key (\<lambda>r. (distance (case cw_embedding r of Some v \<Rightarrow> v | None \<Rightarrow> '''') vector, cw_chunk_id r)) rows"

interpretation exact: table_scan "exact_scan distance" for distance
  by unfold_locales (simp add: exact_scan_def)

text \<open>C16. A search of the adapter that answers was asked a query of an allowed split, and every hit of the
  response, before and after the gate, describes a row of the study in a split of the corpus allowlist, whatever
  rows of the table the approximate index returns. A development search never sees held-out evidence.\<close>

theorem split_barrier:
  assumes "\<And>v rows. set (index_scan v rows) \<subseteq> set rows"
    and "adapter_search (keyword_select text_match ts_rank rows) (dense_select index_scan distance rows) pa q arm = Inr r"
  shows "(\<exists>s. map_of (pa_query_splits pa) q = Some s \<and> s \<in> set (pa_allowed_query_splits pa)) \<and>
    list_all (from_split rows (pa_corpus_splits pa)) (ir_keyword r @ ir_dense r @ ir_hybrid r @ ir_delivered r)"
proof -
  have "table_scan index_scan" using assms(1) by unfold_locales
  then show ?thesis using assms(2) by (rule table_scan.barrier)
qed

definition demo_row :: "string \<Rightarrow> string \<Rightarrow> corpus_row" where
  "demo_row split cid = \<lparr>cw_study_version = STUDY_VERSION, cw_split = split, cw_chunk_id = cid, cw_document_id = ''runbook'',
     cw_service = ''checkout'', cw_version = ''v1'', cw_source_type = ''runbook'', cw_content = ''pool'', cw_embedding = Some ''[1]''\<rparr>"

definition demo_adapter :: postgres_adapter where
  "demo_adapter = \<lparr>pa_config = \<lparr>sc_top_k = 5, sc_keyword_threshold = 0, sc_dense_threshold = 0, sc_rrf_k = 60\<rparr>,
     pa_query_vectors = [(''pool'', (''dev-1-a'', ''[1]''))], pa_query_splits = [(''pool'', ''development'')],
     pa_allowed_query_splits = [''development''], pa_corpus_splits = [''development'']\<rparr>"

theorem split_barrier_witness:
  "\<exists>r. adapter_search (keyword_select (\<lambda>_ _. True) (\<lambda>_ _. 0) [demo_row ''heldout'' ''h'', demo_row ''development'' ''d''])
         (dense_select (\<lambda>_ rows. rows) (\<lambda>_ _. 0) [demo_row ''heldout'' ''h'', demo_row ''development'' ''d''])
         demo_adapter ''pool'' ''dense'' = Inr r \<and>
     list_all (from_split [demo_row ''heldout'' ''h'', demo_row ''development'' ''d''] [''development'']) (ir_delivered r) \<and>
     map ih_chunk_id (ir_delivered r) = [''d'']"
proof -
  let ?rows = "[demo_row ''heldout'' ''h'', demo_row ''development'' ''d'']"
  obtain r where r: "adapter_search (keyword_select (\<lambda>_ _. True) (\<lambda>_ _. 0) ?rows) (dense_select (\<lambda>_ rows. rows) (\<lambda>_ _. 0) ?rows)
      demo_adapter ''pool'' ''dense'' = Inr r" and "map ih_chunk_id (ir_delivered r) = [''d'']"
    by (simp add: adapter_search_def adapter_ranks_def demo_adapter_def dense_hits_056_def dense_select_def demo_row_def row_hit_def Let_def)
  with split_barrier [OF _ r] show ?thesis by (auto simp: demo_adapter_def)
qed

section \<open>Stored rows are kept\<close>

text \<open>An invariant that only depends on the tables.\<close>

definition of_tables :: "(study_state \<Rightarrow> bool) \<Rightarrow> bool" where
  "of_tables I \<longleftrightarrow> (\<forall>s t. I s \<longrightarrow> sd_chunks t = sd_chunks s \<longrightarrow> sd_queries t = sd_queries s \<longrightarrow> I t)"

lemma of_tablesD: "of_tables I \<Longrightarrow> I s \<Longrightarrow> sd_chunks t = sd_chunks s \<Longrightarrow> sd_queries t = sd_queries s \<Longrightarrow> I t"
  by (simp add: of_tables_def)

lemma preserves_same_tables:
  assumes "of_tables I" and "\<And>s. sd_chunks (snd (m s)) = sd_chunks s \<and> sd_queries (snd (m s)) = sd_queries s"
  shows "preserves I m"
  using assms by (auto simp: preserves_def intro: of_tablesD)

lemma execute_keeps [keeps]: "of_tables I \<Longrightarrow> preserves I (study_execute w)"
  by (erule preserves_same_tables) (simp add: study_execute_def split: option.split)

lemma on_ledger_keeps [keeps]: "of_tables I \<Longrightarrow> preserves I (on_ledger m)"
  by (erule preserves_same_tables) (simp add: on_ledger_def split: prod.split sum.split)

lemma reserve_keeps [keeps]: "of_tables I \<Longrightarrow> preserves I (reserve_call w op n)"
  by (erule preserves_same_tables) (simp add: reserve_call_def on_ledger_def split: prod.split sum.split)

lemma api_keeps [keeps]: "of_tables I \<Longrightarrow> preserves I (call_api w)"
  by (erule preserves_same_tables) (simp add: call_api_def)

lemma lift_py_keeps [keeps]: "preserves I (lift_py r)"
  by (simp add: lift_py_def keeps)

lemma fail_keeps [keeps]: "of_tables I \<Longrightarrow> preserves I (fail_call cid b d m)"
  by (simp add: fail_call_def keeps)

lemma settle_keeps [keeps]: "of_tables I \<Longrightarrow> preserves I (settle_answer cid n r t)"
  by (simp add: settle_answer_def keeps)

lemma wrap_keeps [keeps]: "preserves I m \<Longrightarrow> preserves I (wrap_psycopg msg m)"
  by (auto simp: preserves_def wrap_psycopg_def split: prod.split sum.split retrieval_exn.split)

lemma transaction_keeps [keeps]:
  assumes "of_tables I" and "preserves I body"
  shows "preserves I (transaction w body)"
proof -
  have p: "preserves I (sbind body (\<lambda>x. sbind (study_execute w) (\<lambda>_. sret x)))" using assms by (simp add: keeps)
  show ?thesis unfolding preserves_def transaction_def
  proof (intro allI impI)
    fix s assume "I s"
    let ?r = "sbind body (\<lambda>x. sbind (study_execute w) (\<lambda>_. sret x)) s"
    have "I (snd ?r)" using p \<open>I s\<close> by (simp add: preserves_def)
    moreover have "I ((snd ?r)\<lparr>sd_chunks := sd_chunks s, sd_queries := sd_queries s\<rparr>)"
      using \<open>I s\<close> by (rule of_tablesD [OF assms(1)]) simp_all
    ultimately show "I (snd (case ?r of (Inr x, t) \<Rightarrow> (Inr x, t)
        | (Inl e, t) \<Rightarrow> (Inl e, t\<lparr>sd_chunks := sd_chunks s, sd_queries := sd_queries s\<rparr>)))"
      by (cases ?r) (auto split: sum.split)
  qed
qed

lemma answer_keeps [keeps]:
  assumes "of_tables I"
  shows "preserves I (handle_answer cid inputs ids split op answer)"
proof (cases answer)
  case (ApiAnswered result latency)
  have s: "preserves I (settle_answer cid (length inputs) result latency)" and f: "preserves I (fail_call cid True d m)" for d m
    using assms by (simp_all add: keeps)
  show ?thesis unfolding preserves_def
  proof (intro allI impI)
    fix s assume "I s"
    obtain r t where r: "settle_answer cid (length inputs) result latency s = (r, t)" by fastforce
    have "I t" using preservesD [OF s \<open>I s\<close> r] .
    then show "I (snd (handle_answer cid inputs ids split op answer s))"
      using f r assms by (auto simp: handle_answer_def ApiAnswered preserves_def elim: of_tablesD split: sum.split option.split)
  qed
qed (use assms in \<open>simp_all add: handle_answer_def keeps\<close>)

lemma embed_keeps [keeps]: "of_tables I \<Longrightarrow> preserves I (embed w scope inputs ids split op)"
  by (simp add: embed_def keeps)

lemma vector_text_keeps [keeps]: "preserves I (vector_text w v)"
  by (simp add: vector_text_def keeps)

lemma store_all_keeps [keeps]: "(\<And>x. preserves I (store x)) \<Longrightarrow> preserves I (store_all store xs)"
  by (induction xs) (simp_all add: keeps)

lemma batches_keep [keeps]:
  "of_tables I \<Longrightarrow> (\<And>x. preserves I (store x)) \<Longrightarrow> preserves I (embed_batches w scope split op msg f g store i bs)"
  by (induction bs arbitrary: i) (simp_all add: keeps)

text \<open>What may happen to a row: nothing, or an embedding where there was none.\<close>

definition row_kept :: "string \<Rightarrow> corpus_row \<Rightarrow> corpus_row \<Rightarrow> bool" where
  "row_kept split r r' \<longleftrightarrow>
     r' = r \<or> cw_split r = split \<and> cw_embedding r = None \<and> (\<exists>v. r' = r\<lparr>cw_embedding := Some v\<rparr>)"

definition kept :: "string \<Rightarrow> study_state \<Rightarrow> study_state \<Rightarrow> bool" where
  "kept split s t \<longleftrightarrow>
     (\<exists>old new. sd_chunks t = old @ new \<and> list_all2 (row_kept split) (sd_chunks s) old) \<and>
     (\<exists>qs. sd_queries t = sd_queries s @ qs)"

lemma row_kept_refl [simp]: "row_kept split r r"
  by (simp add: row_kept_def)

lemma row_kept_trans: "row_kept split a b \<Longrightarrow> row_kept split b c \<Longrightarrow> row_kept split a c"
  by (auto simp: row_kept_def)

lemma keptI:
  "sd_chunks t = old @ new \<Longrightarrow> list_all2 (row_kept split) (sd_chunks s) old \<Longrightarrow> sd_queries t = sd_queries s @ qs \<Longrightarrow> kept split s t"
  by (auto simp: kept_def)

lemma rows_kept_refl [simp]: "list_all2 (row_kept split) rs rs"
  by (rule list.rel_refl) simp

lemma kept_refl [simp]: "kept split s s"
  by (rule keptI [of _ "sd_chunks s" "[]" _ _ "[]"]) simp_all

lemma kept_trans:
  assumes "kept split s t" and "kept split t u"
  shows "kept split s u"
proof -
  obtain old new where o: "sd_chunks t = old @ new" "list_all2 (row_kept split) (sd_chunks s) old" using assms(1) by (auto simp: kept_def)
  obtain old' new' where o': "sd_chunks u = old' @ new'" "list_all2 (row_kept split) (old @ new) old'"
    using assms(2) o(1) by (auto simp: kept_def)
  then obtain a b where ab: "old' = a @ b" "list_all2 (row_kept split) old a" by (auto simp: list_all2_append1)
  then have "list_all2 (row_kept split) (sd_chunks s) a" using o(2) by (blast intro: list_all2_trans row_kept_trans)
  with ab o' have "\<exists>old new. sd_chunks u = old @ new \<and> list_all2 (row_kept split) (sd_chunks s) old" by auto
  moreover have "\<exists>qs. sd_queries u = sd_queries s @ qs" using assms by (auto simp: kept_def)
  ultimately show ?thesis by (simp add: kept_def)
qed

lemma kept_tables: "of_tables (kept split s)"
  by (simp add: of_tables_def kept_def)

lemma kept_run: "(\<And>s0. preserves (kept split s0) m) \<Longrightarrow> m s = (r, t) \<Longrightarrow> kept split s t"
  using preservesD [of "kept split s" m s r t] by simp

lemma kept_modify: "(\<And>s. kept split s (f s)) \<Longrightarrow> preserves (kept split s0) (smodify f)"
  by (rule preserves_smodify) (blast intro: kept_trans)

lemma insert_kept [keeps]: "preserves (kept split s0) (seed_chunk w split c)"
proof -
  have "kept split s (if list_ex (same_key split (ec_chunk_id c)) (sd_chunks s) then s
      else s\<lparr>sd_chunks := sd_chunks s @ [corpus_row_of split c]\<rparr>)" for s
    by (auto intro: keptI [where old = "sd_chunks s" and qs = "[]"])
  then show ?thesis unfolding seed_chunk_def by (intro keeps kept_tables kept_modify)
qed

lemma inserts_kept [keeps]: "preserves (kept split s0) (insert_chunks w split cs)"
  by (induction cs) (simp_all add: keeps)

lemma seed_kept: "preserves (kept split s0) (seed_corpus w cases split)"
  unfolding seed_corpus_def Let_def by (intro keeps kept_tables)

lemma update_kept:
  "kept split s (s\<lparr>sd_chunks := set_embedding split cid v (sd_chunks s)\<rparr>)"
proof -
  have "list_all2 (row_kept split) (sd_chunks s) (set_embedding split cid v (sd_chunks s))"
    by (auto simp: list_all2_conv_all_nth row_kept_def same_key_def pending_def set_embedding_def)
  then show ?thesis by (intro keptI [where new = "[]" and qs = "[]"]) simp_all
qed

lemma store_chunk_kept [keeps]: "preserves (kept split s0) (store_chunk w split x)"
  unfolding store_chunk_def by (intro keeps kept_tables kept_modify update_kept)

lemma store_query_kept [keeps]: "preserves (kept split s0) (store_query w split x)"
proof -
  have "kept split s (s\<lparr>sd_queries := sd_queries s @ qs\<rparr>)" for s qs by (rule keptI [of _ "sd_chunks s" "[]"]) simp_all
  then show ?thesis unfolding store_query_def by (intro keeps kept_tables kept_modify)
qed

lemma existing_keep [keeps]:
  "of_tables I \<Longrightarrow> preserves I (existing_chunks w split)" "of_tables I \<Longrightarrow> preserves I (existing_queries w split)"
  by (simp_all add: existing_chunks_def existing_queries_def keeps)

lemma embed_missing_kept: "preserves (kept split s0) (embed_missing w scope chunks queries split)"
  unfolding embed_missing_def by (intro keeps kept_tables)

section \<open>Embedding what is missing\<close>

definition embedded :: "string \<Rightarrow> string \<Rightarrow> study_state \<Rightarrow> bool" where
  "embedded split cid s \<longleftrightarrow> (\<exists>r\<in>set (sd_chunks s). same_key split cid r \<and> cw_embedding r \<noteq> None)"

definition has_vector :: "string \<Rightarrow> string \<Rightarrow> study_state \<Rightarrow> bool" where
  "has_vector split qid s \<longleftrightarrow> list_ex (query_key split qid) (sd_queries s)"

lemma embedded_kept:
  assumes "kept split' s t" and "embedded split cid s"
  shows "embedded split cid t"
proof -
  obtain old new where t: "sd_chunks t = old @ new" "list_all2 (row_kept split') (sd_chunks s) old" using assms(1) by (auto simp: kept_def)
  obtain r where r: "r \<in> set (sd_chunks s)" "same_key split cid r" "cw_embedding r \<noteq> None" using assms(2) by (auto simp: embedded_def)
  from r(1) t(2) obtain r' where "r' \<in> set old" "row_kept split' r r'" by (metis list_all2_conv_all_nth in_set_conv_nth)
  with r t(1) show ?thesis by (auto simp: embedded_def row_kept_def)
qed

lemma has_vector_kept: "kept split' s t \<Longrightarrow> has_vector split qid s \<Longrightarrow> has_vector split qid t"
  by (auto simp: kept_def has_vector_def list_ex_iff)

lemma of_tables_has [simp]: "of_tables (embedded split cid)" "of_tables (has_vector split qid)"
  by (simp_all add: of_tables_def embedded_def has_vector_def)

lemma store_chunk_embedded:
  assumes "store_chunk w split (c, v) s = (Inr u, t)"
  shows "embedded split (ec_chunk_id c) t"
proof -
  from assms obtain vt and s' :: study_state where one: "length (filter (pending split (ec_chunk_id c)) (sd_chunks s')) = 1"
    and t: "sd_chunks t = set_embedding split (ec_chunk_id c) vt (sd_chunks s')"
    by (auto simp: store_chunk_def res_simps sensure_def sret_def sraise_def split: if_splits)
  from one have "filter (pending split (ec_chunk_id c)) (sd_chunks s') \<noteq> []" by auto
  then obtain r where "r \<in> set (sd_chunks s')" "pending split (ec_chunk_id c) r" by (auto simp: filter_empty_conv)
  then have "r\<lparr>cw_embedding := Some vt\<rparr> \<in> set (sd_chunks t)" "same_key split (ec_chunk_id c) (r\<lparr>cw_embedding := Some vt\<rparr>)"
    unfolding t set_embedding_def by (force, simp add: pending_def same_key_def)
  then show ?thesis by (force simp: embedded_def)
qed

lemma store_query_vector: "store_query w split (q, v) s = (Inr u, t) \<Longrightarrow> has_vector split (sq_query_id q) t"
  by (auto simp: store_query_def res_simps sraise_def smodify_def has_vector_def query_key_def split: if_splits)

lemma answer_vectors_length: "answer_vectors n result = Inr vs \<Longrightarrow> length vs = n"
  by (auto simp: answer_vectors_def res_simps split: if_splits)

lemma embed_length:
  assumes "embed w scope inputs ids split op s = (Inr vs, t)"
  shows "length vs = length inputs"
proof -
  from assms obtain cid answer s' where "handle_answer cid inputs ids split op answer s' = (Inr vs, t)"
    by (auto simp: embed_def res_simps sraise_def split: if_splits)
  then show ?thesis
    by (auto simp: handle_answer_def fail_call_def settle_answer_def lift_py_def slift_def sret_def sraise_def res_simps answer_vectors_length
        split: api_answer.splits prod.splits sum.splits option.splits)
qed

lemma wrap_Inr: "wrap_psycopg msg m s = (Inr x, t) \<Longrightarrow> m s = (Inr x, t)"
  by (auto simp: wrap_psycopg_def split: prod.splits sum.splits retrieval_exn.splits)

text \<open>What a stored row says stays true while later rows are stored.\<close>

lemma store_all_stores:
  assumes "\<And>x v s t. store (x, v) s = (Inr (), t) \<Longrightarrow> has x t" and "\<And>x s0. preserves (\<lambda>s. kept split s0 s) (store x)"
    and "\<And>x s t. kept split s t \<Longrightarrow> has x s \<Longrightarrow> has x t"
    and "store_all store xs s = (Inr (), t)"
  shows "\<forall>x\<in>fst ` set xs. has x t"
  using assms(4)
proof (induction xs arbitrary: s)
  case (Cons y ys)
  obtain x v where y: "y = (x, v)" by fastforce
  from Cons.prems obtain s' where s': "store (x, v) s = (Inr (), s')" "store_all store ys s' = (Inr (), t)" by (auto simp: res_simps y)
  have "kept split s' t" by (rule kept_run [OF store_all_keeps s'(2)]) (rule assms(2))
  with assms(1) [OF s'(1)] assms(3) have "has x t" by blast
  with Cons.IH [OF s'(2)] show ?case by (simp add: y)
qed simp

lemma batches_store:
  assumes "\<And>x v s t. store (x, v) s = (Inr (), t) \<Longrightarrow> has x t" and store: "\<And>x s0. preserves (kept split s0) (store x)"
    and mono: "\<And>x s t. kept split s t \<Longrightarrow> has x s \<Longrightarrow> has x t" and exec: "\<And>x s. of_tables (has x)"
    and "embed_batches w scope split op msg f g store i bs s = (Inr (), t)"
  shows "\<forall>x\<in>set (concat bs). has x t"
  using assms(5)
proof (induction bs arbitrary: i s)
  case (Cons b bs)
  from Cons.prems obtain vs s1 s2 where e: "embed w scope (map f b) (map g b) split (op @ show_nat (Suc i)) s = (Inr vs, s1)"
    and st: "transaction w (store_all store (zip b vs)) s1 = (Inr (), s2)"
    and rest: "embed_batches w scope split op msg f g store (Suc i) bs s2 = (Inr (), t)"
    by (auto simp: res_simps dest!: wrap_Inr)
  from st obtain s3 where s3: "store_all store (zip b vs) s1 = (Inr (), s3)" "sd_chunks s2 = sd_chunks s3" "sd_queries s2 = sd_queries s3"
    by (auto simp: transaction_def res_simps study_execute_def sret_def split: prod.splits sum.splits option.splits)
  have "fst ` set (zip b vs) = set b" using embed_length [OF e] by (metis length_map map_fst_zip set_map)
  then have "\<forall>x\<in>set b. has x s3" using store_all_stores [OF assms(1) store mono s3(1)] by simp
  then have "\<forall>x\<in>set b. has x s2" using of_tablesD [OF exec] s3(2,3) by metis
  moreover have "kept split s2 t" by (rule kept_run [OF batches_keep rest]) (rule kept_tables store)+
  ultimately show ?case using Cons.IH [OF rest] mono by auto
qed simp

lemma concat_batches [simp]: "concat (batches xs) = xs"
  by (induction xs rule: batches.induct) (simp_all del: drop_Cons' take_Cons')

text \<open>When storing the embeddings of a split succeeds, every chunk and every query that it was given has
  one, and whether it succeeds or not, no stored row is lost or changed except for an embedding where there was
  none, all in rows of this split.\<close>

theorem embed_missing_complete:
  assumes "embed_missing w scope chunks queries split s = (out, t)"
  shows "kept split s t \<and>
    (out = Inr () \<longrightarrow> list_all (\<lambda>c. embedded split (ec_chunk_id c) t) chunks \<and> list_all (\<lambda>q. has_vector split (sq_query_id q) t) queries)"
proof (rule conjI [OF _ impI])
  show "kept split s t" by (rule kept_run [OF embed_missing_kept assms])
next
  assume "out = Inr ()"
  with assms obtain cdone s1 s2 qdone s3 where c: "existing_chunks w split s = (Inr cdone, s1)"
    and cb: "embed_batches w scope split (''dur056-embed-'' @ split @ ''-corpus-'') ''cannot persist DUR-056 corpus vectors: ''
        ec_text ec_chunk_id (store_chunk w split) 0 (batches (filter (\<lambda>c. ec_chunk_id c \<notin> set cdone) chunks)) s1 = (Inr (), s2)"
    and q: "existing_queries w split s2 = (Inr qdone, s3)"
    and qb: "embed_batches w scope split (''dur056-embed-'' @ split @ ''-queries-'') ''cannot persist DUR-056 query vectors: ''
        sq_query sq_query_id (store_query w split) 0 (batches (filter (\<lambda>q. sq_query_id q \<notin> set qdone) queries)) s3 = (Inr (), t)"
    by (auto simp: embed_missing_def res_simps sraise_def split: if_splits)
  have k1: "kept split s1 t"
    by (rule kept_trans [OF kept_run [OF batches_keep cb] kept_trans [OF kept_run [OF existing_keep(2) q] kept_run [OF batches_keep qb]]])
       (rule kept_tables store_chunk_kept store_query_kept)+
  have k3: "kept split s3 t" by (rule kept_run [OF batches_keep qb]) (rule kept_tables store_query_kept)+
  have k2: "kept split s2 t" by (rule kept_trans [OF kept_run [OF existing_keep(2) q] k3]) (rule kept_tables)
  have "\<forall>c\<in>set (concat (batches (filter (\<lambda>c. ec_chunk_id c \<notin> set cdone) chunks))). embedded split (ec_chunk_id c) s2"
    by (rule batches_store [OF _ _ _ _ cb])
       (auto intro: store_chunk_embedded store_chunk_kept embedded_kept)
  moreover have "embedded split cid s1" if "cid \<in> set cdone" for cid
    using c that by (fastforce simp: existing_chunks_def res_simps study_execute_def sget_def split_rows_def embedded_def same_key_def)
  ultimately have "embedded split (ec_chunk_id c) t" if "c \<in> set chunks" for c
    using that embedded_kept [OF k1] embedded_kept [OF k2] by (cases "ec_chunk_id c \<in> set cdone") auto
  moreover have "\<forall>q\<in>set (concat (batches (filter (\<lambda>q. sq_query_id q \<notin> set qdone) queries))). has_vector split (sq_query_id q) t"
    by (rule batches_store [OF _ _ _ _ qb])
       (auto intro: store_query_vector store_query_kept has_vector_kept)
  moreover have "has_vector split qid s3" if "qid \<in> set qdone" for qid
    using q that by (auto simp: existing_queries_def res_simps study_execute_def sget_def has_vector_def query_key_def list_ex_iff)
  ultimately show "list_all (\<lambda>c. embedded split (ec_chunk_id c) t) chunks \<and> list_all (\<lambda>q. has_vector split (sq_query_id q) t) queries"
    using has_vector_kept [OF k3] by (auto simp: list_all_iff)
qed

definition priced_ledger :: ledger where
  "priced_ledger = (sample_ledger 25 0)\<lparr>price_sources := Some [(EMBEDDING_MODEL, Some (sample_price (2 / 100)))], lg_entries := []\<rparr>"

definition demo_study :: "corpus_row list \<Rightarrow> study_state" where
  "demo_study rows = \<lparr>sd_chunks = rows, sd_queries = [], sd_ledger = Ledger priced_ledger, sd_records = [], sd_statements = 0, sd_calls = 0\<rparr>"

definition demo_study_world :: "api_answer \<Rightarrow> study_world" where
  "demo_study_world answer = \<lparr>w_sql = (\<lambda>_. None), w_api = (\<lambda>_. answer), w_uuid = (\<lambda>n. ''call-'' @ show_nat n), w_float = (\<lambda>_. Inr ''0''),
     w_api_key = ''key''\<rparr>"

theorem embed_missing_complete_witness:
  "\<exists>t. embed_missing (demo_study_world (ApiFailed ''down'')) ''development'' [demo_chunk ''d'' ''pool''] [] ''development''
         (demo_study [demo_row ''heldout'' ''h'', demo_row ''development'' ''d'']) = (Inr (), t) \<and>
     embedded ''development'' ''d'' t \<and> kept ''development'' (demo_study [demo_row ''heldout'' ''h'', demo_row ''development'' ''d'']) t"
proof -
  obtain t where t: "embed_missing (demo_study_world (ApiFailed ''down'')) ''development'' [demo_chunk ''d'' ''pool''] [] ''development''
      (demo_study [demo_row ''heldout'' ''h'', demo_row ''development'' ''d'']) = (Inr (), t)"
    by (simp add: embed_missing_def existing_chunks_def existing_queries_def study_execute_def demo_study_world_def demo_study_def demo_row_def
        demo_chunk_def split_rows_def sbind_def sget_def sret_def)
  with embed_missing_complete [OF t] show ?thesis by (simp add: demo_chunk_def)
qed

section \<open>No reservation is left open\<close>

text \<open>The errors that reading an answer raises are among those that the client catches, except for the
  \<^verbatim>\<open>OverflowError\<close> of an infinite number of tokens.\<close>

definition infinite_tokens :: "retrieval_exn \<Rightarrow> bool" where
  "infinite_tokens e = (case e of RetrievalPython (OverflowError _) \<Rightarrow> True | _ \<Rightarrow> False)"

lemma sort_rows_error: "sort_rows rows = Inl e \<Longrightarrow> value_error e"
  by (auto simp: sort_rows_def res_simps split: if_splits option.splits dest!: mapR_raises dest: item_error)

lemma vectors_error: "answer_vectors n result = Inl e \<Longrightarrow> value_error e"
  by (auto simp: answer_vectors_def vector_length_def res_simps split: if_splits json.splits
      dest!: mapR_raises anyR_raises dest: item_error iter_error sort_rows_error)

lemma tokens_error: "answer_tokens result = Inl e \<Longrightarrow> value_error e \<or> overflow_error e"
  by (auto simp: answer_tokens_def res_simps dest: item_error int_error)

lemma bad_value:
  "value_error x \<Longrightarrow> \<exists>m. bad_answer (RetrievalPython x) = Some m"
  "spend_caught y \<Longrightarrow> \<exists>m. bad_answer (RetrievalSpend y) = Some m"
  by (cases x; simp add: bad_answer_def) (auto simp: spend_caught_def bad_answer_def split: spend_exn.splits exn.splits)

lemma settle_answer_entry:
  assumes "with_entry cid l e (sd_ledger s)" and "settle_answer cid n result lat s = (r, t)"
  shows "\<exists>e'. with_entry cid l e' (sd_ledger t) \<and> sd_records t = sd_records s \<and>
    (\<forall>vs k cost. r = Inr (vs, k, cost) \<longrightarrow> rq_state e' = ''SETTLED'' \<and> (\<exists>u. rq_usage e' = Some u \<and> us_cost u = round8 cost)) \<and>
    (\<forall>x. r = Inl x \<longrightarrow> bad_answer x \<noteq> None \<or> infinite_tokens x)"
proof (cases "answer_vectors n result")
  case (Inl x)
  with bad_value(1) [OF vectors_error [OF Inl]] assms show ?thesis
    by (auto simp: settle_answer_def lift_py_def sraise_def intro!: exI [of _ e])
next
  case v: (Inr vs)
  show ?thesis
  proof (cases "answer_tokens result")
    case (Inl x)
    with v bad_value(1) [of x] tokens_error [OF Inl] assms show ?thesis
      by (auto simp: settle_answer_def lift_py_def sraise_def infinite_tokens_def intro!: exI [of _ e])
  next
    case (Inr k)
    obtain q f' where q: "settle_056 cid k 0 0 (if truthy (answer_id result) then Some (py_str (answer_id result)) else None) lat (sd_ledger s) = (q, f')"
      by fastforce
    have bad: "bad_answer (RetrievalSpend x) \<noteq> None" if "q = Inl x" for x
      using settle_error [of cid k 0 0 _ lat "sd_ledger s" x f'] q that bad_value(2) by fastforce
    from study_056.settle_entry [where u = "(k, 0, 0, _, lat)", unfolded prod.case, OF assms(1) q] assms(2) v Inr q bad show ?thesis
      by (cases q) (auto simp: settle_answer_def lift_py_def slift_def sbind_def on_ledger_def sret_def)
  qed
qed

lemma answer_entry:
  assumes "with_entry cid l e (sd_ledger s)" and "handle_answer cid inputs ids split op answer s = (out, t)"
  shows "\<exists>e'. with_entry cid l e' (sd_ledger t) \<and> (rq_state e' \<noteq> ''RESERVED'' \<or> (\<exists>x. out = Inl x \<and> infinite_tokens x)) \<and>
    (\<forall>vs. out = Inr vs \<longrightarrow> rq_state e' = ''SETTLED'' \<and>
       (\<exists>u r. rq_usage e' = Some u \<and> sd_records t = sd_records s @ [r] \<and> er_cost r = us_cost u))"
proof -
  have fails: "\<exists>e'. with_entry cid l e' (sd_ledger t) \<and> rq_state e' \<noteq> ''RESERVED'' \<and> isl out"
    if "with_entry cid l x (sd_ledger s')" "fail_call cid b d m s' = (out, t)" for x b d m s' and out :: "retrieval_exn + json list" and t
    using study_056.fail_entry [OF that(1), of b d] that(2) by (clarsimp simp: fail_call_def on_ledger_def sbind_def sraise_def) blast
  show ?thesis
  proof (cases answer)
    case (ApiAnswered result lat)
    obtain r s' where r: "settle_answer cid (length inputs) result lat s = (r, s')" by fastforce
    from settle_answer_entry [OF assms(1) r] obtain e' where e': "with_entry cid l e' (sd_ledger s')" "sd_records s' = sd_records s"
      "\<forall>vs k cost. r = Inr (vs, k, cost) \<longrightarrow> rq_state e' = ''SETTLED'' \<and> (\<exists>u. rq_usage e' = Some u \<and> us_cost u = round8 cost)"
      "\<forall>x. r = Inl x \<longrightarrow> bad_answer x \<noteq> None \<or> infinite_tokens x" by blast
    show ?thesis
    proof (cases r)
      case (Inl x)
      show ?thesis
      proof (cases "bad_answer x")
        case None
        with assms(2) r Inl e'(1,4) show ?thesis by (intro exI [of _ e']) (auto simp: handle_answer_def ApiAnswered)
      next
        case (Some m)
        with assms(2) r Inl have "fail_call cid True (''bad response: '' @ m) (''embedding response was invalid: '' @ m) s' = (out, t)"
          by (simp add: handle_answer_def ApiAnswered)
        from fails [OF e'(1) this] show ?thesis by auto
      qed
    next
      case (Inr p)
      obtain vs k cost where "p = (vs, k, cost)" by (cases p)
      with assms(2) r Inr e'(1-3) show ?thesis by (force simp: handle_answer_def ApiAnswered)
    qed
  next
    case (ApiFailed message)
    with assms(2) have "fail_call cid True message (''embedding API failed: '' @ message) s = (out, t)" by (simp add: handle_answer_def)
    from fails [OF assms(1) this] show ?thesis by auto
  next
    case (ApiHttpError code body message)
    from study_056.fail_entry [OF assms(1), of False message] obtain e' f where
      f: "fail_056 cid False message (sd_ledger s) = (Inr (), f)" "with_entry cid l e' f" "rq_state e' \<noteq> ''RESERVED''" by blast
    with assms(2) ApiHttpError have "isl out \<and> sd_ledger t = f"
      by (cases body) (auto simp: handle_answer_def on_ledger_def lift_py_def sbind_def sraise_def)
    with f show ?thesis by (intro exI [of _ e']) auto
  qed
qed

text \<open>An embedding request leaves its reservation open only when it raises an \<^verbatim>\<open>OverflowError\<close>: otherwise the
  ledger has the same open reservations afterwards as before, and when vectors are returned, the entry of the call is
  settled with the cost that the client records.\<close>

theorem embed_closes:
  assumes "sd_ledger s = Ledger l" and "find_request (w_uuid w (sd_calls s)) (lg_entries l) = None"
    and "embed w scope inputs ids split op s = (out, t)"
  shows "\<exists>l'. sd_ledger t = Ledger l' \<and> (open_ids (lg_entries l') = open_ids (lg_entries l) \<or> (\<exists>x. out = Inl x \<and> infinite_tokens x)) \<and>
    (\<forall>vs. out = Inr vs \<longrightarrow> (\<exists>e u r. lg_entries l' = lg_entries l @ [Request e] \<and> rq_state e = ''SETTLED'' \<and> rq_usage e = Some u \<and>
       sd_records t = sd_records s @ [r] \<and> er_cost r = us_cost u))"
proof -
  let ?cid = "w_uuid w (sd_calls s)"
  let ?n = "length (str_encode (canonical_json (embed_payload inputs)))"
  obtain r f where rf: "reserve_056 ?cid EMBEDDING_MODEL op (int ?n) 0 (Ledger l) = (r, f)" by fastforce
  note entry = study_056.reserve_entry [OF rf assms(2)]
  show ?thesis
  proof (cases "t = s \<and> isl out")
    case True
    with assms(1) show ?thesis by auto
  next
    case False
    with assms(3) have run: "sbind (reserve_call w op ?n) (\<lambda>cid. sbind (call_api w) (handle_answer cid inputs ids split op)) s = (out, t)"
      by (auto simp: embed_def sraise_def split: if_splits)
    show ?thesis
    proof (cases r)
      case (Inl x)
      with run entry assms(1) rf show ?thesis by (auto simp: reserve_call_def on_ledger_def sbind_def)
    next
      case (Inr c)
      with entry obtain e where c: "c = ?cid" and e: "with_entry ?cid l e f" by auto
      let ?s = "s\<lparr>sd_ledger := f, sd_calls := Suc (sd_calls s)\<rparr>"
      have "handle_answer ?cid inputs ids split op (w_api w (sd_calls s)) ?s = (out, t)"
        using run rf Inr c assms(1) by (simp add: reserve_call_def on_ledger_def sbind_def call_api_def)
      from answer_entry [OF _ this, of l e] e show ?thesis by (force simp: with_entry_def)
    qed
  qed
qed

section \<open>A seeded corpus is the registered one\<close>

abbreviation row_key :: "corpus_row \<Rightarrow> string \<times> string \<times> string" where
  "row_key r \<equiv> (cw_study_version r, cw_split r, cw_chunk_id r)"

definition keys_unique :: "study_state \<Rightarrow> bool" where
  "keys_unique s \<longleftrightarrow> distinct (map row_key (sd_chunks s))"

lemma unique_tables: "of_tables keys_unique"
  by (simp add: of_tables_def keys_unique_def)

lemma insert_unique [keeps]: "preserves keys_unique (seed_chunk w split c)"
proof -
  have "keys_unique s \<Longrightarrow> keys_unique (if list_ex (same_key split (ec_chunk_id c)) (sd_chunks s) then s
      else s\<lparr>sd_chunks := sd_chunks s @ [corpus_row_of split c]\<rparr>)" for s
    by (auto simp: keys_unique_def list_ex_iff same_key_def corpus_row_of_def)
  then show ?thesis unfolding seed_chunk_def by (intro keeps unique_tables preserves_smodify)
qed

lemma inserts_unique [keeps]: "preserves keys_unique (insert_chunks w split cs)"
  by (induction cs) (simp_all add: keeps)

lemma seed_unique: "preserves keys_unique (seed_corpus w cases split)"
  unfolding seed_corpus_def Let_def by (intro keeps unique_tables)

lemma dict_of_fold:
  "map_of (fold (\<lambda>r. dict_set (f r) (g r)) rs d) k = (case map_of (rev (map (\<lambda>r. (f r, g r)) rs)) k of Some v \<Rightarrow> Some v | None \<Rightarrow> map_of d k)"
  by (induction rs arbitrary: d) (auto split: option.splits)

lemma dict_of_fold_ok: "dict_ok d \<Longrightarrow> dict_ok (fold (\<lambda>r. dict_set (f r) (g r)) rs d)"
  by (induction rs arbitrary: d) (auto intro: distinct_update)

lemma persisted_map:
  assumes "distinct (map row_key rows)"
  shows "map_of (persisted_texts split rows) = map_of (map (\<lambda>r. (cw_chunk_id r, cw_content r)) (split_rows split rows))"
proof -
  have "distinct (map row_key (split_rows split rows))" using assms by (simp add: split_rows_def distinct_map_filter)
  then have "distinct (map cw_chunk_id (split_rows split rows))" by (auto simp: distinct_map inj_on_def split_rows_def)
  then have "distinct (map fst (map (\<lambda>r. (cw_chunk_id r, cw_content r)) (split_rows split rows)))" by (simp add: comp_def)
  then have "map_of (rev (map (\<lambda>r. (cw_chunk_id r, cw_content r)) (split_rows split rows))) =
      map_of (map (\<lambda>r. (cw_chunk_id r, cw_content r)) (split_rows split rows))"
    by (subst map_of_inject_set) (simp_all add: rev_map flip: rev_map)
  then show ?thesis
    unfolding persisted_texts_def by (intro ext) (simp add: dict_of_fold split: option.split)
qed

text \<open>Two dictionaries of the same length, one of which has every item of the other, are equal as maps.\<close>

lemma dict_same:
  assumes "dict_ok d" and "dict_ok e" and "length d = length e" and "\<And>k v. (k, v) \<in> set e \<Longrightarrow> map_of d k = Some v"
  shows "map_of d = map_of e"
proof -
  have sub: "set e \<subseteq> set d" using assms(4) map_of_SomeD by fastforce
  moreover have "card (set d) = card (set e)"
    using assms(1-3) by (simp add: distinct_card distinct_map)
  ultimately have "set d = set e" by (metis List.finite_set card_subset_eq)
  then show ?thesis using assms(1,2) map_of_inject_set by blast
qed

text \<open>Seeding a split that returns has stored exactly the registered corpus: the texts of the rows of the
  split are those of the fixtures, by identifier and with nothing else in the split. Rows that were there are
  kept, and the key of the table stays unique.\<close>

theorem seed_exact:
  assumes "keys_unique s" and "seed_corpus w cases split s = (Inr chunks, t)"
  shows "chunks = concat (map dc_evidence cases) \<and> kept split s t \<and> keys_unique t \<and>
    map_of (map (\<lambda>r. (cw_chunk_id r, cw_content r)) (split_rows split (sd_chunks t))) = map_of (expected_texts chunks)"
proof -
  have t: "keys_unique t" using preservesD [OF seed_unique assms] .
  from assms(2) obtain persisted t' where
    tr: "transaction w (sbind (insert_chunks w split (rows_for_cases cases)) (\<lambda>_.
        sbind (study_execute w) (\<lambda>_. sget (\<lambda>s. persisted_texts split (sd_chunks s))))) s = (Inr persisted, t)"
    and chunks: "chunks = rows_for_cases cases"
    and same: "\<not> list_ex (\<lambda>(cid, x). map_of persisted cid \<noteq> Some x) (expected_texts chunks)" "length persisted = length (expected_texts chunks)"
    unfolding seed_corpus_def Let_def
    by (auto simp: res_simps sraise_def sret_def split: if_splits dest!: wrap_Inr)
  from tr have p: "persisted = persisted_texts split (sd_chunks t)"
    by (auto simp: transaction_def res_simps study_execute_def sget_def sret_def split: prod.splits sum.splits option.splits)
  have "map_of persisted = map_of (expected_texts chunks)"
    using same p by (intro dict_same) (auto simp: persisted_texts_def expected_texts_def list_ex_iff intro: dict_of_fold_ok)
  then have "map_of (map (\<lambda>r. (cw_chunk_id r, cw_content r)) (split_rows split (sd_chunks t))) = map_of (expected_texts chunks)"
    using persisted_map t p by (simp add: keys_unique_def)
  then show ?thesis using kept_run [OF seed_kept assms(2)] t chunks by (simp add: rows_for_cases_def)
qed

definition demo_study_case :: "evidence_chunk list \<Rightarrow> dur056_case" where
  "demo_study_case evidence =
     \<lparr>dc_case_id = ''c1'', dc_split = ''development'', dc_family = ''pool'', dc_category = Answerable, dc_service = ''checkout'',
      dc_active_version = ''v1'', dc_signal = ''latency'', dc_query_clean_a = ''pool'', dc_query_clean_b = ''pool exhausted'',
      dc_expected_action = None, dc_expected_diagnosis = '''', dc_logs = [], dc_metrics = [], dc_evidence = evidence,
      dc_relevant_chunk_ids = [], dc_injection_text = '''',
      dc_injection_wrong_action = \<lparr>dv_action = ''scale'', dv_service = ''checkout'', dv_parameters = []\<rparr>,
      dc_injection_text_version = 1, dc_canary = ''''\<rparr>"

theorem seed_exact_witness:
  "\<exists>t. seed_corpus (demo_study_world (ApiFailed ''down'')) [demo_study_case [demo_chunk ''d'' ''pool'']] ''development''
         (demo_study [demo_row ''heldout'' ''h'']) = (Inr [demo_chunk ''d'' ''pool''], t) \<and>
     map_of (map (\<lambda>r. (cw_chunk_id r, cw_content r)) (split_rows ''development'' (sd_chunks t))) = map_of [(''d'', ''pool'')]"
proof -
  obtain t where t: "seed_corpus (demo_study_world (ApiFailed ''down'')) [demo_study_case [demo_chunk ''d'' ''pool'']] ''development''
      (demo_study [demo_row ''heldout'' ''h'']) = (Inr [demo_chunk ''d'' ''pool''], t)"
    by (simp add: seed_corpus_def demo_study_case_def demo_chunk_def demo_study_world_def demo_study_def demo_row_def wrap_psycopg_def
        transaction_def study_execute_def seed_chunk_def rows_for_cases_def persisted_texts_def expected_texts_def split_rows_def
        same_key_def corpus_row_of_def sbind_def sget_def sret_def smodify_def Let_def)
  have "keys_unique (demo_study [demo_row ''heldout'' ''h''])" by (simp add: keys_unique_def demo_study_def)
  from seed_exact [OF this t] t show ?thesis by (simp add: expected_texts_def demo_chunk_def)
qed

end
