(* ===== verification/Safe_Extract.thy ===== *)
theory Safe_Extract
  imports Prelude
begin

text \<open>
  The archive extraction of \<^verbatim>\<open>src/scripts/dur050-safe-extract.py\<close>: the checks on the archive, the writing of its
  members into a staging tree and the move of the tree to its destination. What an accepted archive leaves
  behind, that a refused one leaves nothing, and an archive that gets past the check of its top level.

  A directory tree maps paths, as lists of names, to nodes; the temporary directory is empty at the start and
  removed at the end. Size, digest and members of the archive, reading errors and the outcome of the final
  rename are inputs.
\<close>

section \<open>Trees and archives\<close>

datatype node = Directory | Regular string

type_synonym tree = "string list \<Rightarrow> node option"

datatype extract_exn = ExtractValue string | ExtractOS string | ExtractTar string

datatype member_kind = DirMember | FileMember | OtherMember

text \<open>The content of a member: \<open>None\<close> for a member \<^verbatim>\<open>extractfile\<close> has no reader for, an error of reading it or of
  writing it out, or the bytes.\<close>

record archive_member =
  mb_name :: string
  mb_kind :: member_kind
  mb_size :: nat
  mb_source :: "(extract_exn + string) option"

record archive =
  az_size :: nat
  az_sha256 :: string
  az_members :: "extract_exn + archive_member list"

text \<open>\<^verbatim>\<open>PurePosixPath(name).parts\<close> of a relative name: empty and dot segments are dropped.\<close>

definition path_parts :: "string \<Rightarrow> string list" where
  "path_parts name = filter (\<lambda>p. p \<noteq> [] \<and> p \<noteq> ''.'') (split_on (CHR ''/'') name)"

definition is_absolute :: "string \<Rightarrow> bool" where
  "is_absolute name \<longleftrightarrow> take 1 name = ''/''"

definition unsafe_path :: "string \<Rightarrow> bool" where
  "unsafe_path name \<longleftrightarrow> is_absolute name \<or> path_parts name = [] \<or> list_ex (\<lambda>p. p \<in> {'''', ''.'', ''..''}) (path_parts name)"

text \<open>\<^verbatim>\<open>target.mkdir(parents=True, exist_ok=True)\<close>.\<close>

fun make_dirs :: "string list \<Rightarrow> string list \<Rightarrow> tree \<Rightarrow> extract_exn + tree" where
  "make_dirs here [] t = (case t here of Some (Regular _) \<Rightarrow> Inl (ExtractOS ''File exists'') | _ \<Rightarrow> Inr (t(here \<mapsto> Directory)))"
| "make_dirs here (p # ps) t =
     (case t here of Some (Regular _) \<Rightarrow> Inl (ExtractOS ''Not a directory'') | _ \<Rightarrow> make_dirs (here @ [p]) ps (t(here \<mapsto> Directory)))"

section \<open>Extraction\<close>

definition SIZE_LIMIT :: nat where
  "SIZE_LIMIT = 2 * 1024 * 1024 * 1024"

definition MEMBER_LIMIT :: nat where
  "MEMBER_LIMIT = 200000"

record staging =
  sg_tree :: tree
  sg_total :: nat
  sg_seen :: "string list"

definition write_member :: "archive_member \<Rightarrow> tree \<Rightarrow> extract_exn + tree" where
  "write_member m t =
     (let parts = path_parts (mb_name m) in
      rbind (make_dirs [] (butlast parts) t) (\<lambda>t'.
      case mb_source m of
        None \<Rightarrow> Inl (ExtractValue (''could not read archive member: '' @ repr_string (mb_name m)))
      | Some source \<Rightarrow>
          if t' parts \<noteq> None then Inl (ExtractOS ''File exists'')
          else rbind source (\<lambda>content. Inr (t'(parts \<mapsto> Regular content)))))"

definition extract_member :: "archive_member \<Rightarrow> staging \<Rightarrow> extract_exn + staging" where
  "extract_member m s =
     (if unsafe_path (mb_name m) then Inl (ExtractValue (''unsafe archive member path: '' @ repr_string (mb_name m)))
      else if mb_name m \<in> set (sg_seen s) \<and> mb_kind m \<noteq> DirMember
      then Inl (ExtractValue (''duplicate non-directory archive member: '' @ repr_string (mb_name m)))
      else let s' = s\<lparr>sg_seen := mb_name m # sg_seen s\<rparr> in
        case mb_kind m of
          OtherMember \<Rightarrow> Inl (ExtractValue (''unsupported archive member type: '' @ repr_string (mb_name m)))
        | DirMember \<Rightarrow> rbind (make_dirs [] (path_parts (mb_name m)) (sg_tree s)) (\<lambda>t. Inr (s'\<lparr>sg_tree := t\<rparr>))
        | FileMember \<Rightarrow>
            if SIZE_LIMIT < sg_total s + mb_size m then Inl (ExtractValue ''archive expands beyond the 2 GiB safety limit'')
            else rbind (write_member m (sg_tree s)) (\<lambda>t. Inr (s'\<lparr>sg_tree := t, sg_total := sg_total s + mb_size m\<rparr>)))"

definition empty_staging :: staging where
  "empty_staging = \<lparr>sg_tree = [[] \<mapsto> Directory], sg_total = 0, sg_seen = []\<rparr>"

definition top_level :: "string list \<Rightarrow> string list" where
  "top_level names = remdups (map (\<lambda>n. hd (split_on (CHR ''/'') n)) names)"

text \<open>The tree that is moved to the destination.\<close>

definition stage_archive :: "archive \<Rightarrow> extract_exn + tree" where
  "stage_archive a =
     rbind (az_members a) (\<lambda>members.
     if members = [] \<or> MEMBER_LIMIT < length members
     then Inl (ExtractValue ''archive has no members or exceeds the member safety limit'')
     else rbind (foldR extract_member members empty_staging) (\<lambda>s.
       case top_level (sg_seen s) of
         [only] \<Rightarrow>
           (let root = path_parts only in
            if sg_tree s root = Some Directory then Inr (\<lambda>p. sg_tree s (root @ p))
            else Inl (ExtractValue ''archive top-level member is not a directory''))
       | _ \<Rightarrow> Inl (ExtractValue ''archive must contain exactly one top-level output directory'')))"

record destination =
  ds_tree :: "tree option"
  ds_symlink :: bool

definition safe_extract :: "string \<Rightarrow> extract_exn option \<Rightarrow> archive \<Rightarrow> nat \<Rightarrow> string \<Rightarrow> (destination, extract_exn, unit) sm" where
  "safe_extract name rename a expected_size expected_sha256 =
     sbind (sget (\<lambda>d. ds_tree d \<noteq> None \<or> ds_symlink d)) (\<lambda>present.
     sbind (sensure (\<not> present) (ExtractValue (''refusing to overwrite extraction destination: '' @ name))) (\<lambda>_.
     sbind (sensure (az_size a = expected_size) (ExtractValue ''archive byte size does not match the remote manifest'')) (\<lambda>_.
     sbind (sensure (az_sha256 a = map lower_char expected_sha256) (ExtractValue ''archive SHA-256 does not match the remote manifest'')) (\<lambda>_.
     sbind (slift (stage_archive a)) (\<lambda>t.
     case rename of
       Some e \<Rightarrow> sraise e
     | None \<Rightarrow> smodify (\<lambda>d. d\<lparr>ds_tree := Some t\<rparr>))))))"

section \<open>What extraction keeps\<close>

lemma make_dirs_regular:
  "make_dirs here ps t = Inr t' \<Longrightarrow> t' q = Some (Regular c) \<longleftrightarrow> t q = Some (Regular c)"
  by (induction here ps t rule: make_dirs.induct) (auto split: option.splits node.splits if_splits)

lemma make_dirs_directory: "make_dirs here ps t = Inr t' \<Longrightarrow> t q = Some Directory \<Longrightarrow> t' q = Some Directory"
  by (induction here ps t rule: make_dirs.induct) (auto split: option.splits node.splits if_splits)

lemma write_member_regular:
  assumes "write_member m t = Inr t'"
  obtains content where "mb_source m = Some (Inr content)" and "t (path_parts (mb_name m)) = None"
    "\<And>q c. t' q = Some (Regular c) \<longleftrightarrow> (if q = path_parts (mb_name m) then c = content else t q = Some (Regular c))"
proof -
  obtain u content where u: "make_dirs [] (butlast (path_parts (mb_name m))) t = Inr u" "mb_source m = Some (Inr content)"
    "u (path_parts (mb_name m)) = None" "t' = u(path_parts (mb_name m) \<mapsto> Regular content)"
    using assms by (auto simp: write_member_def Let_def res_simps split: option.splits if_splits)
  have "t (path_parts (mb_name m)) = None"
  proof (cases "t (path_parts (mb_name m))")
    case (Some n)
    then show ?thesis using u(3) make_dirs_regular [OF u(1)] make_dirs_directory [OF u(1)] by (cases n) (metis option.distinct(1))+
  qed
  then show thesis using u(2,4) make_dirs_regular [OF u(1)] by (intro that) auto
qed

text \<open>The staging tree after some members: each was safe, a plain file holds its content at its path, nothing else
  holds a file, and the sizes add up.\<close>

definition staged :: "archive_member list \<Rightarrow> staging \<Rightarrow> bool" where
  "staged ms s \<longleftrightarrow>
     (\<forall>m\<in>set ms. \<not> unsafe_path (mb_name m) \<and> mb_kind m \<noteq> OtherMember) \<and>
     (\<forall>q c. sg_tree s q = Some (Regular c) \<longleftrightarrow>
        (\<exists>m\<in>set ms. mb_kind m = FileMember \<and> q = path_parts (mb_name m) \<and> mb_source m = Some (Inr c))) \<and>
     sg_total s = sum_list (map mb_size (filter (\<lambda>m. mb_kind m = FileMember) ms)) \<and> sg_total s \<le> SIZE_LIMIT \<and>
     sg_seen s = rev (map mb_name ms)"

lemma staged_member:
  assumes s: "staged ms s" and e: "extract_member m s = Inr s'"
  shows "staged (ms @ [m]) s'"
proof (cases "mb_kind m")
  case DirMember
  then obtain t where "make_dirs [] (path_parts (mb_name m)) (sg_tree s) = Inr t" "s' = s\<lparr>sg_seen := mb_name m # sg_seen s, sg_tree := t\<rparr>"
    "\<not> unsafe_path (mb_name m)"
    using e by (auto simp: extract_member_def Let_def res_simps split: if_splits)
  then show ?thesis using s DirMember make_dirs_regular unfolding staged_def by auto
next
  case FileMember
  then obtain t where t: "write_member m (sg_tree s) = Inr t"
    "s' = s\<lparr>sg_seen := mb_name m # sg_seen s, sg_tree := t, sg_total := sg_total s + mb_size m\<rparr>" "\<not> unsafe_path (mb_name m)"
    "sg_total s + mb_size m \<le> SIZE_LIMIT"
    using e by (auto simp: extract_member_def Let_def res_simps split: if_splits)
  from t(1) obtain content where c: "mb_source m = Some (Inr content)" "sg_tree s (path_parts (mb_name m)) = None"
    "\<And>q c. t q = Some (Regular c) \<longleftrightarrow> (if q = path_parts (mb_name m) then c = content else sg_tree s q = Some (Regular c))"
    by (rule write_member_regular) blast
  have regular: "sg_tree s q = Some (Regular d) \<longleftrightarrow>
      (\<exists>m\<in>set ms. mb_kind m = FileMember \<and> q = path_parts (mb_name m) \<and> mb_source m = Some (Inr d))" for q d
    using s by (simp add: staged_def)
  have "t q = Some (Regular d) \<longleftrightarrow>
      (\<exists>m\<in>set (ms @ [m]). mb_kind m = FileMember \<and> q = path_parts (mb_name m) \<and> mb_source m = Some (Inr d))" for q d
    using c regular [of q d] FileMember by (cases "q = path_parts (mb_name m)") auto
  then show ?thesis using s FileMember t(2-4) by (simp add: staged_def)
next
  case OtherMember
  then show ?thesis using e by (auto simp: extract_member_def Let_def split: if_splits)
qed

lemma staged_members: "foldR extract_member ms s = Inr s' \<Longrightarrow> staged ns s \<Longrightarrow> staged (ns @ ms) s'"
proof (induction ms arbitrary: ns s)
  case (Cons m ms)
  then obtain u where "extract_member m s = Inr u" "foldR extract_member ms u = Inr s'" by (auto simp: res_simps)
  then show ?case using Cons.IH [of u "ns @ [m]"] staged_member Cons.prems(2) by fastforce
qed simp

lemma staged_empty: "staged [] empty_staging"
  by (simp add: staged_def empty_staging_def)

section \<open>All or nothing\<close>

lemma hd_split_on: "c \<notin> set (hd (split_on c s))"
  by (induction s) (auto split: list.splits)

lemma path_parts_first: "path_parts name = path_parts (hd (split_on (CHR ''/'') name)) @
    filter (\<lambda>p. p \<noteq> [] \<and> p \<noteq> ''.'') (tl (split_on (CHR ''/'') name))"
proof -
  have "split_on (CHR ''/'') (hd (split_on (CHR ''/'') name)) = [hd (split_on (CHR ''/'') name)]"
    by (rule split_on_none) (rule hd_split_on)
  then show ?thesis unfolding path_parts_def by (cases "split_on (CHR ''/'') name") auto
qed

lemma top_level_only:
  assumes "top_level names = [only]" and "n \<in> set names"
  shows "\<exists>q. path_parts n = path_parts only @ q"
proof -
  have "set (map (\<lambda>n. hd (split_on (CHR ''/'') n)) names) = {only}"
    using assms(1) unfolding top_level_def by (metis list.set(1) list.set(2) set_remdups)
  then have "hd (split_on (CHR ''/'') n) = only" using assms(2) by auto
  then show ?thesis using path_parts_first [of n] by metis
qed

lemma stage_archive_ok:
  assumes "stage_archive a = Inr t"
  obtains ms root where "az_members a = Inr ms" "ms \<noteq> []" "length ms \<le> MEMBER_LIMIT" "t [] = Some Directory"
    "\<And>m. m \<in> set ms \<Longrightarrow> \<not> unsafe_path (mb_name m) \<and> mb_kind m \<noteq> OtherMember \<and> (\<exists>q. path_parts (mb_name m) = root @ q)"
    "sum_list (map mb_size (filter (\<lambda>m. mb_kind m = FileMember) ms)) \<le> SIZE_LIMIT"
    "\<And>q c. t q = Some (Regular c) \<longleftrightarrow> (\<exists>m\<in>set ms. mb_kind m = FileMember \<and> path_parts (mb_name m) = root @ q \<and> mb_source m = Some (Inr c))"
proof -
  obtain ms s only where ms: "az_members a = Inr ms" "ms \<noteq> []" "length ms \<le> MEMBER_LIMIT"
    and s: "foldR extract_member ms empty_staging = Inr s" and only: "top_level (sg_seen s) = [only]"
    and t: "sg_tree s (path_parts only) = Some Directory" "t = (\<lambda>p. sg_tree s (path_parts only @ p))"
  proof -
    obtain ms s where r: "az_members a = Inr ms" "ms \<noteq> []" "length ms \<le> MEMBER_LIMIT" "foldR extract_member ms empty_staging = Inr s"
      using assms by (auto simp: stage_archive_def res_simps not_less split: if_splits)
    show thesis
    proof (cases "top_level (sg_seen s)")
      case Nil
      then show thesis using assms r by (simp add: stage_archive_def)
    next
      case (Cons only rest)
      then show thesis using assms r that [OF r] by (cases rest) (auto simp: stage_archive_def Let_def split: if_splits)
    qed
  qed
  have st: "staged ms s" using staged_members [OF s staged_empty] by simp
  show thesis
  proof (rule that [OF ms, of "path_parts only"])
    show "\<not> unsafe_path (mb_name m) \<and> mb_kind m \<noteq> OtherMember \<and> (\<exists>q. path_parts (mb_name m) = path_parts only @ q)" if "m \<in> set ms" for m
      using st that top_level_only [OF only] by (auto simp: staged_def)
  qed (use st t in \<open>auto simp: staged_def\<close>)
qed

text \<open>C27. Extraction is all or nothing. A refused archive leaves the destination as it was. An accepted one had the
  expected size and digest and found the destination free; no member path is absolute or climbs with two dots,
  plain files declare at most 2 GiB in all, every member lies below one root, and the destination is a directory
  that holds exactly the plain files of the archive, each with its content at its path below that root.\<close>

theorem extract_all_or_nothing:
  assumes "safe_extract name rename a expected_size expected_sha256 d = (r, d')"
  shows "case r of
      Inl _ \<Rightarrow> d' = d
    | Inr _ \<Rightarrow> ds_tree d = None \<and> \<not> ds_symlink d \<and> az_size a = expected_size \<and> az_sha256 a = map lower_char expected_sha256 \<and>
       (\<exists>ms root t. az_members a = Inr ms \<and> d' = d\<lparr>ds_tree := Some t\<rparr> \<and> t [] = Some Directory \<and>
          (\<forall>m\<in>set ms. \<not> is_absolute (mb_name m) \<and> ''..'' \<notin> set (path_parts (mb_name m)) \<and> (\<exists>q. path_parts (mb_name m) = root @ q)) \<and>
          sum_list (map mb_size (filter (\<lambda>m. mb_kind m = FileMember) ms)) \<le> SIZE_LIMIT \<and>
          (\<forall>q c. t q = Some (Regular c) \<longleftrightarrow>
             (\<exists>m\<in>set ms. mb_kind m = FileMember \<and> path_parts (mb_name m) = root @ q \<and> mb_source m = Some (Inr c))))"
proof (cases r)
  case (Inl e)
  then show ?thesis using assms
    by (auto simp: safe_extract_def sbind_def sget_def sensure_def sret_def sraise_def slift_def smodify_def split: if_splits sum.splits option.splits)
next
  case (Inr u)
  then obtain t where free: "ds_tree d = None" "\<not> ds_symlink d" "az_size a = expected_size" "az_sha256 a = map lower_char expected_sha256"
    and t: "stage_archive a = Inr t" "d' = d\<lparr>ds_tree := Some t\<rparr>"
    using assms by (auto simp: safe_extract_def res_simps sget_def sensure_def sret_def sraise_def slift_def smodify_def split: if_splits sum.splits option.splits)
  from t(1) obtain ms root where "az_members a = Inr ms" "t [] = Some Directory"
    "\<And>m. m \<in> set ms \<Longrightarrow> \<not> unsafe_path (mb_name m) \<and> mb_kind m \<noteq> OtherMember \<and> (\<exists>q. path_parts (mb_name m) = root @ q)"
    "sum_list (map mb_size (filter (\<lambda>m. mb_kind m = FileMember) ms)) \<le> SIZE_LIMIT"
    "\<And>q c. t q = Some (Regular c) \<longleftrightarrow> (\<exists>m\<in>set ms. mb_kind m = FileMember \<and> path_parts (mb_name m) = root @ q \<and> mb_source m = Some (Inr c))"
    by (rule stage_archive_ok) blast
  moreover have "''..'' \<notin> set (path_parts n) \<and> \<not> is_absolute n" if "\<not> unsafe_path n" for n
    using that by (auto simp: unsafe_path_def list_ex_iff)
  ultimately show ?thesis using Inr free t(2) by auto
qed

definition demo_archive :: "string list \<Rightarrow> archive" where
  "demo_archive names = \<lparr>az_size = 1, az_sha256 = ''ab'',
     az_members = Inr (map (\<lambda>n. \<lparr>mb_name = n, mb_kind = FileMember, mb_size = 1, mb_source = Some (Inr ''x'')\<rparr>) names)\<rparr>"

definition no_destination :: destination where
  "no_destination = \<lparr>ds_tree = None, ds_symlink = False\<rparr>"

lemmas extract_exec = stage_archive_def demo_archive_def foldR.simps extract_member_def write_member_def unsafe_path_def is_absolute_def
  path_parts_def empty_staging_def top_level_def SIZE_LIMIT_def MEMBER_LIMIT_def Let_def

lemma demo_lower: "lower_char (CHR ''A'') = CHR ''a''" "lower_char (CHR ''B'') = CHR ''b''" "lower_char (CHR ''a'') = CHR ''a''"
    "lower_char (CHR ''b'') = CHR ''b''"
  by code_simp+

lemma demo_stage:
  "\<exists>t. stage_archive (demo_archive [''out/f'']) = Inr t"
  "\<exists>t. stage_archive (demo_archive [''./a/f'', ''./b/f'']) = Inr t \<and> t [''a''] = Some Directory \<and> t [''b''] = Some Directory"
  "stage_archive (demo_archive [''a/f'', ''b/f'']) = Inl (ExtractValue ''archive must contain exactly one top-level output directory'')"
  by (simp_all add: extract_exec)

theorem extract_all_or_nothing_witness:
  "\<exists>t. safe_extract ''out'' None (demo_archive [''out/f'']) 1 ''AB'' no_destination = (Inr (), no_destination\<lparr>ds_tree := Some t\<rparr>) \<and>
     t [] = Some Directory"
proof -
  obtain t where t: "stage_archive (demo_archive [''out/f'']) = Inr t" using demo_stage(1) by blast
  have run: "safe_extract ''out'' None (demo_archive [''out/f'']) 1 ''AB'' no_destination = (Inr (), no_destination\<lparr>ds_tree := Some t\<rparr>)"
    by (simp add: safe_extract_def t no_destination_def smodify_def demo_lower) (simp add: demo_archive_def)
  show ?thesis using extract_all_or_nothing [OF run] run by (auto simp: no_destination_def)
qed

text \<open>The check for one top-level directory looks at the names as they are written, while the paths drop dot
  segments: two top-level directories are refused, but accepted when each name starts with a dot segment, and
  the destination then holds both.\<close>

theorem dot_prefix_evades:
  "stage_archive (demo_archive [''a/f'', ''b/f'']) = Inl (ExtractValue ''archive must contain exactly one top-level output directory'') \<and>
   (\<exists>t. safe_extract ''out'' None (demo_archive [''./a/f'', ''./b/f'']) 1 ''ab'' no_destination = (Inr (), no_destination\<lparr>ds_tree := Some t\<rparr>) \<and>
      t [''a''] = Some Directory \<and> t [''b''] = Some Directory)"
proof -
  obtain t where t: "stage_archive (demo_archive [''./a/f'', ''./b/f'']) = Inr t" "t [''a''] = Some Directory" "t [''b''] = Some Directory"
    using demo_stage(2) by blast
  have "safe_extract ''out'' None (demo_archive [''./a/f'', ''./b/f'']) 1 ''ab'' no_destination = (Inr (), no_destination\<lparr>ds_tree := Some t\<rparr>)"
    by (simp add: safe_extract_def t(1) no_destination_def smodify_def demo_lower) (simp add: demo_archive_def)
  then show ?thesis using t(2,3) demo_stage(3) by blast
qed

end
