(* ===== verification/Window_Check.thy ===== *)
theory Window_Check
  imports Py_Json
begin

text \<open>
  The reconciliation of a measurement window, \<^verbatim>\<open>src/scripts/dur050-reconcile-window.py\<close>: the load generator's
  submissions, the list of accepted workflows, the observer's rows and the direct database lookups. The check
  passes exactly on consistent evidence.

  A row of a CSV file maps its columns to cells; a cell is \<open>None\<close> when the row is too short for its column.
  Files are decoded already; a file without a header is \<open>None\<close>.
\<close>

section \<open>Rows\<close>

type_synonym csv_row = "(string \<times> string option) list"

text \<open>\<^verbatim>\<open>row.get(column)\<close> and \<^verbatim>\<open>row.get(column, "")\<close>.\<close>

definition cell :: "string \<Rightarrow> csv_row \<Rightarrow> string option" where
  "cell c row = (case map_of row c of None \<Rightarrow> None | Some v \<Rightarrow> v)"

definition cell_text :: "string \<Rightarrow> csv_row \<Rightarrow> string option" where
  "cell_text c row = (case map_of row c of None \<Rightarrow> Some [] | Some v \<Rightarrow> v)"

definition lower_cell :: "string \<Rightarrow> csv_row \<Rightarrow> string res" where
  "lower_cell c row = (case cell_text c row of
     None \<Rightarrow> Inl (AttributeError ''NoneType object has no attribute lower'') | Some t \<Rightarrow> Inr (map lower_char t))"

definition read_csv :: "string \<Rightarrow> csv_row list option \<Rightarrow> csv_row list res" where
  "read_csv name file = (case file of None \<Rightarrow> Inl (ValueError (''CSV has no header: '' @ name)) | Some rows \<Rightarrow> Inr rows)"

definition read_id_file :: "string \<Rightarrow> string list res" where
  "read_id_file text' =
     (let ids = filter (\<lambda>l. l \<noteq> []) (map strip (splitlines text'))
      in if \<not> distinct ids then Inl (ValueError ''accepted workflow ID file contains duplicates'') else Inr ids)"

section \<open>The four parts of the evidence\<close>

text \<open>The workflow a row of the given type is about, if it is well-formed.\<close>

definition keyed :: "string \<Rightarrow> csv_row \<Rightarrow> string option" where
  "keyed kind r =
     (if cell ''record_type'' r = Some kind then (case cell_text ''workflow_id'' r of Some [] \<Rightarrow> None | w \<Rightarrow> w) else None)"

definition index_row :: "string \<Rightarrow> string \<Rightarrow> string \<Rightarrow> csv_row \<Rightarrow> (string \<times> csv_row) list \<Rightarrow> (string \<times> csv_row) list res" where
  "index_row kind malformed repeated r by_id =
     (case keyed kind r of
        None \<Rightarrow> Inl (ValueError malformed)
      | Some w \<Rightarrow> if w \<in> fst ` set by_id then Inl (ValueError (repeated @ w)) else Inr (by_id @ [(w, r)]))"

definition submissions_by_id :: "csv_row list \<Rightarrow> (string \<times> csv_row) list res" where
  "submissions_by_id rows =
     (if rows = [] then Inl (ValueError ''load-generator CSV has no scheduled submission rows'')
      else foldR (index_row ''submission'' ''load-generator CSV contains a malformed submission row''
             ''load-generator CSV repeats workflow ID '') rows [])"

definition database_by_id :: "csv_row list \<Rightarrow> (string \<times> csv_row) list res" where
  "database_by_id rows =
     foldR (index_row ''submission_reconciliation'' ''database reconciliation contains a malformed row''
       ''database reconciliation repeats workflow ID '') rows []"

definition accepted :: "(string \<times> csv_row) list \<Rightarrow> string list" where
  "accepted subs = map fst (filter (\<lambda>(_, r). cell ''outcome'' r = Some ''accepted'') subs)"

record observations =
  ob_terminal :: "(string option \<times> csv_row list) list"
  ob_not_found :: "string option list"

definition terminals :: "observations \<Rightarrow> string option \<Rightarrow> csv_row list" where
  "terminals obs w = (case map_of (ob_terminal obs) w of None \<Rightarrow> [] | Some rs \<Rightarrow> rs)"

definition is_terminal :: "csv_row \<Rightarrow> bool" where
  "is_terminal r \<longleftrightarrow> cell ''record_type'' r = Some ''first_terminal_observation''"

definition is_not_found :: "csv_row \<Rightarrow> bool" where
  "is_not_found r \<longleftrightarrow> cell ''record_type'' r = Some ''snapshot'' \<and> cell ''state'' r = Some ''NOT_FOUND''"

definition show_cell :: "string option \<Rightarrow> string" where
  "show_cell w = (case w of None \<Rightarrow> ''None'' | Some t \<Rightarrow> t)"

definition observe_row :: "csv_row \<Rightarrow> observations \<Rightarrow> observations res" where
  "observe_row r obs =
     (let w = cell_text ''workflow_id'' r;
          obs' = (if is_terminal r then obs\<lparr>ob_terminal := dict_set w (terminals obs w @ [r]) (ob_terminal obs)\<rparr> else obs)
      in if is_not_found r
         then rbind (lower_cell ''completion_marker_seen'' r) (\<lambda>seen.
              if seen \<noteq> ''true''
              then Inl (ValueError (''NOT_FOUND for '' @ show_cell w @ '' was emitted before the completion marker was observed''))
              else Inr (obs'\<lparr>ob_not_found := w # ob_not_found obs'\<rparr>))
         else Inr obs')"

definition check_accepted :: "observations \<Rightarrow> string \<Rightarrow> unit res" where
  "check_accepted obs w =
     (let n = length (terminals obs (Some w)) in
      if n \<noteq> 1 then Inl (ValueError (''accepted workflow '' @ w @ '' has '' @ show_nat n @ '' first_terminal_observation rows; want exactly one''))
      else if Some w \<in> set (ob_not_found obs) then Inl (ValueError (''accepted workflow '' @ w @ '' has a NOT_FOUND observation''))
      else Inr ())"

definition check_submission :: "string list \<Rightarrow> observations \<Rightarrow> (string \<times> csv_row) list \<Rightarrow> string \<times> csv_row \<Rightarrow> unit res" where
  "check_submission acc obs database = (\<lambda>(w, submission).
     case map_of database w of
       None \<Rightarrow> Inl (KeyError w)
     | Some r \<Rightarrow>
         if cell ''submission_outcome'' r \<noteq> cell ''outcome'' submission
         then Inl (ValueError (''direct database reconciliation outcome differs for '' @ w))
         else rbind (lower_cell ''exists'' r) (\<lambda>ex.
           if ex \<notin> {''true'', ''false''} then Inl (ValueError (''direct database reconciliation lacks exists status for '' @ w))
           else if w \<in> set acc \<and> ex \<noteq> ''true'' then Inl (ValueError (''accepted workflow '' @ w @ '' is absent from direct database lookup''))
           else if ex = ''true'' \<and> cell ''state'' r \<in> {None, Some []} then Inl (ValueError (''existing workflow '' @ w @ '' has no directly observed state''))
           else if w \<in> set acc \<and> cell ''state'' r \<noteq> cell_text ''state'' (terminals obs (Some w) ! 0)
           then Inl (ValueError (''direct database state differs from terminal observation for '' @ w))
           else Inr ()))"

section \<open>The report\<close>

record window_report =
  wr_scheduled :: nat
  wr_accepted :: nat
  wr_terminal_observations :: nat
  wr_not_found :: nat
  wr_lookups :: nat
  wr_nonaccepted :: nat
  wr_found_nonaccepted :: nat

definition found :: "(string \<times> csv_row) list \<Rightarrow> string \<Rightarrow> bool" where
  "found database w = (case map_of database w of None \<Rightarrow> False | Some r \<Rightarrow> lower_cell ''exists'' r = Inr ''true'')"

definition window_report_of ::
  "(string \<times> csv_row) list \<Rightarrow> string list \<Rightarrow> observations \<Rightarrow> (string \<times> csv_row) list \<Rightarrow> window_report" where
  "window_report_of subs ids obs database =
     \<lparr>wr_scheduled = length subs, wr_accepted = length ids,
      wr_terminal_observations = sum_list (map (\<lambda>w. length (terminals obs (Some w))) ids),
      wr_not_found = length (remdups (ob_not_found obs)), wr_lookups = length database,
      wr_nonaccepted = length (filter (\<lambda>(_, r). cell ''outcome'' r \<noteq> Some ''accepted'') subs),
      wr_found_nonaccepted = length (filter (\<lambda>(w, r). cell ''outcome'' r \<noteq> Some ''accepted'' \<and> found database w) subs)\<rparr>"

definition reconcile ::
  "csv_row list option \<Rightarrow> string \<Rightarrow> csv_row list option \<Rightarrow> csv_row list option \<Rightarrow> window_report res" where
  "reconcile loadgen accepted_ids observer lookups =
     rbind (read_csv ''loadgen'' loadgen) (\<lambda>submission_rows.
     rbind (submissions_by_id submission_rows) (\<lambda>subs.
     rbind (read_id_file accepted_ids) (\<lambda>ids.
     if set ids \<noteq> set (accepted subs) then Inl (ValueError ''accepted-workflow-ids.txt disagrees with load-generator outcomes'')
     else
     rbind (read_csv ''observer'' observer) (\<lambda>observer_rows.
     rbind (foldR observe_row observer_rows \<lparr>ob_terminal = [], ob_not_found = []\<rparr>) (\<lambda>obs.
     rbind (each (check_accepted obs) ids) (\<lambda>_.
     rbind (read_csv ''database'' lookups) (\<lambda>database_rows.
     rbind (database_by_id database_rows) (\<lambda>database.
     if fst ` set database \<noteq> fst ` set subs
     then Inl (ValueError ''direct database reconciliation IDs differ from scheduled submissions'')
     else
     rbind (each (check_submission (accepted subs) obs database) subs) (\<lambda>_.
     Inr (window_report_of subs ids obs database))))))))))"

section \<open>Consistent evidence\<close>

text \<open>What the four files must say together, without the order in which the program looks at them.\<close>

definition accepted_row :: "csv_row \<Rightarrow> bool" where
  "accepted_row r \<longleftrightarrow> cell ''outcome'' r = Some ''accepted''"

definition about :: "string \<Rightarrow> csv_row \<Rightarrow> bool" where
  "about w r \<longleftrightarrow> cell_text ''workflow_id'' r = Some w"

definition unique_rows :: "string \<Rightarrow> csv_row list \<Rightarrow> bool" where
  "unique_rows kind rows \<longleftrightarrow> (\<forall>r\<in>set rows. keyed kind r \<noteq> None) \<and> distinct (map (keyed kind) rows)"

definition lookup_agrees :: "csv_row list \<Rightarrow> csv_row \<Rightarrow> string \<Rightarrow> csv_row \<Rightarrow> bool" where
  "lookup_agrees obs submission w r \<longleftrightarrow>
     cell ''submission_outcome'' r = cell ''outcome'' submission \<and>
     (lower_cell ''exists'' r = Inr ''true'' \<and> cell ''state'' r \<notin> {None, Some []} \<or>
      lower_cell ''exists'' r = Inr ''false'' \<and> \<not> accepted_row submission) \<and>
     (accepted_row submission \<longrightarrow> (\<exists>t\<in>set obs. is_terminal t \<and> about w t \<and> cell ''state'' r = cell_text ''state'' t))"

definition consistent :: "csv_row list \<Rightarrow> string list \<Rightarrow> csv_row list \<Rightarrow> csv_row list \<Rightarrow> bool" where
  "consistent subs ids obs lookups \<longleftrightarrow>
     subs \<noteq> [] \<and> unique_rows ''submission'' subs \<and> unique_rows ''submission_reconciliation'' lookups \<and> distinct ids \<and>
     Some ` set ids = keyed ''submission'' ` {r \<in> set subs. accepted_row r} \<and>
     (\<forall>r\<in>set obs. is_not_found r \<longrightarrow> lower_cell ''completion_marker_seen'' r = Inr ''true'') \<and>
     (\<forall>w\<in>set ids. length (filter (\<lambda>r. is_terminal r \<and> about w r) obs) = 1 \<and> \<not> (\<exists>r\<in>set obs. is_not_found r \<and> about w r)) \<and>
     keyed ''submission_reconciliation'' ` set lookups = keyed ''submission'' ` set subs \<and>
     (\<forall>s\<in>set subs. \<forall>r\<in>set lookups. \<forall>w. keyed ''submission'' s = Some w \<longrightarrow> keyed ''submission_reconciliation'' r = Some w \<longrightarrow> lookup_agrees obs s w r)"

section \<open>The check decides consistency\<close>

abbreviation key_of :: "string \<Rightarrow> csv_row \<Rightarrow> string" where
  "key_of kind r \<equiv> the (keyed kind r)"

lemma unique_rows_index:
  "unique_rows kind rows \<longleftrightarrow> (\<forall>r\<in>set rows. keyed kind r \<noteq> None) \<and> distinct (map (key_of kind) rows)"
proof -
  have "inj_on (keyed kind) (set rows) \<longleftrightarrow> inj_on (key_of kind) (set rows)" if "\<forall>r\<in>set rows. keyed kind r \<noteq> None"
    using that unfolding inj_on_def by (metis option.expand)
  then show ?thesis by (auto simp: unique_rows_def distinct_map)
qed

definition indexed :: "string \<Rightarrow> csv_row list \<Rightarrow> (string \<times> csv_row) list" where
  "indexed kind rows = map (\<lambda>r. (key_of kind r, r)) rows"

lemma indexed_set: "fst ` set (indexed kind rows) = key_of kind ` set rows" "(\<forall>x\<in>set (indexed kind rows). P x) \<longleftrightarrow> (\<forall>s\<in>set rows. P (key_of kind s, s))"
  by (force simp: indexed_def)+

lemma indexed_lookup: "unique_rows kind rows \<Longrightarrow> map_of (indexed kind rows) w = Some r \<longleftrightarrow> r \<in> set rows \<and> keyed kind r = Some w"
  by (subst map_of_eq_Some_iff) (auto simp: indexed_def comp_def unique_rows_index image_iff)

lemma index_rows:
  "foldR (index_row kind m rep) rows d = Inr d' \<longleftrightarrow>
     (\<forall>r\<in>set rows. keyed kind r \<noteq> None) \<and> distinct (map (key_of kind) rows) \<and> key_of kind ` set rows \<inter> fst ` set d = {} \<and>
     d' = d @ map (\<lambda>r. (key_of kind r, r)) rows"
proof (induction rows arbitrary: d)
  case (Cons r rows)
  show ?case
  proof (cases "keyed kind r")
    case None
    then show ?thesis by (simp add: index_row_def)
  next
    case (Some w)
    then show ?thesis using Cons by (auto simp: index_row_def)
  qed
qed auto

lemma submissions_ok:
  "submissions_by_id rows = Inr subs \<longleftrightarrow> rows \<noteq> [] \<and> unique_rows ''submission'' rows \<and> subs = indexed ''submission'' rows"
  by (auto simp: submissions_by_id_def index_rows unique_rows_index indexed_def)

lemma database_ok:
  "database_by_id rows = Inr db \<longleftrightarrow> unique_rows ''submission_reconciliation'' rows \<and>
     db = indexed ''submission_reconciliation'' rows"
  by (auto simp: database_by_id_def index_rows unique_rows_index indexed_def)

lemma observe_row_ok:
  "(\<exists>obs'. observe_row r obs = Inr obs') \<longleftrightarrow> (is_not_found r \<longrightarrow> lower_cell ''completion_marker_seen'' r = Inr ''true'')"
  by (auto simp: observe_row_def Let_def rbind_def split: sum.split)

lemma observe_total:
  "(\<exists>obs'. foldR observe_row rows obs = Inr obs') \<longleftrightarrow> (\<forall>r\<in>set rows. is_not_found r \<longrightarrow> lower_cell ''completion_marker_seen'' r = Inr ''true'')"
proof (induction rows arbitrary: obs)
  case (Cons r rows)
  show ?case
  proof (cases "observe_row r obs")
    case (Inl e)
    then show ?thesis using observe_row_ok [of r obs] by auto
  next
    case (Inr obs1)
    then show ?thesis using observe_row_ok [of r obs] Cons.IH [of obs1] by auto
  qed
qed simp

lemma observe_row_terminals:
  assumes "observe_row r obs = Inr obs'"
  shows "terminals obs' w = terminals obs w @ (if is_terminal r \<and> cell_text ''workflow_id'' r = w then [r] else [])"
    and "w \<in> set (ob_not_found obs') \<longleftrightarrow> w \<in> set (ob_not_found obs) \<or> is_not_found r \<and> cell_text ''workflow_id'' r = w"
  using assms by (auto simp: observe_row_def Let_def res_simps terminals_def split: if_splits)

lemma observe_rows:
  assumes "foldR observe_row rows obs = Inr obs'"
  shows "terminals obs' w = terminals obs w @ filter (\<lambda>r. is_terminal r \<and> cell_text ''workflow_id'' r = w) rows"
    and "w \<in> set (ob_not_found obs') \<longleftrightarrow> w \<in> set (ob_not_found obs) \<or> (\<exists>r\<in>set rows. is_not_found r \<and> cell_text ''workflow_id'' r = w)"
  using assms
proof (induction rows arbitrary: obs)
  case (Cons r rows)
  case 1
  then show ?case using Cons.IH(1) observe_row_terminals(1) by (fastforce simp: res_simps)
next
  case (Cons r rows)
  case 2
  then show ?case using Cons.IH(2) observe_row_terminals(2) by (fastforce simp: res_simps)
qed auto

lemma check_submission_ok:
  assumes "map_of database w = Some r" and acc: "w \<in> set acc \<longleftrightarrow> accepted_row s"
    and ts: "terminals obs (Some w) = filter (\<lambda>r. is_terminal r \<and> about w r) rows" and one: "w \<in> set acc \<longrightarrow> length (terminals obs (Some w)) = 1"
  shows "check_submission acc obs database (w, s) = Inr () \<longleftrightarrow> lookup_agrees rows s w r"
proof -
  have "(\<exists>t\<in>set rows. is_terminal t \<and> about w t \<and> cell ''state'' r = cell_text ''state'' t) \<longleftrightarrow>
      cell ''state'' r = cell_text ''state'' (terminals obs (Some w) ! 0)" if a: "accepted_row s"
  proof -
    obtain t where t: "terminals obs (Some w) = [t]" using one acc a by (auto simp: length_Suc_conv)
    then have "set (filter (\<lambda>r. is_terminal r \<and> about w r) rows) = {t}" unfolding ts by simp
    then have "x \<in> set rows \<and> is_terminal x \<and> about w x \<longleftrightarrow> x = t" for x by auto
    then show ?thesis using t by (metis nth_Cons_0)
  qed
  then show ?thesis using assms(1) acc
    by (cases "lower_cell ''exists'' r") (auto simp: check_submission_def lookup_agrees_def)
qed

lemma accepted_of:
  "unique_rows ''submission'' rows \<Longrightarrow> set (accepted (indexed ''submission'' rows)) = key_of ''submission'' ` {r \<in> set rows. accepted_row r}"
  by (auto simp: accepted_def accepted_row_def image_iff indexed_def)

lemma accepted_iff:
  assumes "unique_rows ''submission'' rows" and "s \<in> set rows"
  shows "key_of ''submission'' s \<in> set (accepted (indexed ''submission'' rows)) \<longleftrightarrow> accepted_row s"
proof -
  have "inj_on (key_of ''submission'') (set rows)" using assms(1) by (simp add: unique_rows_index distinct_map)
  then show ?thesis using assms(2) unfolding accepted_of [OF assms(1)] by (auto simp: inj_on_def)
qed

lemma keyed_image: "unique_rows k rows \<Longrightarrow> S \<subseteq> set rows \<Longrightarrow> keyed k ` S = Some ` key_of k ` S"
  by (force simp: unique_rows_def image_image)

lemma shared_key:
  assumes "unique_rows k rows" and "key_of k ` set rows = key_of k' ` set subs" and "s \<in> set subs"
  shows "\<exists>r\<in>set rows. keyed k r = Some (key_of k' s)"
proof -
  have "key_of k' s \<in> key_of k ` set rows" using assms by blast
  then obtain r where r: "r \<in> set rows" "key_of k r = key_of k' s" by auto
  then have "keyed k r \<noteq> None" using assms(1) unfolding unique_rows_def by blast
  then show ?thesis using r by (metis option.collapse)
qed

lemma submissions_checked:
  assumes rows: "unique_rows k rows" and subs: "unique_rows k' subs" and keys: "key_of k ` set rows = key_of k' ` set subs"
    and acc: "\<And>s. s \<in> set subs \<Longrightarrow> key_of k' s \<in> set acc \<longleftrightarrow> accepted_row s"
    and ts: "\<And>w. terminals seen (Some w) = filter (\<lambda>r. is_terminal r \<and> about w r) obs"
    and one: "\<forall>w\<in>set acc. length (terminals seen (Some w)) = 1"
  shows "(\<forall>s\<in>set subs. check_submission acc seen (indexed k rows) (key_of k' s, s) = Inr ()) \<longleftrightarrow>
    (\<forall>s\<in>set subs. \<forall>r\<in>set rows. \<forall>w. keyed k' s = Some w \<longrightarrow> keyed k r = Some w \<longrightarrow> lookup_agrees obs s w r)"
proof -
  have check: "check_submission acc seen (indexed k rows) (w, s) = Inr () \<longleftrightarrow> lookup_agrees obs s w r"
    if "s \<in> set subs" "keyed k' s = Some w" "r \<in> set rows" "keyed k r = Some w" for s r w
    using that acc [OF that(1)] one indexed_lookup [OF rows] by (intro check_submission_ok ts) auto
  have "keyed k' s = Some (key_of k' s)" if "s \<in> set subs" for s using subs that by (auto simp: unique_rows_def)
  then show ?thesis using check shared_key [OF rows keys] by (metis option.sel)
qed

abbreviation file_ids :: "string \<Rightarrow> string list" where
  "file_ids t \<equiv> filter (\<lambda>l. l \<noteq> []) (map strip (splitlines t))"

abbreviation no_observations :: observations where
  "no_observations \<equiv> \<lparr>ob_terminal = [], ob_not_found = []\<rparr>"

lemma reconcile_runs:
  "(\<exists>report. reconcile (Some subs) t (Some obs) (Some lookups) = Inr report) \<longleftrightarrow>
     subs \<noteq> [] \<and> unique_rows ''submission'' subs \<and> distinct (file_ids t) \<and>
     set (file_ids t) = set (accepted (indexed ''submission'' subs)) \<and>
     (\<exists>seen. foldR observe_row obs no_observations = Inr seen \<and> (\<forall>w\<in>set (file_ids t). check_accepted seen w = Inr ()) \<and>
        unique_rows ''submission_reconciliation'' lookups \<and>
        key_of ''submission_reconciliation'' ` set lookups = key_of ''submission'' ` set subs \<and>
        (\<forall>s\<in>set subs. check_submission (accepted (indexed ''submission'' subs)) seen
            (indexed ''submission_reconciliation'' lookups) (key_of ''submission'' s, s) = Inr ()))"
  by (auto simp: reconcile_def read_csv_def read_id_file_def submissions_ok database_ok Let_def res_simps indexed_set
      simp del: set_filter set_map split: if_splits)

lemma check_accepted_ok: "check_accepted seen w = Inr () \<longleftrightarrow> length (terminals seen (Some w)) = 1 \<and> Some w \<notin> set (ob_not_found seen)"
  by (simp add: check_accepted_def Let_def)

text \<open>C28. The window check decides consistency: it passes exactly when the four files exist with headers and tell one
  story: well-formed unique submissions and lookups of the same workflows, the accepted ones as listed, each with
  exactly one terminal observation, never not found, present in the database in the very state observed, and no
  absence reported before the completion marker.\<close>

theorem window_passes_iff:
  "(\<exists>report. reconcile loadgen ids observer lookups = Inr report) =
   (\<exists>subs obs rows. loadgen = Some subs \<and> observer = Some obs \<and> lookups = Some rows \<and>
      consistent subs (filter (\<lambda>l. l \<noteq> []) (map strip (splitlines ids))) obs rows)"
proof -
  have "(\<exists>report. reconcile (Some subs) ids (Some obs) (Some rows) = Inr report) \<longleftrightarrow> consistent subs (file_ids ids) obs rows" for subs obs rows
  proof (cases "unique_rows ''submission'' subs \<and> unique_rows ''submission_reconciliation'' rows \<and> (\<exists>seen. foldR observe_row obs no_observations = Inr seen)")
    case False
    then show ?thesis using observe_total [of obs no_observations] by (auto simp: reconcile_runs consistent_def)
  next
    case True
    then obtain seen where u: "unique_rows ''submission'' subs" "unique_rows ''submission_reconciliation'' rows"
      and seen: "foldR observe_row obs no_observations = Inr seen" by blast
    have ts: "terminals seen (Some w) = filter (\<lambda>r. is_terminal r \<and> about w r) obs" for w
      using observe_rows(1) [OF seen, of "Some w"] by (simp add: terminals_def about_def)
    have nf: "Some w \<in> set (ob_not_found seen) \<longleftrightarrow> (\<exists>r\<in>set obs. is_not_found r \<and> about w r)" for w
      using observe_rows(2) [OF seen, of "Some w"] by (simp add: about_def)
    have ids: "set (file_ids ids) = set (accepted (indexed ''submission'' subs)) \<longleftrightarrow>
        Some ` set (file_ids ids) = keyed ''submission'' ` {r \<in> set subs. accepted_row r}"
      using keyed_image [OF u(1), of "{r \<in> set subs. accepted_row r}"] by (auto simp: accepted_of [OF u(1)] inj_image_eq_iff simp del: set_filter)
    note subm = submissions_checked [OF u(2) u(1) _ accepted_iff [OF u(1)] ts]
    have "keyed ''submission_reconciliation'' ` set rows = keyed ''submission'' ` set subs \<longleftrightarrow>
        key_of ''submission_reconciliation'' ` set rows = key_of ''submission'' ` set subs"
      using keyed_image [OF u(1) order_refl] keyed_image [OF u(2) order_refl] by (simp add: inj_image_eq_iff)
    note keys = this
    define listed where "listed = file_ids ids"
    have marked: "\<forall>r\<in>set obs. is_not_found r \<longrightarrow> lower_cell ''completion_marker_seen'' r = Inr ''true''"
      using observe_total [of obs no_observations] seen by blast
    have single: "(\<forall>w\<in>set listed. check_accepted seen w = Inr ()) \<longleftrightarrow>
        (\<forall>w\<in>set listed. length (filter (\<lambda>r. is_terminal r \<and> about w r) obs) = 1 \<and> \<not> (\<exists>r\<in>set obs. is_not_found r \<and> about w r))"
      by (simp add: check_accepted_ok ts nf)
    have one: "\<forall>w\<in>set (accepted (indexed ''submission'' subs)). length (terminals seen (Some w)) = 1"
      if "set listed = set (accepted (indexed ''submission'' subs))" "\<forall>w\<in>set listed. check_accepted seen w = Inr ()"
      using that by (simp add: check_accepted_ok)
    show ?thesis
      unfolding reconcile_runs consistent_def ids [symmetric] keys single [symmetric, unfolded listed_def] seen
      unfolding listed_def [symmetric]
      by (simp only: sum.inject simp_thms u eqTrueI [OF marked] conj_assoc) (intro conj_cong refl subm one, assumption+)
  qed
  then show ?thesis by (cases loadgen; cases observer; cases lookups) (auto simp: reconcile_def read_csv_def res_simps split: if_splits)
qed

end
