(* ===== verification/Task_Ledger.thy ===== *)
theory Task_Ledger
  imports Py_Json
begin

text \<open>
  The cost check of the capacity study, \<^verbatim>\<open>src/scripts/dur050-cost-ledger.py\<close>: the controls of the manifest, the
  instance intervals of the four hosts with their accrued and projected cost, and the verdict on the next paid
  block. A passed check bounds the cost at every moment of the reserved block.

  Instants are rational seconds. Amounts are decimals: every operation on them rounds to the 28 digits of the default
  context, and every reported amount is quantized to six places. The readers of time stamps and decimals are
  parameters: \<open>rd_iso\<close> gives the instant of a time stamp and its offset from UTC if it has one, \<open>rd_dec\<close> the finite
  decimal a text denotes. Where the program iterates over a set, the order is that of the host table.
\<close>

section \<open>Values\<close>

definition EXPECTED_HOSTS :: "(string \<times> string) list" where
  "EXPECTED_HOSTS = [(''app-1'', ''c7i.large''), (''app-2'', ''c7i.large''), (''dependency'', ''m7i.large''), (''load-generator'', ''c7i.large'')]"

definition TASK_LEDGER_RELATIVE_PATH :: string where
  "TASK_LEDGER_RELATIVE_PATH = ''experiments/m8/dur050-capacity-overload/dur050-cost-ledger.json''"

datatype ledger_error = LedgerError string | InvalidOperation

type_synonym 'a checked = "ledger_error + 'a"

record readers =
  rd_iso :: "string \<Rightarrow> (rat \<times> rat option) option"
  rd_dec :: "string \<Rightarrow> rat option"

definition field_of :: "string \<Rightarrow> dict \<Rightarrow> json" where
  "field_of k d = (case map_of d k of None \<Rightarrow> JNull | Some v \<Rightarrow> v)"

definition parse_utc :: "readers \<Rightarrow> json \<Rightarrow> string \<Rightarrow> rat checked" where
  "parse_utc rd v name =
     (case as_str v of
        None \<Rightarrow> Inl (LedgerError (name @ '' must be an RFC3339 UTC timestamp ending in Z''))
      | Some t \<Rightarrow>
          if t = [] \<or> last t \<noteq> CHR ''Z'' then Inl (LedgerError (name @ '' must be an RFC3339 UTC timestamp ending in Z''))
          else case rd_iso rd (butlast t @ ''+00:00'') of
            None \<Rightarrow> Inl (LedgerError (name @ '' is not a valid RFC3339 UTC timestamp''))
          | Some (instant, offset) \<Rightarrow>
              if offset \<noteq> Some 0 then Inl (LedgerError (name @ '' must be UTC'')) else Inr instant)"

definition decimal_value :: "readers \<Rightarrow> json \<Rightarrow> string \<Rightarrow> rat checked" where
  "decimal_value rd v name = (case rd_dec rd (py_str v) of
     None \<Rightarrow> Inl (LedgerError (name @ '' must be a finite decimal'')) | Some x \<Rightarrow> Inr x)"

definition billable_seconds :: "rat \<Rightarrow> rat \<Rightarrow> int checked" where
  "billable_seconds start stop =
     (if stop < start then Inl (LedgerError ''ledger interval ends before it starts'') else Inr (max 60 \<lceil>stop - start\<rceil>))"

text \<open>\<^verbatim>\<open>decimal\<close> arithmetic: the result of an operation in the default context, and
  \<^verbatim>\<open>x.quantize(Decimal("0.000001"))\<close>, which raises when the result has more than 28 digits.\<close>

definition dec :: "rat \<Rightarrow> rat" where
  "dec x = round_sig 10 28 x"

definition quantize6 :: "rat \<Rightarrow> rat checked" where
  "quantize6 x = (let n = half_even (x * 10 ^ 6) in if 10 ^ 28 \<le> abs n then Inl InvalidOperation else Inr (of_int n / 10 ^ 6))"

section \<open>The controls\<close>

definition notification_ok :: "dict \<Rightarrow> bool" where
  "notification_ok n \<longleftrightarrow>
     field_of ''budget_name'' n = JStr ''durable-engine-D022-aggregate-20260923'' \<and> field_of ''type'' n = JStr ''ACTUAL'' \<and>
     field_of ''threshold_type'' n = JStr ''ABSOLUTE_VALUE'' \<and> field_of ''state'' n = JStr ''OK'' \<and> field_of ''recipient_verified'' n = JBool True"

definition check_notification :: "readers \<Rightarrow> rat \<Rightarrow> dict \<Rightarrow> unit checked" where
  "check_notification rd cap manifest =
     (case as_dict (field_of ''budget_notification'' manifest) of
        None \<Rightarrow> Inl (LedgerError ''budget_notification record is missing'')
      | Some n \<Rightarrow>
          if \<not> notification_ok n
          then Inl (LedgerError ''the approved ACTUAL absolute notification on the D022 budget is not verified OK'')
          else rbind (decimal_value rd (field_of ''threshold_usd'' n) ''budget notification threshold'') (\<lambda>threshold.
               rbind (decimal_value rd (field_of ''aggregate_actual_at_setup_usd'' n) ''aggregate actual at notification setup'') (\<lambda>baseline.
               if threshold \<le> baseline \<or> cap < dec (threshold - baseline)
               then Inl (LedgerError ''budget alert must fire no later than aggregate baseline plus the task cap'') else Inr ())))"

definition activation :: "readers \<Rightarrow> rat \<Rightarrow> dict \<Rightarrow> string \<Rightarrow> rat checked" where
  "activation rd now tags key =
     (case as_dict (field_of key tags) of
        None \<Rightarrow> Inl (LedgerError (''cost-allocation tag '' @ key @ '' is not Active''))
      | Some tag \<Rightarrow>
          if field_of ''status'' tag \<noteq> JStr ''Active'' then Inl (LedgerError (''cost-allocation tag '' @ key @ '' is not Active''))
          else rbind (parse_utc rd (field_of ''activated_at_utc'' tag) (key @ ''.activated_at_utc'')) (\<lambda>t.
               if now < t then Inl (LedgerError (''cost-allocation tag '' @ key @ '' activation time is in the future'')) else Inr t))"

definition validate_controls :: "readers \<Rightarrow> dict \<Rightarrow> rat \<Rightarrow> (rat \<times> rat list) checked" where
  "validate_controls rd manifest now =
     (if field_of ''schema'' manifest \<noteq> JStr ''dur050-cost-manifest.v2'' then Inl (LedgerError ''unsupported cost manifest schema'')
      else if field_of ''task_ledger_path'' manifest \<noteq> JStr TASK_LEDGER_RELATIVE_PATH
      then Inl (LedgerError ''manifest must use the single task-wide DUR-050 ledger'')
      else rbind (decimal_value rd (field_of ''budget_cap_usd'' manifest) ''budget_cap_usd'') (\<lambda>cap.
        if cap \<le> 0 then Inl (LedgerError ''budget_cap_usd must be positive'')
        else rbind (check_notification rd cap manifest) (\<lambda>_.
          case as_dict (field_of ''cost_allocation_tags'' manifest) of
            None \<Rightarrow> Inl (LedgerError ''cost_allocation_tags record is missing'')
          | Some tags \<Rightarrow> rbind (mapR (activation rd now tags) [''Task'', ''Environment'']) (\<lambda>times. Inr (cap, times)))))"

section \<open>The intervals\<close>

text \<open>One row of the report, with the parsed times of its interval.\<close>

record cost_row =
  cw_role :: string
  cw_instance_id :: string
  cw_started :: rat
  cw_ended :: "rat option"
  cw_accrued :: int
  cw_projected :: int
  cw_price :: rat
  cw_accrued_usd :: rat
  cw_projected_usd :: rat

record tally =
  ta_seen :: "string list"
  ta_rows :: "cost_row list"
  ta_accrued :: rat
  ta_projected :: rat
  ta_reserve :: rat
  ta_backfill :: bool
  ta_open :: nat

record block_check =
  bc_now :: rat
  bc_reserve_minutes :: int
  bc_activations :: "rat list"

definition instance_identity :: "string \<Rightarrow> string \<Rightarrow> nat \<Rightarrow> json \<Rightarrow> (dict \<times> string) checked" where
  "instance_identity role kind index interval =
     (case as_dict interval of
        None \<Rightarrow> Inl (LedgerError (role @ '' interval '' @ show_nat index @ '' must be an object''))
      | Some d \<Rightarrow>
          if field_of ''instance_type'' d \<noteq> JStr kind then Inl (LedgerError (role @ '' interval '' @ show_nat index @ '' must use '' @ kind))
          else case as_str (field_of ''instance_id'' d) of
            None \<Rightarrow> Inl (LedgerError (role @ '' interval '' @ show_nat index @ '' is missing instance_id''))
          | Some i \<Rightarrow> if strip i = [] then Inl (LedgerError (role @ '' interval '' @ show_nat index @ '' is missing instance_id'')) else Inr (d, i))"

definition interval_times :: "readers \<Rightarrow> rat \<Rightarrow> string \<Rightarrow> nat \<Rightarrow> dict \<Rightarrow> (rat \<times> rat option) checked" where
  "interval_times rd now role index d =
     rbind (parse_utc rd (field_of ''apply_started_at_utc'' d) (role @ ''['' @ show_nat index @ ''].apply_started_at_utc'')) (\<lambda>started.
     rbind (case field_of ''destroy_completed_at_utc'' d of
              JNull \<Rightarrow> Inr None
            | v \<Rightarrow> rbind (parse_utc rd v (role @ ''['' @ show_nat index @ ''].destroy_completed_at_utc'')) (\<lambda>t. Inr (Some t))) (\<lambda>stop.
     let ended = (case stop of None \<Rightarrow> now | Some t \<Rightarrow> t)
     in if now < started \<or> now < ended then Inl (LedgerError (role @ '' interval '' @ show_nat index @ '' has a timestamp in the future''))
        else if ended < started then Inl (LedgerError (role @ '' interval '' @ show_nat index @ '' ends before it starts''))
        else Inr (started, stop)))"

text \<open>The order of the intervals of one role; \<open>prior\<close> are the start and the end, if it has one, of the interval
  before.\<close>

definition check_order :: "string \<Rightarrow> (rat \<times> rat option) option \<Rightarrow> rat \<Rightarrow> unit checked" where
  "check_order role prior started =
     (case prior of
        None \<Rightarrow> Inr ()
      | Some (prior_start, prior_end) \<Rightarrow>
          if started < prior_start then Inl (LedgerError (role @ '' intervals are not ordered by apply start''))
          else case prior_end of
            None \<Rightarrow> Inl (LedgerError (role @ '' has an open interval before a later interval''))
          | Some e \<Rightarrow> if started < e then Inl (LedgerError (''overlapping intervals for role '' @ role)) else Inr ())"

definition cost_of :: "rat \<Rightarrow> int \<Rightarrow> rat" where
  "cost_of price secs = dec (dec (price * of_int secs) / 3600)"

definition tally_row :: "block_check \<Rightarrow> cost_row \<Rightarrow> tally \<Rightarrow> tally" where
  "tally_row bc r ta =
     (let accrued = cost_of (cw_price r) (cw_accrued r); projected = cost_of (cw_price r) (cw_projected r)
      in ta\<lparr>ta_seen := cw_instance_id r # ta_seen ta, ta_rows := ta_rows ta @ [r],
            ta_accrued := dec (ta_accrued ta + accrued), ta_projected := dec (ta_projected ta + projected),
            ta_reserve := dec (ta_reserve ta + dec (projected - accrued)),
            ta_backfill := ta_backfill ta \<or> list_ex (\<lambda>a. cw_started r < a) (bc_activations bc),
            ta_open := ta_open ta + (if cw_ended r = None then 1 else 0)\<rparr>)"

definition add_interval ::
  "readers \<Rightarrow> block_check \<Rightarrow> string \<Rightarrow> string \<Rightarrow> rat \<Rightarrow> nat \<Rightarrow> nat \<times> json \<Rightarrow> tally \<times> (rat \<times> rat option) option \<Rightarrow>
   (tally \<times> (rat \<times> rat option) option) checked" where
  "add_interval rd bc role kind price count = (\<lambda>(index, interval) (ta, prior).
     rbind (instance_identity role kind index interval) (\<lambda>(d, iid).
     if iid \<in> set (ta_seen ta) then Inl (LedgerError (''duplicate instance_id: '' @ iid))
     else
     rbind (interval_times rd (bc_now bc) role index d) (\<lambda>(started, stop).
     rbind (check_order role prior started) (\<lambda>_.
     if stop = None \<and> Suc index \<noteq> count then Inl (LedgerError (''only the last interval for role '' @ role @ '' may be open''))
     else
     rbind (billable_seconds started (case stop of None \<Rightarrow> bc_now bc | Some t \<Rightarrow> t)) (\<lambda>accrued.
     rbind (case stop of
              None \<Rightarrow> billable_seconds started (bc_now bc + of_int (60 * bc_reserve_minutes bc))
            | Some _ \<Rightarrow> Inr accrued) (\<lambda>projected.
     rbind (quantize6 (cost_of price accrued)) (\<lambda>accrued_usd.
     rbind (quantize6 (cost_of price projected)) (\<lambda>projected_usd.
     Inr (tally_row bc \<lparr>cw_role = role, cw_instance_id = iid, cw_started = started, cw_ended = stop,
            cw_accrued = accrued, cw_projected = projected, cw_price = price, cw_accrued_usd = accrued_usd,
            cw_projected_usd = projected_usd\<rparr> ta, Some (started, stop))))))))))"

definition add_role ::
  "readers \<Rightarrow> block_check \<Rightarrow> (string \<times> rat) list \<Rightarrow> dict \<Rightarrow> string \<times> string \<Rightarrow> tally \<Rightarrow> tally checked" where
  "add_role rd bc prices roles = (\<lambda>(role, kind) ta.
     case field_of role roles of
       JArr xs \<Rightarrow>
         if xs = [] then Inl (LedgerError (role @ '' must have a non-empty interval list''))
         else rbind (foldR (add_interval rd bc role kind (the (map_of prices kind)) (length xs)) (enumerate 0 xs) (ta, None)) (\<lambda>(ta', _). Inr ta')
     | _ \<Rightarrow> Inl (LedgerError (role @ '' must have a non-empty interval list'')))"

section \<open>The verdict\<close>

record cost_report =
  cp_cap :: rat
  cp_open :: nat
  cp_accrued :: rat
  cp_reserve :: rat
  cp_projected :: rat
  cp_planned :: rat
  cp_planned_rows :: "(string \<times> rat) list"
  cp_backfill :: bool
  cp_status :: string
  cp_rows :: "cost_row list"

definition HOST_TYPES :: "string list" where
  "HOST_TYPES = remdups (map snd EXPECTED_HOSTS)"

definition ledger_prices :: "readers \<Rightarrow> dict \<Rightarrow> (string \<times> rat) list checked" where
  "ledger_prices rd ledger =
     (case as_dict (field_of ''prices_usd_per_hour'' ledger) of
        None \<Rightarrow> Inl (LedgerError ''task ledger prices_usd_per_hour must be an object'')
      | Some prices \<Rightarrow>
          rbind (mapR (\<lambda>t. rbind (decimal_value rd (field_of t prices) (''price for '' @ t)) (\<lambda>x. Inr (t, x))) HOST_TYPES) (\<lambda>ps.
          if list_ex (\<lambda>(_, x). x \<le> 0) ps then Inl (LedgerError ''instance prices must be positive'') else Inr ps))"

definition planned_host :: "(string \<times> rat) list \<Rightarrow> int \<Rightarrow> string \<Rightarrow> rat \<times> (string \<times> rat) list \<Rightarrow> (rat \<times> (string \<times> rat) list) checked" where
  "planned_host prices minutes t = (\<lambda>(so_far, rows).
     case map_of prices t of
       None \<Rightarrow> Inl (LedgerError (''no recorded price for planned instance type '' @ t))
     | Some p \<Rightarrow> (let cost = dec (dec (p * of_int minutes) / 60)
                 in rbind (quantize6 cost) (\<lambda>usd. Inr (dec (so_far + cost), rows @ [(t, usd)]))))"

definition planned_projection ::
  "(string \<times> rat) list \<Rightarrow> int \<Rightarrow> nat \<Rightarrow> string list option \<Rightarrow> (rat \<times> (string \<times> rat) list) checked" where
  "planned_projection prices minutes open_count planned = (case planned of
     None \<Rightarrow> Inr (0, [])
   | Some types \<Rightarrow>
       if open_count \<noteq> 0 then Inl (LedgerError ''pre-apply planned-host projection requires open_interval_count == 0'')
       else if sort types \<noteq> sort (map snd EXPECTED_HOSTS)
       then Inl (LedgerError ''planned instance types must match the four reviewed DUR-050 hosts'')
       else foldR (planned_host prices minutes) types (0, []))"

text \<open>The planned hosts are added to a total only when there are any.\<close>

definition with_planned :: "string list option \<Rightarrow> rat \<Rightarrow> rat \<Rightarrow> rat" where
  "with_planned planned extra x = (case planned of None \<Rightarrow> x | Some _ \<Rightarrow> dec (x + extra))"

definition empty_tally :: tally where
  "empty_tally = \<lparr>ta_seen = [], ta_rows = [], ta_accrued = 0, ta_projected = 0, ta_reserve = 0, ta_backfill = False, ta_open = 0\<rparr>"

definition evaluate_cost :: "readers \<Rightarrow> dict \<Rightarrow> dict \<Rightarrow> rat \<Rightarrow> int \<Rightarrow> string list option \<Rightarrow> cost_report checked" where
  "evaluate_cost rd manifest ledger now minutes planned =
     (if minutes < 1 then Inl (LedgerError ''reserve_minutes must be at least one for a paid block check'')
      else rbind (validate_controls rd manifest now) (\<lambda>(cap, activations).
        if field_of ''schema'' ledger \<noteq> JStr ''dur050-task-cost-ledger.v1'' then Inl (LedgerError ''unsupported task-wide cost ledger schema'')
        else if field_of ''task_id'' ledger \<noteq> JStr ''DUR-050'' \<or> field_of ''scope'' ledger \<noteq> JStr ''task-wide''
        then Inl (LedgerError ''ledger must cover the complete DUR-050 task'')
        else
        rbind (decimal_value rd (field_of ''budget_cap_usd'' ledger) ''task ledger budget_cap_usd'') (\<lambda>ledger_cap.
        if ledger_cap \<noteq> cap then Inl (LedgerError ''campaign manifest and task-wide ledger budget caps differ'')
        else
        rbind (ledger_prices rd ledger) (\<lambda>prices.
        case as_dict (field_of ''roles'' ledger) of
          None \<Rightarrow> Inl (LedgerError ''task ledger must contain exactly the four DUR-050 host roles'')
        | Some roles \<Rightarrow>
            if fst ` set roles \<noteq> fst ` set EXPECTED_HOSTS
            then Inl (LedgerError ''task ledger must contain exactly the four DUR-050 host roles'')
            else
            rbind (foldR (add_role rd \<lparr>bc_now = now, bc_reserve_minutes = minutes, bc_activations = activations\<rparr> prices roles) EXPECTED_HOSTS empty_tally) (\<lambda>ta.
            rbind (planned_projection prices minutes (ta_open ta) planned) (\<lambda>(extra, planned_rows).
            let projected = with_planned planned extra (ta_projected ta); reserve = with_planned planned extra (ta_reserve ta) in
            rbind (quantize6 (ta_accrued ta)) (\<lambda>accrued_usd.
            rbind (quantize6 reserve) (\<lambda>reserve_usd.
            rbind (quantize6 projected) (\<lambda>projected_usd.
            rbind (quantize6 extra) (\<lambda>extra_usd.
            Inr \<lparr>cp_cap = cap, cp_open = ta_open ta, cp_accrued = accrued_usd, cp_reserve = reserve_usd, cp_projected = projected_usd,
                 cp_planned = extra_usd, cp_planned_rows = planned_rows, cp_backfill = ta_backfill ta,
                 cp_status = (if projected < cap then ''PASS'' else ''FAIL''), cp_rows = ta_rows ta\<rparr>))))))))))"

section \<open>What the tally keeps\<close>

definition bill :: "rat \<Rightarrow> rat \<Rightarrow> int" where
  "bill start stop = max 60 \<lceil>stop - start\<rceil>"

definition row_until :: "rat \<Rightarrow> cost_row \<Rightarrow> rat" where
  "row_until t r = (case cw_ended r of None \<Rightarrow> t | Some e \<Rightarrow> e)"

text \<open>What the instances of the rows have cost at an instant, and the part of the projection that is not accrued, in the
  arithmetic of the program.\<close>

definition dec_sum :: "rat list \<Rightarrow> rat" where
  "dec_sum xs = foldl (\<lambda>s x. dec (s + x)) 0 xs"

definition host_cost :: "cost_row list \<Rightarrow> rat \<Rightarrow> rat" where
  "host_cost rows t = dec_sum (map (\<lambda>r. cost_of (cw_price r) (bill (cw_started r) (row_until t r))) rows)"

definition host_reserve :: "cost_row list \<Rightarrow> rat \<Rightarrow> rat \<Rightarrow> rat" where
  "host_reserve rows t t' = dec_sum (map (\<lambda>r. dec (cost_of (cw_price r) (bill (cw_started r) (row_until t' r)) -
     cost_of (cw_price r) (bill (cw_started r) (row_until t r)))) rows)"

definition row_fits :: "block_check \<Rightarrow> cost_row \<Rightarrow> bool" where
  "row_fits bc r \<longleftrightarrow> 0 < cw_price r \<and> cw_started r \<le> row_until (bc_now bc) r \<and> row_until (bc_now bc) r \<le> bc_now bc \<and>
     cw_accrued r = bill (cw_started r) (row_until (bc_now bc) r) \<and>
     cw_projected r = bill (cw_started r) (row_until (bc_now bc + of_int (60 * bc_reserve_minutes bc)) r) \<and>
     quantize6 (cost_of (cw_price r) (cw_accrued r)) = Inr (cw_accrued_usd r) \<and>
     quantize6 (cost_of (cw_price r) (cw_projected r)) = Inr (cw_projected_usd r)"

definition before :: "cost_row \<Rightarrow> cost_row \<Rightarrow> bool" where
  "before a b \<longleftrightarrow> (cw_role a = cw_role b \<longrightarrow> (\<exists>e. cw_ended a = Some e \<and> e \<le> cw_started b))"

definition tally_ok :: "block_check \<Rightarrow> tally \<Rightarrow> bool" where
  "tally_ok bc ta \<longleftrightarrow>
     list_all (row_fits bc) (ta_rows ta) \<and> sorted_wrt before (ta_rows ta) \<and>
     distinct (map cw_instance_id (ta_rows ta)) \<and> set (ta_seen ta) = cw_instance_id ` set (ta_rows ta) \<and>
     ta_accrued ta = host_cost (ta_rows ta) (bc_now bc) \<and>
     ta_projected ta = host_cost (ta_rows ta) (bc_now bc + of_int (60 * bc_reserve_minutes bc)) \<and>
     ta_reserve ta = host_reserve (ta_rows ta) (bc_now bc) (bc_now bc + of_int (60 * bc_reserve_minutes bc)) \<and>
     ta_open ta = length (filter (\<lambda>r. cw_ended r = None) (ta_rows ta))"

lemma billable_Inr: "billable_seconds a b = Inr n \<longleftrightarrow> a \<le> b \<and> n = bill a b"
  by (auto simp: billable_seconds_def bill_def)

lemma interval_times_Inr:
  assumes "interval_times rd now role i d = Inr (started, stop)"
  shows "started \<le> (case stop of None \<Rightarrow> now | Some t \<Rightarrow> t)" and "(case stop of None \<Rightarrow> now | Some t \<Rightarrow> t) \<le> now"
  using assms by (auto simp: interval_times_def Let_def res_simps split: if_splits option.splits)

lemma add_interval_Inr:
  assumes "add_interval rd bc role kind price count (i, x) (ta, prior) = Inr (ta', prior')"
  obtains r where "ta' = tally_row bc r ta" "prior' = Some (cw_started r, cw_ended r)" "cw_role r = role" "cw_price r = price"
    "cw_instance_id r \<notin> set (ta_seen ta)" "check_order role prior (cw_started r) = Inr ()"
    "cw_started r \<le> row_until (bc_now bc) r" "row_until (bc_now bc) r \<le> bc_now bc"
    "cw_accrued r = bill (cw_started r) (row_until (bc_now bc) r)"
    "cw_projected r = bill (cw_started r) (row_until (bc_now bc + of_int (60 * bc_reserve_minutes bc)) r)"
    "quantize6 (cost_of (cw_price r) (cw_accrued r)) = Inr (cw_accrued_usd r)"
    "quantize6 (cost_of (cw_price r) (cw_projected r)) = Inr (cw_projected_usd r)"
proof -
  obtain d iid started stop accrued projected a p where run: "iid \<notin> set (ta_seen ta)" "interval_times rd (bc_now bc) role i d = Inr (started, stop)"
    "check_order role prior started = Inr ()" "billable_seconds started (case stop of None \<Rightarrow> bc_now bc | Some t \<Rightarrow> t) = Inr accrued"
    "(case stop of None \<Rightarrow> billable_seconds started (bc_now bc + of_int (60 * bc_reserve_minutes bc)) | Some _ \<Rightarrow> Inr accrued) = Inr projected"
    "quantize6 (cost_of price accrued) = Inr a" "quantize6 (cost_of price projected) = Inr p"
    and out: "prior' = Some (started, stop)"
    "ta' = tally_row bc \<lparr>cw_role = role, cw_instance_id = iid, cw_started = started, cw_ended = stop,
               cw_accrued = accrued, cw_projected = projected, cw_price = price, cw_accrued_usd = a, cw_projected_usd = p\<rparr> ta"
    using assms by (auto simp: add_interval_def res_simps split: if_splits prod.splits)
  have "started \<le> (case stop of None \<Rightarrow> bc_now bc | Some t \<Rightarrow> t)" "(case stop of None \<Rightarrow> bc_now bc | Some t \<Rightarrow> t) \<le> bc_now bc"
    using interval_times_Inr [OF run(2)] by auto
  then show thesis using run(1,3-) out
    by (intro that [of "\<lparr>cw_role = role, cw_instance_id = iid, cw_started = started, cw_ended = stop,
               cw_accrued = accrued, cw_projected = projected, cw_price = price, cw_accrued_usd = a, cw_projected_usd = p\<rparr>"])
       (auto simp: row_until_def billable_Inr split: option.splits)
qed

text \<open>Within one role: the rows so far of that role end before the last of them starts, which is the prior interval.\<close>

definition role_ok :: "string \<Rightarrow> tally \<Rightarrow> (rat \<times> rat option) option \<Rightarrow> bool" where
  "role_ok role ta prior \<longleftrightarrow> (case prior of
     None \<Rightarrow> \<forall>r\<in>set (ta_rows ta). cw_role r \<noteq> role
   | Some (s, e) \<Rightarrow> (\<forall>r\<in>set (ta_rows ta). cw_role r = role \<longrightarrow>
        cw_started r = s \<and> cw_ended r = e \<or> (\<exists>x. cw_ended r = Some x \<and> x \<le> s)) \<and> (\<forall>x. e = Some x \<longrightarrow> s \<le> x))"

lemma tally_row_ok:
  assumes ta: "tally_ok bc ta" and role: "role_ok (cw_role r) ta prior" and price: "0 < cw_price r" and new: "cw_instance_id r \<notin> set (ta_seen ta)"
    and order: "check_order (cw_role r) prior (cw_started r) = Inr ()" and fits: "row_fits bc r"
  shows "tally_ok bc (tally_row bc r ta)" and "role_ok (cw_role r) (tally_row bc r ta) (Some (cw_started r, cw_ended r))"
proof -
  have before: "\<forall>a\<in>set (ta_rows ta). cw_role a = cw_role r \<longrightarrow> (\<exists>e. cw_ended a = Some e \<and> e \<le> cw_started r)"
    using role order by (fastforce simp: role_ok_def check_order_def split: option.splits if_splits prod.splits)
  then have "sorted_wrt before (ta_rows ta @ [r])" using ta by (auto simp: tally_ok_def sorted_wrt_append before_def)
  then show "tally_ok bc (tally_row bc r ta)"
    using ta new fits by (auto simp: tally_ok_def tally_row_def Let_def host_cost_def host_reserve_def dec_sum_def row_fits_def)
  show "role_ok (cw_role r) (tally_row bc r ta) (Some (cw_started r, cw_ended r))"
    using before fits by (auto simp: role_ok_def tally_row_def Let_def row_fits_def row_until_def)
qed

lemma intervals_ok:
  assumes "foldR (add_interval rd bc role kind price count) xs (ta, prior) = Inr (ta', prior')" and "tally_ok bc ta" and "role_ok role ta prior"
    and "0 < price"
  shows "tally_ok bc ta' \<and> (\<forall>r\<in>set (ta_rows ta'). r \<in> set (ta_rows ta) \<or> cw_role r = role)"
  using assms
proof (induction xs arbitrary: ta prior)
  case (Cons x xs)
  obtain i y where x: "x = (i, y)" by (cases x)
  obtain ta1 prior1 where step: "add_interval rd bc role kind price count (i, y) (ta, prior) = Inr (ta1, prior1)"
    "foldR (add_interval rd bc role kind price count) xs (ta1, prior1) = Inr (ta', prior')"
    using Cons.prems(1) x by (auto simp: res_simps)
  from step(1) obtain r where r: "ta1 = tally_row bc r ta" "prior1 = Some (cw_started r, cw_ended r)" "cw_role r = role" "cw_price r = price"
    "cw_instance_id r \<notin> set (ta_seen ta)" "check_order role prior (cw_started r) = Inr ()" "row_fits bc r"
    by (rule add_interval_Inr) (use Cons.prems(4) in \<open>auto simp: row_fits_def\<close>)
  have "tally_ok bc ta1" "role_ok role ta1 prior1"
    using tally_row_ok [OF Cons.prems(2), of r prior] r Cons.prems(3,4) by auto
  then have "tally_ok bc ta' \<and> (\<forall>r\<in>set (ta_rows ta'). r \<in> set (ta_rows ta1) \<or> cw_role r = role)"
    using Cons.IH [OF step(2)] Cons.prems(4) by blast
  then show ?case using r(1,3) by (auto simp: tally_row_def Let_def)
qed simp

lemma roles_ok:
  assumes "foldR (add_role rd bc prices roles) hosts ta = Inr ta'" and "tally_ok bc ta" and "distinct (map fst hosts)"
    and "\<forall>r\<in>set (ta_rows ta). cw_role r \<notin> fst ` set hosts" and "\<forall>h\<in>set hosts. 0 < the (map_of prices (snd h))"
  shows "tally_ok bc ta'"
  using assms
proof (induction hosts arbitrary: ta)
  case (Cons h hosts)
  obtain role kind where h: "h = (role, kind)" by (cases h)
  obtain ta1 xs prior where step: "foldR (add_interval rd bc role kind (the (map_of prices kind)) (length xs)) (enumerate 0 xs) (ta, None) = Inr (ta1, prior)"
    "foldR (add_role rd bc prices roles) hosts ta1 = Inr ta'"
    using Cons.prems(1) h by (auto simp: add_role_def res_simps split: json.splits if_splits prod.splits)
  have "role_ok role ta None" using Cons.prems(4) h by (auto simp: role_ok_def)
  with intervals_ok [OF step(1) Cons.prems(2)] Cons.prems(5) h
  have "tally_ok bc ta1 \<and> (\<forall>r\<in>set (ta_rows ta1). r \<in> set (ta_rows ta) \<or> cw_role r = role)" by auto
  then show ?case using Cons.IH [OF step(2)] Cons.prems(3-5) h by auto
qed simp

lemma ledger_prices_positive:
  assumes "ledger_prices rd ledger = Inr prices" and "k \<in> set HOST_TYPES"
  shows "\<exists>x. map_of prices k = Some x \<and> 0 < x"
proof -
  have "list_all2 (\<lambda>t p. fst p = t) HOST_TYPES prices" and pos: "\<forall>p\<in>set prices. 0 < snd p"
    using assms(1) by (auto simp: ledger_prices_def mapR_eq_Inr res_simps list_ex_iff not_le split: option.splits if_splits elim!: list_all2_mono)
  then have "map fst prices = HOST_TYPES" by (auto simp: list_eq_iff_nth_eq list_all2_conv_all_nth)
  then have "k \<in> fst ` set prices" using assms(2) by (metis list.set_map)
  then obtain x where "map_of prices k = Some x" by (metis map_of_eq_None_iff option.exhaust)
  then show ?thesis using pos map_of_SomeD by fastforce
qed

lemma bill_mono: "a \<le> b \<Longrightarrow> bill s a \<le> bill s b"
  by (simp add: bill_def ceiling_mono max.coboundedI2)

lemma dec_mono: "0 \<le> x \<Longrightarrow> x \<le> y \<Longrightarrow> dec x \<le> dec y"
  by (simp add: dec_def round_sig_mono)

lemma dec_nonneg: "0 \<le> x \<Longrightarrow> 0 \<le> dec x"
  by (simp add: dec_def round_sig_nonneg)

lemma cost_mono: "0 \<le> p \<Longrightarrow> 0 \<le> m \<Longrightarrow> m \<le> n \<Longrightarrow> cost_of p m \<le> cost_of p n"
  by (simp add: cost_of_def dec_mono dec_nonneg divide_right_mono mult_left_mono)

lemma cost_nonneg: "0 \<le> p \<Longrightarrow> 0 \<le> m \<Longrightarrow> 0 \<le> cost_of p m"
  by (simp add: cost_of_def dec_nonneg)

lemma foldl_dec_mono:
  "list_all2 (\<lambda>x y. 0 \<le> x \<and> x \<le> y) xs ys \<Longrightarrow> 0 \<le> a \<Longrightarrow> a \<le> b \<Longrightarrow>
   0 \<le> foldl (\<lambda>s x. dec (s + x)) a xs \<and> foldl (\<lambda>s x. dec (s + x)) a xs \<le> foldl (\<lambda>s x. dec (s + x)) b ys"
proof (induction xs ys arbitrary: a b rule: list_all2_induct)
  case (Cons x xs y ys)
  have "0 \<le> dec (a + x)" "dec (a + x) \<le> dec (b + y)" using Cons.hyps(1) Cons.prems by (auto intro: dec_nonneg dec_mono)
  then show ?case using Cons.IH by simp
qed simp

lemma bill_pos: "0 \<le> bill a b"
  by (simp add: bill_def)

lemma host_cost_mono:
  assumes "list_all (row_fits bc) rows" and "t \<le> t'"
  shows "0 \<le> host_cost rows t" and "host_cost rows t \<le> host_cost rows t'"
proof -
  let ?cost = "\<lambda>t r. cost_of (cw_price r) (bill (cw_started r) (row_until t r))"
  have "0 \<le> ?cost t r \<and> ?cost t r \<le> ?cost t' r" if "r \<in> set rows" for r
  proof -
    have p: "0 \<le> cw_price r" using assms(1) that by (auto simp: list_all_iff row_fits_def)
    have "row_until t r \<le> row_until t' r" using assms(2) by (simp add: row_until_def split: option.split)
    with p show ?thesis by (auto intro: cost_mono cost_nonneg bill_mono bill_pos)
  qed
  then have "list_all2 (\<lambda>x y. 0 \<le> x \<and> x \<le> y) (map (?cost t) rows) (map (?cost t') rows)"
    by (simp add: list_all2_conv_all_nth)
  from foldl_dec_mono [OF this, of 0 0] show "0 \<le> host_cost rows t" and "host_cost rows t \<le> host_cost rows t'"
    by (simp_all add: host_cost_def dec_sum_def)
qed

lemma planned_nonneg:
  assumes "planned_projection prices minutes n planned = Inr (extra, rows)" and "1 \<le> minutes"
    and "\<And>k. k \<in> set HOST_TYPES \<Longrightarrow> \<exists>x. map_of prices k = Some x \<and> 0 < x"
  shows "0 \<le> extra"
proof (cases planned)
  case None
  then show ?thesis using assms(1) by (simp add: planned_projection_def)
next
  case (Some ks)
  then have run: "foldR (planned_host prices minutes) ks (0, []) = Inr (extra, rows)" and "sort ks = sort (map snd EXPECTED_HOSTS)"
    using assms(1) by (auto simp: planned_projection_def split: if_splits)
  then have ks: "set ks = set HOST_TYPES" by (metis HOST_TYPES_def set_remdups set_sort)
  have "0 \<le> fst (extra, rows)"
  proof (rule foldR_invariant [OF run, of "\<lambda>s. 0 \<le> fst s"])
    fix k s s' assume "k \<in> set ks" "0 \<le> fst s" "planned_host prices minutes k s = Inr s'"
    then show "0 \<le> fst s'" using assms(2) assms(3) [of k] ks
      by (auto simp: planned_host_def Let_def res_simps split: prod.splits option.splits intro!: dec_nonneg add_nonneg_nonneg)
  qed simp
  then show ?thesis by simp
qed

lemma with_planned_mono: "0 \<le> extra \<Longrightarrow> 0 \<le> x \<Longrightarrow> x \<le> y \<Longrightarrow> with_planned planned extra x \<le> with_planned planned extra y"
  by (auto simp: with_planned_def intro: dec_mono split: option.split)

lemma block_bill: "1 \<le> minutes \<Longrightarrow> t \<le> now + of_int (60 * minutes) \<Longrightarrow> bill now t \<le> 60 * minutes"
  by (simp add: bill_def ceiling_le_iff)

section \<open>A passed check covers the block\<close>

text \<open>C26. The cost check. In the decimal arithmetic of the program, the reported totals and the amounts of every interval
  are the computed ones quantized to six places: the accrued total is the cost of the recorded instances until now, the
  projection their cost at the end of the reserved block with the planned hosts, the reserve the sum of the
  differences. Instance identifiers are unique and no role runs two instances at a time. If the check passes, then at
  every instant of the block the cost the program computes for the recorded instances, with the whole projection of
  the planned hosts added, is below the cap, and the projection of a planned host bills at least the seconds it has
  run if it started now.\<close>

theorem cost_check_covers_block:
  assumes "evaluate_cost rd manifest ledger now minutes planned = Inr r"
  shows "distinct (map cw_instance_id (cp_rows r)) \<and> sorted_wrt before (cp_rows r) \<and>
    (\<forall>w\<in>set (cp_rows r). quantize6 (cost_of (cw_price w) (bill (cw_started w) (row_until now w))) = Inr (cw_accrued_usd w) \<and>
       quantize6 (cost_of (cw_price w) (bill (cw_started w) (row_until (now + of_int (60 * minutes)) w))) = Inr (cw_projected_usd w)) \<and>
    (\<exists>prices extra. ledger_prices rd ledger = Inr prices \<and>
       planned_projection prices minutes (cp_open r) planned = Inr (extra, cp_planned_rows r) \<and>
       quantize6 (host_cost (cp_rows r) now) = Inr (cp_accrued r) \<and>
       quantize6 (with_planned planned extra (host_cost (cp_rows r) (now + of_int (60 * minutes)))) = Inr (cp_projected r) \<and>
       quantize6 (with_planned planned extra (host_reserve (cp_rows r) now (now + of_int (60 * minutes)))) = Inr (cp_reserve r) \<and>
       quantize6 extra = Inr (cp_planned r) \<and>
       (cp_status r = ''PASS'' \<longrightarrow> (\<forall>t. now \<le> t \<and> t \<le> now + of_int (60 * minutes) \<longrightarrow>
          with_planned planned extra (host_cost (cp_rows r) t) < cp_cap r \<and> bill now t \<le> 60 * minutes)))"
proof -
  obtain cap acts prices roles ta extra where min: "1 \<le> minutes" and prices: "ledger_prices rd ledger = Inr prices"
    and run: "foldR (add_role rd \<lparr>bc_now = now, bc_reserve_minutes = minutes, bc_activations = acts\<rparr> prices roles) EXPECTED_HOSTS empty_tally = Inr ta"
    and extra: "planned_projection prices minutes (ta_open ta) planned = Inr (extra, cp_planned_rows r)"
    and q: "quantize6 (ta_accrued ta) = Inr (cp_accrued r)" "quantize6 (with_planned planned extra (ta_reserve ta)) = Inr (cp_reserve r)"
      "quantize6 (with_planned planned extra (ta_projected ta)) = Inr (cp_projected r)" "quantize6 extra = Inr (cp_planned r)"
    and r: "cp_cap r = cap" "cp_open r = ta_open ta" "cp_rows r = ta_rows ta"
      "cp_status r = (if with_planned planned extra (ta_projected ta) < cap then ''PASS'' else ''FAIL'')"
    using assms unfolding evaluate_cost_def Let_def
    by (auto simp: res_simps not_less split: if_splits(2) option.splits prod.splits)
  let ?bc = "\<lparr>bc_now = now, bc_reserve_minutes = minutes, bc_activations = acts\<rparr>"
  let ?stop = "now + of_int (60 * minutes)"
  have pos: "0 < the (map_of prices (snd h))" if "h \<in> set EXPECTED_HOSTS" for h
    using ledger_prices_positive [OF prices, of "snd h"] that by (auto simp: HOST_TYPES_def)
  have ok: "tally_ok ?bc ta"
    by (rule roles_ok [OF run])
      (use pos in \<open>auto simp: tally_ok_def empty_tally_def host_cost_def host_reserve_def dec_sum_def EXPECTED_HOSTS_def\<close>)
  then have fits: "list_all (row_fits ?bc) (ta_rows ta)" by (simp add: tally_ok_def)
  have total: "ta_accrued ta = host_cost (ta_rows ta) now" "ta_projected ta = host_cost (ta_rows ta) ?stop"
    "ta_reserve ta = host_reserve (ta_rows ta) now ?stop"
    using ok by (simp_all add: tally_ok_def)
  have extra0: "0 \<le> extra" by (rule planned_nonneg [OF extra min ledger_prices_positive [OF prices]])
  have covered: "with_planned planned extra (host_cost (ta_rows ta) t) \<le> with_planned planned extra (ta_projected ta)" if "t \<le> ?stop" for t
    unfolding total(2) by (rule with_planned_mono [OF extra0 host_cost_mono [OF fits that]])
  have "with_planned planned extra (host_cost (ta_rows ta) t) < cap \<and> bill now t \<le> 60 * minutes"
    if "cp_status r = ''PASS''" "t \<le> ?stop" for t
    using that covered [OF that(2)] block_bill [OF min that(2)] r(4) by (auto split: if_splits)
  moreover have "quantize6 (cost_of (cw_price w) (bill (cw_started w) (row_until now w))) = Inr (cw_accrued_usd w) \<and>
       quantize6 (cost_of (cw_price w) (bill (cw_started w) (row_until ?stop w))) = Inr (cw_projected_usd w)" if "w \<in> set (ta_rows ta)" for w
    using fits that by (auto simp: list_all_iff row_fits_def)
  moreover have "distinct (map cw_instance_id (ta_rows ta))" "sorted_wrt before (ta_rows ta)" using ok by (simp_all add: tally_ok_def)
  ultimately show ?thesis using prices extra q total unfolding r(1-3) by (intro conjI exI [of _ prices] exI [of _ extra]) auto
qed

definition demo_readers :: readers where
  "demo_readers = \<lparr>rd_iso = (\<lambda>_. Some (0, Some 0)),
     rd_dec = (\<lambda>t. if t = ''36'' then Some 36 else if t = ''999'' then Some 999 else if t = ''0'' then Some 0 else None)\<rparr>"

definition demo_manifest :: dict where
  "demo_manifest = [(''schema'', JStr ''dur050-cost-manifest.v2''), (''task_ledger_path'', JStr TASK_LEDGER_RELATIVE_PATH), (''budget_cap_usd'', JStr ''999''),
     (''budget_notification'', JObj [(''budget_name'', JStr ''durable-engine-D022-aggregate-20260923''), (''type'', JStr ''ACTUAL''),
        (''threshold_type'', JStr ''ABSOLUTE_VALUE''), (''state'', JStr ''OK''), (''recipient_verified'', JBool True), (''threshold_usd'', JStr ''999''),
        (''aggregate_actual_at_setup_usd'', JStr ''0'')]),
     (''cost_allocation_tags'', JObj [(''Task'', JObj [(''status'', JStr ''Active''), (''activated_at_utc'', JStr ''0Z'')]),
        (''Environment'', JObj [(''status'', JStr ''Active''), (''activated_at_utc'', JStr ''0Z'')])])]"

definition demo_interval :: "string \<Rightarrow> string \<Rightarrow> json" where
  "demo_interval kind i = JArr [JObj [(''instance_type'', JStr kind), (''instance_id'', JStr i), (''apply_started_at_utc'', JStr ''0Z'')]]"

definition demo_task_ledger :: dict where
  "demo_task_ledger = [(''schema'', JStr ''dur050-task-cost-ledger.v1''), (''task_id'', JStr ''DUR-050''), (''scope'', JStr ''task-wide''),
     (''budget_cap_usd'', JStr ''999''), (''prices_usd_per_hour'', JObj [(''c7i.large'', JStr ''36''), (''m7i.large'', JStr ''36'')]),
     (''roles'', JObj [(''app-1'', demo_interval ''c7i.large'' ''a''), (''app-2'', demo_interval ''c7i.large'' ''b''),
        (''dependency'', demo_interval ''m7i.large'' ''c''), (''load-generator'', demo_interval ''c7i.large'' ''d'')])]"

lemma demo_identity: "instance_identity role kind i (JObj [(''instance_type'', JStr kind), (''instance_id'', JStr n), (''apply_started_at_utc'', JStr ''0Z'')]) =
    Inr ([(''instance_type'', JStr kind), (''instance_id'', JStr n), (''apply_started_at_utc'', JStr ''0Z'')], n)" if "strip n \<noteq> []"
  using that by (simp add: instance_identity_def field_of_def)

lemma demo_time: "parse_utc demo_readers (JStr ''0Z'') name = Inr 0"
  by (simp add: parse_utc_def demo_readers_def)

lemma demo_strip: "strip ''a'' \<noteq> []" "strip ''b'' \<noteq> []" "strip ''c'' \<noteq> []" "strip ''d'' \<noteq> []"
  by code_simp+

lemma demo_decimal: "decimal_value demo_readers (JStr ''999'') name = Inr 999" "decimal_value demo_readers (JStr ''36'') name = Inr 36"
    "decimal_value demo_readers (JStr ''0'') name = Inr 0"
  by (simp_all add: decimal_value_def demo_readers_def)

lemma demo_dec:
  "dec 999 = 999" "dec 2160 = 2160" "dec 131760 = 131760" "dec (3 / 5) = 3 / 5" "dec (6 / 5) = 6 / 5" "dec (9 / 5) = 9 / 5"
  "dec (12 / 5) = 12 / 5" "dec (183 / 5) = 183 / 5" "dec (366 / 5) = 366 / 5" "dec (549 / 5) = 549 / 5" "dec (732 / 5) = 732 / 5"
  "dec 36 = 36" "dec 72 = 72" "dec 108 = 108" "dec 144 = 144"
  by (simp_all add: dec_def double_eval)

lemma demo_cost: "cost_of 36 60 = 3 / 5" "cost_of 36 3660 = 183 / 5"
  by (simp_all add: cost_of_def demo_dec)

lemma quantize6_whole: "x * 10 ^ 6 = of_int n \<Longrightarrow> abs n < 10 ^ 28 \<Longrightarrow> quantize6 x = Inr x"
  by (simp add: quantize6_def Let_def field_simps)

lemma demo_quantize:
  "quantize6 0 = Inr 0" "quantize6 (3 / 5) = Inr (3 / 5)" "quantize6 (183 / 5) = Inr (183 / 5)" "quantize6 (12 / 5) = Inr (12 / 5)"
  "quantize6 144 = Inr 144" "quantize6 (732 / 5) = Inr (732 / 5)"
  by (rule quantize6_whole [of _ 0], simp, simp) (rule quantize6_whole [of _ 600000], simp, simp, rule quantize6_whole [of _ 36600000], simp, simp,
    rule quantize6_whole [of _ 2400000], simp, simp, rule quantize6_whole [of _ 144000000], simp, simp, rule quantize6_whole [of _ 146400000], simp, simp)

lemma demo_controls: "validate_controls demo_readers demo_manifest 60 = Inr (999, [0, 0])"
  by (simp add: validate_controls_def demo_manifest_def field_of_def demo_decimal check_notification_def notification_ok_def activation_def demo_time demo_dec)

lemma demo_prices: "ledger_prices demo_readers demo_task_ledger = Inr [(''m7i.large'', 36), (''c7i.large'', 36)]"
  by (simp add: ledger_prices_def demo_task_ledger_def field_of_def HOST_TYPES_def EXPECTED_HOSTS_def demo_decimal)

lemma demo_evaluated:
  "\<exists>r. evaluate_cost demo_readers demo_manifest demo_task_ledger 60 60 None = Inr r \<and> cp_status r = ''PASS''"
  by (simp add: evaluate_cost_def demo_controls)
     (simp add: demo_prices [unfolded demo_task_ledger_def demo_interval_def] demo_task_ledger_def field_of_def EXPECTED_HOSTS_def demo_decimal add_role_def demo_interval_def add_interval_def demo_identity demo_strip
       interval_times_def demo_time check_order_def billable_seconds_def planned_projection_def tally_row_def empty_tally_def demo_cost demo_dec demo_quantize with_planned_def Let_def)

theorem cost_check_covers_block_witness:
  "\<exists>r. evaluate_cost demo_readers demo_manifest demo_task_ledger 60 60 None = Inr r \<and> host_cost (cp_rows r) 3660 < cp_cap r"
proof -
  obtain r where r: "evaluate_cost demo_readers demo_manifest demo_task_ledger 60 60 None = Inr r" "cp_status r = ''PASS''"
    using demo_evaluated by blast
  then show ?thesis using cost_check_covers_block [OF r(1)] by (auto simp: with_planned_def)
qed

end
