(* ===== verification/Pilot.thy ===== *)
theory Pilot
  imports K3_Policy
begin

text \<open>
  The registered arithmetic of the Kubernetes pilot and the campaign that spends it: \<^verbatim>\<open>src/scripts/dur053_pilot.py\<close>,
  the loop and the charge of \<^verbatim>\<open>dur053_campaign.py\<close>, and the planning of a job from committed evidence in
  \<^verbatim>\<open>dur053_pilot_evidence.py\<close>. Quantiles are nearest ranks, an admitted cell fits its job, cells are neither lost
  nor repeated when a job carries over, and a charge never exceeds its reservation.

  Numbers that the program keeps in floats are rationals. Live operations (running a cell, refreshing an initial
  measurement, reading committed artifacts) are inputs.
\<close>

section \<open>Registered constants\<close>

type_synonym run_cell = "string \<times> int"

definition PILOT_ARMS :: "(string \<times> rat) list" where
  "PILOT_ARMS = [(''short'', 1 / 10), (''medium'', 5), (''long'', 45), (''cpu'', 1)]"

definition PLANNING_RATES :: "(string \<times> rat) list" where
  "PLANNING_RATES = [(''short'', 50), (''medium'', 1), (''long'', 1 / 9), (''cpu'', 4)]"

definition CANDIDATES :: "int list" where
  "CANDIDATES = [10000, 100000, 1000000]"

definition CALIBRATION_RESERVATION :: rat where
  "CALIBRATION_RESERVATION = 3 * 22 * 120"

definition CEILING :: int where
  "CEILING = 18900"

definition JOBS :: "(string \<times> run_cell list) list" where
  "JOBS =
     [(''k3-pilot-1a'', concat (map (\<lambda>a. map (Pair a) [0, 1, 2, 3]) [''short'', ''medium''])),
      (''k3-pilot-1b'', map (Pair ''cpu'') [0, 1, 2, 3]),
      (''k3-pilot-2'', [(''long'', 0)]),
      (''k3-pilot-3'', map (Pair ''long'') [1, 2, 3])]"

section \<open>Arithmetic\<close>

definition finite_value :: "rat \<Rightarrow> string \<Rightarrow> bool \<Rightarrow> rat res" where
  "finite_value v label zero = rbind (require (if zero then 0 \<le> v else 0 < v) label) (\<lambda>_. Inr v)"

definition nearest_rank :: "rat list \<Rightarrow> rat \<Rightarrow> rat res" where
  "nearest_rank xs q =
     rbind (require (xs \<noteq> [] \<and> 0 < q \<and> q \<le> 1) ''pilot-quantile-population'') (\<lambda>_.
     rbind (mapR (\<lambda>x. finite_value x ''pilot-quantile-finite'' True) xs) (\<lambda>clean.
     Inr (sort clean ! nat (\<lceil>q * of_nat (length clean)\<rceil> - 1))))"

record reference_rate =
  rf_b :: rat
  rf_r :: rat

definition reference :: "rat list \<Rightarrow> int \<Rightarrow> reference_rate res" where
  "reference busy count =
     rbind (require (0 < count \<and> busy \<noteq> []) ''pilot-b-population'') (\<lambda>_.
     rbind (mapR (\<lambda>x. finite_value x ''pilot-b-finite'' True) busy) (\<lambda>clean.
     let b = sum_list clean / of_int count in Inr \<lparr>rf_b = b, rf_r = 4 / max b (1 / 100)\<rparr>))"

definition slo :: "rat list list \<Rightarrow> rat res" where
  "slo repeats =
     rbind (require (length repeats = 3 \<and> list_all (\<lambda>x. length x = 200) repeats) ''pilot-L-population'') (\<lambda>_.
     rbind (mapR (\<lambda>x. nearest_rank x (99 / 100)) repeats) (\<lambda>ps.
     Inr (of_int \<lceil>1000 * 2 * foldr max ps 0\<rceil> / 1000)))"

text \<open>\<open>initials\<close> gives the measured rate of the arms that have one.\<close>

definition rates :: "run_cell \<Rightarrow> rat option \<Rightarrow> (rat \<times> rat) res" where
  "rates = (\<lambda>(arm, index) initial.
     rbind (require (arm \<in> fst ` set PILOT_ARMS \<and> 0 \<le> index \<and> index \<le> 3) ''pilot-cell'') (\<lambda>_.
     if index = 0 then let u = 1 / max 1 (the (map_of PILOT_ARMS arm)) in Inr (u, u)
     else rbind (finite_value (case initial of Some r \<Rightarrow> r | None \<Rightarrow> the (map_of PLANNING_RATES arm)) ''pilot-r'' False) (\<lambda>r.
       Inr (r / 4, r / 2))))"

definition run_reservation :: "run_cell \<Rightarrow> rat option \<Rightarrow> rat res" where
  "run_reservation c initial = rbind (rates c initial) (\<lambda>(_, measured). Inr (120 + 200 / measured + 600 + 600 + 60))"

definition full_reservation :: "run_cell list \<Rightarrow> (string \<times> rat) list \<Rightarrow> bool \<Rightarrow> bool \<Rightarrow> int res" where
  "full_reservation cells initials calibration setup =
     rbind (mapR (\<lambda>c. run_reservation c (map_of initials (fst c))) cells) (\<lambda>rs.
     Inr \<lceil>(if setup then 300 else 0) + 600 + (if calibration then CALIBRATION_RESERVATION else 0) + sum_list rs\<rceil>)"

record admission =
  ad_calibration :: bool
  ad_elapsed :: rat
  ad_setup :: bool
  ad_reservation :: int
  ad_remaining :: int

definition admit :: "run_cell list \<Rightarrow> (string \<times> rat) list \<Rightarrow> admission \<Rightarrow> int res" where
  "admit cells initials a =
     rbind (finite_value (ad_elapsed a) ''pilot-elapsed'' True) (\<lambda>elapsed.
     rbind (full_reservation cells initials (ad_calibration a) (ad_setup a)) (\<lambda>needed.
     rbind (require (elapsed + of_int needed \<le> of_int (min CEILING (ad_reservation a))) ''pilot-job-fit'') (\<lambda>_.
     rbind (require (elapsed + of_int needed \<le> of_int (ad_remaining a)) ''pilot-ledger-fit'') (\<lambda>_.
     Inr needed))))"

section \<open>Job names and carry-over\<close>

text \<open>\<^verbatim>\<open>k3-pilot-(1a|1b|2|3)(-c[1-9][0-9]*)?\<close>\<close>

definition carry_number :: "string \<Rightarrow> bool" where
  "carry_number s \<longleftrightarrow> s \<noteq> [] \<and> list_all is_digit s \<and> hd s \<noteq> CHR ''0''"

definition named_after :: "string \<Rightarrow> string \<Rightarrow> bool" where
  "named_after name base \<longleftrightarrow>
     name = base \<or> take (length base + 2) name = base @ ''-c'' \<and> carry_number (drop (length base + 2) name)"

definition job_base :: "string \<Rightarrow> string res" where
  "job_base name = (case find (named_after name) (map fst JOBS) of
     Some b \<Rightarrow> Inr b | None \<Rightarrow> Inl (ValueError ''K3 guard: pilot-job-name''))"

record carried =
  cy_job :: string
  cy_cells :: "run_cell list"
  cy_reason :: string
  cy_started :: bool

definition carry_over :: "string \<Rightarrow> run_cell list \<Rightarrow> string \<Rightarrow> bool \<Rightarrow> carried res" where
  "carry_over name pending why started =
     rbind (job_base name) (\<lambda>base.
     rbind (require (pending \<noteq> [] \<and> why = ''pilot-job-fit'' \<and> \<not> started) ''pilot-carry-time-only'') (\<lambda>_.
     let n = (if name = base then 0 else digits_val (drop (length base + 2) name))
     in Inr \<lparr>cy_job = base @ ''-c'' @ show_nat (Suc n), cy_cells = pending, cy_reason = why, cy_started = False\<rparr>))"

section \<open>Choosing the CPU load\<close>

record cpu_candidate =
  cu_units :: int
  cu_samples :: "rat list"
  cu_complete :: bool

record cpu_choice =
  cc_units :: int
  cc_median :: rat
  cc_limited :: bool

text \<open>\<open>cu_complete\<close> is the status, the discarded run, the concurrency and the timeout of a candidate together.\<close>

fun select_cpu_from :: "bool \<Rightarrow> nat \<Rightarrow> cpu_candidate list \<Rightarrow> cpu_choice res" where
  "select_cpu_from engineering i [] = Inl (ValueError ''K3 guard: pilot-calibration-incomplete'')"
| "select_cpu_from engineering i (c # cs) =
     rbind (require (i < 3 \<and> cu_units c = CANDIDATES ! i) ''pilot-calibration-order'') (\<lambda>_.
     rbind (require (cu_complete c \<and> length (cu_samples c) = (if engineering then 3 else 21)) ''pilot-calibration-complete'') (\<lambda>_.
     rbind (nearest_rank (cu_samples c) (1 / 2)) (\<lambda>median.
     if 1 \<le> median \<or> i = 2
     then rbind (require (cs = []) ''pilot-calibration-first-candidate'') (\<lambda>_.
          Inr \<lparr>cc_units = CANDIDATES ! i, cc_median = median, cc_limited = (median < 1)\<rparr>)
     else select_cpu_from engineering (Suc i) cs)))"

definition select_cpu :: "bool \<Rightarrow> cpu_candidate list \<Rightarrow> cpu_choice res" where
  "select_cpu engineering candidates = select_cpu_from engineering 0 candidates"

section \<open>The campaign loop\<close>

text \<open>What the loop does not control: the initial measurements before a repeat, the time spent so far at each
  position, the calibration check, and running a cell.\<close>

record campaign_world =
  ca_initial :: "run_cell \<Rightarrow> (string \<times> rat) list \<Rightarrow> (string \<times> rat) list res"
  ca_elapsed :: "nat \<Rightarrow> rat"
  ca_verify :: "unit res"
  ca_pilot :: "run_cell \<Rightarrow> unit res"

datatype loop_end = AllDone | Carried carried | Raised exn

definition cell_admission :: "rat \<Rightarrow> admission" where
  "cell_admission elapsed = \<lparr>ad_calibration = False, ad_elapsed = elapsed, ad_setup = False, ad_reservation = CEILING, ad_remaining = 259200\<rparr>"

definition run_cell :: "campaign_world \<Rightarrow> bool \<Rightarrow> run_cell \<Rightarrow> unit res" where
  "run_cell w engineering c =
     rbind (if fst c = ''cpu'' \<and> \<not> engineering \<and> snd c = 0 then ca_verify w else Inr ()) (\<lambda>_. ca_pilot w c)"

fun run_cells ::
  "campaign_world \<Rightarrow> bool \<Rightarrow> string \<Rightarrow> nat \<Rightarrow> run_cell list \<Rightarrow> (string \<times> rat) list \<Rightarrow> run_cell list \<Rightarrow> run_cell list \<times> loop_end" where
  "run_cells w engineering name position [] initials completed = (completed, AllDone)"
| "run_cells w engineering name position (c # rest) initials completed =
     (case (if snd c \<noteq> 0 then ca_initial w c initials else Inr initials) of
        Inl e \<Rightarrow> (completed, Raised e)
      | Inr initials' \<Rightarrow>
          (case (if engineering then Inr 0 else admit [c] initials' (cell_admission (ca_elapsed w position))) of
             Inl e \<Rightarrow>
               if e = ValueError ''K3 guard: pilot-job-fit'' \<and> position \<noteq> 0
               then (case carry_over name (c # rest) ''pilot-job-fit'' False of
                       Inl e' \<Rightarrow> (completed, Raised e') | Inr k \<Rightarrow> (completed, Carried k))
               else (completed, Raised e)
           | Inr _ \<Rightarrow>
               (case run_cell w engineering c of
                  Inl e \<Rightarrow> (completed, Raised e)
                | Inr _ \<Rightarrow> run_cells w engineering name (Suc position) rest initials' (completed @ [c]))))"

definition live_charge :: "json \<Rightarrow> json \<Rightarrow> bool \<Rightarrow> int \<Rightarrow> int" where
  "live_charge status elapsed started reservation =
     (if \<not> started then 1
      else case elapsed of
        JInt n \<Rightarrow> if status = JStr ''PASS'' \<and> 0 < n \<and> n \<le> reservation then n else reservation
      | _ \<Rightarrow> reservation)"

section \<open>Planning a job\<close>

text \<open>A job that was refused before it started anything. \<open>layout\<close> are the names below the directory of its artifact,
  each with whether it is a directory or a link; \<open>hashes\<close> are the digests of its files and \<open>commands\<close> the decoded
  command log, \<open>None\<close> when it cannot be read.\<close>

definition planned_cell :: "json \<Rightarrow> bool" where
  "planned_cell c = (case c of
     JArr [JStr arm, JInt i] \<Rightarrow> arm \<in> {''short'', ''medium'', ''long'', ''cpu''} \<and> 0 \<le> i \<and> i \<le> 3
   | _ \<Rightarrow> False)"

definition unperformed_row :: "json \<Rightarrow> json \<Rightarrow> bool" where
  "unperformed_row row' c = (case (row', c) of
     (JObj d, JArr [JStr arm, JInt i]) \<Rightarrow>
       map_of d ''started'' = Some (JBool False) \<and> map_of d ''arm'' = Some (JStr arm) \<and> map_of d ''index'' = Some (JInt i)
   | _ \<Rightarrow> False)"

definition refused_cleanup :: "json option \<Rightarrow> bool" where
  "refused_cleanup v = (case v of
     Some (JObj d) \<Rightarrow> fst ` set d = {''status'', ''no_resources_started'', ''elapsed_live_seconds''} \<and> map_of d ''status'' = Some (JStr ''PASS'') \<and>
       map_of d ''no_resources_started'' = Some (JBool True) \<and> map_of d ''elapsed_live_seconds'' = Some (JInt 0)
   | _ \<Rightarrow> False)"

definition git_command :: "json \<Rightarrow> bool" where
  "git_command c = (case c of
     JObj d \<Rightarrow> (case map_of d ''args'' of
         Some (JArr (JStr a # as)) \<Rightarrow> a = ''git'' \<and> list_all (\<lambda>x. as_str x \<noteq> None) as
       | _ \<Rightarrow> False)
   | _ \<Rightarrow> False)"

definition pre_start_refusal :: "(string \<times> bool) list \<Rightarrow> json \<Rightarrow> json list option \<Rightarrow> dict \<Rightarrow> bool" where
  "pre_start_refusal layout hashes commands manifest \<longleftrightarrow>
     map_of manifest ''status'' = Some (JStr ''FAIL'') \<and> refused_cleanup (map_of manifest ''cleanup'') \<and>
     map_of manifest ''elapsed_live_seconds'' = Some (JInt 0) \<and> map_of manifest ''charged_seconds'' = Some (JInt 1) \<and>
     map_of manifest ''completed'' = Some (JArr []) \<and>
     (case (map_of manifest ''planned'', map_of manifest ''unperformed'') of
        (Some (JArr planned), Some (JArr unperformed)) \<Rightarrow>
          planned \<noteq> [] \<and> list_all planned_cell planned \<and> distinct planned \<and> length unperformed = length planned \<and>
          list_all2 unperformed_row unperformed planned
      | _ \<Rightarrow> False) \<and>
     \<not> list_ex (\<lambda>(name, special). special \<or> infix_of ''calibration'' name \<or> infix_of ''seal'' name) layout \<and>
     (case map_of manifest ''artifact_sha256'' of Some v \<Rightarrow> py_eq v hashes | None \<Rightarrow> False) \<and>
     (case commands of Some cs \<Rightarrow> cs \<noteq> [] \<and> list_all git_command cs | None \<Rightarrow> False)"

record pilot_artifact =
  pa_job :: string
  pa_status :: string
  pa_cleanup :: string
  pa_carry :: "carried option"
  pa_completed :: "run_cell list"
  pa_refused :: bool

definition carried_cells :: "string \<Rightarrow> string \<Rightarrow> pilot_artifact list \<Rightarrow> run_cell list res" where
  "carried_cells base name available =
     (let prior = filter (\<lambda>m. map_option cy_job (pa_carry m) = Some name) available in
      rbind (require (length prior = 1) ''pilot-carry-predecessor'') (\<lambda>_.
      let m = hd prior; k = the (pa_carry m) in
      rbind (require (pa_status m = ''CARRY_OVER'' \<and> pa_cleanup m = ''PASS'' \<and> cy_reason k = ''pilot-job-fit'' \<and> \<not> cy_started k)
         ''pilot-carry-predecessor-safe'') (\<lambda>_.
      rbind (require (cy_cells k \<noteq> [] \<and>
           cy_cells k = drop (length (the (map_of JOBS base)) - length (cy_cells k)) (the (map_of JOBS base))) ''pilot-carry-order'') (\<lambda>_.
      Inr (cy_cells k)))))"

definition missing_initials :: "run_cell list \<Rightarrow> string list" where
  "missing_initials pending = remdups (map fst (filter (\<lambda>(a, i). 0 < i \<and> (a, 0) \<notin> set pending) pending))"

text \<open>\<open>pa_refused\<close> is the verdict of \<^const>\<open>pre_start_refusal\<close> on the artifact;
  \<open>initial_of\<close> is \<^verbatim>\<open>initial_dependency\<close> on the artifact that has the initial run of an arm.\<close>

definition dependency_plan ::
  "(pilot_artifact \<Rightarrow> string \<Rightarrow> rat res) \<Rightarrow> pilot_artifact list \<Rightarrow> string \<Rightarrow> (run_cell list \<times> (string \<times> rat) list) res" where
  "dependency_plan initial_of available name =
     rbind (job_base name) (\<lambda>base.
     rbind (if infix_of ''-c'' name then carried_cells base name available else Inr (the (map_of JOBS base))) (\<lambda>pending.
     let previous = filter (\<lambda>m. pa_job m = name) available in
     rbind (require (list_all pa_refused previous) ''pilot-no-replay-job'') (\<lambda>_.
     rbind (require (length previous < 3) ''pilot-pre-start-replay-limit'') (\<lambda>_.
     rbind (mapR (\<lambda>arm.
         let matches = filter (\<lambda>m. (arm, 0) \<in> set (pa_completed m)) available in
         rbind (require (length matches = 1) ''pilot-cross-job-initial-required'') (\<lambda>_.
         rbind (initial_of (hd matches) arm) (\<lambda>r. Inr (arm, r)))) (missing_initials pending)) (\<lambda>initials.
     Inr (pending, initials))))))"

section \<open>Nearest ranks\<close>

lemma sorted_below: "sorted xs \<Longrightarrow> k < length xs \<Longrightarrow> length (filter (\<lambda>x. x < xs ! k) xs) \<le> k" for xs :: "rat list"
proof -
  assume s: "sorted xs" and k: "k < length xs"
  have "filter (\<lambda>x. x < xs ! k) (drop k xs) = []"
    using s k by (auto simp: filter_empty_conv in_set_conv_nth not_less intro!: sorted_nth_mono)
  then have "filter (\<lambda>x. x < xs ! k) xs = filter (\<lambda>x. x < xs ! k) (take k xs)"
    by (metis append.right_neutral append_take_drop_id filter_append)
  then show ?thesis by (metis k length_filter_le length_take less_imp_le min.absorb2)
qed

lemma sorted_upto: "sorted xs \<Longrightarrow> k < length xs \<Longrightarrow> Suc k \<le> length (filter (\<lambda>x. x \<le> xs ! k) xs)" for xs :: "rat list"
proof -
  assume s: "sorted xs" and k: "k < length xs"
  have "filter (\<lambda>x. x \<le> xs ! k) (take (Suc k) xs) = take (Suc k) xs"
    using s k by (auto simp: filter_id_conv in_set_conv_nth intro!: sorted_nth_mono)
  moreover have "length (filter (\<lambda>x. x \<le> xs ! k) (take (Suc k) xs)) \<le> length (filter (\<lambda>x. x \<le> xs ! k) xs)"
    by (metis append_take_drop_id filter_append length_append le_add1)
  ultimately show ?thesis using k by simp
qed

lemma filter_sort_length: "length (filter P (sort xs)) = length (filter P xs)"
  by (simp add: filter_sort)

lemma finite_values: "mapR (\<lambda>x. finite_value x l True) xs = Inr ys \<Longrightarrow> ys = xs"
  by (induction xs arbitrary: ys) (auto simp: finite_value_def res_simps)

text \<open>A quantile is the nearest rank: a value of the sample such that at least the fraction \<open>q\<close> of the sample is at
  most that value, and less than the fraction \<open>q\<close> is below it.\<close>

theorem nearest_rank_spec:
  assumes "nearest_rank xs q = Inr v"
  shows "v \<in> set xs \<and> q * of_nat (length xs) \<le> of_nat (length (filter (\<lambda>x. x \<le> v) xs)) \<and>
    of_nat (length (filter (\<lambda>x. x < v) xs)) < q * of_nat (length xs)"
proof -
  have ne: "xs \<noteq> []" and q: "0 < q" "q \<le> 1" and v: "v = sort xs ! nat (\<lceil>q * of_nat (length xs)\<rceil> - 1)"
    using assms by (auto simp: nearest_rank_def res_simps dest!: finite_values)
  define c where "c = \<lceil>q * of_nat (length xs)\<rceil>"
  have "0 < q * of_nat (length xs)" using q ne by simp
  moreover have "q * of_nat (length xs) \<le> of_nat (length xs)" using q by (simp add: mult_left_le_one_le)
  ultimately have c: "1 \<le> c" "c \<le> int (length xs)" unfolding c_def by (simp_all add: ceiling_le_iff less_ceiling_iff)
  define k where "k = nat (c - 1)"
  have k: "k < length xs" "of_nat (Suc k) = (of_int c :: rat)" using c by (auto simp: k_def of_nat_nat)
  have "q * of_nat (length xs) \<le> of_nat (Suc k)" unfolding k(2) c_def by simp
  moreover have "of_nat k < q * of_nat (length xs)"
    using ceiling_correct [of "q * of_nat (length xs)"] k(2) unfolding c_def by simp
  moreover have "length (filter (\<lambda>x. x < v) xs) \<le> k" "Suc k \<le> length (filter (\<lambda>x. x \<le> v) xs)" "v \<in> set xs"
    using sorted_below [of "sort xs" k] sorted_upto [of "sort xs" k] k(1) nth_mem [of k "sort xs"] v
    by (auto simp: k_def c_def filter_sort_length)
  ultimately show ?thesis by (metis le_less_trans of_nat_le_iff order_trans)
qed

section \<open>Carrying cells over\<close>

lemma show_nat_hd: "0 < n \<Longrightarrow> hd (show_nat n) \<noteq> CHR ''0''"
proof (induction n rule: show_nat.induct)
  case (1 n)
  have zero: "digit_val CHR ''0'' = 0" by (simp add: digit_val_def)
  have small: "digit_char m \<noteq> CHR ''0''" if "0 < m" "m < 10" for m
    using that digit_char_props(2) [of m] zero by (intro notI) simp
  show ?case
  proof (cases "n < 10")
    case True
    then show ?thesis using small 1(2) by (simp add: show_nat.simps [of n])
  next
    case False
    then have "0 < n div 10" by simp
    then show ?thesis using 1(1) False by (simp add: show_nat.simps [of n])
  qed
qed

lemma carry_number_show: "carry_number (show_nat (Suc n))"
  using show_nat_hd [of "Suc n"] show_nat_digits [of _ "Suc n"] by (auto simp: carry_number_def list_all_iff)

lemma named_after_carry:
  assumes "carry_number d" and "b \<in> fst ` set JOBS" and "b' \<in> fst ` set JOBS"
  shows "named_after (b @ ''-c'' @ d) b' \<longleftrightarrow> b' = b"
  using assms by (auto simp: JOBS_def named_after_def)

lemma find_only: "x \<in> set xs \<Longrightarrow> (\<And>y. y \<in> set xs \<Longrightarrow> P y \<longleftrightarrow> y = x) \<Longrightarrow> find P xs = Some x"
  by (induction xs) auto

lemma job_base_Inr: "job_base name = Inr b \<Longrightarrow> b \<in> fst ` set JOBS \<and> named_after name b"
  by (auto simp: job_base_def find_Some_iff in_set_conv_nth split: option.splits) (metis image_eqI nth_mem)

lemma carry_over_Inr:
  assumes "carry_over name pending why started = Inr k"
  obtains b n where "job_base name = Inr b" "b \<in> fst ` set JOBS" "pending \<noteq> []" "cy_job k = b @ ''-c'' @ show_nat (Suc n)"
    "job_base (cy_job k) = Inr b" "cy_cells k = pending" "cy_reason k = ''pilot-job-fit''" "\<not> cy_started k"
proof -
  obtain b where b: "job_base name = Inr b" "pending \<noteq> []" "why = ''pilot-job-fit''"
    "k = \<lparr>cy_job = b @ ''-c'' @ show_nat (Suc (if name = b then 0 else digits_val (drop (length b + 2) name))), cy_cells = pending, cy_reason = why, cy_started = False\<rparr>"
    using assms by (auto simp: carry_over_def res_simps Let_def simp del: show_nat.simps)
  have mem: "b \<in> fst ` set JOBS" using job_base_Inr [OF b(1)] by simp
  have "find (named_after (b @ ''-c'' @ show_nat (Suc n))) (map fst JOBS) = Some b" for n
    using mem named_after_carry [OF carry_number_show mem] by (intro find_only) auto
  then have "job_base (cy_job k) = Inr b" using b(4) by (simp add: job_base_def)
  then show thesis using b mem by (intro that) auto
qed

lemma admit_fits: "admit cells initials a = Inr n \<Longrightarrow> ad_elapsed a + of_int n \<le> of_int CEILING"
  by (auto simp: admit_def finite_value_def res_simps)

lemma run_cells_step:
  assumes "run_cells w engineering name position (c # rest) initials completed = (done', e)"
  obtains (stop) x where "done' = completed" "e = Raised x"
    | (carry) k where "done' = completed" "e = Carried k" "position \<noteq> 0" "carry_over name (c # rest) ''pilot-job-fit'' False = Inr k"
    | (go) ini n where "run_cells w engineering name (Suc position) rest ini (completed @ [c]) = (done', e)"
        "engineering \<or> admit [c] ini (cell_admission (ca_elapsed w position)) = Inr n"
proof (cases "if snd c \<noteq> 0 then ca_initial w c initials else Inr initials")
  case (Inl x)
  show thesis by (rule stop [of x]) (use assms Inl in auto)
next
  case i: (Inr ini)
  show thesis
  proof (cases "if engineering then Inr 0 else admit [c] ini (cell_admission (ca_elapsed w position))")
    case a: (Inl x)
    show thesis
    proof (cases "x = ValueError ''K3 guard: pilot-job-fit'' \<and> position \<noteq> 0")
      case False
      show thesis by (rule stop [of x]) (use assms i a False in auto)
    next
      case True
      show thesis
      proof (cases "carry_over name (c # rest) ''pilot-job-fit'' False")
        case (Inl y)
        show thesis by (rule stop [of y]) (use assms i a True Inl in auto)
      next
        case (Inr k)
        show thesis by (rule carry [of k]) (use assms i a True Inr in auto)
      qed
    qed
  next
    case a: (Inr n)
    show thesis
    proof (cases "run_cell w engineering c")
      case (Inl y)
      show thesis by (rule stop [of y]) (use assms i a Inl in auto)
    next
      case (Inr u)
      show thesis by (rule go [of ini n]) (use assms i a Inr in \<open>auto split: if_splits\<close>)
    qed
  qed
qed

lemma run_cells_conserve:
  assumes "run_cells w engineering name (length completed) pending initials completed = (done', e)"
  shows "\<exists>ran rest. done' = completed @ ran \<and> pending = ran @ rest \<and>
    (case e of AllDone \<Rightarrow> rest = []
     | Carried k \<Rightarrow> rest \<noteq> [] \<and> done' \<noteq> [] \<and> cy_cells k = rest \<and> carry_over name rest ''pilot-job-fit'' False = Inr k
     | Raised _ \<Rightarrow> rest \<noteq> []) \<and>
    (\<not> engineering \<longrightarrow> (\<forall>i<length ran. \<exists>n. ca_elapsed w (length completed + i) + of_int n \<le> of_int CEILING \<and>
       (\<exists>ini. admit [ran ! i] ini (cell_admission (ca_elapsed w (length completed + i))) = Inr n)))"
  using assms
proof (induction pending arbitrary: initials completed)
  case (Cons c rest)
  from Cons.prems show ?case
  proof (cases rule: run_cells_step)
    case stop
    then show ?thesis by (intro exI [where x = "[]" and P = "\<lambda>r. \<exists>s. _ r s"] exI [of _ "c # rest"] conjI) simp_all
  next
    case carry
    then show ?thesis by (intro exI [where x = "[]" and P = "\<lambda>r. \<exists>s. _ r s"] exI [of _ "c # rest"] conjI) (auto elim: carry_over_Inr)
  next
    case (go ini n)
    have "run_cells w engineering name (length (completed @ [c])) rest ini (completed @ [c]) = (done', e)" using go(1) by simp
    from Cons.IH [OF this] obtain ran rest' where ih: "done' = (completed @ [c]) @ ran" "rest = ran @ rest'"
      "case e of AllDone \<Rightarrow> rest' = []
       | Carried k \<Rightarrow> rest' \<noteq> [] \<and> done' \<noteq> [] \<and> cy_cells k = rest' \<and> carry_over name rest' ''pilot-job-fit'' False = Inr k
       | Raised _ \<Rightarrow> rest' \<noteq> []"
      "\<not> engineering \<longrightarrow> (\<forall>i<length ran. \<exists>n. ca_elapsed w (length (completed @ [c]) + i) + of_int n \<le> of_int CEILING \<and>
         (\<exists>ini. admit [ran ! i] ini (cell_admission (ca_elapsed w (length (completed @ [c]) + i))) = Inr n))"
      by blast
    have "\<not> engineering \<longrightarrow> (\<forall>i<length (c # ran). \<exists>n. ca_elapsed w (length completed + i) + of_int n \<le> of_int CEILING \<and>
         (\<exists>ini. admit [(c # ran) ! i] ini (cell_admission (ca_elapsed w (length completed + i))) = Inr n))"
    proof (intro impI allI)
      fix i assume "\<not> engineering" "i < length (c # ran)"
      then show "\<exists>n. ca_elapsed w (length completed + i) + of_int n \<le> of_int CEILING \<and>
         (\<exists>ini. admit [(c # ran) ! i] ini (cell_admission (ca_elapsed w (length completed + i))) = Inr n)"
        using ih(4) go(2) admit_fits [of "[c]" ini "cell_admission (ca_elapsed w (length completed))" n]
        by (cases i) (auto simp: cell_admission_def)
    qed
    then show ?thesis using ih(1-3) by (intro exI [of _ "c # ran"] exI [of _ rest']) simp
  qed
qed simp

lemma carried_cells_Inr:
  "carried_cells b name available = Inr cells \<Longrightarrow> \<exists>pre. the (map_of JOBS b) = pre @ cells"
  by (auto simp: carried_cells_def Let_def res_simps) (metis append_take_drop_id)

lemma dependency_plan_Inr:
  assumes "dependency_plan initial_of available name = Inr (pending, initials)"
  obtains b pre where "job_base name = Inr b" "the (map_of JOBS b) = pre @ pending"
proof -
  obtain b where b: "job_base name = Inr b"
    "(if infix_of ''-c'' name then carried_cells b name available else Inr (the (map_of JOBS b))) = Inr pending"
    using assms by (auto simp: dependency_plan_def Let_def res_simps simp del: if_split)
  then have "\<exists>pre. the (map_of JOBS b) = pre @ pending"
    by (cases "infix_of ''-c'' name") (auto intro: carried_cells_Inr exI [of _ "[]"])
  then show thesis using b(1) that by blast
qed

lemma infix_carry: "infix_of ''-c'' (b @ ''-c'' @ d)"
  by (induction b) (auto split: list.split)

text \<open>What the plan of the successor requires of the evidence besides the one artifact that names it.\<close>

definition successor_ready :: "(pilot_artifact \<Rightarrow> string \<Rightarrow> rat res) \<Rightarrow> pilot_artifact list \<Rightarrow> pilot_artifact \<Rightarrow> carried \<Rightarrow> bool" where
  "successor_ready initial_of later m k \<longleftrightarrow>
     pa_status m = ''CARRY_OVER'' \<and> pa_cleanup m = ''PASS'' \<and>
     (let earlier = filter (\<lambda>a. pa_job a = cy_job k) later in list_all pa_refused earlier \<and> length earlier < 3) \<and>
     (\<forall>arm\<in>set (missing_initials (cy_cells k)).
        \<exists>a r. filter (\<lambda>a. (arm, 0) \<in> set (pa_completed a)) later = [a] \<and> initial_of a arm = Inr r)"

lemma mapR_defined: "(\<exists>ys. mapR f xs = Inr ys) \<longleftrightarrow> (\<forall>x\<in>set xs. \<exists>y. f x = Inr y)"
  by (induction xs) (auto simp: res_simps)

lemma successor_plan:
  assumes "job_base (cy_job k) = Inr b" and "infix_of ''-c'' (cy_job k)"
    and "filter (\<lambda>a. map_option cy_job (pa_carry a) = Some (cy_job k)) later = [m]" and "pa_carry m = Some k"
    and "cy_reason k = ''pilot-job-fit''" and "\<not> cy_started k"
    and "cy_cells k \<noteq> []" and "the (map_of JOBS b) = pre @ cy_cells k"
  shows "(\<exists>ini. dependency_plan initial_of later (cy_job k) = Inr (cy_cells k, ini)) \<longleftrightarrow> successor_ready initial_of later m k"
    and "dependency_plan initial_of later (cy_job k) = Inr (cells, ini) \<Longrightarrow> cells = cy_cells k"
proof -
  let ?earlier = "filter (\<lambda>a. pa_job a = cy_job k) later"
  let ?initial = "\<lambda>arm. rbind (require (length (filter (\<lambda>m. (arm, 0) \<in> set (pa_completed m)) later) = 1) ''pilot-cross-job-initial-required'') (\<lambda>_.
      rbind (initial_of (hd (filter (\<lambda>m. (arm, 0) \<in> set (pa_completed m)) later)) arm) (\<lambda>r. Inr (arm, r)))"
  have safe: "carried_cells b (cy_job k) later = Inr cs \<longleftrightarrow>
      pa_status m = ''CARRY_OVER'' \<and> pa_cleanup m = ''PASS'' \<and> cs = cy_cells k" for cs
    using assms(3-) by (auto simp: carried_cells_def res_simps)
  have plan: "dependency_plan initial_of later (cy_job k) = Inr (cells, ini) \<longleftrightarrow>
      pa_status m = ''CARRY_OVER'' \<and> pa_cleanup m = ''PASS'' \<and> cells = cy_cells k \<and>
      list_all pa_refused ?earlier \<and> length ?earlier < 3 \<and> mapR ?initial (missing_initials (cy_cells k)) = Inr ini" for cells ini
    using assms(1,2) unfolding dependency_plan_def Let_def by (auto simp: safe res_simps)
  have "(\<exists>y. ?initial arm = Inr y) \<longleftrightarrow>
      (\<exists>a r. filter (\<lambda>a. (arm, 0) \<in> set (pa_completed a)) later = [a] \<and> initial_of a arm = Inr r)" for arm
    by (auto simp: res_simps length_Suc_conv)
  then show "(\<exists>ini. dependency_plan initial_of later (cy_job k) = Inr (cy_cells k, ini)) \<longleftrightarrow> successor_ready initial_of later m k"
    unfolding plan successor_ready_def Let_def by (simp add: mapR_defined)
  show "dependency_plan initial_of later (cy_job k) = Inr (cells, ini) \<Longrightarrow> cells = cy_cells k"
    by (simp add: plan)
qed

text \<open>C25. A campaign neither loses nor repeats a cell. The cells a job plans are a tail of its registered list; the loop
  performs a front part of them, each one admitted within the ceiling of the job. It ends with all of them performed; or
  carried over, with exactly the unperformed cells in the carry-over of the next job of the same base; or raised, and
  then nothing is carried over. When later evidence holds one artifact that names the next job, with this carry-over,
  the plan of the next job accepts no other cells than the unperformed ones, and it accepts them exactly when that
  artifact has the status \<open>CARRY_OVER\<close> and was cleaned up, fewer than three artifacts of the next job exist and all are
  refusals before the start, and each initial run it still needs is in exactly one artifact that yields its rate.\<close>

theorem campaign_conserves:
  assumes plan: "dependency_plan initial_of available name = Inr (pending, initials)"
    and run: "run_cells w False name 0 pending initials [] = (completed, e)"
  shows "\<exists>b pre rest. job_base name = Inr b \<and> the (map_of JOBS b) = pre @ pending \<and> pending = completed @ rest \<and>
    (\<forall>i<length completed. \<exists>n. ca_elapsed w i + of_int n \<le> of_int CEILING \<and>
       (\<exists>ini. admit [completed ! i] ini (cell_admission (ca_elapsed w i)) = Inr n)) \<and>
    (case e of AllDone \<Rightarrow> rest = [] | Raised _ \<Rightarrow> rest \<noteq> []
     | Carried k \<Rightarrow> completed \<noteq> [] \<and> rest \<noteq> [] \<and> cy_cells k = rest \<and> job_base (cy_job k) = Inr b \<and>
         (\<forall>later m initial_of'. filter (\<lambda>a. map_option cy_job (pa_carry a) = Some (cy_job k)) later = [m] \<and> pa_carry m = Some k \<longrightarrow>
            ((\<exists>ini. dependency_plan initial_of' later (cy_job k) = Inr (rest, ini)) \<longleftrightarrow> successor_ready initial_of' later m k) \<and>
            (\<forall>cells ini. dependency_plan initial_of' later (cy_job k) = Inr (cells, ini) \<longrightarrow> cells = rest)))"
proof -
  obtain b pre where b: "job_base name = Inr b" "the (map_of JOBS b) = pre @ pending" using dependency_plan_Inr [OF plan] .
  from run_cells_conserve [of w False name "[]" pending initials completed e] run
  obtain rest where r: "pending = completed @ rest"
    "case e of AllDone \<Rightarrow> rest = []
     | Carried k \<Rightarrow> rest \<noteq> [] \<and> completed \<noteq> [] \<and> cy_cells k = rest \<and> carry_over name rest ''pilot-job-fit'' False = Inr k
     | Raised _ \<Rightarrow> rest \<noteq> []"
    "\<forall>i<length completed. \<exists>n. ca_elapsed w i + of_int n \<le> of_int CEILING \<and>
       (\<exists>ini. admit [completed ! i] ini (cell_admission (ca_elapsed w i)) = Inr n)"
    by auto
  have next_job: "job_base (cy_job k) = Inr b \<and>
      (\<forall>later m initial_of'. filter (\<lambda>a. map_option cy_job (pa_carry a) = Some (cy_job k)) later = [m] \<and> pa_carry m = Some k \<longrightarrow>
            ((\<exists>ini. dependency_plan initial_of' later (cy_job k) = Inr (rest, ini)) \<longleftrightarrow> successor_ready initial_of' later m k) \<and>
            (\<forall>cells ini. dependency_plan initial_of' later (cy_job k) = Inr (cells, ini) \<longrightarrow> cells = rest))"
    if k: "carry_over name rest ''pilot-job-fit'' False = Inr k" for k
    using k
  proof (rule carry_over_Inr)
    fix b' n assume c: "job_base name = Inr b'" "rest \<noteq> []" "job_base (cy_job k) = Inr b'" "cy_cells k = rest"
      "cy_reason k = ''pilot-job-fit''" "\<not> cy_started k" "cy_job k = b' @ ''-c'' @ show_nat (Suc n)"
    have jobs: "the (map_of JOBS b) = (pre @ completed) @ cy_cells k" using b(2) r(1) c(4) by simp
    have base: "job_base (cy_job k) = Inr b" using b(1) c(1,3) by simp
    have inf: "infix_of ''-c'' (cy_job k)" unfolding c(7) by (rule infix_carry)
    have ne: "cy_cells k \<noteq> []" using c(2,4) by simp
    show ?thesis
      using base successor_plan [OF base inf _ _ c(5,6) ne jobs] unfolding c(4) by blast
  qed
  show ?thesis
    using b r next_job by (intro exI [of _ b] exI [of _ pre] exI [of _ rest] conjI) (auto split: loop_end.splits)
qed

text \<open>A charge is never more than the reservation, never less than one second, and the whole reservation unless the
  job passed.\<close>

theorem live_charge_bounds:
  assumes "1 \<le> reservation"
  shows "1 \<le> live_charge status elapsed started reservation \<and> live_charge status elapsed started reservation \<le> reservation \<and>
    (started \<and> status \<noteq> JStr ''PASS'' \<longrightarrow> live_charge status elapsed started reservation = reservation)"
  using assms by (auto simp: live_charge_def split: json.split)

definition late_world :: campaign_world where
  "late_world = \<lparr>ca_initial = (\<lambda>c ini. Inr ((''cpu'', 4) # ini)), ca_elapsed = (\<lambda>i. if i = 0 then 0 else 18000),
     ca_verify = Inr (), ca_pilot = (\<lambda>_. Inr ())\<rparr>"

lemma late_plan:
  "dependency_plan (\<lambda>_ _. Inr 4) [] ''k3-pilot-1b'' = Inr ([(''cpu'', 0), (''cpu'', 1), (''cpu'', 2), (''cpu'', 3)], [])"
  by code_simp

lemma late_run:
  "run_cells late_world False ''k3-pilot-1b'' 0 [(''cpu'', 0), (''cpu'', 1), (''cpu'', 2), (''cpu'', 3)] [] [] =
     ([(''cpu'', 0)], Carried \<lparr>cy_job = ''k3-pilot-1b-c1'', cy_cells = [(''cpu'', 1), (''cpu'', 2), (''cpu'', 3)],
        cy_reason = ''pilot-job-fit'', cy_started = False\<rparr>)"
  by code_simp

definition late_artifact :: pilot_artifact where
  "late_artifact = \<lparr>pa_job = ''k3-pilot-1b'', pa_status = ''CARRY_OVER'', pa_cleanup = ''PASS'',
     pa_carry = Some \<lparr>cy_job = ''k3-pilot-1b-c1'', cy_cells = [(''cpu'', 1), (''cpu'', 2), (''cpu'', 3)],
       cy_reason = ''pilot-job-fit'', cy_started = False\<rparr>, pa_completed = [(''cpu'', 0)], pa_refused = False\<rparr>"

theorem campaign_conserves_witness:
  "\<exists>b pre ini. the (map_of JOBS b) = pre @ [(''cpu'', 0), (''cpu'', 1), (''cpu'', 2), (''cpu'', 3)] \<and> job_base ''k3-pilot-1b-c1'' = Inr b \<and>
     dependency_plan (\<lambda>_ _. Inr 4) [late_artifact] ''k3-pilot-1b-c1'' = Inr ([(''cpu'', 1), (''cpu'', 2), (''cpu'', 3)], ini)"
proof -
  let ?k = "\<lparr>cy_job = ''k3-pilot-1b-c1'', cy_cells = [(''cpu'', 1), (''cpu'', 2), (''cpu'', 3)], cy_reason = ''pilot-job-fit'', cy_started = False\<rparr>"
  have one: "filter (\<lambda>a. map_option cy_job (pa_carry a) = Some (cy_job ?k)) [late_artifact] = [late_artifact]" "pa_carry late_artifact = Some ?k"
    by (simp_all add: late_artifact_def)
  have "successor_ready (\<lambda>_ _. Inr 4) [late_artifact] late_artifact ?k"
    by (simp add: successor_ready_def late_artifact_def missing_initials_def)
  with campaign_conserves [OF late_plan late_run] one show ?thesis by fastforce
qed

end
