(* ===== verification/Spec2Isabelle.thy ===== *)
theory Spec2Isabelle
  imports Partition Registry Redaction Mcp Workflow_Runs Spend_Ledger Kafka_Worker Fault_Proxy
    Artifacts Source_Corpus K3_Policy Scorer Study_Database Live_Provider Evaluation
    Luna_Provider Safe_Extract Window_Check Task_Ledger Pilot
begin

text \<open>
  A verification library for the Python side of the durable workflow engine: its workers, its incident
  agent, its studies and its fault harness, all under \<^verbatim>\<open>src/python/\<close> and \<^verbatim>\<open>src/scripts/\<close>.

  \<^bold>\<open>The program.\<close> A control API assigns workflows to sixteen partitions. Workers read deliveries of
  their partitions from Kafka, claim and run registered activities under a bounded executor, send
  heartbeats and results over HTTP with retries, and drain on shutdown. The incident agent investigates an
  incident through a bounded tool server, lets a model propose a remediation, waits for an approval and
  applies the effect at most once, keeping everything in a durable store. Its studies spend money under a
  ledger, keep write-once artifacts, build labelled cases from a seed and score a held-out split exactly
  once. The fault harness stops a target process at named boundaries and records what happened.

  \<^bold>\<open>Common ground.\<close> \<open>Prelude\<close> has Python values, results that may raise, state computations whose
  mutations survive a \<^verbatim>\<open>raise\<close>, dictionaries as association lists, string operations, and the two contracts
  that several components share as locales: \<open>append_log\<close> (numbered append-only logs) and \<open>write_once\<close> (stores
  that refuse to bind a key twice). \<open>Py_Json\<close> is access to decoded documents with the exceptions of wrong
  types. \<open>Sha256\<close> is the hash itself, computed.

  \<^bold>\<open>Workers.\<close>
  \<^item> \<open>Partition\<close>: \<^verbatim>\<open>durable_contracts/partition.py\<close>. The partition function is total and in range.
  \<^item> \<open>Registry\<close>: \<^verbatim>\<open>workers/registry.py\<close>. Registered activities stay as registered; the manifest names them.
  \<^item> \<open>Lifecycle\<close>: \<^verbatim>\<open>workers/lifecycle.py\<close> and the drain of \<^verbatim>\<open>workers/__main__.py\<close>. A drain is final, ends within
    its bound with what its two readings saw, and the executor never exceeds its capacity under any interleaving.
  \<^item> \<open>Witness\<close>: \<^verbatim>\<open>workers/witness.py\<close>. The inventory says complete exactly when every line was written.
  \<^item> \<open>Control\<close>, \<open>Retrying_Control\<close>: \<^verbatim>\<open>workers/control.py\<close> and the retrying client of \<^verbatim>\<open>workers/kafka_worker.py\<close>. How
    HTTP outcomes are classified, that retries end and repeat the same request, and what a draining worker
    does not send.
  \<^item> \<open>Runner\<close>: \<^verbatim>\<open>workers/runner.py\<close>. The requests of one task and the errors it may end with.
  \<^item> \<open>Kafka_Worker\<close>: \<^verbatim>\<open>workers/kafka_worker.py\<close>. Offsets are committed only after the API answered and only for
    the own partition, by a slot with an assignment never after a rebalance; slots and executor fit together.

  \<^bold>\<open>Incident agent.\<close>
  \<^item> \<open>Redaction\<close>: \<^verbatim>\<open>incident_agent/redaction.py\<close> over a model of the backtracking matcher.
  \<^item> \<open>Mcp\<close>: \<^verbatim>\<open>models.py\<close>, \<^verbatim>\<open>mcp.py\<close> and the result encoding of \<^verbatim>\<open>mcp_protocol.py\<close>. Budgets and audit log of tool calls.
  \<^item> \<open>Workflow\<close>, \<open>Workflow_Safety\<close>, \<open>Workflow_Runs\<close>: \<^verbatim>\<open>workflow.py\<close>. The durable store, the approval gate and the
    effect; safety over all reachable states with a crash possible at every commit; complete runs.
  \<^item> \<open>Live_Provider\<close>: \<^verbatim>\<open>openai_provider.py\<close>. Accounting of a live model call, and the reservation it releases twice.
  \<^item> \<open>Source_Corpus\<close>: \<^verbatim>\<open>source_corpus.py\<close>. Loading and reading back the fixture tables.

  \<^bold>\<open>Studies.\<close>
  \<^item> \<open>Spend_Ledger\<close>: \<^verbatim>\<open>dur055_budget.py\<close> and \<^verbatim>\<open>dur056_budget.py\<close>. The caps hold and the books balance.
  \<^item> \<open>Artifacts\<close>: \<^verbatim>\<open>dur056_artifacts.py\<close>. Write-once units and atomic markers under every disk outcome.
  \<^item> \<open>Fixtures\<close>, \<open>Fixture_Oracle\<close>, \<open>Fixture_Labels\<close>: \<^verbatim>\<open>dur056_fixtures.py\<close>. The generated labels are what the
    structural oracle reads from the whole corpus, for every random stream.
  \<^item> \<open>Scorer\<close>: the receipt, the frozen context, the unit plan and \<^verbatim>\<open>OneShotScorer\<close> of \<^verbatim>\<open>dur056_scorer.py\<close>. Units are
    scored once over any sequence of runs, a returned run is complete, a complete study is final.
  \<^item> \<open>Retrieval\<close>: \<^verbatim>\<open>retrieval.py\<close>, and the rank fusion, search adapter and threshold choice of \<^verbatim>\<open>dur056_retrieval.py\<close>.
    Fusion, computed in floats, implements its specification, a search delivers what its gate allows, and the threshold is optimal.
  \<^item> \<open>Study_Database\<close>: the tables, the embedding client and the ranking queries of \<^verbatim>\<open>dur056_retrieval.py\<close>. Searches
    keep to the allowed splits, embeddings are complete and never overwritten, and a reservation stays open only after an \<^verbatim>\<open>OverflowError\<close>.
  \<^item> \<open>Reservations\<close>: the contract of a ledger that the paid clients rely on, as the locale \<open>paid_calls\<close>, interpreted on
    both ledgers, and the errors of reading decoded answers.
  \<^item> \<open>Decision_Provider\<close>: \<^verbatim>\<open>dur056_agent.py\<close>. Each decision call accounts for its reservations within its bounded retries; one
    stays open only after an exception that its handler does not catch, an answer that is no object for instance.
  \<^item> \<open>Luna_Provider\<close>: \<^verbatim>\<open>dur055_agent.py\<close>. The provider of the first study over the ledger of that study; which ends of
    a call leave a reservation open.
  \<^item> \<open>Evaluation\<close>: \<^verbatim>\<open>dur056_evaluation.py\<close>. A row tells the truth about the store it was run on, the chosen candidate
    is the best, and the analysis of a report agrees with the evaluation that wrote it.
  \<^item> \<open>K3_Policy\<close>: \<^verbatim>\<open>scripts/dur053_k3_policy.py\<close>. What an accepted deployment package and an accepted job satisfy.

  \<^bold>\<open>Campaign scripts.\<close>
  \<^item> \<open>Pilot\<close>: \<^verbatim>\<open>scripts/dur053_pilot.py\<close>, the loop of \<^verbatim>\<open>dur053_campaign.py\<close> and the planning of \<^verbatim>\<open>dur053_pilot_evidence.py\<close>.
    Quantiles are nearest ranks, admitted cells fit their job, and no cell is lost or repeated over carried jobs.
  \<^item> \<open>Task_Ledger\<close>: \<^verbatim>\<open>scripts/dur050-cost-ledger.py\<close>. A passed check covers every instant of the next paid block.
  \<^item> \<open>Window_Check\<close>: \<^verbatim>\<open>scripts/dur050-reconcile-window.py\<close>. The check passes exactly on consistent evidence.
  \<^item> \<open>Safe_Extract\<close>: \<^verbatim>\<open>scripts/dur050-safe-extract.py\<close>. Extraction is all or nothing and stays below its destination;
    names with a dot segment evade the check for one top-level directory.

  \<^bold>\<open>Fault harness.\<close> \<open>Fault_Control\<close>: \<^verbatim>\<open>faults/control.py\<close>, \<^verbatim>\<open>faults/client.py\<close>; \<open>Fault_Proxy\<close>: \<^verbatim>\<open>faults/proxy.py\<close>,
  \<^verbatim>\<open>faults/fixtures.py\<close>, \<^verbatim>\<open>faults/target.py\<close>. Reported outcomes have their evidence in the trace; the failpoint
  handshake reaches the target; the proxy accounts for what it delivered.

  \<^bold>\<open>Style of the models.\<close> Objects that a method mutates are records passed through state computations; threads
  are step relations that interleave; what the program does not control (network, disk, clock, model,
  scheduler, random numbers, JSON decoder) is an argument, universally quantified in the theorems. Numbers that
  the code keeps in floats or decimals are rationals, with the code's roundings written out. The fused scores of
  \<open>Retrieval\<close> are rounded to doubles after every quotient and sum, and the decimals of \<open>Task_Ledger\<close> to 28 digits after
  every operation and to six places where they are reported (\<open>double\<close> and \<open>round_sig\<close> of \<open>Prelude\<close>, with unbounded
  exponents); the other ones (clocks, latencies, ratios of counts, the dollars of the spend ledgers between their
  roundings to eight places) are exact. A
  string is a list of code points below 256, except for workflow IDs.

  \<^bold>\<open>Bounds.\<close> The drain loop is given 601 rounds: its deadline is at most thirty seconds away and a round
  sleeps a twentieth of a second. A control call of a worker is given twelve rounds: its back-off doubles from
  a tenth of a second to five within thirty seconds. The theorems state that these suffice. All other loops
  are structural.

  \<^bold>\<open>Not modelled.\<close> The float rounding of evaluation metrics and thresholds, which are rationals here, and their printed
  form; the study runners (\<^verbatim>\<open>dur055.py\<close>, \<^verbatim>\<open>dur055_retrieval.py\<close>, \<^verbatim>\<open>dur055_heldout.py\<close>, \<^verbatim>\<open>dur056.py\<close>, \<^verbatim>\<open>continuity.py\<close>, \<^verbatim>\<open>evaluation.py\<close>),
  which drive remote services and databases and print reports; the Kubernetes drivers under
  \<^verbatim>\<open>scripts/\<close>, which run \<^verbatim>\<open>kubectl\<close> and \<^verbatim>\<open>docker\<close>, and the parts of the pilot scripts that re-read whole artifact
  directories; the reporting scripts; and the command lines.
\<close>

end
